(* ===== verification/Prelude.thy ===== *)
theory Prelude
  imports Complex_Main "HOL-Library.AList" "HOL-Library.Sublist"
begin

text \<open>
  What every component shares: Python strings as lists of code points, the exceptions the code
  raises, insertion-ordered dictionaries as association lists, and naive UTC timestamps.
  A Python \<open>str\<close> is the list of its code points (\<open>pystr\<close>), so the Chinese messages of the
  source are exact values, and lengths and slices count what Python counts. \<open>str ''abc''\<close> is
  the literal. Timestamps and time differences are integers counting microseconds, the
  resolution of \<open>datetime\<close>.
\<close>

named_theorems pystr_defs \<open>definitions of the string helpers\<close>
named_theorems dict_simps \<open>lookups in insertion-ordered dictionaries\<close>

section \<open>Strings\<close>

type_synonym pystr = "nat list"

definition str :: "string \<Rightarrow> pystr" where
  "str s = map of_char s"

text \<open>\<open>str.isspace\<close> of a single code point (Unicode White_Space plus the separators U+001C-U+001F).\<close>

definition is_space :: "nat \<Rightarrow> bool" where
  "is_space c \<longleftrightarrow> (9 \<le> c \<and> c \<le> 13) \<or> (28 \<le> c \<and> c \<le> 32) \<or> c = 0x85 \<or> c = 0xA0 \<or> c = 0x1680
     \<or> (0x2000 \<le> c \<and> c \<le> 0x200A) \<or> c = 0x2028 \<or> c = 0x2029 \<or> c = 0x202F \<or> c = 0x205F \<or> c = 0x3000"

definition lstrip :: "pystr \<Rightarrow> pystr" where
  "lstrip s = dropWhile is_space s"

definition rstrip :: "pystr \<Rightarrow> pystr" where
  "rstrip s = rev (dropWhile is_space (rev s))"

definition strip :: "pystr \<Rightarrow> pystr" where
  "strip s = rstrip (lstrip s)"

text \<open>Splitting at every separator, keeping the empty pieces (\<open>re.split\<close> on a character class,
  \<open>str.split\<close> on a one-character separator), and \<open>sep.join\<close>.\<close>

fun split_on :: "(nat \<Rightarrow> bool) \<Rightarrow> pystr \<Rightarrow> pystr list" where
  "split_on p [] = [[]]"
| "split_on p (c # cs) =
     (if p c then [] # split_on p cs
      else (case split_on p cs of [] \<Rightarrow> [[c]] | w # ws \<Rightarrow> (c # w) # ws))"

fun join :: "pystr \<Rightarrow> pystr list \<Rightarrow> pystr" where
  "join sep [] = []"
| "join sep [x] = x"
| "join sep (x # y # ys) = x @ sep @ join sep (y # ys)"

definition startswith :: "pystr \<Rightarrow> pystr \<Rightarrow> bool" where
  "startswith s p \<longleftrightarrow> prefix p s"

definition endswith :: "pystr \<Rightarrow> pystr \<Rightarrow> bool" where
  "endswith s p \<longleftrightarrow> suffix p s"

text \<open>\<open>str.upper\<close>; the table of the code points above 127 is a parameter.\<close>

definition str_upper :: "(nat \<Rightarrow> pystr) \<Rightarrow> pystr \<Rightarrow> pystr" where
  "str_upper upper_table s =
     concat (map (\<lambda>c. if 97 \<le> c \<and> c \<le> 122 then [c - 32] else if c < 128 then [c] else upper_table c) s)"

text \<open>\<open>str(n)\<close> of an integer.\<close>

fun nat_str :: "nat \<Rightarrow> pystr" where
  "nat_str n = (if n < 10 then [48 + n] else nat_str (n div 10) @ [48 + n mod 10])"

declare nat_str.simps [simp del]

definition int_str :: "int \<Rightarrow> pystr" where
  "int_str i = (if i < 0 then 45 # nat_str (nat (- i)) else nat_str (nat i))"

lemmas pystr_literal [pystr_defs] = str_def

lemma str_Nil [simp]: "str [] = []"
  by (simp add: str_def)

lemma str_eq_Nil [simp]: "str s = [] \<longleftrightarrow> s = []" "[] = str s \<longleftrightarrow> s = []"
  by (auto simp: str_def)

lemma str_eq_iff [simp]: "str a = str b \<longleftrightarrow> a = b"
proof -
  have "inj (of_char :: char \<Rightarrow> nat)"
    by (rule injI) simp
  then show ?thesis by (simp add: str_def inj_map_eq_map)
qed

lemma dropWhile_idem [simp]: "dropWhile p (dropWhile p xs) = dropWhile p xs"
  by (induction xs) auto

lemma rstrip_Nil [simp]: "rstrip [] = []"
  by (simp add: rstrip_def)

lemma strip_Nil [simp]: "strip [] = []"
  by (simp add: strip_def lstrip_def)

lemma rstrip_eq_Nil: "rstrip s = [] \<longleftrightarrow> (\<forall>c \<in> set s. is_space c)"
  by (simp add: rstrip_def dropWhile_eq_Nil_conv)

lemma strip_eq_Nil: "strip s = [] \<longleftrightarrow> (\<forall>c \<in> set s. is_space c)"
proof -
  have "(\<forall>c \<in> set (dropWhile is_space s). is_space c) \<longleftrightarrow> (\<forall>c \<in> set s. is_space c)"
    by (induction s) auto
  then show ?thesis by (simp add: strip_def lstrip_def rstrip_eq_Nil)
qed

lemma rstrip_prefix: "prefix (rstrip s) s"
  by (metis rstrip_def rev_rev_ident suffix_dropWhile suffix_to_prefix)

lemma rstrip_idem [simp]: "rstrip (rstrip s) = rstrip s"
  by (simp add: rstrip_def)

lemma lstrip_rstrip_commute: "lstrip (rstrip (lstrip s)) = rstrip (lstrip s)"
proof (cases "rstrip (lstrip s)")
  case Nil
  then show ?thesis by (simp add: lstrip_def)
next
  case (Cons c cs)
  with rstrip_prefix [of "lstrip s"] obtain zs where zs: "lstrip s = c # zs"
    by (auto elim: prefixE)
  then have "\<not> is_space c"
    by (metis lstrip_def dropWhile_eq_Cons_conv)
  with Cons show ?thesis by (simp add: lstrip_def)
qed

lemma strip_idem [simp]: "strip (strip s) = strip s"
  by (simp add: strip_def lstrip_rstrip_commute)

lemma set_rstrip: "set (rstrip s) \<subseteq> set s"
  using rstrip_prefix by (rule set_mono_prefix)

lemma set_strip: "set (strip s) \<subseteq> set s"
  using set_rstrip [of "lstrip s"] set_dropWhileD by (fastforce simp: strip_def lstrip_def)

lemma split_on_not_Nil [simp]: "split_on p s \<noteq> []"
  by (induction s) (auto split: list.splits)

lemma split_on_no_sep: "w \<in> set (split_on p s) \<Longrightarrow> c \<in> set w \<Longrightarrow> \<not> p c"
proof (induction s arbitrary: w)
  case Nil
  then show ?case by simp
next
  case (Cons d s)
  then show ?case
    by (cases "split_on p s") (fastforce split: if_splits)+
qed

lemma split_on_chars: "w \<in> set (split_on p s) \<Longrightarrow> set w \<subseteq> set s"
proof (induction s arbitrary: w)
  case Nil
  then show ?case by simp
next
  case (Cons d s)
  then show ?case
    by (cases "split_on p s") (fastforce split: if_splits)+
qed

lemma split_on_plain: "\<forall>c \<in> set w. \<not> p c \<Longrightarrow> split_on p w = [w]"
  by (induction w) auto

lemma split_on_append_sep:
  "\<forall>c \<in> set w. \<not> p c \<Longrightarrow> p d \<Longrightarrow> split_on p (w @ d # s) = w # split_on p s"
  by (induction w) auto

lemma split_on_join:
  assumes "xs \<noteq> []" and "p d" and "\<forall>w \<in> set xs. \<forall>c \<in> set w. \<not> p c"
  shows "split_on p (join [d] xs) = xs"
  using assms
proof (induction "[d]" xs rule: join.induct)
  case 1
  then show ?case by simp
next
  case (2 x)
  then show ?case by (simp add: split_on_plain)
next
  case (3 x y ys)
  then show ?case by (simp add: split_on_append_sep)
qed

lemma nat_str_digits: "c \<in> set (nat_str n) \<Longrightarrow> 48 \<le> c \<and> c \<le> 57"
proof (induction n rule: nat_str.induct)
  case (1 n)
  then show ?case
    by (subst (asm) nat_str.simps) (auto split: if_splits)
qed

lemma nat_str_not_Nil [simp]: "nat_str n \<noteq> []"
  by (subst nat_str.simps) simp

section \<open>Dictionaries\<close>

text \<open>
  A \<open>dict\<close> is an association list in insertion order: \<open>map_of\<close> reads it, \<open>AList.update\<close> keeps
  the position of a key that is present and appends a new one, \<open>AList.delete\<close> removes a key.
\<close>

definition dict_of_pairs :: "('k \<times> 'v) list \<Rightarrow> ('k \<times> 'v) list" where
  "dict_of_pairs ps = fold (\<lambda>(k, v) d. AList.update k v d) ps []"

definition dict_merge :: "('k \<times> 'v) list \<Rightarrow> ('k \<times> 'v) list \<Rightarrow> ('k \<times> 'v) list" where
  "dict_merge d e = fold (\<lambda>(k, v) d. AList.update k v d) e d"

lemma map_of_dict_update [dict_simps]:
  "map_of (AList.update k v d) = (map_of d)(k \<mapsto> v)"
  by (simp add: update_conv')

lemma map_of_dict_delete [dict_simps]:
  "map_of (AList.delete k d) = (map_of d)(k := None)"
  by (simp add: delete_conv')

lemma AList_delete_filter: "AList.delete k d = filter (\<lambda>p. fst p \<noteq> k) d"
  by (induction d) auto

lemma distinct_fold_update:
  "distinct (map fst d) \<Longrightarrow> distinct (map fst (fold (\<lambda>(k, v) d. AList.update k v d) ps d))"
  by (induction ps arbitrary: d) (auto simp: distinct_update)

lemma distinct_dict_of_pairs: "distinct (map fst (dict_of_pairs ps))"
  by (simp add: dict_of_pairs_def distinct_fold_update)

lemma map_of_fold_update:
  "map_of (fold (\<lambda>(k, v) d. AList.update k v d) ps d) = map_of d ++ map_of (rev ps)"
proof (induction ps arbitrary: d)
  case Nil
  then show ?case by simp
next
  case (Cons p ps)
  then show ?case by (cases p) (simp add: map_of_dict_update map_add_def fun_eq_iff split: option.splits)
qed

lemma map_of_dict_merge [dict_simps]: "map_of (dict_merge d e) = map_of d ++ map_of (rev e)"
  by (simp add: dict_merge_def map_of_fold_update)

section \<open>Lists\<close>

text \<open>Changing the first element that satisfies a predicate (a query with \<open>.first()\<close> and an update).\<close>

fun update_first :: "('a \<Rightarrow> bool) \<Rightarrow> ('a \<Rightarrow> 'a) \<Rightarrow> 'a list \<Rightarrow> 'a list" where
  "update_first P f [] = []"
| "update_first P f (x # xs) = (if P x then f x # xs else x # update_first P f xs)"

lemma find_update_first:
  "(\<And>x. P (f x) = P x) \<Longrightarrow> find P (update_first P f xs) = map_option f (find P xs)"
  by (induction xs) auto

lemma find_update_other:
  "(\<And>x. P x \<Longrightarrow> \<not> Q x \<and> \<not> Q (f x)) \<Longrightarrow> find Q (update_first P f xs) = find Q xs"
  by (induction xs) auto

lemma find_append: "find P (xs @ ys) = (case find P xs of Some x \<Rightarrow> Some x | None \<Rightarrow> find P ys)"
  by (induction xs) auto

lemma list_ex_find: "list_ex P xs \<longleftrightarrow> find P xs \<noteq> None"
  by (induction xs) auto

section \<open>Exceptions\<close>

text \<open>
  One constructor per exception class the code raises or tells apart, with the message \<open>str(exc)\<close>
  returns. \<open>PyodbcError\<close> is any \<open>pyodbc.Error\<close>: its class name, its first argument when that is
  a string, and its text. \<open>JinjaTemplateError\<close> is any \<open>jinja2.TemplateError\<close>. \<open>OtherError\<close> is any
  other subclass of \<open>Exception\<close> an external call may raise.
\<close>

datatype exn =
    ConfigurationError pystr
  | RuleNotFoundError pystr
  | RuleExecutionInProgressError pystr
  | RuleScheduleSyncError pystr
  | SqlValidationError pystr
  | TemplateRenderError pystr
  | ValueError pystr
  | RuntimeError pystr
  | OverflowError pystr
  | PyodbcError pystr "pystr option" pystr
  | JinjaTemplateError pystr pystr
  | OtherError pystr pystr

type_synonym 'a res = "exn + 'a"

fun exn_name :: "exn \<Rightarrow> pystr" where
  "exn_name (ConfigurationError m) = str ''ConfigurationError''"
| "exn_name (RuleNotFoundError m) = str ''RuleNotFoundError''"
| "exn_name (RuleExecutionInProgressError m) = str ''RuleExecutionInProgressError''"
| "exn_name (RuleScheduleSyncError m) = str ''RuleScheduleSyncError''"
| "exn_name (SqlValidationError m) = str ''SqlValidationError''"
| "exn_name (TemplateRenderError m) = str ''TemplateRenderError''"
| "exn_name (ValueError m) = str ''ValueError''"
| "exn_name (RuntimeError m) = str ''RuntimeError''"
| "exn_name (OverflowError m) = str ''OverflowError''"
| "exn_name (PyodbcError n a m) = n"
| "exn_name (JinjaTemplateError n m) = n"
| "exn_name (OtherError n m) = n"

fun exn_str :: "exn \<Rightarrow> pystr" where
  "exn_str (ConfigurationError m) = m"
| "exn_str (RuleNotFoundError m) = m"
| "exn_str (RuleExecutionInProgressError m) = m"
| "exn_str (RuleScheduleSyncError m) = m"
| "exn_str (SqlValidationError m) = m"
| "exn_str (TemplateRenderError m) = m"
| "exn_str (ValueError m) = m"
| "exn_str (RuntimeError m) = m"
| "exn_str (OverflowError m) = m"
| "exn_str (PyodbcError n a m) = m"
| "exn_str (JinjaTemplateError n m) = m"
| "exn_str (OtherError n m) = m"

section \<open>Encodings\<close>

text \<open>\<open>s.encode("utf-8")\<close>: a lone surrogate raises \<open>UnicodeEncodeError\<close> (None).\<close>

definition utf8_char :: "nat \<Rightarrow> nat list option" where
  "utf8_char c =
     (if c < 0x80 then Some [c]
      else if c < 0x800 then Some [0xC0 + c div 64, 0x80 + c mod 64]
      else if 0xD800 \<le> c \<and> c \<le> 0xDFFF then None
      else if c < 0x10000 then Some [0xE0 + c div 4096, 0x80 + c div 64 mod 64, 0x80 + c mod 64]
      else Some [0xF0 + c div 262144, 0x80 + c div 4096 mod 64, 0x80 + c div 64 mod 64, 0x80 + c mod 64])"

fun utf8_encode :: "pystr \<Rightarrow> nat list option" where
  "utf8_encode [] = Some []"
| "utf8_encode (c # cs) =
     (case (utf8_char c, utf8_encode cs) of (Some b, Some bs) \<Rightarrow> Some (b @ bs) | _ \<Rightarrow> None)"

definition ascii_encode :: "pystr \<Rightarrow> nat list option" where
  "ascii_encode s = (if \<forall>c \<in> set s. c < 128 then Some s else None)"

definition unicode_encode_error :: exn where
  "unicode_encode_error = ValueError (str ''codec can't encode character'')"

lemma ascii_encode_Some [simp]: "ascii_encode s = Some b \<longleftrightarrow> b = s \<and> (\<forall>c \<in> set s. c < 128)"
  by (auto simp: ascii_encode_def)

section \<open>Time\<close>

text \<open>
  A naive UTC \<open>datetime\<close> and a \<open>timedelta\<close> are integers in microseconds. \<open>timedelta\<close> raises
  \<open>OverflowError\<close> beyond 999999999 days, and a \<open>datetime\<close> result outside the years 1 to 9999 does.
\<close>

type_synonym datetime = int
type_synonym timedelta = int

definition us_per_second :: int where
  "us_per_second = 1000000"

definition datetime_min :: datetime where
  "datetime_min = - 62135596800 * us_per_second"

definition datetime_max :: datetime where
  "datetime_max = 253402300800 * us_per_second - 1"

definition timedelta_us :: "int \<Rightarrow> timedelta res" where
  "timedelta_us us =
     (let days = us div (86400 * us_per_second)
      in if - 999999999 \<le> days \<and> days \<le> 999999999 then Inr us
         else Inl (OverflowError (str ''days out of range'')))"

definition timedelta_seconds :: "int \<Rightarrow> timedelta res" where
  "timedelta_seconds s = timedelta_us (s * us_per_second)"

definition timedelta_hours :: "int \<Rightarrow> timedelta res" where
  "timedelta_hours h = timedelta_us (h * 3600 * us_per_second)"

definition timedelta_days :: "int \<Rightarrow> timedelta res" where
  "timedelta_days d = timedelta_us (d * 86400 * us_per_second)"

definition datetime_in_range :: "int \<Rightarrow> datetime res" where
  "datetime_in_range t =
     (if datetime_min \<le> t \<and> t \<le> datetime_max then Inr t
      else Inl (OverflowError (str ''date value out of range'')))"

lemmas time_defs = us_per_second_def datetime_min_def datetime_max_def timedelta_us_def
  timedelta_seconds_def timedelta_hours_def timedelta_days_def datetime_in_range_def

section \<open>Effects\<close>

text \<open>
  Code that changes state and may raise is a function from the state to the result and the new
  state; the changes made before an exception stay. \<open>ebind\<close> is sequencing, \<open>ecatch\<close> a
  \<open>try\<close>/\<open>except Exception\<close>, \<open>elift\<close> a pure fallible expression.
\<close>

type_synonym ('w, 'a) eff = "'w \<Rightarrow> 'a res \<times> 'w"

definition ereturn :: "'a \<Rightarrow> ('w, 'a) eff" where
  "ereturn x w = (Inr x, w)"

definition eraise :: "exn \<Rightarrow> ('w, 'a) eff" where
  "eraise exc w = (Inl exc, w)"

definition elift :: "'a res \<Rightarrow> ('w, 'a) eff" where
  "elift r w = (r, w)"

definition ebind :: "('w, 'a) eff \<Rightarrow> ('a \<Rightarrow> ('w, 'b) eff) \<Rightarrow> ('w, 'b) eff" where
  "ebind m f w = (case m w of (Inl exc, w') \<Rightarrow> (Inl exc, w') | (Inr x, w') \<Rightarrow> f x w')"

definition ecatch :: "('w, 'a) eff \<Rightarrow> (exn \<Rightarrow> ('w, 'a) eff) \<Rightarrow> ('w, 'a) eff" where
  "ecatch m h w = (case m w of (Inl exc, w') \<Rightarrow> h exc w' | (Inr x, w') \<Rightarrow> (Inr x, w'))"

text \<open>A \<open>for\<close> loop over a list, stopped by an exception.\<close>

fun efor :: "'a list \<Rightarrow> ('a \<Rightarrow> ('w, unit) eff) \<Rightarrow> ('w, unit) eff" where
  "efor [] f = ereturn ()"
| "efor (x # xs) f = ebind (f x) (\<lambda>_. efor xs f)"

named_theorems eff_defs \<open>definitions of the effect combinators\<close>

lemmas eff_combinators [eff_defs] = ereturn_def eraise_def elift_def ebind_def ecatch_def

lemma ebind_Inr:
  "ebind m f w = (Inr y, w'') \<longleftrightarrow> (\<exists>x w'. m w = (Inr x, w') \<and> f x w' = (Inr y, w''))"
  by (auto simp: ebind_def split: sum.splits prod.splits)

lemma ebind_Inl:
  "ebind m f w = (Inl exc, w'') \<longleftrightarrow>
     m w = (Inl exc, w'') \<or> (\<exists>x w'. m w = (Inr x, w') \<and> f x w' = (Inl exc, w''))"
  by (auto simp: ebind_def split: sum.splits prod.splits)

lemma ecatch_Inr:
  "ecatch m h w = (Inr y, w'') \<longleftrightarrow>
     m w = (Inr y, w'') \<or> (\<exists>exc w'. m w = (Inl exc, w') \<and> h exc w' = (Inr y, w''))"
  by (auto simp: ecatch_def split: sum.splits prod.splits)

lemma ereturn_Inr [simp]: "ereturn x w = (r, w') \<longleftrightarrow> r = Inr x \<and> w' = w"
  by (auto simp: ereturn_def)

lemma eraise_Inl [simp]: "eraise exc w = (r, w') \<longleftrightarrow> r = Inl exc \<and> w' = w"
  by (auto simp: eraise_def)

lemma elift_eq [simp]: "elift r w = (r', w') \<longleftrightarrow> r = r' \<and> w' = w"
  by (auto simp: elift_def)

lemma ebind_pure [simp]:
  "ebind (elift (Inr x)) f w = f x w" "ebind (elift (Inl exc)) f w = (Inl exc, w)"
  "ebind (ereturn x) f w = f x w" "ebind (eraise exc) f w = (Inl exc, w)"
  by (simp_all add: ebind_def elift_def ereturn_def eraise_def)

text \<open>Preservation of a relation between the states before and after, whatever the result.\<close>

definition preserves :: "('w \<Rightarrow> 'w \<Rightarrow> bool) \<Rightarrow> ('w, 'a) eff \<Rightarrow> bool" where
  "preserves R m \<longleftrightarrow> (\<forall>w. R w (snd (m w)))"

locale state_relation =
  fixes R :: "'w \<Rightarrow> 'w \<Rightarrow> bool"
  assumes reflexive: "R w w"
    and transitive: "R w w' \<Longrightarrow> R w' w'' \<Longrightarrow> R w w''"
begin

lemma ereturn: "preserves R (ereturn x)"
  by (simp add: preserves_def ereturn_def reflexive)

lemma eraise: "preserves R (eraise exc)"
  by (simp add: preserves_def eraise_def reflexive)

lemma elift: "preserves R (elift r)"
  by (simp add: preserves_def elift_def reflexive)

lemma ebind:
  assumes "preserves R m" and "\<And>x. preserves R (f x)"
  shows "preserves R (ebind m f)"
  unfolding preserves_def
proof
  fix w
  have "R w (snd (m w))" using assms(1) by (simp add: preserves_def)
  moreover have "R w' (snd (f x w'))" for x w' using assms(2) by (simp add: preserves_def)
  ultimately show "R w (snd (ebind m f w))"
    by (cases "m w"; cases "fst (m w)") (auto simp: ebind_def intro: transitive)
qed

lemma ecatch:
  assumes "preserves R m" and "\<And>exc. preserves R (h exc)"
  shows "preserves R (ecatch m h)"
  unfolding preserves_def
proof
  fix w
  have "R w (snd (m w))" using assms(1) by (simp add: preserves_def)
  moreover have "R w' (snd (h exc w'))" for exc w' using assms(2) by (simp add: preserves_def)
  ultimately show "R w (snd (ecatch m h w))"
    by (cases "m w"; cases "fst (m w)") (auto simp: ecatch_def intro: transitive)
qed

lemma efor: "(\<And>x. preserves R (f x)) \<Longrightarrow> preserves R (efor xs f)"
  by (induction xs) (simp_all add: ereturn ebind)

end

end
