(* ===== verification/Rate_Limiter.thy ===== *)
theory Rate_Limiter
  imports Prelude
begin

text \<open>
  \<open>LoginRateLimiter\<close> of \<open>app/web_security.py\<close>. The \<open>OrderedDict\<close> of attempt states is an
  association list from keys to addresses, and the mutable \<open>_AttemptState\<close> objects live in a heap:
  the code compares them by identity and threads keep references to them while they wait for a
  gate, so aliasing matters. Clock readings are real numbers (rounding of doubles is not
  modelled). Every definition is one critical section under \<open>self._lock\<close> or one gate operation;
  the step relation \<open>limiter_step\<close> interleaves them for any number of threads.
\<close>

section \<open>State\<close>

record attempt_state =
  failures :: "real list"
  locked_until :: real
  gate_locked :: bool
  references :: int

record limiter_config =
  max_failures :: int
  failure_window_seconds :: int
  lockout_seconds :: int
  max_states :: int
  cleanup_interval_seconds :: real
  cleanup_batch_size :: int

record 'k limiter =
  states :: "('k \<times> nat) list"
  heap :: "nat \<Rightarrow> attempt_state"
  next_addr :: nat
  next_cleanup_at :: real

definition new_attempt_state :: attempt_state where
  "new_attempt_state = \<lparr>failures = [], locked_until = 0, gate_locked = False, references = 0\<rparr>"

definition init_limiter :: "limiter_config \<Rightarrow> real \<Rightarrow> 'k limiter res" where
  "init_limiter cfg now =
     (if max_states cfg < 1 then Inl (ValueError (str ''max_states must be positive''))
      else if cleanup_interval_seconds cfg \<le> 0
        then Inl (ValueError (str ''cleanup_interval_seconds must be positive''))
      else if cleanup_batch_size cfg < 1
        then Inl (ValueError (str ''cleanup_batch_size must be positive''))
      else Inr \<lparr>states = [], heap = (\<lambda>_. new_attempt_state), next_addr = 0,
                next_cleanup_at = now + cleanup_interval_seconds cfg\<rparr>)"

text \<open>The key of a client and a user name: \<open>casefold\<close> and SHA-256 on bytes are parameters; a lone
  surrogate in the name cannot be encoded.\<close>

definition limiter_key ::
  "(pystr \<Rightarrow> pystr) \<Rightarrow> (nat list \<Rightarrow> 'd) \<Rightarrow> pystr \<Rightarrow> pystr \<Rightarrow> (pystr \<times> 'd) res" where
  "limiter_key casefold sha256 client_id username =
     (case utf8_encode (casefold (strip username)) of
        None \<Rightarrow> Inl unicode_encode_error
      | Some normalized_username \<Rightarrow> Inr (client_id, sha256 normalized_username))"

section \<open>Operations under the lock\<close>

definition expire_state :: "limiter_config \<Rightarrow> attempt_state \<Rightarrow> real \<Rightarrow> attempt_state" where
  "expire_state cfg st now =
     (let cutoff = now - of_int (failure_window_seconds cfg);
          st1 = (if locked_until st \<noteq> 0 \<and> locked_until st \<le> now
                 then st\<lparr>locked_until := 0, failures := []\<rparr> else st)
      in st1\<lparr>failures := dropWhile (\<lambda>f. f \<le> cutoff) (failures st1)\<rparr>)"

definition state_retry_after :: "attempt_state \<Rightarrow> real \<Rightarrow> int" where
  "state_retry_after st now =
     (if locked_until st \<le> now then 0 else \<lceil>locked_until st - now\<rceil>)"

definition inactive :: "attempt_state \<Rightarrow> bool" where
  "inactive st \<longleftrightarrow> references st = 0 \<and> failures st = [] \<and> locked_until st = 0"

definition discard_if_inactive :: "'k limiter \<Rightarrow> 'k \<Rightarrow> nat \<Rightarrow> 'k limiter" where
  "discard_if_inactive l key a =
     (if map_of (states l) key = Some a \<and> inactive (heap l a)
      then l\<lparr>states := AList.delete key (states l)\<rparr> else l)"

definition reserve_state :: "limiter_config \<Rightarrow> 'k limiter \<Rightarrow> 'k \<Rightarrow> nat option \<times> 'k limiter" where
  "reserve_state cfg l key =
     (if max_states cfg \<le> int (length (states l)) then (None, l)
      else let a = next_addr l
           in (Some a, l\<lparr>states := AList.update key a (states l),
                         heap := (heap l)(a := new_attempt_state), next_addr := Suc a\<rparr>))"

definition current_state ::
  "limiter_config \<Rightarrow> 'k limiter \<Rightarrow> 'k \<Rightarrow> real \<Rightarrow> nat option \<times> 'k limiter" where
  "current_state cfg l key now =
     (case map_of (states l) key of
        None \<Rightarrow> (None, l)
      | Some a \<Rightarrow>
          let l1 = l\<lparr>heap := (heap l)(a := expire_state cfg (heap l a) now)\<rparr>;
              l2 = discard_if_inactive l1 key a
          in (map_of (states l2) key, l2))"

text \<open>The scheduled cleanup pops the oldest entries and appends again those still in use.\<close>

fun cleanup_batch :: "limiter_config \<Rightarrow> real \<Rightarrow> nat \<Rightarrow> 'k limiter \<Rightarrow> 'k limiter" where
  "cleanup_batch cfg now 0 l = l"
| "cleanup_batch cfg now (Suc n) l =
     (case states l of
        [] \<Rightarrow> l
      | (key, a) # rest \<Rightarrow>
          let st = expire_state cfg (heap l a) now;
              l1 = l\<lparr>states := rest, heap := (heap l)(a := st)\<rparr>
          in cleanup_batch cfg now n
               (if references st \<noteq> 0 \<or> failures st \<noteq> [] \<or> locked_until st \<noteq> 0
                then l1\<lparr>states := AList.update key a rest\<rparr> else l1))"

definition run_scheduled_cleanup :: "limiter_config \<Rightarrow> 'k limiter \<Rightarrow> real \<Rightarrow> 'k limiter" where
  "run_scheduled_cleanup cfg l now =
     (if now < next_cleanup_at l then l
      else cleanup_batch cfg now (nat (min (cleanup_batch_size cfg) (int (length (states l)))))
             (l\<lparr>next_cleanup_at := now + cleanup_interval_seconds cfg\<rparr>))"

definition capacity_retry_after :: "limiter_config \<Rightarrow> int" where
  "capacity_retry_after cfg = max 1 \<lceil>cleanup_interval_seconds cfg\<rceil>"

definition limiter_retry_after ::
  "limiter_config \<Rightarrow> 'k limiter \<Rightarrow> 'k \<Rightarrow> real \<Rightarrow> int \<times> 'k limiter" where
  "limiter_retry_after cfg l key now =
     (case current_state cfg (run_scheduled_cleanup cfg l now) key now of
        (None, l1) \<Rightarrow> (0, l1)
      | (Some a, l1) \<Rightarrow> (state_retry_after (heap l1 a) now, l1))"

text \<open>\<open>_current_state\<close> and, when it finds nothing, \<open>_reserve_state\<close>: the common start of
  \<open>attempt\<close> and \<open>record_failure\<close>.\<close>

definition current_or_reserve ::
  "limiter_config \<Rightarrow> 'k limiter \<Rightarrow> 'k \<Rightarrow> real \<Rightarrow> nat option \<times> 'k limiter" where
  "current_or_reserve cfg l key now =
     (case current_state cfg (run_scheduled_cleanup cfg l now) key now of
        (None, l1) \<Rightarrow> reserve_state cfg l1 key
      | (Some a, l1) \<Rightarrow> (Some a, l1))"

definition record_failure ::
  "limiter_config \<Rightarrow> 'k limiter \<Rightarrow> 'k \<Rightarrow> real \<Rightarrow> int \<times> 'k limiter" where
  "record_failure cfg l key now =
     (case current_or_reserve cfg l key now of
        (None, l1) \<Rightarrow> (capacity_retry_after cfg, l1)
      | (Some a, l1) \<Rightarrow>
          let st = (heap l1 a)\<lparr>failures := failures (heap l1 a) @ [now]\<rparr>
          in if int (length (failures st)) < max_failures cfg
             then (0, l1\<lparr>heap := (heap l1)(a := st)\<rparr>)
             else (lockout_seconds cfg,
                   l1\<lparr>heap := (heap l1)
                        (a := st\<lparr>locked_until := now + of_int (lockout_seconds cfg)\<rparr>)\<rparr>))"

definition clear_failures :: "'k limiter \<Rightarrow> 'k \<Rightarrow> 'k limiter" where
  "clear_failures l key =
     (case map_of (states l) key of
        None \<Rightarrow> l
      | Some a \<Rightarrow>
          discard_if_inactive
            (l\<lparr>heap := (heap l)(a := (heap l a)\<lparr>failures := [], locked_until := 0\<rparr>)\<rparr>) key a)"

section \<open>The phases of an attempt\<close>

text \<open>
  \<open>attempt_enter\<close> is the first critical section of \<open>attempt\<close>, \<open>gate_acquire\<close> and \<open>gate_check\<close>
  the gate and the second section that computes what is yielded, \<open>gate_release\<close> and
  \<open>attempt_leave\<close> the \<open>finally\<close> block.
\<close>

definition attempt_enter ::
  "limiter_config \<Rightarrow> 'k limiter \<Rightarrow> 'k \<Rightarrow> real \<Rightarrow> nat option \<times> 'k limiter" where
  "attempt_enter cfg l key now =
     (case current_or_reserve cfg l key now of
        (None, l1) \<Rightarrow> (None, l1)
      | (Some a, l1) \<Rightarrow>
          (Some a, l1\<lparr>heap := (heap l1)
             (a := (heap l1 a)\<lparr>references := references (heap l1 a) + 1\<rparr>)\<rparr>))"

definition gate_acquire :: "'k limiter \<Rightarrow> nat \<Rightarrow> 'k limiter" where
  "gate_acquire l a = l\<lparr>heap := (heap l)(a := (heap l a)\<lparr>gate_locked := True\<rparr>)\<rparr>"

definition gate_check ::
  "limiter_config \<Rightarrow> 'k limiter \<Rightarrow> nat \<Rightarrow> real \<Rightarrow> int \<times> 'k limiter" where
  "gate_check cfg l a now =
     (let st = expire_state cfg (heap l a) now
      in (state_retry_after st now, l\<lparr>heap := (heap l)(a := st)\<rparr>))"

definition gate_release :: "'k limiter \<Rightarrow> nat \<Rightarrow> 'k limiter" where
  "gate_release l a = l\<lparr>heap := (heap l)(a := (heap l a)\<lparr>gate_locked := False\<rparr>)\<rparr>"

definition attempt_leave :: "'k limiter \<Rightarrow> 'k \<Rightarrow> nat \<Rightarrow> 'k limiter" where
  "attempt_leave l key a =
     discard_if_inactive
       (l\<lparr>heap := (heap l)(a := (heap l a)\<lparr>references := references (heap l a) - 1\<rparr>)\<rparr>) key a"

text \<open>The whole context manager around a body, as one thread runs it alone: the body gets the
  yielded retry time.\<close>

definition with_attempt ::
  "limiter_config \<Rightarrow> 'k limiter \<Rightarrow> 'k \<Rightarrow> real \<Rightarrow> real \<Rightarrow>
     (int \<Rightarrow> 'k limiter \<Rightarrow> 'a \<times> 'k limiter) \<Rightarrow> 'a \<times> 'k limiter" where
  "with_attempt cfg l key now1 now2 body =
     (case attempt_enter cfg l key now1 of
        (None, l1) \<Rightarrow> body (capacity_retry_after cfg) l1
      | (Some a, l1) \<Rightarrow>
          (case gate_check cfg (gate_acquire l1 a) a now2 of
             (retry_after, l2) \<Rightarrow>
               (case body retry_after l2 of
                  (r, l3) \<Rightarrow> (r, attempt_leave (gate_release l3 a) key a))))"

section \<open>Well-formedness\<close>

definition limiter_wf :: "limiter_config \<Rightarrow> 'k limiter \<Rightarrow> bool" where
  "limiter_wf cfg l \<longleftrightarrow>
     distinct (map fst (states l)) \<and> distinct (map snd (states l))
     \<and> int (length (states l)) \<le> max_states cfg
     \<and> (\<forall>a \<in> set (map snd (states l)). a < next_addr l)"

lemma limiter_wf_init: "init_limiter cfg now = Inr l \<Longrightarrow> limiter_wf cfg l"
  by (auto simp: init_limiter_def limiter_wf_def split: if_splits)

lemma expire_state_frame [simp]:
  "references (expire_state cfg st now) = references st"
  "gate_locked (expire_state cfg st now) = gate_locked st"
  by (simp_all add: expire_state_def Let_def)

lemma new_attempt_state_sel [simp]:
  "failures new_attempt_state = []" "locked_until new_attempt_state = 0"
  "gate_locked new_attempt_state = False" "references new_attempt_state = 0"
  by (simp_all add: new_attempt_state_def)

lemma map_snd_update_fresh:
  "key \<notin> fst ` set xs \<Longrightarrow> AList.update key a xs = xs @ [(key, a)]"
  by (induction xs) auto

lemma limiter_wf_heap [simp]: "limiter_wf cfg (l\<lparr>heap := h\<rparr>) = limiter_wf cfg l"
  by (simp add: limiter_wf_def)

lemma limiter_wf_cleanup_at [simp]:
  "limiter_wf cfg (l\<lparr>next_cleanup_at := t\<rparr>) = limiter_wf cfg l"
  by (simp add: limiter_wf_def)

lemma limiter_wf_filter:
  assumes "limiter_wf cfg l"
  shows "limiter_wf cfg (l\<lparr>states := filter P (states l)\<rparr>)"
proof -
  have "int (length (filter P (states l))) \<le> int (length (states l))"
    by simp
  also have "\<dots> \<le> max_states cfg"
    using assms by (simp add: limiter_wf_def)
  finally show ?thesis
    using assms by (auto simp: limiter_wf_def distinct_map_filter)
qed

lemma limiter_wf_delete:
  "limiter_wf cfg l \<Longrightarrow> limiter_wf cfg (l\<lparr>states := AList.delete key (states l)\<rparr>)"
  by (simp add: AList_delete_filter limiter_wf_filter)

lemma limiter_wf_reserve:
  assumes "limiter_wf cfg l" and "key \<notin> fst ` set (states l)"
  shows "limiter_wf cfg (snd (reserve_state cfg l key))"
  using assms
  by (auto simp: limiter_wf_def reserve_state_def Let_def map_snd_update_fresh image_iff)

lemma limiter_wf_inj:
  "limiter_wf cfg l \<Longrightarrow> map_of (states l) k = Some a \<Longrightarrow> map_of (states l) k' = Some a \<Longrightarrow> k = k'"
  by (metis limiter_wf_def map_of_SomeD distinct_map inj_onD prod.inject snd_conv)

lemma limiter_wf_addr:
  "limiter_wf cfg l \<Longrightarrow> map_of (states l) k = Some a \<Longrightarrow> a < next_addr l"
  by (force simp: limiter_wf_def dest: map_of_SomeD)

end
