(* ===== verification/Rate_Limiter_Steps.thy ===== *)
theory Rate_Limiter_Steps
  imports Rate_Limiter
begin

text \<open>
  The limiter shared by any number of threads. \<open>lock_section\<close> is the contract of a critical
  section: it keeps the tables well-formed, changes nobody's reference count or gate, and never
  drops an entry somebody holds. The locale \<open>limiter_section\<close> states it for an operation, and every
  operation of the limiter interprets it. \<open>limiter_step\<close> interleaves the threads; its invariant
  \<open>sys_inv\<close> gives mutual exclusion per key and accurate reference counts.
\<close>

section \<open>The contract of a critical section\<close>

definition lock_section :: "limiter_config \<Rightarrow> 'k limiter \<Rightarrow> 'k limiter \<Rightarrow> bool" where
  "lock_section cfg l l' \<longleftrightarrow>
     limiter_wf cfg l \<longrightarrow>
       limiter_wf cfg l' \<and> next_addr l \<le> next_addr l'
       \<and> (\<forall>a < next_addr l. references (heap l' a) = references (heap l a)
            \<and> gate_locked (heap l' a) = gate_locked (heap l a))
       \<and> (\<forall>a. next_addr l \<le> a \<and> a < next_addr l' \<longrightarrow>
            references (heap l' a) = 0 \<and> \<not> gate_locked (heap l' a))
       \<and> (\<forall>k a. map_of (states l) k = Some a \<and> references (heap l a) \<noteq> 0 \<longrightarrow>
            map_of (states l') k = Some a)"

lemma lock_section_refl: "lock_section cfg l l"
  by (auto simp: lock_section_def)

lemma lock_section_trans:
  assumes "lock_section cfg l1 l2" and "lock_section cfg l2 l3"
  shows "lock_section cfg l1 l3"
  unfolding lock_section_def
proof (intro impI conjI allI)
  assume wf: "limiter_wf cfg l1"
  with assms(1) have wf2: "limiter_wf cfg l2" and n12: "next_addr l1 \<le> next_addr l2"
    by (auto simp: lock_section_def)
  with assms(2) show "limiter_wf cfg l3" and "next_addr l1 \<le> next_addr l3"
    by (auto simp: lock_section_def)
  fix a
  show "references (heap l3 a) = references (heap l1 a)"
    and "gate_locked (heap l3 a) = gate_locked (heap l1 a)" if "a < next_addr l1"
    using that assms wf wf2 n12 by (auto simp: lock_section_def)
  show "references (heap l3 a) = 0" and "\<not> gate_locked (heap l3 a)"
    if "next_addr l1 \<le> a \<and> a < next_addr l3"
    using that assms wf wf2 n12 by (cases "a < next_addr l2"; force simp: lock_section_def)+
  fix k
  show "map_of (states l3) k = Some a"
    if "map_of (states l1) k = Some a \<and> references (heap l1 a) \<noteq> 0"
    using that assms wf wf2 limiter_wf_addr [OF wf, of k a] by (auto simp: lock_section_def)
qed

lemma lock_section_expire:
  "lock_section cfg l (l\<lparr>heap := (heap l)(a := expire_state cfg (heap l a) now)\<rparr>)"
  by (auto simp: lock_section_def)

lemma lock_section_counts:
  assumes "references st = references (heap l a)" and "gate_locked st = gate_locked (heap l a)"
  shows "lock_section cfg l (l\<lparr>heap := (heap l)(a := st)\<rparr>)"
  using assms by (auto simp: lock_section_def)

lemma lock_section_discard: "lock_section cfg l (discard_if_inactive l key a)"
  using limiter_wf_delete [of cfg l key]
  by (auto simp: lock_section_def discard_if_inactive_def inactive_def map_of_dict_delete)

lemma lock_section_reserve:
  assumes "map_of (states l) key = None"
  shows "lock_section cfg l (snd (reserve_state cfg l key))"
proof (cases "max_states cfg \<le> int (length (states l))")
  case True
  then show ?thesis by (simp add: reserve_state_def lock_section_refl)
next
  case False
  show ?thesis
    unfolding lock_section_def
  proof (rule impI)
    assume wf: "limiter_wf cfg l"
    then have "limiter_wf cfg (snd (reserve_state cfg l key))"
      using assms by (intro limiter_wf_reserve) (auto simp: map_of_eq_None_iff)
    with wf False assms limiter_wf_addr [OF wf]
    show "limiter_wf cfg (snd (reserve_state cfg l key))
      \<and> next_addr l \<le> next_addr (snd (reserve_state cfg l key))
      \<and> (\<forall>a < next_addr l. references (heap (snd (reserve_state cfg l key)) a) = references (heap l a)
           \<and> gate_locked (heap (snd (reserve_state cfg l key)) a) = gate_locked (heap l a))
      \<and> (\<forall>a. next_addr l \<le> a \<and> a < next_addr (snd (reserve_state cfg l key)) \<longrightarrow>
           references (heap (snd (reserve_state cfg l key)) a) = 0
           \<and> \<not> gate_locked (heap (snd (reserve_state cfg l key)) a))
      \<and> (\<forall>k a. map_of (states l) k = Some a \<and> references (heap l a) \<noteq> 0 \<longrightarrow>
           map_of (states (snd (reserve_state cfg l key))) k = Some a)"
      by (auto simp: reserve_state_def Let_def map_of_dict_update)
  qed
qed

lemma lock_section_current: "lock_section cfg l (snd (current_state cfg l key now))"
  by (auto simp: current_state_def Let_def lock_section_refl split: option.splits
      intro: lock_section_trans lock_section_expire lock_section_discard)

text \<open>One round of the cleanup.\<close>

lemma lock_section_pop:
  assumes "states l = (key, a) # rest"
  shows "lock_section cfg l
    (let st = expire_state cfg (heap l a) now;
         l1 = l\<lparr>states := rest, heap := (heap l)(a := st)\<rparr>
     in if references st \<noteq> 0 \<or> failures st \<noteq> [] \<or> locked_until st \<noteq> 0
        then l1\<lparr>states := AList.update key a rest\<rparr> else l1)"
proof -
  have upd: "AList.update key a rest = rest @ [(key, a)]" if "limiter_wf cfg l"
    using that assms by (intro map_snd_update_fresh) (auto simp: limiter_wf_def)
  show ?thesis
    using assms upd by (auto simp: lock_section_def limiter_wf_def Let_def map_add_def
        split: option.splits)
qed

lemma lock_section_batch: "lock_section cfg l (cleanup_batch cfg now n l)"
proof (induction n arbitrary: l)
  case 0
  show ?case by (simp add: lock_section_refl)
next
  case (Suc n)
  show ?case
  proof (cases "states l")
    case Nil
    then show ?thesis by (simp add: lock_section_refl)
  next
    case (Cons p rest)
    then obtain key a where "states l = (key, a) # rest" by (cases p) auto
    from lock_section_trans [OF lock_section_pop [OF this, of cfg now] Suc.IH] this
    show ?thesis by (simp add: Let_def)
  qed
qed

lemma lock_section_cleanup: "lock_section cfg l (run_scheduled_cleanup cfg l now)"
proof -
  have "lock_section cfg l (l\<lparr>next_cleanup_at := t\<rparr>)" for t
    by (auto simp: lock_section_def)
  then show ?thesis
    by (auto simp: run_scheduled_cleanup_def lock_section_refl
        intro: lock_section_trans lock_section_batch)
qed

lemma current_state_None:
  assumes "current_state cfg l key now = (None, l')"
  shows "map_of (states l') key = None"
  using assms by (auto simp: current_state_def Let_def split: option.splits)

lemma lock_section_current_or_reserve:
  "lock_section cfg l (snd (current_or_reserve cfg l key now))"
proof -
  obtain ao l1 where c: "current_state cfg (run_scheduled_cleanup cfg l now) key now = (ao, l1)"
    by (cases "current_state cfg (run_scheduled_cleanup cfg l now) key now")
  have "lock_section cfg l l1"
    using lock_section_trans [OF lock_section_cleanup lock_section_current, of cfg l now key now] c
    by simp
  then show ?thesis
    using c by (cases ao) (auto simp: current_or_reserve_def
        intro: lock_section_trans lock_section_reserve dest: current_state_None)
qed

lemma lock_section_record_failure: "lock_section cfg l (snd (record_failure cfg l key now))"
proof -
  obtain ao l1 where c: "current_or_reserve cfg l key now = (ao, l1)"
    by (cases "current_or_reserve cfg l key now")
  then have "lock_section cfg l l1"
    using lock_section_current_or_reserve [of cfg l key now] by simp
  with c show ?thesis
    by (cases ao) (auto simp: record_failure_def Let_def
        intro!: lock_section_trans [of cfg l l1] lock_section_counts)
qed

lemma lock_section_clear: "lock_section cfg l (clear_failures l key)"
  by (auto simp: clear_failures_def lock_section_refl split: option.splits
      intro!: lock_section_trans [OF _ lock_section_discard] lock_section_counts)

lemma lock_section_retry_after: "lock_section cfg l (snd (limiter_retry_after cfg l key now))"
proof -
  have "snd (limiter_retry_after cfg l key now)
      = snd (current_state cfg (run_scheduled_cleanup cfg l now) key now)"
    by (simp add: limiter_retry_after_def split: prod.splits option.splits)
  then show ?thesis
    using lock_section_trans [OF lock_section_cleanup lock_section_current] by simp
qed

lemma lock_section_check: "lock_section cfg l (snd (gate_check cfg l a now))"
  by (simp add: gate_check_def Let_def lock_section_expire)

section \<open>Threads\<close>

text \<open>
  Where a thread stands in \<open>attempt\<close>: waiting for the gate (it holds a reference), holding the gate
  before the second critical section, in the body with the yielded value, or past the release of
  the gate and before the last critical section.
\<close>

datatype 'k pc =
    Idle
  | Waiting 'k nat
  | Checking 'k nat
  | Body 'k nat int
  | Leaving 'k nat

fun holds :: "'k pc \<Rightarrow> ('k \<times> nat) option" where
  "holds Idle = None"
| "holds (Waiting k a) = Some (k, a)"
| "holds (Checking k a) = Some (k, a)"
| "holds (Body k a r) = Some (k, a)"
| "holds (Leaving k a) = Some (k, a)"

fun gated :: "'k pc \<Rightarrow> nat option" where
  "gated (Checking k a) = Some a"
| "gated (Body k a r) = Some a"
| "gated p = None"

record 'k sys =
  shared :: "'k limiter"
  threads :: "nat \<Rightarrow> 'k pc"

text \<open>
  The interleaving. A body does what \<open>login\<close> does: nothing when the attempt is limited, otherwise
  it records a failure or clears the key. \<open>query\<close> is the public \<open>retry_after\<close>, callable at any time.
\<close>

inductive limiter_step :: "limiter_config \<Rightarrow> 'k sys \<Rightarrow> 'k sys \<Rightarrow> bool" for cfg where
  enter: "threads s t = Idle \<Longrightarrow> attempt_enter cfg (shared s) k now = (Some a, l') \<Longrightarrow>
    limiter_step cfg s (s\<lparr>shared := l', threads := (threads s)(t := Waiting k a)\<rparr>)"
| enter_full: "threads s t = Idle \<Longrightarrow> attempt_enter cfg (shared s) k now = (None, l') \<Longrightarrow>
    limiter_step cfg s (s\<lparr>shared := l'\<rparr>)"
| acquire: "threads s t = Waiting k a \<Longrightarrow> \<not> gate_locked (heap (shared s) a) \<Longrightarrow>
    limiter_step cfg s (s\<lparr>shared := gate_acquire (shared s) a, threads := (threads s)(t := Checking k a)\<rparr>)"
| check: "threads s t = Checking k a \<Longrightarrow> gate_check cfg (shared s) a now = (r, l') \<Longrightarrow>
    limiter_step cfg s (s\<lparr>shared := l', threads := (threads s)(t := Body k a r)\<rparr>)"
| failure: "threads s t = Body k a 0 \<Longrightarrow>
    limiter_step cfg s (s\<lparr>shared := snd (record_failure cfg (shared s) k now)\<rparr>)"
| success: "threads s t = Body k a 0 \<Longrightarrow>
    limiter_step cfg s (s\<lparr>shared := clear_failures (shared s) k\<rparr>)"
| release: "threads s t = Body k a r \<Longrightarrow>
    limiter_step cfg s (s\<lparr>shared := gate_release (shared s) a, threads := (threads s)(t := Leaving k a)\<rparr>)"
| leave: "threads s t = Leaving k a \<Longrightarrow>
    limiter_step cfg s (s\<lparr>shared := attempt_leave (shared s) k a, threads := (threads s)(t := Idle)\<rparr>)"
| query: "limiter_step cfg s (s\<lparr>shared := snd (limiter_retry_after cfg (shared s) k now)\<rparr>)"

inductive limiter_reachable :: "limiter_config \<Rightarrow> 'k sys \<Rightarrow> bool" for cfg where
  start: "init_limiter cfg now = Inr l \<Longrightarrow> limiter_reachable cfg \<lparr>shared = l, threads = (\<lambda>_. Idle)\<rparr>"
| step: "limiter_reachable cfg s \<Longrightarrow> limiter_step cfg s s' \<Longrightarrow> limiter_reachable cfg s'"

definition holders :: "'k sys \<Rightarrow> nat \<Rightarrow> nat set" where
  "holders s a = {t. \<exists>k. holds (threads s t) = Some (k, a)}"

definition gaters :: "'k sys \<Rightarrow> nat \<Rightarrow> nat set" where
  "gaters s a = {t. gated (threads s t) = Some a}"

definition sys_inv :: "limiter_config \<Rightarrow> 'k sys \<Rightarrow> bool" where
  "sys_inv cfg s \<longleftrightarrow>
     limiter_wf cfg (shared s) \<and> finite {t. threads s t \<noteq> Idle}
     \<and> (\<forall>t k a. holds (threads s t) = Some (k, a) \<longrightarrow> map_of (states (shared s)) k = Some a)
     \<and> (\<forall>a < next_addr (shared s). references (heap (shared s) a) = int (card (holders s a)))
     \<and> (\<forall>a < next_addr (shared s). gate_locked (heap (shared s) a) \<longleftrightarrow> gaters s a \<noteq> {})
     \<and> (\<forall>a t t'. t \<in> gaters s a \<and> t' \<in> gaters s a \<longrightarrow> t = t')"

lemma finite_holders: "finite {t. threads s t \<noteq> Idle} \<Longrightarrow> finite (holders s a)"
  by (rule finite_subset) (auto simp: holders_def)

lemma holders_move:
  "holders (r\<lparr>threads := (threads s)(t := p)\<rparr>) a =
     (if \<exists>k. holds p = Some (k, a) then insert t (holders s a) else holders s a - {t})"
  by (auto simp: holders_def)

lemma gaters_move:
  "gaters (r\<lparr>threads := (threads s)(t := p)\<rparr>) a =
     (if gated p = Some a then insert t (gaters s a) else gaters s a - {t})"
  by (auto simp: gaters_def)

lemma holders_shared [simp]:
  "holders (s\<lparr>shared := l\<rparr>) = holders s" "gaters (s\<lparr>shared := l\<rparr>) = gaters s"
  by (simp_all add: holders_def gaters_def fun_eq_iff)

lemma finite_move:
  "finite {t. threads s t \<noteq> Idle} \<Longrightarrow> finite {u. ((threads s)(t := p)) u \<noteq> Idle}"
  by (rule finite_subset [of _ "insert t {u. threads s u \<noteq> Idle}"]) auto

lemma gated_holds: "gated p = Some a \<Longrightarrow> \<exists>k. holds p = Some (k, a)"
  by (cases p) auto

lemma sys_inv_held:
  assumes "sys_inv cfg s" and "holds (threads s t) = Some (k, a)"
  shows "map_of (states (shared s)) k = Some a" and "a < next_addr (shared s)"
    and "references (heap (shared s) a) > 0" and "t \<in> holders s a" and "finite (holders s a)"
proof -
  show m: "map_of (states (shared s)) k = Some a"
    using assms by (auto simp: sys_inv_def)
  show n: "a < next_addr (shared s)"
    using assms m by (auto simp: sys_inv_def intro: limiter_wf_addr)
  show f: "finite (holders s a)"
    using assms by (auto simp: sys_inv_def intro: finite_holders)
  show h: "t \<in> holders s a"
    using assms by (auto simp: holders_def)
  then have "0 < card (holders s a)"
    using f by (auto simp: card_gt_0_iff)
  with n show "references (heap (shared s) a) > 0"
    using assms by (auto simp: sys_inv_def)
qed

section \<open>Every operation is such a section\<close>

locale limiter_section =
  fixes cfg :: limiter_config and op :: "'k limiter \<Rightarrow> 'k limiter"
  assumes contract: "lock_section cfg l (op l)"
begin

lemma keeps_held:
  assumes "sys_inv cfg s" and "holds (threads s t) = Some (k, a)"
  shows "map_of (states (op (shared s))) k = Some a"
  using contract [of "shared s"] sys_inv_held(1,3) [OF assms] assms(1)
  by (auto simp: lock_section_def sys_inv_def)

lemma keeps_sys_inv:
  assumes inv: "sys_inv cfg s"
  shows "sys_inv cfg (s\<lparr>shared := op (shared s)\<rparr>)"
proof -
  let ?l = "shared s" and ?l' = "op (shared s)"
  have wf: "limiter_wf cfg ?l" using inv by (simp add: sys_inv_def)
  note c = contract [of ?l, unfolded lock_section_def, rule_format, OF wf]
  have empty: "holders s a = {}" "gaters s a = {}" if "next_addr ?l \<le> a" for a
    using sys_inv_held(2) [OF inv] that by (fastforce simp: holders_def gaters_def dest: gated_holds)+
  have counts: "references (heap ?l' a) = int (card (holders s a))"
    and gates: "gate_locked (heap ?l' a) \<longleftrightarrow> gaters s a \<noteq> {}"
    if "a < next_addr ?l'" for a
    using that c inv empty [of a] by (cases "a < next_addr ?l"; auto simp: sys_inv_def)+
  show ?thesis
    using inv c counts gates keeps_held [OF inv] by (auto simp: sys_inv_def)
qed

end

interpretation sec_query: limiter_section cfg "\<lambda>l. snd (limiter_retry_after cfg l k now)" for cfg k now
  by unfold_locales (rule lock_section_retry_after)

interpretation sec_failure: limiter_section cfg "\<lambda>l. snd (record_failure cfg l k now)" for cfg k now
  by unfold_locales (rule lock_section_record_failure)

interpretation sec_clear: limiter_section cfg "\<lambda>l. clear_failures l k" for cfg k
  by unfold_locales (rule lock_section_clear)

interpretation sec_check: limiter_section cfg "\<lambda>l. snd (gate_check cfg l a now)" for cfg a now
  by unfold_locales (rule lock_section_check)

interpretation sec_reserve: limiter_section cfg "\<lambda>l. snd (current_or_reserve cfg l k now)" for cfg k now
  by unfold_locales (rule lock_section_current_or_reserve)

interpretation sec_discard: limiter_section cfg "\<lambda>l. discard_if_inactive l k a" for cfg k a
  by unfold_locales (rule lock_section_discard)

section \<open>The invariant of the interleaving\<close>

lemma current_or_reserve_Some:
  assumes "current_or_reserve cfg l k now = (Some a, l')"
  shows "map_of (states l') k = Some a"
  using assms
  by (auto simp: current_or_reserve_def current_state_def reserve_state_def Let_def
      map_of_dict_update split: option.splits prod.splits if_splits)

lemma shared_threads_swap:
  "s\<lparr>threads := f, shared := l\<rparr> = s\<lparr>shared := l, threads := f\<rparr>"
  by simp

lemma sys_inv_init:
  "init_limiter cfg now = Inr l \<Longrightarrow> sys_inv cfg \<lparr>shared = l, threads = (\<lambda>_. Idle)\<rparr>"
  using limiter_wf_init [of cfg now l]
  by (auto simp: sys_inv_def init_limiter_def gaters_def split: if_splits)

text \<open>The moves of one thread: what it holds before and after, and what happens to the counts.\<close>

lemma sys_inv_take:
  assumes inv: "sys_inv cfg s" and idle: "threads s t = Idle"
    and m: "map_of (states (shared s)) k = Some a"
  shows "sys_inv cfg (s\<lparr>shared := (shared s)\<lparr>heap := (heap (shared s))
      (a := (heap (shared s) a)\<lparr>references := references (heap (shared s) a) + 1\<rparr>)\<rparr>,
    threads := (threads s)(t := Waiting k a)\<rparr>)"
proof -
  have "finite (holders s a)" using inv by (auto simp: sys_inv_def intro: finite_holders)
  moreover have "t \<notin> holders s b" "t \<notin> gaters s b" for b
    using idle by (simp_all add: holders_def gaters_def)
  ultimately show ?thesis
    using inv idle m finite_move [of s t "Waiting k a"]
    by (auto simp: sys_inv_def holders_move gaters_move)
qed

lemma sys_inv_acquire:
  assumes inv: "sys_inv cfg s" and w: "threads s t = Waiting k a"
    and free: "\<not> gate_locked (heap (shared s) a)"
  shows "sys_inv cfg (s\<lparr>shared := gate_acquire (shared s) a, threads := (threads s)(t := Checking k a)\<rparr>)"
proof -
  from inv w have n: "a < next_addr (shared s)" and h: "t \<in> holders s a"
    and m: "map_of (states (shared s)) k = Some a"
    using sys_inv_held [of cfg s t k a] by auto
  have other: "b \<noteq> a \<Longrightarrow> t \<notin> holders s b" "t \<notin> gaters s b" for b
    using w by (simp_all add: holders_def gaters_def)
  have "gaters s a = {}"
    using inv free n by (auto simp: sys_inv_def)
  then show ?thesis
    using inv w n h m other finite_move [of s t "Checking k a"]
    by (auto simp: sys_inv_def holders_move gaters_move gate_acquire_def insert_absorb)
qed

lemma sys_inv_release:
  assumes inv: "sys_inv cfg s" and b: "threads s t = Body k a r"
  shows "sys_inv cfg (s\<lparr>shared := gate_release (shared s) a, threads := (threads s)(t := Leaving k a)\<rparr>)"
proof -
  from inv b have n: "a < next_addr (shared s)" and h: "t \<in> holders s a"
    and m: "map_of (states (shared s)) k = Some a"
    using sys_inv_held [of cfg s t k a] by auto
  have other: "c \<noteq> a \<Longrightarrow> t \<notin> holders s c" "c \<noteq> a \<Longrightarrow> t \<notin> gaters s c" for c
    using b by (simp_all add: holders_def gaters_def)
  have "t \<in> gaters s a" using b by (simp add: gaters_def)
  then have "gaters s a = {t}" using inv unfolding sys_inv_def by blast
  then show ?thesis
    using inv b n h m other finite_move [of s t "Leaving k a"]
    by (auto simp: sys_inv_def holders_move gaters_move gate_release_def insert_absorb)
qed

lemma sys_inv_drop:
  assumes inv: "sys_inv cfg s" and l: "threads s t = Leaving k a"
  shows "sys_inv cfg (s\<lparr>shared := (shared s)\<lparr>heap := (heap (shared s))
      (a := (heap (shared s) a)\<lparr>references := references (heap (shared s) a) - 1\<rparr>)\<rparr>,
    threads := (threads s)(t := Idle)\<rparr>)"
proof -
  from inv l have n: "a < next_addr (shared s)" and h: "t \<in> holders s a"
    and f: "finite (holders s a)"
    using sys_inv_held [of cfg s t k a] by auto
  have other: "b \<noteq> a \<Longrightarrow> t \<notin> holders s b" "t \<notin> gaters s b" for b
    using l by (simp_all add: holders_def gaters_def)
  have "int (card (holders s a - {t})) = int (card (holders s a)) - 1"
    using f h card_gt_0_iff [of "holders s a"] by (auto simp: card_Diff_singleton of_nat_diff)
  then show ?thesis
    using inv l n h other finite_move [of s t "Idle"]
    by (auto simp: sys_inv_def holders_move gaters_move)
qed

lemma sys_inv_check:
  assumes inv: "sys_inv cfg s" and w: "threads s t = Checking k a"
  shows "sys_inv cfg (s\<lparr>threads := (threads s)(t := Body k a r)\<rparr>)"
proof -
  have "t \<in> holders s a" "t \<in> gaters s a"
    using w by (simp_all add: holders_def gaters_def)
  moreover have "b \<noteq> a \<Longrightarrow> t \<notin> holders s b" "b \<noteq> a \<Longrightarrow> t \<notin> gaters s b" for b
    using w by (simp_all add: holders_def gaters_def)
  moreover have "map_of (states (shared s)) k = Some a"
    using sys_inv_held(1) [OF inv, of t k a] w by simp
  ultimately show ?thesis
    using inv finite_move [of s t "Body k a r"]
    by (auto simp: sys_inv_def holders_move gaters_move insert_absorb)
qed

lemma sys_inv_step: "limiter_step cfg s s' \<Longrightarrow> sys_inv cfg s \<Longrightarrow> sys_inv cfg s'"
proof (induction rule: limiter_step.induct)
  case (enter s t k now a l')
  obtain l1 where l1: "current_or_reserve cfg (shared s) k now = (Some a, l1)"
    and l': "l' = l1\<lparr>heap := (heap l1)(a := (heap l1 a)\<lparr>references := references (heap l1 a) + 1\<rparr>)\<rparr>"
    using enter.hyps(2) by (auto simp: attempt_enter_def split: prod.splits option.splits)
  then have "sys_inv cfg (s\<lparr>shared := l1\<rparr>)"
    using sec_reserve.keeps_sys_inv [OF enter.prems, of k now] by simp
  from sys_inv_take [OF this, of t k a] current_or_reserve_Some [OF l1] show ?case
    using enter.hyps(1) by (simp add: l')
next
  case (enter_full s t k now l')
  then have "l' = snd (current_or_reserve cfg (shared s) k now)"
    by (auto simp: attempt_enter_def split: prod.splits option.splits)
  then show ?case using sec_reserve.keeps_sys_inv [OF enter_full.prems] by simp
next
  case (acquire s t k a)
  then show ?case by (intro sys_inv_acquire)
next
  case (check s t k a now r l')
  then have "l' = snd (gate_check cfg (shared s) a now)" by simp
  then have "sys_inv cfg (s\<lparr>shared := l'\<rparr>)"
    using sec_check.keeps_sys_inv [OF check.prems] by simp
  from sys_inv_check [OF this, of t k a r] check.hyps(1) show ?case by simp
next
  case (failure s t k a now)
  then show ?case by (intro sec_failure.keeps_sys_inv)
next
  case (success s t k a)
  then show ?case by (intro sec_clear.keeps_sys_inv)
next
  case (release s t k a r)
  then show ?case by (intro sys_inv_release)
next
  case (leave s t k a)
  from sec_discard.keeps_sys_inv [OF sys_inv_drop [OF leave.prems leave.hyps], of k a]
  show ?case by (simp add: attempt_leave_def shared_threads_swap)
next
  case (query s k now)
  then show ?case by (intro sec_query.keeps_sys_inv)
qed

lemma reachable_sys_inv: "limiter_reachable cfg s \<Longrightarrow> sys_inv cfg s"
  by (induction rule: limiter_reachable.induct) (auto intro: sys_inv_init sys_inv_step)

section \<open>Properties\<close>

text \<open>
  C23. In every reachable state of the rate limiter two threads in the body of \<open>attempt\<close> for the same
  client and user are the same thread: password checks for one key never run concurrently.
\<close>

theorem limiter_mutual_exclusion:
  assumes "limiter_reachable cfg s"
    and "threads s t = Body k a r" and "threads s t' = Body k a' r'"
  shows "t = t'"
proof -
  note inv = reachable_sys_inv [OF assms(1)]
  have "map_of (states (shared s)) k = Some a" "map_of (states (shared s)) k = Some a'"
    using sys_inv_held(1) [OF inv, of t k a] sys_inv_held(1) [OF inv, of t' k a'] assms(2,3)
    by simp_all
  with assms(2,3) have "t \<in> gaters s a" "t' \<in> gaters s a"
    by (simp_all add: gaters_def)
  with inv show ?thesis unfolding sys_inv_def by blast
qed

text \<open>
  In every reachable state the table holds at most \<open>max_states\<close> entries, one per key; an entry
  a thread still uses is in the table under that thread's key, and its reference count is the
  number of threads using it, so cleanup can never forget an attempt in progress.
\<close>

theorem limiter_tables_accurate:
  assumes "limiter_reachable cfg s"
  shows "int (length (states (shared s))) \<le> max_states cfg \<and> distinct (map fst (states (shared s)))
    \<and> (holds (threads s t) = Some (k, a) \<longrightarrow>
         map_of (states (shared s)) k = Some a
         \<and> references (heap (shared s) a) = int (card (holders s a)))"
  using reachable_sys_inv [OF assms] sys_inv_held [of cfg s t k a]
  by (auto simp: sys_inv_def limiter_wf_def)

text \<open>
  No deadlock: in every reachable state a thread that is inside \<open>attempt\<close> and cannot move waits
  for a gate whose holder is another thread, and that holder can move on.
\<close>

theorem limiter_progress:
  assumes "limiter_reachable cfg s" and "holds (threads s t) = Some (k, a)"
  shows "\<exists>t' s'. holds (threads s t') = Some (k, a) \<and> limiter_step cfg s s'
    \<and> threads s' t' \<noteq> threads s t'"
proof -
  note inv = reachable_sys_inv [OF assms(1)]
  have moves: "\<exists>s'. limiter_step cfg s s' \<and> threads s' u \<noteq> threads s u"
    if "gated (threads s u) = Some a \<or> threads s u = Leaving k' a
        \<or> (threads s u = Waiting k a \<and> \<not> gate_locked (heap (shared s) a))" for u k'
  proof (cases "threads s u")
    case Idle
    then show ?thesis using that by simp
  next
    case (Waiting k1 a1)
    from limiter_step.acquire [of s u k1 a1 cfg] that Waiting show ?thesis by force
  next
    case (Checking k1 a1)
    from limiter_step.check [OF Checking surjective_pairing] Checking show ?thesis by force
  next
    case (Body k1 a1 r)
    from limiter_step.release [OF Body, of cfg] Body show ?thesis by force
  next
    case (Leaving k1 a1)
    from limiter_step.leave [OF Leaving, of cfg] Leaving show ?thesis by force
  qed
  show ?thesis
  proof (cases "threads s t = Waiting k a \<and> gate_locked (heap (shared s) a)")
    case True
    then obtain u where u: "gated (threads s u) = Some a"
      using inv sys_inv_held(2) [OF inv assms(2)] by (auto simp: sys_inv_def gaters_def)
    then obtain k' where k': "holds (threads s u) = Some (k', a)"
      using gated_holds by blast
    have "k' = k"
      using limiter_wf_inj sys_inv_held(1) [OF inv k'] sys_inv_held(1) [OF inv assms(2)] inv
      unfolding sys_inv_def by metis
    with moves [of u] u k' show ?thesis by blast
  next
    case False
    with assms(2) have "gated (threads s t) = Some a \<or> threads s t = Leaving k a
        \<or> (threads s t = Waiting k a \<and> \<not> gate_locked (heap (shared s) a))"
      by (cases "threads s t") auto
    with moves [of t k] assms(2) show ?thesis by blast
  qed
qed

section \<open>A concrete run\<close>

text \<open>The configuration \<open>create_app\<close> uses: the defaults of the settings and of the constructor.\<close>

definition default_limiter_config :: limiter_config where
  "default_limiter_config = \<lparr>max_failures = 5, failure_window_seconds = 900,
     lockout_seconds = 900, max_states = 10000, cleanup_interval_seconds = 60,
     cleanup_batch_size = 64\<rparr>"

text \<open>Thread 0 is in the body for key 7, thread 1 has entered and waits for the gate.\<close>

definition busy_limiter :: "nat limiter" where
  "busy_limiter = \<lparr>states = [(7, 0)],
     heap = (\<lambda>_. new_attempt_state)(0 := new_attempt_state\<lparr>references := 2, gate_locked := True\<rparr>),
     next_addr = 1, next_cleanup_at = 60\<rparr>"

definition busy_sys :: "nat sys" where
  "busy_sys = \<lparr>shared = busy_limiter, threads = (\<lambda>_. Idle)(0 := Body 7 0 0, 1 := Waiting 7 0)\<rparr>"

lemmas limiter_defs = attempt_enter_def current_or_reserve_def current_state_def reserve_state_def
  run_scheduled_cleanup_def gate_acquire_def gate_check_def expire_state_def state_retry_after_def
  discard_if_inactive_def inactive_def

lemma busy_reachable: "limiter_reachable default_limiter_config busy_sys"
proof -
  let ?cfg = default_limiter_config
  let ?st = "\<lambda>n g. new_attempt_state\<lparr>references := n, gate_locked := g\<rparr>"
  let ?l = "\<lambda>n g. (\<lparr>states = [(7, 0)], heap = (\<lambda>_. new_attempt_state)(0 := ?st n g),
                  next_addr = 1, next_cleanup_at = 60\<rparr> :: nat limiter)"
  let ?s = "\<lambda>l p q. (\<lparr>shared = l, threads = (\<lambda>_. Idle)(0 := p, 1 := q)\<rparr> :: nat sys)"
  have "limiter_reachable ?cfg \<lparr>shared = \<lparr>states = [], heap = (\<lambda>_. new_attempt_state),
      next_addr = 0, next_cleanup_at = 60\<rparr>, threads = (\<lambda>_. Idle)\<rparr>" (is "limiter_reachable _ ?init")
    by (rule limiter_reachable.start [where now = 0])
      (simp add: init_limiter_def default_limiter_config_def)
  moreover have "limiter_step ?cfg ?init (?s (?l 1 False) (Waiting 7 0) Idle)"
    using limiter_step.enter [of ?init 0 ?cfg 7 1 0 "?l 1 False"]
    by (simp add: limiter_defs default_limiter_config_def new_attempt_state_def fun_upd_idem)
  ultimately have "limiter_reachable ?cfg (?s (?l 1 False) (Waiting 7 0) Idle)"
    by (rule limiter_reachable.step)
  moreover have "limiter_step ?cfg (?s (?l 1 False) (Waiting 7 0) Idle) (?s (?l 1 True) (Checking 7 0) Idle)"
    using limiter_step.acquire [of "?s (?l 1 False) (Waiting 7 0) Idle" 0 7 0 ?cfg]
    by (simp add: gate_acquire_def fun_upd_twist)
  ultimately have "limiter_reachable ?cfg (?s (?l 1 True) (Checking 7 0) Idle)"
    by (rule limiter_reachable.step)
  moreover have "limiter_step ?cfg (?s (?l 1 True) (Checking 7 0) Idle) (?s (?l 1 True) (Body 7 0 0) Idle)"
    using limiter_step.check [of "?s (?l 1 True) (Checking 7 0) Idle" 0 7 0 ?cfg 1 0 "?l 1 True"]
    by (simp add: limiter_defs default_limiter_config_def fun_upd_twist new_attempt_state_def)
  ultimately have "limiter_reachable ?cfg (?s (?l 1 True) (Body 7 0 0) Idle)"
    by (rule limiter_reachable.step)
  moreover have "limiter_step ?cfg (?s (?l 1 True) (Body 7 0 0) Idle) busy_sys"
    using limiter_step.enter [of "?s (?l 1 True) (Body 7 0 0) Idle" 1 ?cfg 7 2 0 busy_limiter]
    by (simp add: limiter_defs default_limiter_config_def busy_sys_def busy_limiter_def
        new_attempt_state_def)
  ultimately show ?thesis
    by (rule limiter_reachable.step)
qed

theorem limiter_mutual_exclusion_witness:
  "limiter_reachable default_limiter_config busy_sys \<and> threads busy_sys 0 = Body 7 0 0
   \<and> {t. \<exists>a r. threads busy_sys t = Body 7 a r} = {0}"
proof -
  have "threads busy_sys 0 = Body 7 0 0" by (simp add: busy_sys_def)
  with limiter_mutual_exclusion [OF busy_reachable this] busy_reachable show ?thesis by blast
qed

theorem limiter_tables_accurate_witness:
  "limiter_reachable default_limiter_config busy_sys
   \<and> references (heap (shared busy_sys) 0) = int (card (holders busy_sys 0))
   \<and> references (heap (shared busy_sys) 0) = 2"
  using limiter_tables_accurate [OF busy_reachable, of 1 7 0] busy_reachable
  by (simp add: busy_sys_def busy_limiter_def)

theorem limiter_progress_witness:
  "limiter_reachable default_limiter_config busy_sys \<and> threads busy_sys 1 = Waiting 7 0
   \<and> (\<exists>t' s'. holds (threads busy_sys t') = Some (7, 0)
        \<and> limiter_step default_limiter_config busy_sys s' \<and> threads s' t' \<noteq> threads busy_sys t')"
  using limiter_progress [OF busy_reachable, of 1 7 0] busy_reachable
  by (simp add: busy_sys_def)

end
