(* ===== verification/Rate_Limiter_Bounds.thy ===== *)
theory Rate_Limiter_Bounds
  imports Rate_Limiter_Steps
begin

text \<open>
  What the limiter guarantees against password guessing. \<open>view\<close> reads one key's attempt state,
  whatever the table did with its entry; \<open>maintains\<close> says an operation at time \<open>now\<close> leaves every
  key's failures and lock as they were or as expiring them at \<open>now\<close> makes them, so eviction and
  cleanup never forget a failure that still counts. From it follows the sliding-window bound on
  admitted failing attempts.
\<close>

section \<open>One key's state\<close>

definition view :: "'k limiter \<Rightarrow> 'k \<Rightarrow> attempt_state" where
  "view l k = (case map_of (states l) k of None \<Rightarrow> new_attempt_state | Some a \<Rightarrow> heap l a)"

definition core :: "attempt_state \<Rightarrow> real list \<times> real" where
  "core st = (failures st, locked_until st)"

definition expire_core :: "limiter_config \<Rightarrow> real \<Rightarrow> real list \<times> real \<Rightarrow> real list \<times> real" where
  "expire_core cfg now c =
     (let c1 = (if snd c \<noteq> 0 \<and> snd c \<le> now then ([], 0) else c)
      in (dropWhile (\<lambda>f. f \<le> now - of_int (failure_window_seconds cfg)) (fst c1), snd c1))"

lemma core_expire: "core (expire_state cfg st now) = expire_core cfg now (core st)"
  by (simp add: core_def expire_state_def expire_core_def Let_def)

lemma core_new [simp]: "core new_attempt_state = ([], 0)"
  by (simp add: core_def)

lemma core_updates [simp]:
  "core (st\<lparr>references := n\<rparr>) = core st" "core (st\<lparr>gate_locked := g\<rparr>) = core st"
  by (simp_all add: core_def)

lemma inactive_core: "inactive st \<Longrightarrow> core st = ([], 0)"
  by (simp add: inactive_def core_def)

lemma expire_core_idem: "expire_core cfg now (expire_core cfg now c) = expire_core cfg now c"
  by (auto simp: expire_core_def Let_def)

definition maintains :: "limiter_config \<Rightarrow> real \<Rightarrow> 'k limiter \<Rightarrow> 'k limiter \<Rightarrow> bool" where
  "maintains cfg now l l' \<longleftrightarrow>
     limiter_wf cfg l \<longrightarrow> limiter_wf cfg l' \<and>
       (\<forall>k. core (view l' k) \<in> {core (view l k), expire_core cfg now (core (view l k))})"

lemma maintains_refl: "maintains cfg now l l"
  by (simp add: maintains_def)

lemma maintains_trans:
  assumes "maintains cfg now l1 l2" and "maintains cfg now l2 l3"
  shows "maintains cfg now l1 l3"
  unfolding maintains_def
proof (intro impI conjI allI)
  assume wf: "limiter_wf cfg l1"
  with assms(1) have wf2: "limiter_wf cfg l2" by (simp add: maintains_def)
  with assms(2) show "limiter_wf cfg l3" by (simp add: maintains_def)
  fix k
  from assms(1) wf have "core (view l2 k) \<in> {core (view l1 k), expire_core cfg now (core (view l1 k))}"
    by (simp add: maintains_def)
  moreover from assms(2) wf2
  have "core (view l3 k) \<in> {core (view l2 k), expire_core cfg now (core (view l2 k))}"
    by (simp add: maintains_def)
  ultimately show "core (view l3 k) \<in> {core (view l1 k), expire_core cfg now (core (view l1 k))}"
    by (elim insertE singletonE emptyE) (simp_all add: expire_core_idem)
qed

lemma view_heap_update:
  assumes "limiter_wf cfg l" and "map_of (states l) k = Some a"
  shows "view (l\<lparr>heap := (heap l)(a := st)\<rparr>) k' = (if k' = k then st else view l k')"
proof (cases "k' = k")
  case True
  with assms(2) show ?thesis by (simp add: view_def)
next
  case False
  then have "map_of (states l) k' \<noteq> Some a"
    using limiter_wf_inj [OF assms] by blast
  with False show ?thesis by (auto simp: view_def split: option.splits)
qed

lemma view_heap_core:
  assumes "core st = core (heap l a)"
  shows "core (view (l\<lparr>heap := (heap l)(a := st)\<rparr>) k) = core (view l k)"
  using assms by (simp add: view_def split: option.splits)

lemma maintains_counts:
  "core st = core (heap l a) \<Longrightarrow> maintains cfg now l (l\<lparr>heap := (heap l)(a := st)\<rparr>)"
  by (simp add: maintains_def view_heap_core)

lemma maintains_expire:
  "maintains cfg now l (l\<lparr>heap := (heap l)(a := expire_state cfg (heap l a) now)\<rparr>)"
  by (auto simp: maintains_def view_def core_expire split: option.splits)

lemma maintains_discard: "maintains cfg now l (discard_if_inactive l key a)"
  using limiter_wf_delete [of cfg l key]
  by (auto simp: maintains_def discard_if_inactive_def view_def map_of_dict_delete inactive_core
      split: option.splits)

lemma maintains_reserve:
  assumes "map_of (states l) key = None"
  shows "maintains cfg now l (snd (reserve_state cfg l key))"
proof (cases "max_states cfg \<le> int (length (states l))")
  case True
  then show ?thesis by (simp add: reserve_state_def maintains_refl)
next
  case False
  show ?thesis
    unfolding maintains_def
  proof (intro impI conjI allI)
    assume wf: "limiter_wf cfg l"
    show "limiter_wf cfg (snd (reserve_state cfg l key))"
      using wf assms by (intro limiter_wf_reserve) (auto simp: map_of_eq_None_iff)
    fix k
    show "core (view (snd (reserve_state cfg l key)) k)
        \<in> {core (view l k), expire_core cfg now (core (view l k))}"
      using False assms limiter_wf_addr [OF wf, of k]
      by (auto simp: reserve_state_def view_def Let_def map_of_dict_update split: option.splits)
  qed
qed

lemma maintains_current: "maintains cfg now l (snd (current_state cfg l key now))"
  by (auto simp: current_state_def Let_def maintains_refl split: option.splits
      intro: maintains_trans maintains_expire maintains_discard)

lemma maintains_pop:
  assumes "states l = (key, a) # rest"
  shows "maintains cfg now l
    (let st = expire_state cfg (heap l a) now;
         l1 = l\<lparr>states := rest, heap := (heap l)(a := st)\<rparr>
     in if references st \<noteq> 0 \<or> failures st \<noteq> [] \<or> locked_until st \<noteq> 0
        then l1\<lparr>states := AList.update key a rest\<rparr> else l1)" (is "maintains _ _ _ ?l'")
  unfolding maintains_def
proof (intro impI conjI allI)
  assume wf: "limiter_wf cfg l"
  then show "limiter_wf cfg ?l'"
    using lock_section_pop [OF assms, of cfg now] by (simp add: lock_section_def Let_def)
  fix k
  have k: "map_of rest key = None" and a: "map_of rest k \<noteq> Some a"
    using wf assms by (force simp: limiter_wf_def map_of_eq_None_iff dest: map_of_SomeD)+
  show "core (view ?l' k) \<in> {core (view l k), expire_core cfg now (core (view l k))}"
    using assms k a core_expire [of cfg "heap l a" now]
    by (auto simp: view_def Let_def map_of_dict_update core_def split: option.splits)
qed

lemma maintains_batch: "maintains cfg now l (cleanup_batch cfg now n l)"
proof (induction n arbitrary: l)
  case 0
  show ?case by (simp add: maintains_refl)
next
  case (Suc n)
  show ?case
  proof (cases "states l")
    case Nil
    then show ?thesis by (simp add: maintains_refl)
  next
    case (Cons p rest)
    then obtain key a where "states l = (key, a) # rest" by (cases p) auto
    from maintains_trans [OF maintains_pop [OF this, of cfg now] Suc.IH] this
    show ?thesis by (simp add: Let_def)
  qed
qed

lemma maintains_cleanup: "maintains cfg now l (run_scheduled_cleanup cfg l now)"
proof -
  have "maintains cfg now l (l\<lparr>next_cleanup_at := t\<rparr>)" for t
    by (simp add: maintains_def view_def split: option.splits)
  then show ?thesis
    by (auto simp: run_scheduled_cleanup_def maintains_refl
        intro: maintains_trans maintains_batch)
qed

lemma maintains_current_or_reserve:
  "maintains cfg now l (snd (current_or_reserve cfg l key now))"
proof -
  obtain ao l1 where c: "current_state cfg (run_scheduled_cleanup cfg l now) key now = (ao, l1)"
    by (cases "current_state cfg (run_scheduled_cleanup cfg l now) key now")
  have "maintains cfg now l l1"
    using maintains_trans [OF maintains_cleanup maintains_current, of cfg now l key] c by simp
  then show ?thesis
    using c by (cases ao) (auto simp: current_or_reserve_def
        intro: maintains_trans maintains_reserve dest: current_state_None)
qed

section \<open>The window invariant of one key\<close>

text \<open>
  \<open>acc\<close> are the times of the admitted failures of a key, oldest first. The stored failures are a
  suffix of them; whatever is no longer stored is at least \<open>guard_seconds\<close> old.
\<close>

definition guard_seconds :: "limiter_config \<Rightarrow> real" where
  "guard_seconds cfg = of_int (min (failure_window_seconds cfg) (lockout_seconds cfg))"

definition window_inv :: "limiter_config \<Rightarrow> real list \<Rightarrow> real \<Rightarrow> real list \<times> real \<Rightarrow> bool" where
  "window_inv cfg acc t c \<longleftrightarrow>
     (\<exists>old. acc = old @ fst c \<and> (\<forall>x \<in> set old. x \<le> t - guard_seconds cfg))
     \<and> (\<forall>x \<in> set acc. x \<le> t)
     \<and> (snd c = 0 \<longrightarrow> int (length (fst c)) < max_failures cfg)
     \<and> (snd c \<noteq> 0 \<longrightarrow> (\<forall>x \<in> set acc. x \<le> snd c - of_int (lockout_seconds cfg)))"

lemma window_invI:
  assumes "acc = old @ fst c" and "\<And>x. x \<in> set old \<Longrightarrow> x \<le> t - guard_seconds cfg"
    and "\<And>x. x \<in> set acc \<Longrightarrow> x \<le> t"
    and "snd c = 0 \<Longrightarrow> int (length (fst c)) < max_failures cfg"
    and "\<And>x. snd c \<noteq> 0 \<Longrightarrow> x \<in> set acc \<Longrightarrow> x \<le> snd c - of_int (lockout_seconds cfg)"
  shows "window_inv cfg acc t c"
  unfolding window_inv_def using assms by blast

lemma window_invE:
  assumes "window_inv cfg acc t c"
  obtains old where "acc = old @ fst c" and "\<And>x. x \<in> set old \<Longrightarrow> x \<le> t - guard_seconds cfg"
    and "\<And>x. x \<in> set acc \<Longrightarrow> x \<le> t"
    and "snd c = 0 \<Longrightarrow> int (length (fst c)) < max_failures cfg"
    and "\<And>x. snd c \<noteq> 0 \<Longrightarrow> x \<in> set acc \<Longrightarrow> x \<le> snd c - of_int (lockout_seconds cfg)"
  using assms unfolding window_inv_def by blast

lemma window_inv_later:
  assumes "window_inv cfg acc t c" and "t \<le> now"
  shows "window_inv cfg acc now c"
  using assms(1)
proof (rule window_invE)
  fix old
  assume old: "acc = old @ fst c" "\<And>x. x \<in> set old \<Longrightarrow> x \<le> t - guard_seconds cfg"
    and le: "\<And>x. x \<in> set acc \<Longrightarrow> x \<le> t"
    and rest: "snd c = 0 \<Longrightarrow> int (length (fst c)) < max_failures cfg"
      "\<And>x. snd c \<noteq> 0 \<Longrightarrow> x \<in> set acc \<Longrightarrow> x \<le> snd c - of_int (lockout_seconds cfg)"
  show ?thesis
  proof (rule window_invI [OF old(1)])
    show "x \<le> now - guard_seconds cfg" if "x \<in> set old" for x
      using old(2) [OF that] assms(2) by linarith
    show "x \<le> now" if "x \<in> set acc" for x
      using le [OF that] assms(2) by linarith
  qed (use rest in blast)+
qed

lemma guard_le: "guard_seconds cfg \<le> of_int (failure_window_seconds cfg)"
  "guard_seconds cfg \<le> of_int (lockout_seconds cfg)"
  by (simp_all add: guard_seconds_def)

lemma window_inv_expire:
  assumes "window_inv cfg acc t c" and now: "t \<le> now" and m: "0 < max_failures cfg"
  shows "window_inv cfg acc now (expire_core cfg now c)"
  using window_inv_later [OF assms(1,2)]
proof (rule window_invE)
  fix old
  assume old: "acc = old @ fst c" "\<And>x. x \<in> set old \<Longrightarrow> x \<le> now - guard_seconds cfg"
    and le: "\<And>x. x \<in> set acc \<Longrightarrow> x \<le> now"
    and open_len: "snd c = 0 \<Longrightarrow> int (length (fst c)) < max_failures cfg"
    and lock: "\<And>x. snd c \<noteq> 0 \<Longrightarrow> x \<in> set acc \<Longrightarrow> x \<le> snd c - of_int (lockout_seconds cfg)"
  let ?p = "\<lambda>f. f \<le> now - of_int (failure_window_seconds cfg)"
  show ?thesis
  proof (cases "snd c \<noteq> 0 \<and> snd c \<le> now")
    case True
    then have e: "expire_core cfg now c = ([], 0)" by (simp add: expire_core_def)
    show ?thesis
    proof (rule window_invI [where old = acc])
      show "x \<le> now - guard_seconds cfg" if "x \<in> set acc" for x
        using lock [OF _ that] True guard_le(2) [of cfg] by force
    qed (use le m e in simp_all)
  next
    case False
    then have e: "expire_core cfg now c = (dropWhile ?p (fst c), snd c)"
      by (auto simp: expire_core_def Let_def)
    show ?thesis
    proof (rule window_invI [where old = "old @ takeWhile ?p (fst c)"])
      show "x \<le> now - guard_seconds cfg" if "x \<in> set (old @ takeWhile ?p (fst c))" for x
        using that old(2) guard_le(1) [of cfg] by (fastforce dest: set_takeWhileD)
      show "int (length (fst (expire_core cfg now c))) < max_failures cfg"
        if "snd (expire_core cfg now c) = 0"
        using open_len that length_dropWhile_le [of ?p "fst c"] by (simp add: e)
    qed (use old le lock e in auto)
  qed
qed

lemma window_inv_maintained:
  assumes "maintains cfg now l l'" and "limiter_wf cfg l" and "t \<le> now" and "0 < max_failures cfg"
    and inv: "window_inv cfg acc t (core (view l k))"
  shows "window_inv cfg acc now (core (view l' k))"
proof -
  from assms(1,2) have "core (view l' k) = core (view l k)
      \<or> core (view l' k) = expire_core cfg now (core (view l k))"
    by (simp add: maintains_def)
  then show ?thesis
    using window_inv_later [OF inv assms(3)] window_inv_expire [OF inv assms(3,4)] by auto
qed

lemma window_inv_record:
  assumes inv: "window_inv cfg acc now (f, 0)" and cfg: "0 < lockout_seconds cfg" "0 \<le> now"
  shows "window_inv cfg (acc @ [now]) now
    (f @ [now], if int (length (f @ [now])) < max_failures cfg then 0
                else now + of_int (lockout_seconds cfg))"
  using inv
proof (rule window_invE)
  fix old
  assume old: "acc = old @ fst (f, 0::real)" "\<And>x. x \<in> set old \<Longrightarrow> x \<le> now - guard_seconds cfg"
    and le: "\<And>x. x \<in> set acc \<Longrightarrow> x \<le> now"
  have "now + of_int (lockout_seconds cfg) \<noteq> 0" using cfg by linarith
  then show ?thesis
    by (intro window_invI [where old = old]) (use old le in \<open>auto split: if_splits\<close>)
qed

definition spaced :: "limiter_config \<Rightarrow> real list \<Rightarrow> bool" where
  "spaced cfg acc \<longleftrightarrow>
     (\<forall>i. i + nat (max_failures cfg) < length acc \<longrightarrow>
        guard_seconds cfg \<le> acc ! (i + nat (max_failures cfg)) - acc ! i)"

lemma spaced_record:
  assumes "spaced cfg acc" and inv: "window_inv cfg acc now (f, 0)" and m: "0 < max_failures cfg"
  shows "spaced cfg (acc @ [now])"
  unfolding spaced_def
proof (intro allI impI)
  fix i
  assume i: "i + nat (max_failures cfg) < length (acc @ [now])"
  show "guard_seconds cfg \<le> (acc @ [now]) ! (i + nat (max_failures cfg)) - (acc @ [now]) ! i"
  proof (cases "i + nat (max_failures cfg) < length acc")
    case True
    with assms(1) show ?thesis by (simp add: spaced_def nth_append)
  next
    case False
    from inv obtain old where old: "acc = old @ f" "\<forall>x \<in> set old. x \<le> now - guard_seconds cfg"
      and f: "int (length f) < max_failures cfg"
      by (auto simp: window_inv_def)
    from False i have eq: "i + nat (max_failures cfg) = length acc" by simp
    with old f have "i < length old" by simp
    with old have "acc ! i \<le> now - guard_seconds cfg" by (simp add: nth_append)
    then have "guard_seconds cfg \<le> now - acc ! i" by linarith
    with eq \<open>i < length old\<close> old(1) show ?thesis by (simp add: nth_append)
  qed
qed

section \<open>Runs of failing attempts\<close>

text \<open>
  One failing login as \<open>login\<close> makes it: limited attempts stop, the others record a failure. An
  event carries the key and the three clock readings (entry, gate, failure).
\<close>

type_synonym 'k attempt_event = "'k \<times> real \<times> real \<times> real"

definition failing_body ::
  "limiter_config \<Rightarrow> 'k \<Rightarrow> real \<Rightarrow> int \<Rightarrow> 'k limiter \<Rightarrow> bool \<times> 'k limiter" where
  "failing_body cfg k now r l =
     (if r \<noteq> 0 then (False, l) else (True, snd (record_failure cfg l k now)))"

fun failing_run ::
  "limiter_config \<Rightarrow> 'k limiter \<Rightarrow> ('k \<times> real) list \<Rightarrow> 'k attempt_event list \<Rightarrow>
     'k limiter \<times> ('k \<times> real) list" where
  "failing_run cfg l acc [] = (l, acc)"
| "failing_run cfg l acc ((k, t1, t2, t3) # es) =
     (case with_attempt cfg l k t1 t2 (failing_body cfg k t3) of
        (admitted, l') \<Rightarrow> failing_run cfg l' (if admitted then acc @ [(k, t3)] else acc) es)"

fun timed :: "real \<Rightarrow> 'k attempt_event list \<Rightarrow> bool" where
  "timed t [] \<longleftrightarrow> True"
| "timed t ((k, t1, t2, t3) # es) \<longleftrightarrow> t \<le> t1 \<and> t1 \<le> t2 \<and> t2 \<le> t3 \<and> timed t3 es"

definition key_times :: "'k \<Rightarrow> ('k \<times> real) list \<Rightarrow> real list" where
  "key_times k acc = map snd (filter (\<lambda>p. fst p = k) acc)"

lemma key_times_append [simp]:
  "key_times k (acc @ [(k', t)]) = (if k' = k then key_times k acc @ [t] else key_times k acc)"
  by (simp add: key_times_def)

definition windows_ok :: "limiter_config \<Rightarrow> 'k limiter \<Rightarrow> ('k \<times> real) list \<Rightarrow> real \<Rightarrow> bool" where
  "windows_ok cfg l acc t \<longleftrightarrow> limiter_wf cfg l \<and>
     (\<forall>k. window_inv cfg (key_times k acc) t (core (view l k)) \<and> spaced cfg (key_times k acc))"

definition only_user :: "'k limiter \<Rightarrow> nat option \<Rightarrow> bool" where
  "only_user l u \<longleftrightarrow>
     (\<forall>a < next_addr l. references (heap l a) = (if u = Some a then 1 else 0))"

lemma windows_ok_maintained:
  "windows_ok cfg l acc t \<Longrightarrow> maintains cfg now l l' \<Longrightarrow> t \<le> now \<Longrightarrow> 0 < max_failures cfg \<Longrightarrow>
     windows_ok cfg l' acc now"
  using window_inv_maintained [of cfg now l l' t] by (auto simp: windows_ok_def maintains_def)

lemma only_user_section:
  assumes "lock_section cfg l l'" and "limiter_wf cfg l" and "only_user l u"
    and "\<And>a. u = Some a \<Longrightarrow> a < next_addr l"
  shows "only_user l' u"
  unfolding only_user_def
proof (intro allI impI)
  fix a
  assume "a < next_addr l'"
  then show "references (heap l' a) = (if u = Some a then 1 else 0)"
    using assms by (cases "a < next_addr l") (force simp: lock_section_def only_user_def)+
qed

lemma current_or_reserve_None:
  "current_or_reserve cfg l k now = (None, l') \<Longrightarrow> map_of (states l') k = None"
  by (auto simp: current_or_reserve_def reserve_state_def Let_def split: prod.splits option.splits
      if_splits dest: current_state_None)

lemma held_current:
  assumes wf: "limiter_wf cfg l" and m: "map_of (states l) k = Some a"
    and u: "only_user l (Some a)"
  shows "\<exists>l'. current_or_reserve cfg l k now = (Some a, l') \<and> map_of (states l') k = Some a"
proof -
  obtain ao l' where c: "current_or_reserve cfg l k now = (ao, l')"
    by (cases "current_or_reserve cfg l k now")
  have "references (heap l a) \<noteq> 0"
    using u limiter_wf_addr [OF wf m] by (simp add: only_user_def)
  then have m': "map_of (states l') k = Some a"
    using lock_section_current_or_reserve [of cfg l k now] wf m c
    by (auto simp: lock_section_def)
  then show ?thesis
    using c current_or_reserve_None current_or_reserve_Some by (cases ao) fastforce+
qed

lemma core_view_unlocked:
  assumes "maintains cfg now l l'" and "limiter_wf cfg l" and "snd (core (view l k)) = 0"
  shows "snd (core (view l' k)) = 0"
proof -
  from assms(1,2) have "core (view l' k) = core (view l k)
      \<or> core (view l' k) = expire_core cfg now (core (view l k))"
    by (simp add: maintains_def)
  then show ?thesis using assms(3) by (elim disjE) (simp_all add: expire_core_def)
qed

text \<open>The state between entering and leaving: the entry is there and only this thread uses it.\<close>

definition inside :: "limiter_config \<Rightarrow> 'k limiter \<Rightarrow> ('k \<times> real) list \<Rightarrow> real \<Rightarrow> 'k \<Rightarrow> nat \<Rightarrow> bool" where
  "inside cfg l acc t k a \<longleftrightarrow>
     windows_ok cfg l acc t \<and> only_user l (Some a) \<and> map_of (states l) k = Some a"

lemma inside_counts:
  assumes "inside cfg l acc t k a" and "core st = core (heap l a)" and "references st = references (heap l a)"
  shows "inside cfg (l\<lparr>heap := (heap l)(a := st)\<rparr>) acc t k a"
  using assms by (simp add: inside_def windows_ok_def view_heap_core only_user_def)

lemma inside_enter:
  assumes ok: "windows_ok cfg l acc t" and u: "only_user l None"
    and t: "t \<le> now" and m: "0 < max_failures cfg"
  shows "case attempt_enter cfg l k now of
      (None, l') \<Rightarrow> windows_ok cfg l' acc now \<and> only_user l' None
    | (Some a, l') \<Rightarrow> inside cfg l' acc now k a"
proof -
  obtain ao l1 where c: "current_or_reserve cfg l k now = (ao, l1)"
    by (cases "current_or_reserve cfg l k now")
  have ok1: "windows_ok cfg l1 acc now"
    using windows_ok_maintained [OF ok maintains_current_or_reserve t m, of k] c by simp
  have u1: "only_user l1 None"
    using only_user_section [OF lock_section_current_or_reserve _ u, of cfg k now] ok c
    by (simp add: windows_ok_def)
  show ?thesis
  proof (cases ao)
    case None
    with c ok1 u1 show ?thesis by (simp add: attempt_enter_def)
  next
    case (Some a)
    with c have m1: "map_of (states l1) k = Some a" by (simp add: current_or_reserve_Some)
    then have "a < next_addr l1" using ok1 by (auto simp: windows_ok_def intro: limiter_wf_addr)
    with Some c ok1 u1 m1 show ?thesis
      by (simp add: attempt_enter_def inside_def windows_ok_def view_heap_core only_user_def)
  qed
qed

lemma state_retry_after_zero: "state_retry_after st now = 0 \<longleftrightarrow> locked_until st \<le> now"
proof -
  have "\<lceil>locked_until st - now\<rceil> \<noteq> 0" if "\<not> locked_until st \<le> now"
    using that zero_less_ceiling [of "locked_until st - now"] by linarith
  then show ?thesis by (auto simp: state_retry_after_def)
qed

lemma inside_check:
  assumes i: "inside cfg l acc t k a" and t: "t \<le> now" and m: "0 < max_failures cfg"
    and g: "gate_check cfg l a now = (r, l')"
  shows "inside cfg l' acc now k a" and "r = 0 \<Longrightarrow> snd (core (view l' k)) = 0"
proof -
  have l': "l' = l\<lparr>heap := (heap l)(a := expire_state cfg (heap l a) now)\<rparr>"
    and r: "r = state_retry_after (expire_state cfg (heap l a) now) now"
    using g by (auto simp: gate_check_def Let_def)
  have wf: "limiter_wf cfg l" and mk: "map_of (states l) k = Some a"
    using i by (simp_all add: inside_def windows_ok_def)
  show "inside cfg l' acc now k a"
    using i windows_ok_maintained [OF _ maintains_expire t m, of l acc a]
    by (simp add: inside_def l' only_user_def)
  have "view l' k = expire_state cfg (heap l a) now"
    using view_heap_update [OF wf mk] by (simp add: l')
  then show "snd (core (view l' k)) = 0" if "r = 0"
    using that state_retry_after_zero [of "expire_state cfg (heap l a) now" now] r
    by (auto simp: core_def expire_state_def Let_def split: if_splits)
qed

lemma inside_record:
  assumes i: "inside cfg l acc t k a" and t: "t \<le> now" "0 \<le> now"
    and cfg: "0 < max_failures cfg" "0 < lockout_seconds cfg"
    and unlocked: "snd (core (view l k)) = 0"
  shows "inside cfg (snd (record_failure cfg l k now)) (acc @ [(k, now)]) now k a"
proof -
  have wf: "limiter_wf cfg l" and ok: "windows_ok cfg l acc t" and u: "only_user l (Some a)"
    and mk: "map_of (states l) k = Some a"
    using i by (simp_all add: inside_def windows_ok_def)
  from held_current [OF wf mk u] obtain l1 where c: "current_or_reserve cfg l k now = (Some a, l1)"
    and m1: "map_of (states l1) k = Some a" by blast
  have mt: "maintains cfg now l l1" and sec: "lock_section cfg l l1"
    using maintains_current_or_reserve [of cfg now l k]
      lock_section_current_or_reserve [of cfg l k now] c by simp_all
  have ok1: "windows_ok cfg l1 acc now" by (rule windows_ok_maintained [OF ok mt t(1) cfg(1)])
  have u1: "only_user l1 (Some a)"
    using only_user_section [OF sec wf u] limiter_wf_addr [OF wf mk] by simp
  have wf1: "limiter_wf cfg l1" using ok1 by (simp add: windows_ok_def)
  have v1: "view l1 k = heap l1 a" using m1 by (simp add: view_def)
  have open1: "core (heap l1 a) = (failures (heap l1 a), 0)"
    using core_view_unlocked [OF mt wf unlocked] by (simp add: v1 core_def)
  define lock where "lock = (if int (length (failures (heap l1 a) @ [now])) < max_failures cfg then 0
                             else now + of_int (lockout_seconds cfg))"
  let ?st = "(heap l1 a)\<lparr>failures := failures (heap l1 a) @ [now], locked_until := lock\<rparr>"
  have rf: "snd (record_failure cfg l k now) = l1\<lparr>heap := (heap l1)(a := ?st)\<rparr>"
    using c open1
    by (cases "heap l1 a") (auto simp: record_failure_def Let_def lock_def core_def)
  have win: "window_inv cfg (key_times k acc) now (failures (heap l1 a), 0)"
    and sp: "spaced cfg (key_times k acc)"
    using ok1 v1 open1 by (auto simp: windows_ok_def dest!: spec [of _ k])
  have "window_inv cfg (key_times k acc @ [now]) now (core ?st)"
    using window_inv_record [OF win cfg(2) t(2)] by (simp add: core_def lock_def)
  moreover have "spaced cfg (key_times k acc @ [now])"
    by (rule spaced_record [OF sp win cfg(1)])
  ultimately show ?thesis
    unfolding rf using ok1 u1 m1 wf1 view_heap_update [OF wf1 m1]
    by (simp add: inside_def windows_ok_def only_user_def)
qed

lemma inside_leave:
  assumes i: "inside cfg l acc t k a" and m: "0 < max_failures cfg"
  shows "windows_ok cfg (attempt_leave (gate_release l a) k a) acc t
    \<and> only_user (attempt_leave (gate_release l a) k a) None"
proof -
  let ?l1 = "l\<lparr>heap := (heap l)(a := (heap l a)\<lparr>gate_locked := False, references := 0\<rparr>)\<rparr>"
  have wf: "limiter_wf cfg l" and mk: "map_of (states l) k = Some a"
    using i by (simp_all add: inside_def windows_ok_def)
  then have "references (heap l a) = 1"
    using i limiter_wf_addr [OF wf mk] by (simp add: inside_def only_user_def)
  then have eq: "attempt_leave (gate_release l a) k a = discard_if_inactive ?l1 k a"
    by (simp add: attempt_leave_def gate_release_def)
  have ok1: "windows_ok cfg ?l1 acc t" and u1: "only_user ?l1 None"
    using i by (simp_all add: inside_def windows_ok_def view_heap_core only_user_def)
  have "limiter_wf cfg ?l1" using wf by simp
  from windows_ok_maintained [OF ok1 maintains_discard _ m, of t k a]
    only_user_section [OF lock_section_discard this u1, of k a]
  show ?thesis by (simp add: eq)
qed

lemma attempt_windows:
  assumes ok: "windows_ok cfg l acc t" and u: "only_user l None"
    and t: "t \<le> t1" "t1 \<le> t2" "t2 \<le> t3" "0 \<le> t"
    and cfg: "0 < max_failures cfg" "0 < lockout_seconds cfg"
    and run: "with_attempt cfg l k t1 t2 (failing_body cfg k t3) = (admitted, l')"
  shows "windows_ok cfg l' (if admitted then acc @ [(k, t3)] else acc) t3 \<and> only_user l' None"
proof -
  obtain ao l1 where e: "attempt_enter cfg l k t1 = (ao, l1)"
    by (cases "attempt_enter cfg l k t1")
  note enter = inside_enter [OF ok u t(1) cfg(1), of k, unfolded e]
  show ?thesis
  proof (cases ao)
    case None
    have "windows_ok cfg l1 acc t3" "only_user l1 None"
      using enter None windows_ok_maintained [OF _ maintains_refl _ cfg(1)] t by fastforce+
    moreover have "capacity_retry_after cfg \<noteq> 0" by (simp add: capacity_retry_after_def)
    ultimately show ?thesis
      using run e None by (auto simp: with_attempt_def failing_body_def)
  next
    case (Some a)
    with enter have "inside cfg (gate_acquire l1 a) acc t1 k a"
      by (auto simp: gate_acquire_def intro: inside_counts)
    moreover obtain r l2 where g: "gate_check cfg (gate_acquire l1 a) a t2 = (r, l2)"
      by (cases "gate_check cfg (gate_acquire l1 a) a t2")
    ultimately have i2: "inside cfg l2 acc t2 k a" and open2: "r = 0 \<longrightarrow> snd (core (view l2 k)) = 0"
      using inside_check [OF _ t(2) cfg(1) g] by auto
    have i3: "inside cfg (snd (failing_body cfg k t3 r l2))
        (if r = 0 then acc @ [(k, t3)] else acc) t3 k a"
    proof (cases "r = 0")
      case True
      then show ?thesis
        using inside_record [OF i2 t(3) _ cfg] open2 t by (simp add: failing_body_def)
    next
      case False
      have "windows_ok cfg l2 acc t3"
        using windows_ok_maintained [OF _ maintains_refl t(3) cfg(1)] i2 by (auto simp: inside_def)
      with False i2 show ?thesis by (simp add: failing_body_def inside_def)
    qed
    have eqs: "admitted = (r = 0)"
      "l' = attempt_leave (gate_release (snd (failing_body cfg k t3 r l2)) a) k a"
      using run e Some g by (auto simp: with_attempt_def failing_body_def split: if_splits)
    show ?thesis
      using inside_leave [OF i3 cfg(1)] by (simp add: eqs)
  qed
qed

lemma failing_run_windows:
  assumes "windows_ok cfg l acc t" and "only_user l None" and "timed t es" and "0 \<le> t"
    and "0 < max_failures cfg" and "0 < lockout_seconds cfg"
  shows "\<exists>t'. windows_ok cfg (fst (failing_run cfg l acc es)) (snd (failing_run cfg l acc es)) t'"
  using assms(1-4)
proof (induction es arbitrary: l acc t)
  case Nil
  then show ?case by auto
next
  case (Cons e es)
  obtain k t1 t2 t3 where e: "e = (k, t1, t2, t3)" by (cases e)
  obtain admitted l' where w: "with_attempt cfg l k t1 t2 (failing_body cfg k t3) = (admitted, l')"
    by (cases "with_attempt cfg l k t1 t2 (failing_body cfg k t3)")
  have ts: "t \<le> t1" "t1 \<le> t2" "t2 \<le> t3" "timed t3 es" using Cons.prems(3) e by auto
  note step = attempt_windows [OF Cons.prems(1,2) ts(1-3) Cons.prems(4) assms(5,6) w]
  have "0 \<le> t3" using ts Cons.prems(4) by linarith
  with Cons.IH [OF conjunct1 [OF step] conjunct2 [OF step] ts(4)] show ?case
    by (simp add: e w)
qed

lemma windows_init:
  assumes "init_limiter cfg now = Inr l" and "0 < max_failures cfg"
  shows "windows_ok cfg l [] t \<and> only_user l None"
  using assms limiter_wf_init [OF assms(1)]
  by (auto simp: windows_ok_def only_user_def key_times_def window_inv_def spaced_def init_limiter_def
      view_def split: if_splits)

section \<open>Properties\<close>

text \<open>
  C22. The brute-force bound: starting from an empty limiter, whatever keys are tried at whatever
  nondecreasing times, and whatever the cleanup evicts meanwhile, any \<open>max_failures + 1\<close>
  consecutive admitted failing attempts of one key span at least the smaller of the failure window
  and the lockout.
\<close>

theorem limiter_brute_force_bound:
  assumes "init_limiter cfg t0 = Inr l" and "timed 0 es"
    and "0 < max_failures cfg" and "0 < lockout_seconds cfg"
    and "snd (failing_run cfg l [] es) = acc" and "i + nat (max_failures cfg) < length (key_times k acc)"
  shows "of_int (min (failure_window_seconds cfg) (lockout_seconds cfg))
    \<le> key_times k acc ! (i + nat (max_failures cfg)) - key_times k acc ! i"
proof -
  have "windows_ok cfg l [] 0" "only_user l None"
    using windows_init [OF assms(1,3)] by simp_all
  from failing_run_windows [OF this assms(2) _ assms(3,4)] assms(5)
  have "spaced cfg (key_times k acc)" by (auto simp: windows_ok_def)
  with assms(6) show ?thesis by (simp add: spaced_def guard_seconds_def)
qed

text \<open>Three failing attempts with a limit of two in ten seconds: the third waits for the lock.\<close>

definition tight_config :: limiter_config where
  "tight_config = \<lparr>max_failures = 2, failure_window_seconds = 10, lockout_seconds = 10,
     max_states = 5, cleanup_interval_seconds = 60, cleanup_batch_size = 2\<rparr>"

definition tight_run :: "nat attempt_event list" where
  "tight_run = [(7, 1, 1, 1), (7, 2, 2, 2), (7, 5, 5, 5), (7, 13, 13, 13)]"

definition tight_limiter :: "nat limiter" where
  "tight_limiter = \<lparr>states = [], heap = (\<lambda>_. new_attempt_state), next_addr = 0, next_cleanup_at = 60\<rparr>"

lemmas attempt_defs = with_attempt_def failing_body_def record_failure_def gate_release_def
  attempt_leave_def capacity_retry_after_def limiter_defs

lemma tight_admitted:
  "snd (failing_run tight_config tight_limiter [] tight_run) = [(7, 1), (7, 2), (7, 13)]"
  by (simp add: tight_run_def tight_config_def tight_limiter_def attempt_defs new_attempt_state_def)

theorem limiter_brute_force_bound_witness:
  "timed 0 tight_run \<and> length (key_times 7 (snd (failing_run tight_config tight_limiter [] tight_run))) = 3
   \<and> of_int (min (failure_window_seconds tight_config) (lockout_seconds tight_config))
       \<le> key_times 7 (snd (failing_run tight_config tight_limiter [] tight_run)) ! 2
          - key_times 7 (snd (failing_run tight_config tight_limiter [] tight_run)) ! 0"
proof -
  have init: "init_limiter tight_config 0 = Inr tight_limiter"
    by (simp add: init_limiter_def tight_config_def tight_limiter_def)
  have timed: "timed 0 tight_run" by (simp add: tight_run_def)
  have ts: "key_times 7 [(7::nat, 1), (7, 2), (7, 13)] = [1, 2, 13]" by (simp add: key_times_def)
  have m: "nat (max_failures tight_config) = 2" by (simp add: tight_config_def)
  have pos: "0 < max_failures tight_config" "0 < lockout_seconds tight_config"
    by (simp_all add: tight_config_def)
  have len: "length (key_times 7 (snd (failing_run tight_config tight_limiter [] tight_run))) = 3"
    by (simp add: tight_admitted ts)
  from limiter_brute_force_bound [OF init timed pos refl, of 0 7] timed len
  show ?thesis by (simp only: m) (simp add: numeral_2_eq_2)
qed

end
