(* ===== verification/Models.thy ===== *)
theory Models
  imports Prelude
begin

text \<open>
  The tables of \<open>app/models.py\<close>: the string enums with their stored values and one record per
  SQLModel class, fields in the order of the class. A field name carries a prefix of its class
  (\<open>ar_\<close> for \<open>AlertRule\<close>, \<open>ds_\<close> for \<open>SqlDataSource\<close>), because record fields are global names.
  An \<open>Optional[int]\<close> primary key is an \<open>int option\<close>: None until the row is stored.
\<close>

section \<open>Enumerations\<close>

datatype send_mode = SUMMARY | PER_ROW

datatype execution_status = RUNNING | SUCCESS | FAILED | PARTIAL_FAILED

datatype trigger_type = SCHEDULED | MANUAL

datatype mail_status = MailSUCCESS | MailFAILED | MailPARTIAL_FAILED

fun send_mode_value :: "send_mode \<Rightarrow> pystr" where
  "send_mode_value SUMMARY = str ''summary''"
| "send_mode_value PER_ROW = str ''per_row''"

fun execution_status_value :: "execution_status \<Rightarrow> pystr" where
  "execution_status_value RUNNING = str ''running''"
| "execution_status_value SUCCESS = str ''success''"
| "execution_status_value FAILED = str ''failed''"
| "execution_status_value PARTIAL_FAILED = str ''partial_failed''"

fun trigger_type_value :: "trigger_type \<Rightarrow> pystr" where
  "trigger_type_value SCHEDULED = str ''scheduled''"
| "trigger_type_value MANUAL = str ''manual''"

fun mail_status_value :: "mail_status \<Rightarrow> pystr" where
  "mail_status_value MailSUCCESS = str ''success''"
| "mail_status_value MailFAILED = str ''failed''"
| "mail_status_value MailPARTIAL_FAILED = str ''partial_failed''"

text \<open>The members in declaration order, as iterating over the enum class gives them.\<close>

definition send_modes :: "send_mode list" where
  "send_modes = [SUMMARY, PER_ROW]"

definition execution_statuses :: "execution_status list" where
  "execution_statuses = [RUNNING, SUCCESS, FAILED, PARTIAL_FAILED]"

definition trigger_types :: "trigger_type list" where
  "trigger_types = [SCHEDULED, MANUAL]"

definition mail_statuses :: "mail_status list" where
  "mail_statuses = [MailSUCCESS, MailFAILED, MailPARTIAL_FAILED]"

lemma execution_status_value_inj [simp]:
  "execution_status_value a = execution_status_value b \<longleftrightarrow> a = b"
  by (cases a; cases b) simp_all

lemma trigger_type_value_inj [simp]: "trigger_type_value a = trigger_type_value b \<longleftrightarrow> a = b"
  by (cases a; cases b) simp_all

lemma mail_status_value_inj [simp]: "mail_status_value a = mail_status_value b \<longleftrightarrow> a = b"
  by (cases a; cases b) simp_all

lemma in_enums [simp]:
  "m \<in> set send_modes" "e \<in> set execution_statuses" "t \<in> set trigger_types"
  "ms \<in> set mail_statuses"
  by (cases m; cases e; cases t; cases ms;
      simp add: send_modes_def execution_statuses_def trigger_types_def mail_statuses_def)+

section \<open>Tables\<close>

record admin_user =
  au_id :: "int option"
  au_username :: pystr
  au_password_hash :: pystr
  au_session_version :: int
  au_created_at :: datetime

record sql_data_source =
  ds_id :: "int option"
  ds_name :: pystr
  ds_host :: pystr
  ds_port :: int
  ds_database :: pystr
  ds_username :: pystr
  ds_encrypted_password :: pystr
  ds_enabled :: bool
  ds_connect_timeout_seconds :: int
  ds_odbc_driver :: pystr
  ds_server_override :: pystr
  ds_encrypt :: pystr
  ds_trust_server_certificate :: pystr
  ds_extra_params :: pystr
  ds_created_at :: datetime
  ds_updated_at :: datetime

record smtp_config =
  sc_id :: "int option"
  sc_host :: pystr
  sc_port :: int
  sc_username :: pystr
  sc_encrypted_password :: pystr
  sc_sender :: pystr
  sc_use_tls :: bool
  sc_use_ssl :: bool
  sc_timeout_seconds :: int
  sc_enabled :: bool
  sc_updated_at :: datetime

record alert_rule =
  ar_id :: "int option"
  ar_name :: pystr
  ar_data_source_id :: int
  ar_sql_text :: pystr
  ar_cron_expression :: pystr
  ar_recipients :: pystr
  ar_cc_recipients :: pystr
  ar_subject_template :: pystr
  ar_body_template :: pystr
  ar_send_mode :: send_mode
  ar_query_timeout_seconds :: int
  ar_max_rows :: int
  ar_enabled :: bool
  ar_notes :: pystr
  ar_dynamic_recipient_field :: pystr
  ar_dynamic_cc_field :: pystr
  ar_suppress_duplicates :: bool
  ar_suppression_key_field :: pystr
  ar_suppression_window_hours :: int
  ar_created_at :: datetime
  ar_archived_at :: "datetime option"
  ar_updated_at :: datetime

record rule_execution_lease =
  le_rule_id :: int
  le_owner_token :: pystr
  le_acquired_at :: datetime
  le_expires_at :: datetime

record worker_heartbeat =
  hb_id :: int
  hb_worker_id :: pystr
  hb_started_at :: datetime
  hb_last_seen_at :: datetime
  hb_last_sync_ok :: bool
  hb_last_error :: pystr

record alert_suppression =
  as_id :: "int option"
  as_rule_id :: int
  as_suppression_key :: pystr
  as_first_seen_at :: datetime
  as_last_seen_at :: datetime
  as_hit_count :: int

record alert_rule_version =
  rv_id :: "int option"
  rv_rule_id :: int
  rv_version_number :: int
  rv_changed_by :: pystr
  rv_snapshot_json :: pystr
  rv_changed_at :: datetime

record execution_log =
  el_id :: "int option"
  el_rule_id :: int
  el_trigger_type :: trigger_type
  el_status :: execution_status
  el_started_at :: datetime
  el_finished_at :: "datetime option"
  el_row_count :: int
  el_email_count :: int
  el_duration_ms :: int
  el_error_type :: pystr
  el_error_message :: pystr

record mail_log =
  ml_id :: "int option"
  ml_execution_log_id :: int
  ml_recipients :: pystr
  ml_cc_recipients :: pystr
  ml_subject :: pystr
  ml_status :: mail_status
  ml_error_message :: pystr
  ml_sent_at :: datetime

section \<open>Rows of a query result\<close>

text \<open>
  A row is a \<open>dict\<close> from column names to values. A value is \<open>None\<close>, an \<open>int\<close>, a \<open>str\<close> or any
  other object (decimals, dates, bytes, ...) given by its \<open>str()\<close>.
\<close>

datatype cell = CNone | CInt int | CStr pystr | CObj pystr

type_synonym row = "(pystr \<times> cell) list"

fun cell_str :: "cell \<Rightarrow> pystr" where
  "cell_str CNone = str ''None''"
| "cell_str (CInt i) = int_str i"
| "cell_str (CStr s) = s"
| "cell_str (CObj s) = s"

end
