(* ===== verification/Web_Security.thy ===== *)
theory Web_Security
  imports Prelude
begin

text \<open>
  The request-level protections of \<open>app/web_security.py\<close> (security headers, CSRF tokens, the client
  identifier) and \<open>app/security.py\<close> (password hashing). The signed session cookie is the
  dictionary \<open>request.session\<close>; \<open>secrets.token_urlsafe\<close>, \<open>bcrypt\<close> and \<open>str.upper\<close> are parameters.
\<close>

section \<open>Requests and responses\<close>

text \<open>What a JSON session cookie can hold under a key, and what a form field can hold.\<close>

datatype session_value = SInt int | SBool bool | SStr pystr | SNull | SOther

type_synonym web_session = "(pystr \<times> session_value) list"

datatype form_value = FStr pystr | FUpload

type_synonym headers = "(pystr \<times> pystr) list"

datatype web_outcome =
    Raises exn
  | HTTPException nat pystr headers
  | RedirectResponse pystr nat

section \<open>Security headers\<close>

definition CONTENT_SECURITY_POLICY :: pystr where
  "CONTENT_SECURITY_POLICY = str (''default-src '' @ [CHR 39] @ ''self'' @ [CHR 39]
     @ ''; script-src '' @ [CHR 39] @ ''self'' @ [CHR 39]
     @ ''; style-src '' @ [CHR 39] @ ''self'' @ [CHR 39]
     @ ''; img-src '' @ [CHR 39] @ ''self'' @ [CHR 39]
     @ '' data:; connect-src '' @ [CHR 39] @ ''self'' @ [CHR 39]
     @ ''; object-src '' @ [CHR 39] @ ''none'' @ [CHR 39]
     @ ''; base-uri '' @ [CHR 39] @ ''self'' @ [CHR 39]
     @ ''; form-action '' @ [CHR 39] @ ''self'' @ [CHR 39]
     @ ''; frame-ancestors '' @ [CHR 39] @ ''none'' @ [CHR 39])"

definition STRICT_TRANSPORT_SECURITY :: pystr where
  "STRICT_TRANSPORT_SECURITY = str ''max-age=31536000; includeSubDomains''"

text \<open>Header names compare without case, so the dictionary is keyed by the lower-case name.\<close>

definition ascii_lower :: "nat \<Rightarrow> nat" where
  "ascii_lower c = (if 65 \<le> c \<and> c \<le> 90 then c + 32 else c)"

definition header_key :: "string \<Rightarrow> pystr" where
  "header_key name = map ascii_lower (str name)"

definition set_header :: "string \<Rightarrow> pystr \<Rightarrow> headers \<Rightarrow> headers" where
  "set_header name v h = AList.update (header_key name) v h"

definition get_header :: "headers \<Rightarrow> string \<Rightarrow> pystr option" where
  "get_header h name = map_of h (header_key name)"

definition del_header :: "string \<Rightarrow> headers \<Rightarrow> headers" where
  "del_header name h = AList.delete (header_key name) h"

definition apply_security_headers :: "headers \<Rightarrow> bool \<Rightarrow> headers" where
  "apply_security_headers h0 enable_hsts =
     (let h1 = set_header ''Content-Security-Policy'' CONTENT_SECURITY_POLICY h0;
          h2 = set_header ''X-Content-Type-Options'' (str ''nosniff'') h1;
          h3 = set_header ''Referrer-Policy'' (str ''same-origin'') h2;
          h4 = set_header ''Permissions-Policy'' (str ''camera=(), microphone=(), geolocation=()'') h3;
          h5 = set_header ''X-Frame-Options'' (str ''DENY'') h4
      in if enable_hsts then set_header ''Strict-Transport-Security'' STRICT_TRANSPORT_SECURITY h5
         else if get_header h5 ''Strict-Transport-Security'' \<noteq> None
           then del_header ''Strict-Transport-Security'' h5
         else h5)"

text \<open>The middleware applies them to whatever the application answered.\<close>

definition dispatch_security_headers :: "bool \<Rightarrow> ('req \<Rightarrow> headers) \<Rightarrow> 'req \<Rightarrow> headers" where
  "dispatch_security_headers enable_hsts call_next request =
     apply_security_headers (call_next request) enable_hsts"

definition security_header_names :: "string list" where
  "security_header_names = [''Content-Security-Policy'', ''X-Content-Type-Options'',
     ''Referrer-Policy'', ''Permissions-Policy'', ''X-Frame-Options'', ''Strict-Transport-Security'']"

lemma header_key_simps [simp]:
  "map_of (set_header n v h) k = (if k = header_key n then Some v else map_of h k)"
  "map_of (del_header n h) k = (if k = header_key n then None else map_of h k)"
  by (simp_all add: set_header_def del_header_def map_of_dict_update map_of_dict_delete)

lemmas header_keys = header_key_def ascii_lower_def str_def

lemma header_key_neq [simp]:
  "header_key ''Content-Security-Policy'' \<noteq> header_key ''X-Content-Type-Options''"
  "header_key ''Content-Security-Policy'' \<noteq> header_key ''Referrer-Policy''"
  "header_key ''Content-Security-Policy'' \<noteq> header_key ''Permissions-Policy''"
  "header_key ''Content-Security-Policy'' \<noteq> header_key ''X-Frame-Options''"
  "header_key ''Content-Security-Policy'' \<noteq> header_key ''Strict-Transport-Security''"
  "header_key ''X-Content-Type-Options'' \<noteq> header_key ''Referrer-Policy''"
  "header_key ''X-Content-Type-Options'' \<noteq> header_key ''Permissions-Policy''"
  "header_key ''X-Content-Type-Options'' \<noteq> header_key ''X-Frame-Options''"
  "header_key ''X-Content-Type-Options'' \<noteq> header_key ''Strict-Transport-Security''"
  "header_key ''Referrer-Policy'' \<noteq> header_key ''Permissions-Policy''"
  "header_key ''Referrer-Policy'' \<noteq> header_key ''X-Frame-Options''"
  "header_key ''Referrer-Policy'' \<noteq> header_key ''Strict-Transport-Security''"
  "header_key ''Permissions-Policy'' \<noteq> header_key ''X-Frame-Options''"
  "header_key ''Permissions-Policy'' \<noteq> header_key ''Strict-Transport-Security''"
  "header_key ''X-Frame-Options'' \<noteq> header_key ''Strict-Transport-Security''"
  by (simp_all add: header_keys)

lemmas header_key_neq' [simp] = header_key_neq [symmetric]

lemma map_of_apply_security_headers:
  "map_of (apply_security_headers h hsts) =
     (map_of h)(header_key ''Content-Security-Policy'' \<mapsto> CONTENT_SECURITY_POLICY,
        header_key ''X-Content-Type-Options'' \<mapsto> str ''nosniff'',
        header_key ''Referrer-Policy'' \<mapsto> str ''same-origin'',
        header_key ''Permissions-Policy'' \<mapsto> str ''camera=(), microphone=(), geolocation=()'',
        header_key ''X-Frame-Options'' \<mapsto> str ''DENY'',
        header_key ''Strict-Transport-Security'' :=
          (if hsts then Some STRICT_TRANSPORT_SECURITY else None))"
  by (rule ext) (simp add: apply_security_headers_def get_header_def Let_def)

text \<open>
  Every response leaves the middleware with the five fixed security headers; HSTS is present
  exactly when it is enabled, even when the application itself had set it; and no other header of
  the response is touched.
\<close>

theorem security_headers_enforced:
  "get_header (apply_security_headers h hsts) ''Content-Security-Policy'' = Some CONTENT_SECURITY_POLICY
   \<and> get_header (apply_security_headers h hsts) ''X-Content-Type-Options'' = Some (str ''nosniff'')
   \<and> get_header (apply_security_headers h hsts) ''Referrer-Policy'' = Some (str ''same-origin'')
   \<and> get_header (apply_security_headers h hsts) ''Permissions-Policy''
       = Some (str ''camera=(), microphone=(), geolocation=()'')
   \<and> get_header (apply_security_headers h hsts) ''X-Frame-Options'' = Some (str ''DENY'')
   \<and> get_header (apply_security_headers h hsts) ''Strict-Transport-Security''
       = (if hsts then Some STRICT_TRANSPORT_SECURITY else None)
   \<and> {k. map_of (apply_security_headers h hsts) k \<noteq> map_of h k}
       \<subseteq> set (map header_key security_header_names)"
  by (auto simp: get_header_def map_of_apply_security_headers security_header_names_def split: if_splits)

section \<open>Client identity and passwords\<close>

text \<open>\<open>request.client\<close> is None when the server does not know the peer.\<close>

definition client_identifier :: "pystr option \<Rightarrow> pystr" where
  "client_identifier client = (case client of Some host \<Rightarrow> host | None \<Rightarrow> str ''unknown-client'')"

text \<open>\<open>bcrypt.checkpw\<close> and \<open>bcrypt.hashpw\<close> with a fresh salt are parameters on byte strings.\<close>

definition hash_password :: "(nat list \<Rightarrow> pystr res) \<Rightarrow> pystr \<Rightarrow> pystr res" where
  "hash_password hashpw password =
     (case utf8_encode password of None \<Rightarrow> Inl unicode_encode_error | Some b \<Rightarrow> hashpw b)"

definition verify_password ::
  "(nat list \<Rightarrow> nat list \<Rightarrow> bool res) \<Rightarrow> pystr \<Rightarrow> pystr \<Rightarrow> bool res" where
  "verify_password checkpw password password_hash =
     (case (utf8_encode password, ascii_encode password_hash) of
        (Some p, Some h) \<Rightarrow>
          (case checkpw p h of Inl (ValueError m) \<Rightarrow> Inr False | r \<Rightarrow> r)
      | _ \<Rightarrow> Inr False)"

lemma verify_password_never_ValueError: "verify_password checkpw p h \<noteq> Inl (ValueError m)"
  by (auto simp: verify_password_def split: option.splits sum.splits exn.splits)

section \<open>CSRF\<close>

definition CSRF_SESSION_KEY :: pystr where
  "CSRF_SESSION_KEY = str ''_csrf_token''"

definition CSRF_FORM_FIELD :: pystr where
  "CSRF_FORM_FIELD = str ''_csrf_token''"

definition CSRF_ERROR :: pystr where
  "CSRF_ERROR = [0x8BF7, 0x6C42, 0x5B89, 0x5168, 0x6821, 0x9A8C, 0x5931, 0x8D25]"

definition UNSAFE_METHODS :: "pystr list" where
  "UNSAFE_METHODS = [str ''POST'', str ''PUT'', str ''PATCH'', str ''DELETE'']"

definition ensure_csrf_token :: "pystr \<Rightarrow> web_session \<Rightarrow> pystr \<times> web_session" where
  "ensure_csrf_token fresh session =
     (case map_of session CSRF_SESSION_KEY of
        Some (SStr token) \<Rightarrow>
          if token = [] then (fresh, AList.update CSRF_SESSION_KEY (SStr fresh) session)
          else (token, session)
      | _ \<Rightarrow> (fresh, AList.update CSRF_SESSION_KEY (SStr fresh) session))"

definition rotate_csrf_token :: "pystr \<Rightarrow> web_session \<Rightarrow> pystr \<times> web_session" where
  "rotate_csrf_token fresh session = (fresh, AList.update CSRF_SESSION_KEY (SStr fresh) session)"

definition ascii_bytes_session :: "session_value option \<Rightarrow> nat list option" where
  "ascii_bytes_session v =
     (case v of Some (SStr s) \<Rightarrow> if s = [] then None else ascii_encode s | _ \<Rightarrow> None)"

definition ascii_bytes_form :: "form_value option \<Rightarrow> nat list option" where
  "ascii_bytes_form v =
     (case v of Some (FStr s) \<Rightarrow> if s = [] then None else ascii_encode s | _ \<Rightarrow> None)"

text \<open>Reading the form may raise; \<open>compare_digest\<close> of two byte strings is their equality.\<close>

definition require_csrf ::
  "(nat \<Rightarrow> pystr) \<Rightarrow> pystr \<Rightarrow> web_session \<Rightarrow> (pystr \<Rightarrow> form_value option) res \<Rightarrow> web_outcome + unit" where
  "require_csrf upper_table http_method session form =
     (if str_upper upper_table http_method \<notin> set UNSAFE_METHODS then Inr ()
      else let expected = map_of session CSRF_SESSION_KEY
           in case form of
                Inl exc \<Rightarrow> Inl (HTTPException 403 CSRF_ERROR [])
              | Inr fields \<Rightarrow>
                  (case (ascii_bytes_session expected, ascii_bytes_form (fields CSRF_FORM_FIELD)) of
                     (Some e, Some p) \<Rightarrow>
                       if e = p then Inr () else Inl (HTTPException 403 CSRF_ERROR [])
                   | _ \<Rightarrow> Inl (HTTPException 403 CSRF_ERROR [])))"

lemma ascii_bytes_session_Some:
  "ascii_bytes_session v = Some b \<longleftrightarrow> v = Some (SStr b) \<and> b \<noteq> [] \<and> (\<forall>c \<in> set b. c < 128)"
  by (cases v) (auto simp: ascii_bytes_session_def split: session_value.splits)

lemma ascii_bytes_form_Some:
  "ascii_bytes_form v = Some b \<longleftrightarrow> v = Some (FStr b) \<and> b \<noteq> [] \<and> (\<forall>c \<in> set b. c < 128)"
  by (cases v) (auto simp: ascii_bytes_form_def split: form_value.splits)

definition csrf_proof :: "web_session \<Rightarrow> (pystr \<Rightarrow> form_value option) res \<Rightarrow> pystr \<Rightarrow> bool" where
  "csrf_proof session form token \<longleftrightarrow>
     map_of session CSRF_SESSION_KEY = Some (SStr token)
     \<and> (case form of Inr fields \<Rightarrow> fields CSRF_FORM_FIELD = Some (FStr token) | Inl _ \<Rightarrow> False)
     \<and> token \<noteq> [] \<and> (\<forall>c \<in> set token. c < 128)"

lemma require_csrf_unsafe:
  assumes "str_upper u m \<in> set UNSAFE_METHODS"
  shows "require_csrf u m session form = Inr () \<longleftrightarrow> (\<exists>token. csrf_proof session form token)"
  using assms
  by (auto simp: require_csrf_def csrf_proof_def ascii_bytes_session_def ascii_bytes_form_def
      ascii_encode_def split: sum.splits option.splits session_value.splits form_value.splits)

lemma require_csrf_outcome:
  "require_csrf u m session form \<in> {Inr (), Inl (HTTPException 403 CSRF_ERROR [])}"
  by (auto simp: require_csrf_def Let_def split: sum.splits option.splits)

lemma ensure_csrf_token_stored:
  "fst (ensure_csrf_token fresh s) \<noteq> [] \<or> fresh = []"
  "map_of (snd (ensure_csrf_token fresh s)) CSRF_SESSION_KEY = Some (SStr (fst (ensure_csrf_token fresh s)))"
  by (auto simp: ensure_csrf_token_def dict_simps split: option.splits session_value.splits)

text \<open>
  CSRF protection is exact. A request with an unsafe method passes if and only if its form
  could be read and carries the very token its session holds, non-empty and ASCII; every other
  unsafe request is refused with the same 403, whatever went wrong; a safe method always passes.
\<close>

theorem csrf_exact:
  "require_csrf u m session form =
     (if str_upper u m \<in> set UNSAFE_METHODS \<and> (\<nexists>token. csrf_proof session form token)
      then Inl (HTTPException 403 CSRF_ERROR []) else Inr ())"
proof (cases "str_upper u m \<in> set UNSAFE_METHODS")
  case True
  then show ?thesis
    using require_csrf_unsafe [OF True, of session form] require_csrf_outcome [of u m session form]
    by auto
next
  case False
  then show ?thesis by (simp add: require_csrf_def)
qed

text \<open>
  The token a page is rendered with is accepted when it comes back: after \<open>ensure_csrf_token\<close>
  with an ASCII source of fresh tokens, posting the returned token passes, and a session that
  already had a usable token keeps it (forms opened in other tabs stay valid).
\<close>

theorem csrf_token_roundtrip:
  assumes "fresh \<noteq> []" and "\<forall>c \<in> set fresh. c < 128"
    and "\<forall>t. map_of session CSRF_SESSION_KEY = Some (SStr t) \<longrightarrow> (\<forall>c \<in> set t. c < 128)"
    and "ensure_csrf_token fresh session = (token, session')"
    and "fields CSRF_FORM_FIELD = Some (FStr token)"
  shows "require_csrf u m session' (Inr fields) = Inr ()
    \<and> ensure_csrf_token other session' = (token, session')"
proof -
  have t: "map_of session' CSRF_SESSION_KEY = Some (SStr token)"
    using ensure_csrf_token_stored(2) [of fresh session] assms(4) by simp
  have ok: "token \<noteq> []" "\<forall>c \<in> set token. c < 128"
    using assms(1-4) by (auto simp: ensure_csrf_token_def split: option.splits session_value.splits if_splits)
  have "csrf_proof session' (Inr fields) token"
    using t ok assms(5) by (simp add: csrf_proof_def)
  then have "require_csrf u m session' (Inr fields) = Inr ()"
    using require_csrf_unsafe [of u m session' "Inr fields"]
    by (cases "str_upper u m \<in> set UNSAFE_METHODS") (auto simp: require_csrf_def)
  then show ?thesis using t ok by (simp add: ensure_csrf_token_def)
qed

theorem csrf_token_roundtrip_witness:
  "ensure_csrf_token (str ''k3y'') [] = (str ''k3y'', [(CSRF_SESSION_KEY, SStr (str ''k3y''))])
   \<and> require_csrf (\<lambda>_. []) (str ''post'') [(CSRF_SESSION_KEY, SStr (str ''k3y''))]
       (Inr [CSRF_FORM_FIELD \<mapsto> FStr (str ''k3y'')]) = Inr ()"
proof -
  have e: "ensure_csrf_token (str ''k3y'') [] = (str ''k3y'', [(CSRF_SESSION_KEY, SStr (str ''k3y''))])"
    by (simp add: ensure_csrf_token_def)
  have p: "str ''k3y'' \<noteq> []" "\<forall>c \<in> set (str ''k3y''). c < 128" by (simp_all add: str_def)
  from csrf_token_roundtrip [OF p _ e, of "[CSRF_FORM_FIELD \<mapsto> FStr (str ''k3y'')]"] e show ?thesis
    by simp
qed

end
