(* ===== verification/Auth.thy ===== *)
theory Auth
  imports Models Rate_Limiter_Bounds Web_Security
begin

text \<open>
  \<open>app/auth.py\<close>: administrator sessions kept in the signed cookie and the login route guarded by
  the rate limiter. A request is its session dictionary; the user table, the password check and
  the clock readings are arguments. A handler returns its outcome with the new session (and the
  new limiter). \<open>datetime.timestamp\<close> is exact here: the rounding of doubles beyond year 2242 is not
  modelled.
\<close>

section \<open>Session fields\<close>

definition LOGIN_FAILURE_DETAIL :: pystr where
  "LOGIN_FAILURE_DETAIL = [0x7528, 0x6237, 0x540D, 0x6216, 0x5BC6, 0x7801, 0x9519, 0x8BEF]"

definition LOGIN_LIMIT_DETAIL :: pystr where
  "LOGIN_LIMIT_DETAIL = [0x767B, 0x5F55, 0x5C1D, 0x8BD5, 0x8FC7, 0x591A, 0xFF0C, 0x8BF7, 0x7A0D, 0x540E, 0x91CD, 0x8BD5]"

definition DUMMY_PASSWORD_HASH :: pystr where
  "DUMMY_PASSWORD_HASH = str ''$2b$12$0kBPCpi0b/V47sHVriEA7.Du9xSBpCUp8Dmb5xq.fDZVF3Fc0ZyKW''"

definition ADMIN_USER_ID_SESSION_KEY :: pystr where
  "ADMIN_USER_ID_SESSION_KEY = str ''admin_user_id''"

definition AUTHENTICATED_AT_SESSION_KEY :: pystr where
  "AUTHENTICATED_AT_SESSION_KEY = str ''authenticated_at''"

definition LAST_ACTIVITY_AT_SESSION_KEY :: pystr where
  "LAST_ACTIVITY_AT_SESSION_KEY = str ''last_activity_at''"

definition ADMIN_SESSION_VERSION_SESSION_KEY :: pystr where
  "ADMIN_SESSION_VERSION_SESSION_KEY = str ''admin_session_version''"

text \<open>\<open>int(...)\<close> of the timestamp truncates towards zero.\<close>

definition epoch_seconds :: "datetime option \<Rightarrow> datetime \<Rightarrow> int" where
  "epoch_seconds now utc_now =
     (let t = (case now of Some t \<Rightarrow> t | None \<Rightarrow> utc_now)
      in if 0 \<le> t then t div us_per_second else - (- t div us_per_second))"

definition session_integer :: "web_session \<Rightarrow> pystr \<Rightarrow> int option" where
  "session_integer session key = (case map_of session key of Some (SInt i) \<Rightarrow> Some i | _ \<Rightarrow> None)"

definition invalidate_admin_session :: "web_session \<Rightarrow> bool \<times> web_session" where
  "invalidate_admin_session session = (False, [])"

definition establish_admin_session ::
  "web_session \<Rightarrow> admin_user \<Rightarrow> datetime option \<Rightarrow> datetime \<Rightarrow> web_session res" where
  "establish_admin_session session user now utc_now =
     (case au_id user of
        None \<Rightarrow> Inl (ValueError (str ''admin user must be persisted before establishing a session''))
      | Some uid \<Rightarrow>
          let es = epoch_seconds now utc_now;
              s1 = AList.update ADMIN_USER_ID_SESSION_KEY (SInt uid) session;
              s2 = AList.update AUTHENTICATED_AT_SESSION_KEY (SInt es) s1;
              s3 = AList.update LAST_ACTIVITY_AT_SESSION_KEY (SInt es) s2
          in Inr (AList.update ADMIN_SESSION_VERSION_SESSION_KEY (SInt (au_session_version user)) s3))"

definition validate_admin_session ::
  "web_session \<Rightarrow> admin_user \<Rightarrow> int \<Rightarrow> int \<Rightarrow> datetime option \<Rightarrow> datetime \<Rightarrow> bool \<times> web_session" where
  "validate_admin_session session user max_age_seconds idle_timeout_seconds now utc_now =
     (let user_id = session_integer session ADMIN_USER_ID_SESSION_KEY;
          authenticated_at = session_integer session AUTHENTICATED_AT_SESSION_KEY;
          last_activity_at = session_integer session LAST_ACTIVITY_AT_SESSION_KEY;
          session_version = session_integer session ADMIN_SESSION_VERSION_SESSION_KEY;
          current_time = epoch_seconds now utc_now
      in if user_id = None \<or> authenticated_at = None \<or> last_activity_at = None
            \<or> session_version = None \<or> au_id user = None
            \<or> user_id \<noteq> au_id user
            \<or> the session_version \<noteq> au_session_version user
            \<or> current_time < the authenticated_at
            \<or> current_time < the last_activity_at
            \<or> the last_activity_at < the authenticated_at
            \<or> max_age_seconds \<le> current_time - the authenticated_at
            \<or> idle_timeout_seconds \<le> current_time - the last_activity_at
         then invalidate_admin_session session
         else (True, AList.update LAST_ACTIVITY_AT_SESSION_KEY (SInt current_time) session))"

section \<open>The routes\<close>

definition login_limited :: "int \<Rightarrow> web_outcome" where
  "login_limited retry_after =
     HTTPException 429 LOGIN_LIMIT_DETAIL [(str ''Retry-After'', int_str retry_after)]"

definition http_401 :: web_outcome where
  "http_401 = HTTPException 401 (str ''Unauthorized'') []"

record auth_settings =
  session_max_age_seconds :: int
  session_idle_timeout_seconds :: int

text \<open>\<open>get_user\<close> is \<open>session.get(AdminUser, id)\<close> on the database, which may raise.\<close>

definition require_admin ::
  "auth_settings \<Rightarrow> (int \<Rightarrow> admin_user option res) \<Rightarrow> datetime \<Rightarrow> web_session
     \<Rightarrow> (web_outcome + admin_user) \<times> web_session" where
  "require_admin settings get_user utc_now session =
     (case session_integer session ADMIN_USER_ID_SESSION_KEY of
        None \<Rightarrow> (Inl http_401, snd (invalidate_admin_session session))
      | Some user_id \<Rightarrow>
          (case get_user user_id of
             Inl exc \<Rightarrow> (Inl (Raises exc), session)
           | Inr None \<Rightarrow> (Inl http_401, snd (invalidate_admin_session session))
           | Inr (Some user) \<Rightarrow>
               (case validate_admin_session session user (session_max_age_seconds settings)
                       (session_idle_timeout_seconds settings) None utc_now of
                  (True, session') \<Rightarrow> (Inr user, session')
                | (False, session') \<Rightarrow> (Inl http_401, session'))))"

text \<open>
  The body of the \<open>with limiter.attempt(...)\<close> block. \<open>find_user\<close> is the query by user name,
  \<open>verify\<close> is \<open>verify_password\<close> on the submitted password, \<open>now3\<close> the limiter's clock when the
  failure is recorded, \<open>fresh\<close> the new CSRF token.
\<close>

definition login_body ::
  "limiter_config \<Rightarrow> 'k \<Rightarrow> admin_user option res \<Rightarrow> (pystr \<Rightarrow> bool res) \<Rightarrow> real \<Rightarrow> pystr \<Rightarrow> datetime
     \<Rightarrow> web_session \<Rightarrow> int \<Rightarrow> 'k limiter \<Rightarrow> (web_outcome \<times> web_session) \<times> 'k limiter" where
  "login_body cfg key found verify now3 fresh utc_now session retry_after l =
     (if retry_after \<noteq> 0 then ((login_limited retry_after, session), l)
      else case found of
        Inl exc \<Rightarrow> ((Raises exc, session), l)
      | Inr user \<Rightarrow>
          let password_hash = (case user of Some u \<Rightarrow> au_password_hash u | None \<Rightarrow> DUMMY_PASSWORD_HASH)
          in case verify password_hash of
               Inl exc \<Rightarrow> ((Raises exc, session), l)
             | Inr password_matches \<Rightarrow>
                 (case user of
                    Some u \<Rightarrow>
                      if password_matches then
                        let l' = clear_failures l key;
                            s1 = snd (rotate_csrf_token fresh [])
                        in case establish_admin_session s1 u None utc_now of
                             Inl exc \<Rightarrow> ((Raises exc, s1), l')
                           | Inr s2 \<Rightarrow> ((RedirectResponse (str ''/'') 303, s2), l')
                      else (case record_failure cfg l key now3 of
                              (again, l') \<Rightarrow>
                                ((if again \<noteq> 0 then login_limited again
                                  else HTTPException 400 LOGIN_FAILURE_DETAIL [], session), l'))
                  | None \<Rightarrow>
                      (case record_failure cfg l key now3 of
                         (again, l') \<Rightarrow>
                           ((if again \<noteq> 0 then login_limited again
                             else HTTPException 400 LOGIN_FAILURE_DETAIL [], session), l'))))"

definition login ::
  "limiter_config \<Rightarrow> (pystr \<Rightarrow> pystr) \<Rightarrow> (nat list \<Rightarrow> 'd) \<Rightarrow> (nat list \<Rightarrow> nat list \<Rightarrow> bool res)
     \<Rightarrow> (pystr \<Rightarrow> admin_user option res) \<Rightarrow> real \<times> real \<times> real \<Rightarrow> pystr \<Rightarrow> datetime
     \<Rightarrow> pystr option \<Rightarrow> pystr \<Rightarrow> pystr \<Rightarrow> web_session \<Rightarrow> (pystr \<times> 'd) limiter
     \<Rightarrow> (web_outcome \<times> web_session) \<times> (pystr \<times> 'd) limiter" where
  "login cfg casefold sha256 checkpw find_user times3 fresh utc_now client username password session l =
     (case times3 of (now1, now2, now3) \<Rightarrow>
        (case limiter_key casefold sha256 (client_identifier client) username of
           Inl exc \<Rightarrow> ((Raises exc, session), l)
         | Inr key \<Rightarrow>
             with_attempt cfg l key now1 now2
               (login_body cfg key (find_user username) (verify_password checkpw password) now3
                  fresh utc_now session)))"

definition logout :: "web_session \<Rightarrow> web_outcome \<times> web_session" where
  "logout session = (RedirectResponse (str ''/login'') 303, [])"

section \<open>Sessions\<close>

lemmas session_keys = ADMIN_USER_ID_SESSION_KEY_def AUTHENTICATED_AT_SESSION_KEY_def
  LAST_ACTIVITY_AT_SESSION_KEY_def ADMIN_SESSION_VERSION_SESSION_KEY_def CSRF_SESSION_KEY_def

lemma session_integer_update [simp]:
  "session_integer (AList.update k v s) k' =
     (if k = k' then (case v of SInt i \<Rightarrow> Some i | _ \<Rightarrow> None) else session_integer s k')"
  by (auto simp: session_integer_def dict_simps split: session_value.splits)

lemma session_integer_Nil [simp]: "session_integer [] k = None"
  by (simp add: session_integer_def)

text \<open>An established session: who, since when, last seen when, at which version.\<close>

definition admin_session :: "web_session \<Rightarrow> int \<Rightarrow> int \<Rightarrow> int \<Rightarrow> int \<Rightarrow> bool" where
  "admin_session s uid auth seen ver \<longleftrightarrow>
     session_integer s ADMIN_USER_ID_SESSION_KEY = Some uid
     \<and> session_integer s AUTHENTICATED_AT_SESSION_KEY = Some auth
     \<and> session_integer s LAST_ACTIVITY_AT_SESSION_KEY = Some seen
     \<and> session_integer s ADMIN_SESSION_VERSION_SESSION_KEY = Some ver"

lemma admin_session_established:
  "establish_admin_session s user now t = Inr s' \<Longrightarrow> au_id user = Some uid \<Longrightarrow>
     admin_session s' uid (epoch_seconds now t) (epoch_seconds now t) (au_session_version user)"
  by (auto simp: establish_admin_session_def admin_session_def session_keys Let_def)

lemma admin_session_touched:
  "admin_session s uid auth seen ver \<Longrightarrow>
     admin_session (AList.update LAST_ACTIVITY_AT_SESSION_KEY (SInt t) s) uid auth t ver"
  by (auto simp: admin_session_def session_keys)

lemma epoch_seconds_mono: "0 \<le> t \<Longrightarrow> t \<le> t' \<Longrightarrow> epoch_seconds None t \<le> epoch_seconds None t'"
  by (auto simp: epoch_seconds_def us_per_second_def intro: zdiv_mono1)

lemma validate_iff:
  "fst (validate_admin_session s user max_age idle now t) \<longleftrightarrow>
     (\<exists>uid auth seen. au_id user = Some uid \<and> admin_session s uid auth seen (au_session_version user)
        \<and> auth \<le> seen \<and> seen \<le> epoch_seconds now t
        \<and> epoch_seconds now t - auth < max_age \<and> epoch_seconds now t - seen < idle)"
  by (auto simp: validate_admin_session_def invalidate_admin_session_def admin_session_def Let_def)

lemma validate_session:
  "snd (validate_admin_session s user max_age idle now t) =
     (if fst (validate_admin_session s user max_age idle now t)
      then AList.update LAST_ACTIVITY_AT_SESSION_KEY (SInt (epoch_seconds now t)) s else [])"
  by (auto simp: validate_admin_session_def invalidate_admin_session_def Let_def)

text \<open>Whether a request at second \<open>now\<close> is still inside the two limits.\<close>

definition within_limits :: "auth_settings \<Rightarrow> int \<Rightarrow> int \<Rightarrow> int \<Rightarrow> bool" where
  "within_limits st auth seen now \<longleftrightarrow>
     now - auth < session_max_age_seconds st \<and> now - seen < session_idle_timeout_seconds st"

lemma require_admin_session:
  assumes "admin_session s uid auth seen ver" and "get_user uid = Inr (Some user)"
    and "au_id user = Some uid" and "au_session_version user = ver"
    and "auth \<le> seen" and "seen \<le> epoch_seconds None t"
  shows "require_admin st get_user t s =
    (if within_limits st auth seen (epoch_seconds None t)
     then (Inr user, AList.update LAST_ACTIVITY_AT_SESSION_KEY (SInt (epoch_seconds None t)) s)
     else (Inl http_401, []))"
  using assms
  by (auto simp: require_admin_def validate_admin_session_def invalidate_admin_session_def
      admin_session_def within_limits_def Let_def)

lemma require_admin_Nil: "require_admin st get_user t [] = (Inl http_401, [])"
  by (simp add: require_admin_def invalidate_admin_session_def)

text \<open>The requests of one browser: each carries the session the previous response left.\<close>

fun admin_requests ::
  "auth_settings \<Rightarrow> (int \<Rightarrow> admin_user option res) \<Rightarrow> datetime list \<Rightarrow> web_session
     \<Rightarrow> (web_outcome + admin_user) list" where
  "admin_requests st get_user [] s = []"
| "admin_requests st get_user (t # ts) s =
     (case require_admin st get_user t s of (r, s') \<Rightarrow> r # admin_requests st get_user ts s')"

lemma admin_requests_Nil: "admin_requests st get_user ts [] = replicate (length ts) (Inl http_401)"
  by (induction ts) (simp_all add: require_admin_Nil)

text \<open>The abstract lifetime: alive as long as every request so far was inside the limits.\<close>

fun alive :: "auth_settings \<Rightarrow> int \<Rightarrow> int \<Rightarrow> int list \<Rightarrow> bool list" where
  "alive st auth seen [] = []"
| "alive st auth seen (n # ns) =
     (if within_limits st auth seen n then True # alive st auth n ns
      else replicate (Suc (length ns)) False)"

lemma length_alive [simp]: "length (alive st auth seen ns) = length ns"
  by (induction ns arbitrary: seen) auto

lemma alive_nth:
  "i < length ns \<Longrightarrow> alive st auth seen ns ! i
     \<longleftrightarrow> (\<forall>j \<le> i. within_limits st auth ((seen # ns) ! j) (ns ! j))"
proof (induction ns arbitrary: i seen)
  case Nil
  then show ?case by simp
next
  case (Cons n ns)
  show ?case
  proof (cases i)
    case 0
    then show ?thesis by simp
  next
    case (Suc k)
    have split: "(\<forall>j \<le> Suc k. P j) \<longleftrightarrow> P 0 \<and> (\<forall>j \<le> k. P (Suc j))" for P
      by (metis Suc_le_mono le0 not0_implies_Suc)
    show ?thesis
      using Cons Suc by (simp add: split)
  qed
qed

lemma admin_requests_alive:
  assumes "admin_session s uid auth seen (au_session_version user)" and "auth \<le> seen"
    and "get_user uid = Inr (Some user)" and "au_id user = Some uid"
    and "sorted (seen # map (epoch_seconds None) ts)"
  shows "admin_requests st get_user ts s =
    map (\<lambda>b. if b then Inr user else Inl http_401) (alive st auth seen (map (epoch_seconds None) ts))"
  using assms(1,2,5)
proof (induction ts arbitrary: s seen)
  case Nil
  then show ?case by simp
next
  case (Cons t ts)
  note step = require_admin_session [where get_user = get_user, OF Cons.prems(1) assms(3,4) refl Cons.prems(2), of t st]
  show ?case
  proof (cases "within_limits st auth seen (epoch_seconds None t)")
    case True
    have "auth \<le> epoch_seconds None t" "sorted (epoch_seconds None t # map (epoch_seconds None) ts)"
      using Cons.prems(2,3) by auto
    with Cons.IH [OF admin_session_touched [OF Cons.prems(1)]] True step Cons.prems(3) show ?thesis
      by simp
  next
    case False
    with step Cons.prems(3) show ?thesis by (simp add: admin_requests_Nil map_replicate_const)
  qed
qed

lemma admin_requests_revoked:
  assumes "\<forall>uid u. get_user uid = Inr (Some u) \<longrightarrow>
      session_integer s ADMIN_SESSION_VERSION_SESSION_KEY \<noteq> Some (au_session_version u)"
    and "\<forall>uid exc. get_user uid \<noteq> Inl exc"
  shows "admin_requests st get_user ts s = replicate (length ts) (Inl http_401)"
proof (cases ts)
  case Nil
  then show ?thesis by simp
next
  case (Cons t ts')
  have "require_admin st get_user t s = (Inl http_401, [])"
  proof (cases "session_integer s ADMIN_USER_ID_SESSION_KEY")
    case None
    then show ?thesis by (simp add: require_admin_def invalidate_admin_session_def)
  next
    case (Some uid)
    with assms have "\<not> fst (validate_admin_session s u a b None t)"
      if "get_user uid = Inr (Some u)" for u a b
      using that by (auto simp: validate_iff admin_session_def)
    with Some assms(2) validate_session [of s _ _ _ None t] show ?thesis
      by (auto simp: require_admin_def invalidate_admin_session_def split: sum.splits option.splits
          prod.splits bool.splits) (metis fst_conv snd_conv)+
  qed
  with Cons show ?thesis by (simp add: admin_requests_Nil)
qed

section \<open>Login\<close>

text \<open>What the limiter yields to the block before the body runs.\<close>

definition attempt_yields :: "limiter_config \<Rightarrow> 'k limiter \<Rightarrow> 'k \<Rightarrow> real \<Rightarrow> real \<Rightarrow> int" where
  "attempt_yields cfg l key now1 now2 = fst (with_attempt cfg l key now1 now2 (\<lambda>r l. (r, l)))"

lemma with_attempt_fst:
  assumes "\<forall>l'. fst (body (attempt_yields cfg l key now1 now2) l') = r"
  shows "fst (with_attempt cfg l key now1 now2 body) = r"
  using assms by (auto simp: with_attempt_def attempt_yields_def split: prod.splits option.splits)
    (metis fst_conv)+

lemma with_attempt_cong:
  assumes "\<forall>l'. body (attempt_yields cfg l key now1 now2) l' = body' (attempt_yields cfg l key now1 now2) l'"
  shows "with_attempt cfg l key now1 now2 body = with_attempt cfg l key now1 now2 body'"
  using assms by (auto simp: with_attempt_def attempt_yields_def split: prod.splits option.splits)

text \<open>The outcome of the credential check: whether the block takes the failure branch.\<close>

definition credentials_fail :: "admin_user option res \<Rightarrow> (pystr \<Rightarrow> bool res) \<Rightarrow> bool" where
  "credentials_fail found verify \<longleftrightarrow>
     (case found of
        Inl exc \<Rightarrow> False
      | Inr None \<Rightarrow> (\<exists>b. verify DUMMY_PASSWORD_HASH = Inr b)
      | Inr (Some u) \<Rightarrow> verify (au_password_hash u) = Inr False)"

lemma login_body_fail:
  "credentials_fail found verify \<Longrightarrow> retry_after = 0 \<Longrightarrow>
   login_body cfg key found verify now3 fresh utc_now session retry_after l =
     (case record_failure cfg l key now3 of
        (again, l') \<Rightarrow> ((if again \<noteq> 0 then login_limited again
                         else HTTPException 400 LOGIN_FAILURE_DETAIL [], session), l'))"
  by (auto simp: login_body_def credentials_fail_def Let_def split: sum.splits option.splits)

lemma login_body_limited:
  "retry_after \<noteq> 0 \<Longrightarrow> login_body cfg key found verify now3 fresh utc_now session retry_after l
     = ((login_limited retry_after, session), l)"
  by (simp add: login_body_def)

lemma login_body_failing_body:
  "credentials_fail found verify \<Longrightarrow>
   snd (login_body cfg key found verify now3 fresh utc_now session r l) = snd (failing_body cfg key now3 r l)"
  by (cases "r = 0")
    (simp_all add: login_body_fail login_body_limited failing_body_def split: prod.splits)

definition fresh_login_session :: "pystr \<Rightarrow> int \<Rightarrow> int \<Rightarrow> int \<Rightarrow> web_session" where
  "fresh_login_session token uid now ver =
     [(CSRF_SESSION_KEY, SStr token), (ADMIN_USER_ID_SESSION_KEY, SInt uid),
      (AUTHENTICATED_AT_SESSION_KEY, SInt now), (LAST_ACTIVITY_AT_SESSION_KEY, SInt now),
      (ADMIN_SESSION_VERSION_SESSION_KEY, SInt ver)]"

lemma establish_fresh:
  "au_id u = Some uid \<Longrightarrow> establish_admin_session (snd (rotate_csrf_token token [])) u None t =
     Inr (fresh_login_session token uid (epoch_seconds None t) (au_session_version u))"
  by (simp add: establish_admin_session_def rotate_csrf_token_def fresh_login_session_def session_keys
      Let_def)

lemma login_body_redirect:
  assumes "fst (login_body cfg key found verify now3 fresh t session r l) = (RedirectResponse p c, s')"
  shows "r = 0 \<and> (\<exists>u uid. found = Inr (Some u) \<and> verify (au_password_hash u) = Inr True
    \<and> au_id u = Some uid
    \<and> s' = fresh_login_session fresh uid (epoch_seconds None t) (au_session_version u))"
  using assms establish_fresh
  by (auto simp: login_body_def login_limited_def Let_def establish_admin_session_def
      split: if_splits sum.splits option.splits prod.splits)

lemma login_body_success:
  assumes "found = Inr (Some u)" and "verify (au_password_hash u) = Inr True" and "au_id u = Some uid"
  shows "login_body cfg key found verify now3 fresh t session 0 l =
    ((RedirectResponse (str ''/'') 303,
      fresh_login_session fresh uid (epoch_seconds None t) (au_session_version u)), clear_failures l key)"
  using assms by (simp add: login_body_def establish_fresh Let_def)

lemma with_attempt_fstE:
  assumes "fst (with_attempt cfg l key now1 now2 body) = r"
  obtains l' where "fst (body (attempt_yields cfg l key now1 now2) l') = r"
proof -
  have "\<exists>l'. fst (body (attempt_yields cfg l key now1 now2) l') = r"
    using assms by (auto simp: with_attempt_def attempt_yields_def split: prod.splits option.splits)
      (metis fst_conv)+
  then show ?thesis using that by blast
qed

section \<open>Properties\<close>

text \<open>
  C27. The lifetime of a session, over any sequence of requests that carry on from a login: request
  number \<open>i\<close> is answered as the administrator exactly when, up to it, every request came less than
  the idle timeout after the previous one and less than the maximum age after the login. The first
  request outside the limits ends the session for good.
\<close>

theorem admin_session_lifetime:
  assumes "establish_admin_session session user None t0 = Inr s0" and "0 \<le> t0" and "sorted (t0 # ts)"
    and "au_id user = Some uid" and "get_user uid = Inr (Some user)" and "i < length ts"
  shows "admin_requests st get_user ts s0 ! i =
    (if \<forall>j \<le> i. within_limits st (epoch_seconds None t0)
          (epoch_seconds None ((t0 # ts) ! j)) (epoch_seconds None (ts ! j))
     then Inr user else Inl http_401)"
proof -
  let ?e = "epoch_seconds None"
  have "\<forall>t \<in> set ts. 0 \<le> t" using assms(2,3) by auto
  then have "sorted (map ?e (t0 # ts))"
    using assms(2,3) by (auto simp: sorted_map intro!: sorted_wrt_mono_rel [of _ "(\<le>)"] epoch_seconds_mono)
  with admin_requests_alive [where get_user = get_user, OF admin_session_established [OF assms(1,4)] order.refl assms(5,4)]
  have "admin_requests st get_user ts s0 =
      map (\<lambda>b. if b then Inr user else Inl http_401) (alive st (?e t0) (?e t0) (map ?e ts))" by simp
  moreover have "(?e t0 # map ?e ts) ! j = ?e ((t0 # ts) ! j)" if "j \<le> i" for j
    using assms(6) that by (cases j) auto
  ultimately show ?thesis
    using assms(6) by (simp add: alive_nth)
qed

text \<open>
  Revocation: once the stored session version of every user differs from the one in the cookie
  (the password was reset) or the user is gone, every request with that session, at any time and
  in any order, is answered 401.
\<close>

theorem admin_session_revoked:
  assumes "\<forall>uid u. get_user uid = Inr (Some u) \<longrightarrow>
      session_integer session ADMIN_SESSION_VERSION_SESSION_KEY \<noteq> Some (au_session_version u)"
    and "\<forall>uid exc. get_user uid \<noteq> Inl exc"
  shows "set (admin_requests st get_user ts session) \<subseteq> {Inl http_401}"
  using admin_requests_revoked [OF assms] by auto

text \<open>
  C28. No user enumeration: two login attempts whose credentials fail, one for a user that exists
  and one for a name that does not, say, leave the same response, the same session and the same
  limiter, whatever the password, the hash or the user row.
\<close>

theorem login_failure_uniform:
  fixes sha256 :: "nat list \<Rightarrow> 'd"
  assumes "credentials_fail (find1 username) (verify_password checkpw1 password1)"
    and "credentials_fail (find2 username) (verify_password checkpw2 password2)"
  shows "login cfg casefold sha256 checkpw1 find1 times3 fresh1 utc1 client username password1 session l
       = login cfg casefold sha256 checkpw2 find2 times3 fresh2 utc2 client username password2 session l"
proof -
  have "login_body cfg key (find1 username) (verify_password checkpw1 password1) now3 fresh1 utc1 session
      = login_body cfg key (find2 username) (verify_password checkpw2 password2) now3 fresh2 utc2 session"
    for key :: "pystr \<times> 'd" and now3
  proof (intro ext)
    fix r l'
    show "login_body cfg key (find1 username) (verify_password checkpw1 password1) now3 fresh1 utc1 session r l'
      = login_body cfg key (find2 username) (verify_password checkpw2 password2) now3 fresh2 utc2 session r l'"
      by (cases "r = 0") (simp_all add: login_body_fail [OF assms(1)] login_body_fail [OF assms(2)]
          login_body_limited)
  qed
  then show ?thesis
    by (simp add: login_def split: prod.splits sum.splits)
qed

text \<open>
  A limited client is refused before its password is looked at: whatever the credentials, the
  answer is 429 with the retry time the limiter yielded and the session is untouched.
\<close>

theorem login_limited_before_password:
  assumes "limiter_key casefold sha256 (client_identifier client) username = Inr key"
    and "attempt_yields cfg l key now1 now2 = r" and "r \<noteq> 0"
  shows "login cfg casefold sha256 checkpw find_user (now1, now2, now3) fresh utc client username password session l
     = ((login_limited r, session), snd (with_attempt cfg l key now1 now2 (\<lambda>r l. (r, l))))"
proof -
  have "fst (with_attempt cfg l key now1 now2 (\<lambda>r l. ((login_limited r, session), l)))
      = (login_limited r, session)"
    by (rule with_attempt_fst) (simp add: assms)
  moreover have "snd (with_attempt cfg l key now1 now2 (\<lambda>r l. ((login_limited r, session), l)))
      = snd (with_attempt cfg l key now1 now2 (\<lambda>r l. (r, l)))"
    by (simp add: with_attempt_def split: prod.splits option.splits)
  ultimately have "with_attempt cfg l key now1 now2 (\<lambda>r l. ((login_limited r, session), l))
      = ((login_limited r, session), snd (with_attempt cfg l key now1 now2 (\<lambda>r l. (r, l))))"
    by (simp add: prod_eq_iff)
  moreover have "with_attempt cfg l key now1 now2
       (login_body cfg key (find_user username) (verify_password checkpw password) now3 fresh utc session)
      = with_attempt cfg l key now1 now2 (\<lambda>r l. ((login_limited r, session), l))"
    by (rule with_attempt_cong) (simp add: login_body_limited assms)
  ultimately show ?thesis
    using assms(1) by (simp add: login_def)
qed

text \<open>
  Login succeeds only for an unlimited client whose stored hash matches, and the session it
  leaves consists of the fresh CSRF token and the five-field proof of that user: nothing of the
  session before the login, an attacker's token included, survives.
\<close>

theorem login_success_exact:
  assumes "limiter_key casefold sha256 (client_identifier client) username = Inr key"
  shows "fst (login cfg casefold sha256 checkpw find_user (now1, now2, now3) fresh utc client username password session l)
       = (RedirectResponse (str ''/'') 303, s')
   \<longleftrightarrow> attempt_yields cfg l key now1 now2 = 0
     \<and> (\<exists>u uid. find_user username = Inr (Some u) \<and> au_id u = Some uid
          \<and> verify_password checkpw password (au_password_hash u) = Inr True
          \<and> s' = fresh_login_session fresh uid (epoch_seconds None utc) (au_session_version u))"
    (is "?l = _ \<longleftrightarrow> ?r")
proof
  let ?b = "login_body cfg key (find_user username) (verify_password checkpw password) now3 fresh utc session"
  have l: "?l = fst (with_attempt cfg l key now1 now2 ?b)"
    using assms by (simp add: login_def)
  show ?r if "?l = (RedirectResponse (str ''/'') 303, s')"
  proof -
    from that l obtain l' where "fst (?b (attempt_yields cfg l key now1 now2) l') = (RedirectResponse (str ''/'') 303, s')"
      by (metis with_attempt_fstE)
    from login_body_redirect [OF this] show ?thesis by blast
  qed
  show "?l = (RedirectResponse (str ''/'') 303, s')" if ?r
  proof -
    from that obtain u uid where u: "find_user username = Inr (Some u)" "au_id u = Some uid"
      "verify_password checkpw password (au_password_hash u) = Inr True"
      and s: "s' = fresh_login_session fresh uid (epoch_seconds None utc) (au_session_version u)"
      by blast
    have "fst (with_attempt cfg l key now1 now2 ?b) = (RedirectResponse (str ''/'') 303, s')"
      by (rule with_attempt_fst) (use that in \<open>simp add: login_body_success
          [where verify = "verify_password checkpw password", OF u(1,3,2)] s\<close>)
    with l show ?thesis by simp
  qed
qed

section \<open>Concrete instances\<close>

text \<open>The default limits of the settings and an administrator.\<close>

definition default_auth_settings :: auth_settings where
  "default_auth_settings = \<lparr>session_max_age_seconds = 28800, session_idle_timeout_seconds = 1800\<rparr>"

definition sample_admin :: admin_user where
  "sample_admin = \<lparr>au_id = Some 1, au_username = str ''admin'', au_password_hash = str ''h4sh'',
     au_session_version = 3, au_created_at = 0\<rparr>"

definition sample_get_user :: "int \<Rightarrow> admin_user option res" where
  "sample_get_user uid = Inr (if uid = 1 then Some sample_admin else None)"

definition sample_find_user :: "pystr \<Rightarrow> admin_user option res" where
  "sample_find_user name = Inr (if name = str ''admin'' then Some sample_admin else None)"

definition sample_checkpw :: "nat list \<Rightarrow> nat list \<Rightarrow> bool res" where
  "sample_checkpw p h = Inr (p = str ''pw'' \<and> h = str ''h4sh'')"

definition sample_session :: web_session where
  "sample_session = fresh_login_session (str ''t0k'') 1 0 3"

definition sample_limiter :: "(pystr \<times> nat list) limiter" where
  "sample_limiter = \<lparr>states = [], heap = (\<lambda>_. new_attempt_state), next_addr = 0, next_cleanup_at = 60\<rparr>"

definition locked_limiter :: "(pystr \<times> nat list) limiter" where
  "locked_limiter = \<lparr>states = [((str ''10.0.0.9'', str ''admin''), 0)],
     heap = (\<lambda>_. new_attempt_state\<lparr>failures := [1], locked_until := 901\<rparr>), next_addr = 1,
     next_cleanup_at = 60\<rparr>"

lemma sample_established:
  "establish_admin_session (snd (rotate_csrf_token (str ''t0k'') [])) sample_admin None 0 = Inr sample_session"
  by (simp add: establish_fresh sample_admin_def sample_session_def epoch_seconds_def us_per_second_def)

lemma ascii_utf8: "\<forall>c \<in> set s. c < 128 \<Longrightarrow> utf8_encode s = Some s"
  by (induction s) (auto simp: utf8_char_def)

lemma sample_key:
  "limiter_key (\<lambda>s. s) (\<lambda>b. b) (client_identifier (Some (str ''10.0.0.9''))) (str ''admin'')
     = Inr (str ''10.0.0.9'', str ''admin'')"
proof -
  have "strip (str ''admin'') = str ''admin''" by (simp add: strip_def lstrip_def rstrip_def str_def is_space_def)
  moreover have "utf8_encode (str ''admin'') = Some (str ''admin'')"
    by (rule ascii_utf8) (simp add: str_def)
  ultimately show ?thesis by (simp add: limiter_key_def client_identifier_def)
qed

lemma sample_verify:
  "verify_password sample_checkpw (str ''pw'') (au_password_hash sample_admin) = Inr True"
  "verify_password sample_checkpw (str ''nope'') (au_password_hash sample_admin) = Inr False"
  "verify_password sample_checkpw (str ''nope'') DUMMY_PASSWORD_HASH = Inr False"
proof -
  have u: "utf8_encode (str ''pw'') = Some (str ''pw'')" "utf8_encode (str ''nope'') = Some (str ''nope'')"
    by (rule ascii_utf8, simp add: str_def)+
  have a: "ascii_encode (str ''h4sh'') = Some (str ''h4sh'')" "ascii_encode DUMMY_PASSWORD_HASH = Some DUMMY_PASSWORD_HASH"
    by (simp_all add: ascii_encode_def str_def DUMMY_PASSWORD_HASH_def)
  show "verify_password sample_checkpw (str ''pw'') (au_password_hash sample_admin) = Inr True"
    "verify_password sample_checkpw (str ''nope'') (au_password_hash sample_admin) = Inr False"
    "verify_password sample_checkpw (str ''nope'') DUMMY_PASSWORD_HASH = Inr False"
    by (simp_all add: verify_password_def u a sample_checkpw_def sample_admin_def)
qed

theorem admin_session_lifetime_witness:
  "admin_requests default_auth_settings sample_get_user [1000000000, 2700000000, 4600000000] sample_session ! 1
      = Inr sample_admin
   \<and> admin_requests default_auth_settings sample_get_user [1000000000, 2700000000, 4600000000] sample_session ! 2
      = Inl http_401"
proof -
  let ?ts = "[1000000000, 2700000000, 4600000000] :: int list"
  have p: "sorted (0 # ?ts)" "(0::int) \<le> 0" by simp_all
  have u: "au_id sample_admin = Some 1" "sample_get_user 1 = Inr (Some sample_admin)"
    by (simp_all add: sample_admin_def sample_get_user_def)
  have split: "(\<forall>j \<le> Suc n. P j) \<longleftrightarrow> (\<forall>j \<le> n. P j) \<and> P (Suc n)" for P n
    by (metis le_Suc_eq)
  note life = admin_session_lifetime [where get_user = sample_get_user and st = default_auth_settings,
      OF sample_established p(2,1) u]
  from life [of 1] life [of 2] show ?thesis
    by (simp add: split numeral_2_eq_2 within_limits_def default_auth_settings_def epoch_seconds_def
        us_per_second_def)
qed

theorem admin_session_revoked_witness:
  "set (admin_requests default_auth_settings
      (\<lambda>uid. Inr (if uid = 1 then Some (sample_admin\<lparr>au_session_version := 4\<rparr>) else None))
      [5, 6] sample_session) \<subseteq> {Inl http_401}"
  by (rule admin_session_revoked)
    (auto simp: sample_session_def fresh_login_session_def session_integer_def session_keys
      split: if_splits)

theorem login_failure_uniform_witness:
  "login default_limiter_config (\<lambda>s. s) (\<lambda>b. b) sample_checkpw sample_find_user (1, 2, 3) [] 0 None
      (str ''admin'') (str ''nope'') [] sample_limiter
   = login default_limiter_config (\<lambda>s. s) (\<lambda>b. b) sample_checkpw (\<lambda>_. Inr None) (1, 2, 3) [] 0 None
      (str ''admin'') (str ''nope'') [] sample_limiter"
proof (rule login_failure_uniform)
  show "credentials_fail (sample_find_user (str ''admin'')) (verify_password sample_checkpw (str ''nope''))"
    using sample_verify by (simp add: credentials_fail_def sample_find_user_def)
  show "credentials_fail (Inr None) (verify_password sample_checkpw (str ''nope''))"
    using sample_verify(3) by (auto simp: credentials_fail_def)
qed

theorem login_limited_before_password_witness:
  "fst (login default_limiter_config (\<lambda>s. s) (\<lambda>b. b) sample_checkpw sample_find_user (2, 3, 4) [] 0
      (Some (str ''10.0.0.9'')) (str ''admin'') (str ''pw'') [] locked_limiter)
   = (login_limited 898, [])"
proof -
  have "attempt_yields default_limiter_config locked_limiter (str ''10.0.0.9'', str ''admin'') 2 3 = 898"
    by (simp add: attempt_yields_def attempt_defs default_limiter_config_def locked_limiter_def
        new_attempt_state_def)
  from login_limited_before_password [OF sample_key this] show ?thesis by simp
qed

theorem login_success_exact_witness:
  "fst (login default_limiter_config (\<lambda>s. s) (\<lambda>b. b) sample_checkpw sample_find_user (1, 2, 3) (str ''t0k'') 0
      (Some (str ''10.0.0.9'')) (str ''admin'') (str ''pw'') [(str ''planted'', SNull)] sample_limiter)
   = (RedirectResponse (str ''/'') 303, sample_session)"
proof -
  have y: "attempt_yields default_limiter_config sample_limiter (str ''10.0.0.9'', str ''admin'') 1 2 = 0"
    by (simp add: attempt_yields_def attempt_defs default_limiter_config_def sample_limiter_def
        new_attempt_state_def)
  have "epoch_seconds None 0 = 0" "au_id sample_admin = Some 1" "au_session_version sample_admin = 3"
    by (simp_all add: epoch_seconds_def sample_admin_def)
  with y sample_verify(1) show ?thesis
    by (subst login_success_exact [OF sample_key]) (simp add: sample_find_user_def sample_session_def)
qed

end
