(* ===== verification/Store.thy ===== *)
theory Store
  imports Models
begin

text \<open>
  The database as the code sees it through an SQLModel \<open>Session\<close>. A \<open>db\<close> is the content of the
  tables. A \<open>world\<close> is one session (the committed database, and the working copy the open
  transaction sees) with what the process observes of its surroundings. The environment \<open>env\<close> is
  a parameter of every operation: which call to the outside raises, the clock, the identifiers it
  is given. Each such call takes the next tick, so an environment describes any sequence of
  answers. The refresh of ORM attributes after a commit rereads the same row and is not a call of
  its own here.
\<close>

section \<open>Tables and sessions\<close>

record db =
  admin_users :: "admin_user list"
  data_sources :: "sql_data_source list"
  smtp_configs :: "smtp_config list"
  alert_rules :: "alert_rule list"
  leases :: "rule_execution_lease list"
  heartbeats :: "worker_heartbeat list"
  suppressions :: "alert_suppression list"
  rule_versions :: "alert_rule_version list"
  execution_logs :: "execution_log list"
  mail_logs :: "mail_log list"

definition empty_db :: db where
  "empty_db = \<lparr>admin_users = [], data_sources = [], smtp_configs = [], alert_rules = [], leases = [],
     heartbeats = [], suppressions = [], rule_versions = [], execution_logs = [], mail_logs = []\<rparr>"

record world =
  committed :: db
  working :: db
  ticks :: nat
  sleeps :: "real list"

definition new_world :: "db \<Rightarrow> world" where
  "new_world d = \<lparr>committed = d, working = d, ticks = 0, sleeps = []\<rparr>"

text \<open>What the surroundings answer at tick \<open>n\<close>: the exception a call raises, the clock, a random
  hexadecimal identifier, and the primary key the database assigns beside the existing ones.\<close>

record env =
  fault :: "nat \<Rightarrow> exn option"
  clock :: "nat \<Rightarrow> datetime"
  uuid_hex :: "nat \<Rightarrow> pystr"
  assign_id :: "int option list \<Rightarrow> int"

section \<open>Calls\<close>

definition tick :: "world \<Rightarrow> world" where
  "tick w = w\<lparr>ticks := Suc (ticks w)\<rparr>"

definition db_exec :: "env \<Rightarrow> (db \<Rightarrow> 'a \<times> db) \<Rightarrow> (world, 'a) eff" where
  "db_exec E f w =
     (case fault E (ticks w) of
        Some exc \<Rightarrow> (Inl exc, tick w)
      | None \<Rightarrow> (case f (working w) of (x, d) \<Rightarrow> (Inr x, tick (w\<lparr>working := d\<rparr>))))"

definition db_query :: "env \<Rightarrow> (db \<Rightarrow> 'a) \<Rightarrow> (world, 'a) eff" where
  "db_query E f = db_exec E (\<lambda>d. (f d, d))"

definition db_commit :: "env \<Rightarrow> (world, unit) eff" where
  "db_commit E w =
     (case fault E (ticks w) of
        Some exc \<Rightarrow> (Inl exc, tick w)
      | None \<Rightarrow> (Inr (), tick (w\<lparr>committed := working w\<rparr>)))"

text \<open>
  SQLite holds integers of 64 bits. Python's integers are unbounded, and its driver raises when a
  statement is given one that does not fit; the statement is then not run.
\<close>

definition fits_int64 :: "int \<Rightarrow> bool" where
  "fits_int64 i \<longleftrightarrow> - (2 ^ 63) \<le> i \<and> i < 2 ^ 63"

definition sqlite_int :: "int \<Rightarrow> unit res" where
  "sqlite_int i =
     (if fits_int64 i then Inr ()
      else Inl (OverflowError (str ''Python int too large to convert to SQLite INTEGER'')))"

lemma sqlite_int_Inr [simp]: "sqlite_int i = Inr u \<longleftrightarrow> fits_int64 i"
  by (simp add: sqlite_int_def)

text \<open>A rollback discards the working copy even when it reports an error.\<close>

definition db_rollback :: "env \<Rightarrow> (world, unit) eff" where
  "db_rollback E w =
     ((case fault E (ticks w) of Some exc \<Rightarrow> Inl exc | None \<Rightarrow> Inr ()),
      tick (w\<lparr>working := committed w\<rparr>))"

definition utc_now :: "env \<Rightarrow> (world, datetime) eff" where
  "utc_now E w = (Inr (clock E (ticks w)), tick w)"

definition uuid4_hex :: "env \<Rightarrow> (world, pystr) eff" where
  "uuid4_hex E w = (Inr (uuid_hex E (ticks w)), tick w)"

text \<open>The pattern \<open>try: ... except Exception: session.rollback(); raise\<close>.\<close>

definition rollback_on_error :: "env \<Rightarrow> (world, 'a) eff \<Rightarrow> (world, 'a) eff" where
  "rollback_on_error E m = ecatch m (\<lambda>exc. ebind (db_rollback E) (\<lambda>_. eraise exc))"

lemma tick_simps [simp]:
  "committed (tick w) = committed w" "working (tick w) = working w" "sleeps (tick w) = sleeps w"
  "ticks (tick w) = Suc (ticks w)"
  by (simp_all add: tick_def)

lemma new_world_simps [simp]:
  "committed (new_world d) = d" "working (new_world d) = d" "ticks (new_world d) = 0"
  "sleeps (new_world d) = []"
  by (simp_all add: new_world_def)

section \<open>Primary keys\<close>

definition db_get :: "('r \<Rightarrow> int option) \<Rightarrow> int \<Rightarrow> 'r list \<Rightarrow> 'r option" where
  "db_get pk i rows = find (\<lambda>r. pk r = Some i) rows"

definition fresh_ids :: "env \<Rightarrow> bool" where
  "fresh_ids E \<longleftrightarrow> (\<forall>ids. Some (assign_id E ids) \<notin> set ids)"

lemma db_get_Some: "db_get pk i rows = Some r \<Longrightarrow> r \<in> set rows \<and> pk r = Some i"
  by (auto simp: db_get_def find_Some_iff)

section \<open>Frames\<close>

text \<open>What a call leaves alone: only a commit changes the committed database.\<close>

definition keeps_committed :: "world \<Rightarrow> world \<Rightarrow> bool" where
  "keeps_committed w w' \<longleftrightarrow> committed w' = committed w"

interpretation kc: state_relation keeps_committed
  by unfold_locales (simp_all add: keeps_committed_def)

lemma db_exec_keeps_committed: "preserves keeps_committed (db_exec E f)"
  by (auto simp: preserves_def keeps_committed_def db_exec_def split: option.splits prod.splits)

lemma db_query_keeps_committed: "preserves keeps_committed (db_query E f)"
  by (simp add: db_query_def db_exec_keeps_committed)

lemma db_rollback_keeps_committed: "preserves keeps_committed (db_rollback E)"
  by (auto simp: preserves_def keeps_committed_def db_rollback_def split: option.splits)

lemma utc_now_keeps_committed: "preserves keeps_committed (utc_now E)"
  by (simp add: preserves_def keeps_committed_def utc_now_def)

lemma uuid4_hex_keeps_committed: "preserves keeps_committed (uuid4_hex E)"
  by (simp add: preserves_def keeps_committed_def uuid4_hex_def)

lemmas keeps_committed_intros = kc.ereturn kc.eraise kc.elift kc.ebind kc.ecatch kc.efor
  db_exec_keeps_committed db_query_keeps_committed db_rollback_keeps_committed
  utc_now_keeps_committed uuid4_hex_keeps_committed

lemma preserves_committedD: "preserves keeps_committed m \<Longrightarrow> committed (snd (m w)) = committed w"
  by (simp add: preserves_def keeps_committed_def)

section \<open>Transactions\<close>

text \<open>
  The contract of a unit of work that ends in a commit and rolls back on any error: it either
  returns, having made its whole change durable, or raises, leaving the committed database as it
  was and no pending change.
\<close>

definition all_or_nothing :: "(world, 'a) eff \<Rightarrow> bool" where
  "all_or_nothing m \<longleftrightarrow>
     (\<forall>w. committed w = working w \<longrightarrow>
        (case m w of
           (Inr x, w') \<Rightarrow> committed w' = working w'
         | (Inl exc, w') \<Rightarrow> committed w' = committed w \<and> working w' = committed w))"

lemma all_or_nothing_raise:
  "all_or_nothing m \<Longrightarrow> committed w = working w \<Longrightarrow> m w = (Inl exc, w')
     \<Longrightarrow> committed w' = committed w \<and> working w' = committed w"
  by (force simp: all_or_nothing_def)

lemma all_or_nothing_return:
  "all_or_nothing m \<Longrightarrow> committed w = working w \<Longrightarrow> m w = (Inr x, w') \<Longrightarrow> committed w' = working w'"
  by (force simp: all_or_nothing_def)

lemma rollback_on_error_commit:
  assumes "preserves keeps_committed m"
  shows "all_or_nothing (rollback_on_error E (ebind m (\<lambda>x. ebind (db_commit E) (\<lambda>_. ereturn x))))"
  unfolding all_or_nothing_def
proof (intro allI impI)
  fix w :: world
  assume sync: "committed w = working w"
  obtain r w1 where m: "m w = (r, w1)" by (cases "m w")
  have c: "committed w1 = committed w" using preserves_committedD [OF assms, of w] m by simp
  show "case rollback_on_error E (ebind m (\<lambda>x. ebind (db_commit E) (\<lambda>_. ereturn x))) w of
      (Inr x, w') \<Rightarrow> committed w' = working w'
    | (Inl exc, w') \<Rightarrow> committed w' = committed w \<and> working w' = committed w"
    using c by (cases r; cases "fault E (ticks w1)"; cases "fault E (Suc (ticks w1))";
        cases "fault E (ticks w1)")
      (simp_all add: rollback_on_error_def eff_defs m db_commit_def db_rollback_def)
qed

section \<open>Reads\<close>

text \<open>A call that changes neither the committed database nor the working copy.\<close>

definition same_db :: "world \<Rightarrow> world \<Rightarrow> bool" where
  "same_db w w' \<longleftrightarrow> committed w' = committed w \<and> working w' = working w"

interpretation sd: state_relation same_db
  by unfold_locales (simp_all add: same_db_def)

lemma db_query_same_db: "preserves same_db (db_query E f)"
  by (auto simp: preserves_def same_db_def db_query_def db_exec_def split: option.splits)

lemma utc_now_same_db: "preserves same_db (utc_now E)"
  by (simp add: preserves_def same_db_def utc_now_def)

lemma uuid4_hex_same_db: "preserves same_db (uuid4_hex E)"
  by (simp add: preserves_def same_db_def uuid4_hex_def)

lemmas same_db_intros = sd.ereturn sd.eraise sd.elift sd.ebind sd.ecatch sd.efor
  db_query_same_db utc_now_same_db uuid4_hex_same_db

lemma preserves_sameD:
  "preserves same_db m \<Longrightarrow> m w = (r, w') \<Longrightarrow> committed w' = committed w \<and> working w' = working w"
  unfolding preserves_def same_db_def by (metis snd_conv)

lemma db_query_Inr: "db_query E f w = (Inr x, w') \<longleftrightarrow> fault E (ticks w) = None \<and> x = f (working w) \<and> w' = tick w"
  by (auto simp: db_query_def db_exec_def tick_def split: option.splits)

lemma db_exec_Inr:
  "db_exec E f w = (Inr x, w') \<longleftrightarrow>
     fault E (ticks w) = None \<and> x = fst (f (working w)) \<and> w' = tick (w\<lparr>working := snd (f (working w))\<rparr>)"
  by (auto simp: db_exec_def split: option.splits prod.splits)

lemma db_commit_Inr:
  "db_commit E w = (Inr u, w') \<longleftrightarrow> fault E (ticks w) = None \<and> w' = tick (w\<lparr>committed := working w\<rparr>)"
  by (auto simp: db_commit_def split: option.splits)

section \<open>Surroundings without failures\<close>

definition no_faults :: "env \<Rightarrow> bool" where
  "no_faults E \<longleftrightarrow> (\<forall>n. fault E n = None)"

lemma no_faultsD [simp]: "no_faults E \<Longrightarrow> fault E n = None"
  by (simp add: no_faults_def)

lemma db_calls_run:
  "no_faults E \<Longrightarrow> db_exec E f w = (Inr (fst (f (working w))), tick (w\<lparr>working := snd (f (working w))\<rparr>))"
  "no_faults E \<Longrightarrow> db_commit E w = (Inr (), tick (w\<lparr>committed := working w\<rparr>))"
  "no_faults E \<Longrightarrow> db_rollback E w = (Inr (), tick (w\<lparr>working := committed w\<rparr>))"
  by (simp_all add: db_exec_def db_commit_def db_rollback_def split: prod.splits)

text \<open>Surroundings in which every call works, for the concrete runs.\<close>

definition quiet_env :: env where
  "quiet_env = \<lparr>fault = (\<lambda>_. None), clock = (\<lambda>n. int n * us_per_second), uuid_hex = (\<lambda>n. nat_str n),
     assign_id = (\<lambda>ids. 1 + Max (insert 0 (the ` (set ids - {None}))))\<rparr>"

lemma no_faults_quiet_env [simp]: "no_faults quiet_env"
  by (simp add: no_faults_def quiet_env_def)

section \<open>Sessions\<close>

text \<open>
  \<open>with session_factory() as session\<close>: a new session sees the committed database, and closing it
  drops what was not committed.
\<close>

definition open_session :: "world \<Rightarrow> world" where
  "open_session w = w\<lparr>working := committed w\<rparr>"

definition with_session :: "(world, 'a) eff \<Rightarrow> (world, 'a) eff" where
  "with_session m w = (case m (open_session w) of (r, w') \<Rightarrow> (r, open_session w'))"

lemma open_session_simps [simp]:
  "committed (open_session w) = committed w" "working (open_session w) = committed w"
  "ticks (open_session w) = ticks w" "sleeps (open_session w) = sleeps w"
  by (simp_all add: open_session_def)

lemma with_session_closed: "working (snd (with_session m w)) = committed (snd (with_session m w))"
  by (simp add: with_session_def split: prod.splits)

lemma committed_with_session: "committed (snd (with_session m w)) = committed (snd (m (open_session w)))"
  by (simp add: with_session_def split: prod.splits)

lemma committed_rollback_on_error: "committed (snd (rollback_on_error E m w)) = committed (snd (m w))"
  by (auto simp: rollback_on_error_def eff_defs db_rollback_def split: sum.splits prod.splits option.splits)

end
