(* ===== verification/Execution_Lock.thy ===== *)
theory Execution_Lock
  imports Store
begin

text \<open>
  \<open>app/execution_lock.py\<close>: the lease row that keeps two processes from executing the same rule at
  once. The upsert and the guarded delete are functions on the lease table; the context manager
  runs them on one session; and a step relation interleaves any number of processes, with crashes,
  failed releases and a global clock, over the shared table.
\<close>

section \<open>The two statements\<close>

text \<open>
  \<open>INSERT ... ON CONFLICT (rule_id) DO UPDATE ... WHERE expires_at <= acquired_at\<close>: inserts when no
  row has the key, replaces a row that has expired, otherwise changes nothing. The first component
  is \<open>rowcount\<close>.
\<close>

fun upsert_lease :: "rule_execution_lease \<Rightarrow> rule_execution_lease list \<Rightarrow> int \<times> rule_execution_lease list" where
  "upsert_lease new [] = (1, [new])"
| "upsert_lease new (row # rows) =
     (if le_rule_id row = le_rule_id new then
        if le_expires_at row \<le> le_acquired_at new then (1, new # rows) else (0, row # rows)
      else (case upsert_lease new rows of (n, rows') \<Rightarrow> (n, row # rows')))"

definition delete_lease :: "int \<Rightarrow> pystr \<Rightarrow> rule_execution_lease list \<Rightarrow> rule_execution_lease list" where
  "delete_lease rule_id owner_token rows =
     filter (\<lambda>row. \<not> (le_rule_id row = rule_id \<and> le_owner_token row = owner_token)) rows"

definition lease_of :: "rule_execution_lease list \<Rightarrow> int \<Rightarrow> rule_execution_lease option" where
  "lease_of rows rule_id = find (\<lambda>row. le_rule_id row = rule_id) rows"

section \<open>The context manager\<close>

definition release_rule_execution_lease :: "env \<Rightarrow> int \<Rightarrow> pystr \<Rightarrow> (world, unit) eff" where
  "release_rule_execution_lease E rule_id owner_token =
     rollback_on_error E
       (ebind (db_rollback E) (\<lambda>_.
        ebind (db_exec E (\<lambda>d. ((), d\<lparr>leases := delete_lease rule_id owner_token (leases d)\<rparr>))) (\<lambda>_.
        db_commit E)))"

text \<open>Executing and committing the upsert, with the rollback on an error; returns \<open>rowcount\<close>.\<close>

definition claim_lease :: "env \<Rightarrow> rule_execution_lease \<Rightarrow> (world, int) eff" where
  "claim_lease E new =
     rollback_on_error E
       (ebind (db_exec E (\<lambda>d. case upsert_lease new (leases d) of (n, rows) \<Rightarrow> (n, d\<lparr>leases := rows\<rparr>)))
          (\<lambda>rowcount. ebind (db_commit E) (\<lambda>_. ereturn rowcount)))"

definition acquire_rule_execution_lease :: "env \<Rightarrow> int \<Rightarrow> int \<Rightarrow> (world, pystr) eff" where
  "acquire_rule_execution_lease E rule_id lease_seconds =
     (if lease_seconds < 1 then eraise (ValueError (str ''lease_seconds must be positive''))
      else
        ebind (utc_now E) (\<lambda>acquired_at.
        ebind (uuid4_hex E) (\<lambda>owner_token.
        ebind (elift (timedelta_seconds lease_seconds)) (\<lambda>duration.
        ebind (elift (datetime_in_range (acquired_at + duration))) (\<lambda>expires_at.
        ebind (claim_lease E \<lparr>le_rule_id = rule_id, le_owner_token = owner_token,
                 le_acquired_at = acquired_at, le_expires_at = expires_at\<rparr>) (\<lambda>rowcount.
        if rowcount \<noteq> 1 then
          eraise (RuleExecutionInProgressError (str ''rule '' @ int_str rule_id @ str '' is already running''))
        else ereturn owner_token))))))"

text \<open>The whole \<open>with\<close> block. When the body raises, its exception wins over one of the release;
  when it returns, an exception of the release replaces the result.\<close>

definition rule_execution_lease :: "env \<Rightarrow> int \<Rightarrow> int \<Rightarrow> (world, 'a) eff \<Rightarrow> (world, 'a) eff" where
  "rule_execution_lease E rule_id lease_seconds body =
     ebind (acquire_rule_execution_lease E rule_id lease_seconds) (\<lambda>owner_token w.
       case body w of
         (Inl exc, w1) \<Rightarrow> (Inl exc, snd (release_rule_execution_lease E rule_id owner_token w1))
       | (Inr x, w1) \<Rightarrow>
           (case release_rule_execution_lease E rule_id owner_token w1 of
              (Inl exc, w2) \<Rightarrow> (Inl exc, w2)
            | (Inr _, w2) \<Rightarrow> (Inr x, w2)))"

section \<open>The statements on the table\<close>

definition lease_keys :: "rule_execution_lease list \<Rightarrow> int list" where
  "lease_keys rows = map le_rule_id rows"

lemma lease_of_Cons [simp]:
  "lease_of [] r = None"
  "lease_of (row # rows) r = (if le_rule_id row = r then Some row else lease_of rows r)"
  by (simp_all add: lease_of_def)

lemma lease_of_Some: "lease_of rows r = Some l \<Longrightarrow> l \<in> set rows \<and> le_rule_id l = r"
  by (induction rows) (auto split: if_splits)

lemma lease_of_None: "lease_of rows r = None \<longleftrightarrow> r \<notin> le_rule_id ` set rows"
  by (induction rows) auto

lemma upsert_rowcount:
  "fst (upsert_lease new rows) =
     (case lease_of rows (le_rule_id new) of
        None \<Rightarrow> 1
      | Some row \<Rightarrow> if le_expires_at row \<le> le_acquired_at new then 1 else 0)"
  by (induction rows) (auto split: prod.splits option.splits)

lemma upsert_lease_of:
  "lease_of (snd (upsert_lease new rows)) r =
     (if r = le_rule_id new \<and> fst (upsert_lease new rows) = 1 then Some new else lease_of rows r)"
  by (induction rows) (auto split: prod.splits)

lemma upsert_set: "l \<in> set (snd (upsert_lease new rows)) \<Longrightarrow> l = new \<or> l \<in> set rows"
  by (induction rows) (auto split: prod.splits if_splits)

lemma upsert_keys_set: "set (lease_keys (snd (upsert_lease new rows))) = insert (le_rule_id new) (set (lease_keys rows))"
  by (induction rows) (auto simp: lease_keys_def split: prod.splits if_splits)

lemma upsert_distinct: "distinct (lease_keys rows) \<Longrightarrow> distinct (lease_keys (snd (upsert_lease new rows)))"
proof (induction rows)
  case Nil
  then show ?case by (simp add: lease_keys_def)
next
  case (Cons row rows)
  moreover have "le_rule_id row \<notin> set (lease_keys (snd (upsert_lease new rows)))"
    if "le_rule_id row \<noteq> le_rule_id new"
    using Cons.prems that upsert_keys_set [of new rows] by (auto simp: lease_keys_def)
  ultimately show ?case by (auto simp: lease_keys_def split: prod.splits)
qed

lemma delete_lease_of:
  "distinct (lease_keys rows) \<Longrightarrow>
   lease_of (delete_lease r t rows) r' =
     (case lease_of rows r' of
        None \<Rightarrow> None
      | Some l \<Rightarrow> if r' = r \<and> le_owner_token l = t then None else Some l)"
  by (induction rows)
    (auto simp: delete_lease_def lease_keys_def lease_of_None split: option.splits dest: lease_of_Some)

lemma delete_distinct: "distinct (lease_keys rows) \<Longrightarrow> distinct (lease_keys (delete_lease r t rows))"
  by (simp add: lease_keys_def delete_lease_def distinct_map_filter)

section \<open>Interleaved processes\<close>

text \<open>
  A process is idle, has read the clock and drawn its token (\<open>Starting\<close>), runs its body under a
  lease it was granted, or is releasing. The statement that acquires may run long after the clock
  was read; a release may fail and a process may die, leaving the row to expire.
\<close>

datatype lease_pc =
    LIdle
  | LStarting rule_execution_lease
  | LRunning rule_execution_lease
  | LReleasing rule_execution_lease

record lease_sys =
  ls_now :: datetime
  ls_leases :: "rule_execution_lease list"
  ls_procs :: "nat \<Rightarrow> lease_pc"
  ls_used :: "pystr set"

fun holding :: "lease_pc \<Rightarrow> rule_execution_lease option" where
  "holding (LRunning l) = Some l"
| "holding (LReleasing l) = Some l"
| "holding _ = None"

inductive lease_step :: "lease_sys \<Rightarrow> lease_sys \<Rightarrow> bool" where
  time: "ls_now s \<le> t \<Longrightarrow> lease_step s (s\<lparr>ls_now := t\<rparr>)"
| start: "ls_procs s p = LIdle \<Longrightarrow> token \<notin> ls_used s \<Longrightarrow> 1 \<le> secs \<Longrightarrow>
     l = \<lparr>le_rule_id = r, le_owner_token = token, le_acquired_at = ls_now s,
          le_expires_at = ls_now s + secs * us_per_second\<rparr> \<Longrightarrow>
     lease_step s (s\<lparr>ls_procs := (ls_procs s)(p := LStarting l), ls_used := insert token (ls_used s)\<rparr>)"
| acquire: "ls_procs s p = LStarting l \<Longrightarrow> upsert_lease l (ls_leases s) = (n, rows) \<Longrightarrow>
     lease_step s (s\<lparr>ls_leases := rows,
       ls_procs := (ls_procs s)(p := if n \<noteq> 1 then LIdle else LRunning l)\<rparr>)"
| finish: "ls_procs s p = LRunning l \<Longrightarrow>
     lease_step s (s\<lparr>ls_procs := (ls_procs s)(p := LReleasing l)\<rparr>)"
| release: "ls_procs s p = LReleasing l \<Longrightarrow>
     lease_step s (s\<lparr>ls_leases := delete_lease (le_rule_id l) (le_owner_token l) (ls_leases s),
       ls_procs := (ls_procs s)(p := LIdle)\<rparr>)"
| lose: "lease_step s (s\<lparr>ls_procs := (ls_procs s)(p := LIdle)\<rparr>)"

inductive_cases lease_stepE: "lease_step s s'"

inductive lease_reachable :: "lease_sys \<Rightarrow> bool" where
  init: "lease_reachable \<lparr>ls_now = t, ls_leases = [], ls_procs = (\<lambda>_. LIdle), ls_used = {}\<rparr>"
| step: "lease_reachable s \<Longrightarrow> lease_step s s' \<Longrightarrow> lease_reachable s'"

text \<open>
  The invariant: one row per rule; tokens drawn are distinct across processes and recorded; a
  process whose lease has not expired by the clock owns the row of its rule, unless that row is
  its own already.
\<close>

fun drawn :: "lease_pc \<Rightarrow> rule_execution_lease option" where
  "drawn LIdle = None"
| "drawn (LStarting l) = Some l"
| "drawn (LRunning l) = Some l"
| "drawn (LReleasing l) = Some l"

definition lease_ok ::
  "datetime \<Rightarrow> rule_execution_lease list \<Rightarrow> (nat \<Rightarrow> lease_pc) \<Rightarrow> pystr set \<Rightarrow> bool" where
  "lease_ok now rows ps used \<longleftrightarrow>
     distinct (lease_keys rows)
     \<and> (\<forall>l \<in> set rows. le_owner_token l \<in> used)
     \<and> (\<forall>p l. drawn (ps p) = Some l \<longrightarrow> le_owner_token l \<in> used \<and> le_acquired_at l \<le> now)
     \<and> (\<forall>p q l m. drawn (ps p) = Some l \<and> drawn (ps q) = Some m
          \<and> le_owner_token l = le_owner_token m \<longrightarrow> p = q)
     \<and> (\<forall>p l m. ps p = LStarting l \<and> m \<in> set rows \<longrightarrow> le_owner_token l \<noteq> le_owner_token m)
     \<and> (\<forall>p l. holding (ps p) = Some l \<and> now < le_expires_at l
          \<longrightarrow> lease_of rows (le_rule_id l) = Some l)"

definition lease_inv :: "lease_sys \<Rightarrow> bool" where
  "lease_inv s \<longleftrightarrow> lease_ok (ls_now s) (ls_leases s) (ls_procs s) (ls_used s)"

lemma holding_drawn: "holding c = Some l \<Longrightarrow> drawn c = Some l"
  by (cases c) auto

lemma lease_okI:
  assumes "distinct (lease_keys rows)"
    and "\<And>l. l \<in> set rows \<Longrightarrow> le_owner_token l \<in> used"
    and "\<And>p l. drawn (ps p) = Some l \<Longrightarrow> le_owner_token l \<in> used"
    and "\<And>p l. drawn (ps p) = Some l \<Longrightarrow> le_acquired_at l \<le> now"
    and "\<And>p q l m. drawn (ps p) = Some l \<Longrightarrow> drawn (ps q) = Some m \<Longrightarrow>
           le_owner_token l = le_owner_token m \<Longrightarrow> p = q"
    and "\<And>p l m. ps p = LStarting l \<Longrightarrow> m \<in> set rows \<Longrightarrow> le_owner_token l \<noteq> le_owner_token m"
    and "\<And>p l. holding (ps p) = Some l \<Longrightarrow> now < le_expires_at l \<Longrightarrow>
           lease_of rows (le_rule_id l) = Some l"
  shows "lease_ok now rows ps used"
  using assms unfolding lease_ok_def by blast

lemma lease_okD:
  assumes "lease_ok now rows ps used"
  shows "distinct (lease_keys rows)"
    and "l \<in> set rows \<Longrightarrow> le_owner_token l \<in> used"
    and "drawn (ps p) = Some l \<Longrightarrow> le_owner_token l \<in> used"
    and "drawn (ps p) = Some l \<Longrightarrow> le_acquired_at l \<le> now"
    and "drawn (ps p) = Some l \<Longrightarrow> drawn (ps q) = Some m \<Longrightarrow>
           le_owner_token l = le_owner_token m \<Longrightarrow> p = q"
    and "ps p = LStarting l \<Longrightarrow> m \<in> set rows \<Longrightarrow> le_owner_token l \<noteq> le_owner_token m"
    and "holding (ps p) = Some l \<Longrightarrow> now < le_expires_at l \<Longrightarrow>
           lease_of rows (le_rule_id l) = Some l"
  using assms unfolding lease_ok_def by blast+

lemma lease_ok_time: "lease_ok now rows ps used \<Longrightarrow> now \<le> t \<Longrightarrow> lease_ok t rows ps used"
  unfolding lease_ok_def by fastforce

text \<open>Moving a process to a control point that draws and holds no more than before.\<close>

lemma lease_ok_move:
  assumes ok: "lease_ok now rows ps used" and "drawn c = None \<or> drawn c = drawn (ps p)"
    and "holding c = None \<or> holding c = holding (ps p)"
    and "\<forall>l. c = LStarting l \<longrightarrow> ps p = LStarting l"
  shows "lease_ok now rows (ps(p := c)) used"
proof -
  note r = lease_okD [OF ok]
  have d: "drawn (ps q) = Some l" if "drawn ((ps(p := c)) q) = Some l" for q l
    using that assms(2) by (cases "q = p") auto
  have h: "holding (ps q) = Some l" if "holding ((ps(p := c)) q) = Some l" for q l
    using that assms(3) by (cases "q = p") auto
  have st: "ps q = LStarting l" if "(ps(p := c)) q = LStarting l" for q l
    using that assms(4) by (simp split: if_splits)
  show ?thesis by (rule lease_okI) (use r d h st in blast)+
qed

lemma lease_ok_start:
  assumes ok: "lease_ok now rows ps used" and fresh: "le_owner_token l \<notin> used"
    and now: "le_acquired_at l = now"
  shows "lease_ok now rows (ps(p := LStarting l)) (insert (le_owner_token l) used)"
proof -
  note r = lease_okD [OF ok]
  have f: "le_owner_token m \<noteq> le_owner_token l" if "drawn (ps q) = Some m" for q m
    using r(3) [OF that] fresh by auto
  have g: "le_owner_token m \<noteq> le_owner_token l" if "m \<in> set rows" for m
    using r(2) [OF that] fresh by auto
  have d: "q = p \<and> m = l \<or> q \<noteq> p \<and> drawn (ps q) = Some m"
    if "drawn ((ps(p := LStarting l)) q) = Some m" for q m
    using that by (simp split: if_splits)
  have h: "holding (ps q) = Some m" if "holding ((ps(p := LStarting l)) q) = Some m" for q m
    using that by (simp split: if_splits)
  have st: "m = l \<or> ps q = LStarting m" if "(ps(p := LStarting l)) q = LStarting m" for q m
    using that by (simp split: if_splits)
  show ?thesis
  proof (rule lease_okI)
    show "q = q'" if "drawn ((ps(p := LStarting l)) q) = Some m"
      "drawn ((ps(p := LStarting l)) q') = Some m'" "le_owner_token m = le_owner_token m'" for q q' m m'
      using d [OF that(1)] d [OF that(2)] f r(5) that(3) by metis
  qed (use r now d h st g in \<open>blast | metis order.refl\<close>)+
qed

lemma lease_ok_acquire:
  assumes ok: "lease_ok now rows ps used" and pc: "ps p = LStarting l"
    and up: "upsert_lease l rows = (1, rows')"
  shows "lease_ok now rows' (ps(p := LRunning l)) used"
proof -
  note r = lease_okD [OF ok]
  have rows': "rows' = snd (upsert_lease l rows)" and n: "fst (upsert_lease l rows) = 1"
    using up by simp_all
  have mem: "m = l \<or> m \<in> set rows" if "m \<in> set rows'" for m
    using upsert_set that rows' by blast
  have dr: "drawn (ps p) = Some l" using pc by simp
  have d: "drawn (ps q) = Some m" if "drawn ((ps(p := LRunning l)) q) = Some m" for q m
    using that dr by (simp split: if_splits)
  show ?thesis
  proof (rule lease_okI)
    show "distinct (lease_keys rows')" using upsert_distinct [OF r(1)] by (simp add: rows')
    show "le_owner_token m \<in> used" if "m \<in> set rows'" for m
      using mem [OF that] r(2) r(3) [OF dr] by auto
    show "le_owner_token m \<noteq> le_owner_token m'"
      if "(ps(p := LRunning l)) q = LStarting m" "m' \<in> set rows'" for q m m'
    proof -
      have q: "ps q = LStarting m" "q \<noteq> p" using that(1) by (simp_all split: if_splits)
      then show ?thesis using mem [OF that(2)] r(5) [OF dr, of q m] r(6) [OF q(1)] by auto
    qed
    show "lease_of rows' (le_rule_id m) = Some m"
      if "holding ((ps(p := LRunning l)) q) = Some m" "now < le_expires_at m" for q m
    proof (cases "q = p")
      case True
      with that n show ?thesis by (simp add: rows' upsert_lease_of)
    next
      case False
      with that(1) have "holding (ps q) = Some m" by simp
      with that(2) have row: "lease_of rows (le_rule_id m) = Some m" using r(7) by blast
      have "le_rule_id m \<noteq> le_rule_id l"
      proof
        assume "le_rule_id m = le_rule_id l"
        with row n have "le_expires_at m \<le> le_acquired_at l"
          by (auto simp: upsert_rowcount split: if_splits)
        moreover have "le_acquired_at l \<le> now" using r(4) dr by blast
        ultimately show False using that(2) by simp
      qed
      with row show ?thesis by (simp add: rows' upsert_lease_of)
    qed
  qed (use r d in blast)+
qed

lemma lease_ok_release:
  assumes ok: "lease_ok now rows ps used" and pc: "ps p = LReleasing l"
  shows "lease_ok now (delete_lease (le_rule_id l) (le_owner_token l) rows) (ps(p := LIdle)) used"
    (is "lease_ok now ?rows _ _")
proof -
  have ok': "lease_ok now rows (ps(p := LIdle)) used" by (rule lease_ok_move [OF ok]) simp_all
  note r = lease_okD [OF ok']
  have dr: "drawn (ps p) = Some l" using pc by simp
  have sub: "m \<in> set rows" if "m \<in> set ?rows" for m using that by (auto simp: delete_lease_def)
  show ?thesis
  proof (rule lease_okI)
    show "distinct (lease_keys ?rows)" by (rule delete_distinct [OF r(1)])
    show "lease_of ?rows (le_rule_id m) = Some m"
      if "holding ((ps(p := LIdle)) q) = Some m" "now < le_expires_at m" for q m
    proof -
      have q: "q \<noteq> p" "holding (ps q) = Some m" using that(1) by (simp_all split: if_splits)
      then have "le_owner_token m \<noteq> le_owner_token l"
        using lease_okD(5) [OF ok dr, of q m] holding_drawn by auto
      moreover have "lease_of rows (le_rule_id m) = Some m" using r(7) that by blast
      ultimately show ?thesis by (simp add: delete_lease_of [OF r(1)])
    qed
  qed (use r sub in blast)+
qed

lemma upsert_unchanged: "fst (upsert_lease l rows) \<noteq> 1 \<Longrightarrow> snd (upsert_lease l rows) = rows"
  by (induction rows) (auto split: prod.splits)

lemma lease_inv_step: "lease_step s s' \<Longrightarrow> lease_inv s \<Longrightarrow> lease_inv s'"
proof (induction rule: lease_step.induct)
  case (time s t)
  then show ?case by (simp add: lease_inv_def lease_ok_time)
next
  case (start s p token secs l r)
  then show ?case
    using lease_ok_start [of "ls_now s" "ls_leases s" "ls_procs s" "ls_used s" l p]
    by (simp add: lease_inv_def)
next
  case (acquire s p l n rows)
  show ?case
  proof (cases "n = 1")
    case True
    with acquire lease_ok_acquire show ?thesis by (simp add: lease_inv_def)
  next
    case False
    with acquire(2) upsert_unchanged [of l "ls_leases s"] have "rows = ls_leases s" by simp
    with False acquire(3) show ?thesis by (simp add: lease_inv_def lease_ok_move)
  qed
next
  case (finish s p l)
  then show ?case by (simp add: lease_inv_def lease_ok_move)
next
  case (release s p l)
  then show ?case by (simp add: lease_inv_def lease_ok_release)
next
  case (lose s p)
  then show ?case by (simp add: lease_inv_def lease_ok_move)
qed

lemma lease_reachable_inv: "lease_reachable s \<Longrightarrow> lease_inv s"
proof (induction rule: lease_reachable.induct)
  case (init t)
  then show ?case by (simp add: lease_inv_def lease_ok_def lease_keys_def)
next
  case (step s s')
  then show ?case by (simp add: lease_inv_step)
qed

section \<open>The context manager on one session\<close>

text \<open>The row a call of the context manager tries to write.\<close>

definition new_lease :: "env \<Rightarrow> world \<Rightarrow> int \<Rightarrow> int \<Rightarrow> rule_execution_lease" where
  "new_lease E w rule_id lease_seconds =
     \<lparr>le_rule_id = rule_id, le_owner_token = uuid_hex E (Suc (ticks w)),
      le_acquired_at = clock E (ticks w),
      le_expires_at = clock E (ticks w) + lease_seconds * us_per_second\<rparr>"

definition lease_in_range :: "env \<Rightarrow> world \<Rightarrow> int \<Rightarrow> bool" where
  "lease_in_range E w lease_seconds \<longleftrightarrow>
     1 \<le> lease_seconds \<and> lease_seconds \<le> 86400 * 999999999
     \<and> datetime_min \<le> clock E (ticks w)
     \<and> clock E (ticks w) + lease_seconds * us_per_second \<le> datetime_max"

lemma lease_times_in_range:
  assumes "lease_in_range E w secs"
  shows "timedelta_seconds secs = Inr (secs * us_per_second)"
    and "datetime_in_range (clock E (ticks w) + secs * us_per_second)
           = Inr (clock E (ticks w) + secs * us_per_second)"
proof -
  from assms have s: "1 \<le> secs" "secs \<le> 86400 * 999999999" by (simp_all add: lease_in_range_def)
  have "0 \<le> secs * us_per_second div (86400 * us_per_second)"
    using s by (simp add: us_per_second_def)
  moreover have "secs * us_per_second div (86400 * us_per_second) = secs div 86400"
    by (simp add: us_per_second_def)
  moreover have "secs div 86400 \<le> 999999999" using s by linarith
  ultimately show "timedelta_seconds secs = Inr (secs * us_per_second)"
    by (simp add: timedelta_seconds_def timedelta_us_def Let_def)
  have "0 \<le> secs * us_per_second" using s by (simp add: us_per_second_def)
  then show "datetime_in_range (clock E (ticks w) + secs * us_per_second)
           = Inr (clock E (ticks w) + secs * us_per_second)"
    using assms by (simp add: lease_in_range_def datetime_in_range_def)
qed

lemma acquire_run:
  assumes "no_faults E" and "lease_in_range E w secs"
  shows "acquire_rule_execution_lease E r secs w =
    (let new = new_lease E w r secs;
         rows = snd (upsert_lease new (leases (working w)));
         d = (working w)\<lparr>leases := rows\<rparr>
     in ((if fst (upsert_lease new (leases (working w))) \<noteq> 1
          then Inl (RuleExecutionInProgressError (str ''rule '' @ int_str r @ str '' is already running''))
          else Inr (le_owner_token new)),
         w\<lparr>committed := d, working := d, ticks := ticks w + 4\<rparr>))"
proof -
  have "\<not> secs < 1" using assms(2) by (simp add: lease_in_range_def)
  with assms(1) lease_times_in_range [OF assms(2)] show ?thesis
    by (simp add: acquire_rule_execution_lease_def claim_lease_def rollback_on_error_def eff_defs utc_now_def uuid4_hex_def
        db_calls_run new_lease_def tick_def Let_def split: prod.splits)
qed

lemma release_run:
  assumes "no_faults E"
  shows "release_rule_execution_lease E r t w =
    (let d = (committed w)\<lparr>leases := delete_lease r t (leases (committed w))\<rparr>
     in (Inr (), w\<lparr>committed := d, working := d, ticks := ticks w + 3\<rparr>))"
  using assms
  by (simp add: release_rule_execution_lease_def rollback_on_error_def eff_defs db_calls_run tick_def Let_def)

lemma claim_lease_atomic:
  assumes "committed w = working w" and "fst (claim_lease E new w) \<noteq> Inr 1"
  shows "committed (snd (claim_lease E new w)) = committed w"
proof (cases "claim_lease E new w")
  case (Pair res w')
  show ?thesis
  proof (cases res)
    case (Inl exc)
    have "all_or_nothing (claim_lease E new)"
      unfolding claim_lease_def by (rule rollback_on_error_commit [OF db_exec_keeps_committed])
    with Inl Pair assms(1) show ?thesis by (auto dest: all_or_nothing_raise)
  next
    case (Inr n)
    with Pair have "fst (upsert_lease new (leases (working w))) = n"
      "committed w' = (working w)\<lparr>leases := snd (upsert_lease new (leases (working w)))\<rparr>"
      by (auto simp: claim_lease_def rollback_on_error_def ecatch_Inr ebind_Inr db_exec_def db_commit_def
          split: option.splits prod.splits)
    with upsert_unchanged [of new "leases (working w)"] Inr Pair assms show ?thesis by simp
  qed
qed

lemma acquire_claims:
  assumes "acquire_rule_execution_lease E r secs w = (res, w')"
  shows "(\<exists>exc. res = Inl exc) \<and> committed w' = committed w \<and> working w' = working w
    \<or> (\<exists>new n. le_rule_id new = r \<and> claim_lease E new (tick (tick w)) = (n, w')
         \<and> (res = Inr (le_owner_token new) \<and> n = Inr 1 \<or> (\<exists>exc. res = Inl exc) \<and> n \<noteq> Inr 1))"
proof (cases "secs < 1")
  case True
  with assms show ?thesis by (simp add: acquire_rule_execution_lease_def)
next
  case False
  let ?t = "clock E (ticks w)" and ?tok = "uuid_hex E (Suc (ticks w))"
  show ?thesis
  proof (cases "timedelta_seconds secs")
    case (Inl exc)
    with assms False show ?thesis
      by (simp add: acquire_rule_execution_lease_def ebind_def elift_def utc_now_def uuid4_hex_def) auto
  next
    case (Inr duration)
    show ?thesis
    proof (cases "datetime_in_range (?t + duration)")
      case (Inl exc)
      with assms False Inr show ?thesis
        by (simp add: acquire_rule_execution_lease_def ebind_def elift_def utc_now_def uuid4_hex_def) auto
    next
      case (Inr expires)
      let ?new = "\<lparr>le_rule_id = r, le_owner_token = ?tok, le_acquired_at = ?t, le_expires_at = expires\<rparr>"
      obtain n w1 where n: "claim_lease E ?new (tick (tick w)) = (n, w1)" by (metis surj_pair)
      have "w' = w1 \<and> (res = Inr ?tok \<and> n = Inr 1 \<or> (\<exists>exc. res = Inl exc) \<and> n \<noteq> Inr 1)"
        using assms False \<open>timedelta_seconds secs = Inr duration\<close> Inr n
        by (cases n) (auto simp: acquire_rule_execution_lease_def ebind_def elift_def utc_now_def uuid4_hex_def
            ereturn_def eraise_def split: if_splits)
      with n show ?thesis by (intro disjI2 exI [of _ ?new] exI [of _ n]) simp
    qed
  qed
qed

lemma claim_lease_run:
  assumes "no_faults E"
  shows "claim_lease E new w = (Inr (fst (upsert_lease new (leases (working w)))),
    (let d = (working w)\<lparr>leases := snd (upsert_lease new (leases (working w)))\<rparr>
     in tick (tick (w\<lparr>committed := d, working := d\<rparr>))))"
  using assms
  by (simp add: claim_lease_def rollback_on_error_def eff_defs db_calls_run tick_def Let_def split: prod.splits)

lemma refused_lease:
  assumes "no_faults E" and "committed w = working w" and "acquire_rule_execution_lease E r secs w = (Inl exc, w')"
  shows "committed w' = committed w \<and> working w' = committed w'"
  using acquire_claims [OF assms(3)]
proof (elim disjE exE conjE)
  fix new n
  assume n: "claim_lease E new (tick (tick w)) = (n, w')" "n \<noteq> Inr 1"
  then have ne: "fst (upsert_lease new (leases (working w))) \<noteq> 1"
    using claim_lease_run [OF assms(1), of new "tick (tick w)"] by auto
  from n claim_lease_run [OF assms(1), of new "tick (tick w)"] upsert_unchanged [OF ne] assms(2)
  show ?thesis by (auto simp: Let_def)
qed (use assms(2) in simp_all)

lemma granted_lease:
  assumes "no_faults E" and "acquire_rule_execution_lease E r secs w = (Inr token, w')"
  shows "\<exists>new. committed w' = (working w)\<lparr>leases := snd (upsert_lease new (leases (working w)))\<rparr>
    \<and> working w' = committed w' \<and> le_rule_id new = r \<and> le_owner_token new = token
    \<and> fst (upsert_lease new (leases (working w))) = 1"
proof -
  from acquire_claims [OF assms(2)] obtain new n where
    "le_rule_id new = r" "claim_lease E new (tick (tick w)) = (n, w')" "token = le_owner_token new" "n = Inr 1"
    by auto
  with claim_lease_run [OF assms(1), of new "tick (tick w)"] show ?thesis
    by (intro exI [of _ new]) (auto simp: Let_def)
qed

lemma lease_released:
  assumes "no_faults E" and "acquire_rule_execution_lease E r secs w = (Inr token, w1)" and "body w1 = (res, w2)"
    and "rule_execution_lease E r secs body w = (out, w3)"
  shows "out = res \<and> working w3 = committed w3
    \<and> committed w3 = (committed w2)\<lparr>leases := delete_lease r token (leases (committed w2))\<rparr>"
  using assms
  by (cases res) (auto simp: rule_execution_lease_def ebind_def release_run Let_def)

section \<open>Properties\<close>

text \<open>
  C3. Mutual exclusion across processes: in every reachable interleaving, with clocks read long
  before the statement runs, crashes and failed releases, a process that holds a lease which has
  not expired is the only one holding an unexpired lease of that rule.
\<close>

theorem lease_mutual_exclusion:
  assumes "lease_reachable s" and "holding (ls_procs s p) = Some l" and "ls_now s < le_expires_at l"
  shows "{q. \<exists>m. holding (ls_procs s q) = Some m \<and> le_rule_id m = le_rule_id l
      \<and> ls_now s < le_expires_at m} = {p}"
proof -
  have ok: "lease_ok (ls_now s) (ls_leases s) (ls_procs s) (ls_used s)"
    using lease_reachable_inv [OF assms(1)] by (simp add: lease_inv_def)
  note r = lease_okD [OF ok]
  have "q = p" if "holding (ls_procs s q) = Some m" "le_rule_id m = le_rule_id l"
    "ls_now s < le_expires_at m" for q m
  proof -
    have "m = l" using r(7) [OF assms(2,3)] r(7) [OF that(1,3)] that(2) by simp
    then show ?thesis using r(5) holding_drawn assms(2) that(1) by blast
  qed
  with assms(2,3) show ?thesis by blast
qed

text \<open>
  The holder of an unexpired lease owns the row of its rule, so that nobody's release has
  removed it, not even that of an earlier owner who overran its lease; and any other process that
  tries to acquire the rule is refused and changes nothing.
\<close>

theorem lease_row_owned:
  assumes "lease_reachable s" and "holding (ls_procs s p) = Some l" and "ls_now s < le_expires_at l"
    and "ls_procs s q = LStarting n" and "le_rule_id n = le_rule_id l"
  shows "lease_of (ls_leases s) (le_rule_id l) = Some l \<and> upsert_lease n (ls_leases s) = (0, ls_leases s)"
proof -
  have ok: "lease_ok (ls_now s) (ls_leases s) (ls_procs s) (ls_used s)"
    using lease_reachable_inv [OF assms(1)] by (simp add: lease_inv_def)
  have row: "lease_of (ls_leases s) (le_rule_id l) = Some l" by (rule lease_okD(7) [OF ok assms(2,3)])
  have "le_acquired_at n \<le> ls_now s" using lease_okD(4) [OF ok, of q n] assms(4) by simp
  with row assms(3,5) have "fst (upsert_lease n (ls_leases s)) = 0" by (simp add: upsert_rowcount)
  with upsert_unchanged [of n "ls_leases s"] row show ?thesis by (simp add: prod_eq_iff)
qed

text \<open>
  C21. Entry is exact: with working calls, a rule is refused exactly when a row of it has not
  expired at the clock reading, and then the table is unchanged; otherwise, a stale row left by a
  crash included, the caller becomes the owner in the committed database.
\<close>

theorem lease_entry_exact:
  assumes "no_faults E" and "lease_in_range E w secs" and "acquire_rule_execution_lease E r secs w = (res, w')"
  shows "(case lease_of (leases (working w)) r of
            Some row \<Rightarrow>
              if clock E (ticks w) < le_expires_at row
              then res = Inl (RuleExecutionInProgressError (str ''rule '' @ int_str r @ str '' is already running''))
                \<and> leases (committed w') = leases (working w)
              else res = Inr (uuid_hex E (Suc (ticks w)))
                \<and> lease_of (leases (committed w')) r = Some (new_lease E w r secs)
          | None \<Rightarrow> res = Inr (uuid_hex E (Suc (ticks w)))
                \<and> lease_of (leases (committed w')) r = Some (new_lease E w r secs))"
proof -
  let ?new = "new_lease E w r secs"
  have sel: "le_rule_id ?new = r" "le_acquired_at ?new = clock E (ticks w)"
    "le_owner_token ?new = uuid_hex E (Suc (ticks w))" by (simp_all add: new_lease_def)
  from acquire_run [OF assms(1,2), of r, unfolded assms(3) Let_def]
  have res: "res = (if fst (upsert_lease ?new (leases (working w))) \<noteq> 1
          then Inl (RuleExecutionInProgressError (str ''rule '' @ int_str r @ str '' is already running''))
          else Inr (le_owner_token ?new))"
    and rows: "leases (committed w') = snd (upsert_lease ?new (leases (working w)))"
    by (simp_all add: Let_def)
  show ?thesis
    using upsert_rowcount [of ?new "leases (working w)"] upsert_lease_of [of ?new "leases (working w)" r]
      upsert_unchanged [of ?new "leases (working w)"] sel
    by (auto simp: res rows split: option.splits)
qed

text \<open>
  A refused or failed entry leaves nothing behind: whatever call raises, if the lease is not
  granted and the statement had not been committed, the committed database is what it was; a
  statement that was committed but granted nothing changed no row.
\<close>

theorem lease_entry_atomic:
  assumes "committed w = working w" and "acquire_rule_execution_lease E r secs w = (Inl exc, w')"
  shows "committed w' = committed w"
proof -
  have "w' = w \<or> (\<exists>new. fst (claim_lease E new (tick (tick w))) \<noteq> Inr 1 \<and> w' = snd (claim_lease E new (tick (tick w))))
      \<or> w' = tick (tick w)"
    using assms(2)
    by (auto simp: acquire_rule_execution_lease_def ebind_Inl utc_now_def uuid4_hex_def split: if_splits)
      (metis fst_conv snd_conv Inl_Inr_False Inr_inject)+
  with claim_lease_atomic [of "tick (tick w)" E] assms(1) show ?thesis by auto
qed

text \<open>
  After the block the lease is gone: whether the body returned or raised, its result comes
  out, what it left uncommitted is discarded, and only the row with this call's token is removed.
\<close>

theorem lease_block_releases:
  assumes "no_faults E" and "acquire_rule_execution_lease E r secs w = (Inr token, w1)" and "body w1 = (res, w2)"
    and "rule_execution_lease E r secs body w = (out, w3)"
  shows "out = res \<and> working w3 = committed w3
    \<and> committed w3 = (committed w2)\<lparr>leases := delete_lease r token (leases (committed w2))\<rparr>"
  using assms by (rule lease_released)

section \<open>Concrete instances\<close>

definition sample_lease :: "pystr \<Rightarrow> datetime \<Rightarrow> datetime \<Rightarrow> rule_execution_lease" where
  "sample_lease token acquired expires =
     \<lparr>le_rule_id = 7, le_owner_token = token, le_acquired_at = acquired, le_expires_at = expires\<rparr>"

text \<open>Process 0 runs rule 7 with a lease of two hours, process 1 is about to try.\<close>

definition leased_sys :: lease_sys where
  "leased_sys = \<lparr>ls_now = 0, ls_leases = [sample_lease (str ''a'') 0 (7200 * us_per_second)],
     ls_procs = (\<lambda>_. LIdle)(0 := LRunning (sample_lease (str ''a'') 0 (7200 * us_per_second)),
                          1 := LStarting (sample_lease (str ''b'') 0 (7200 * us_per_second))),
     ls_used = {str ''b'', str ''a''}\<rparr>"

lemma leased_reachable: "lease_reachable leased_sys"
proof -
  let ?l = "sample_lease (str ''a'') 0 (7200 * us_per_second)"
  let ?m = "sample_lease (str ''b'') 0 (7200 * us_per_second)"
  let ?s = "\<lambda>rows p q used. \<lparr>ls_now = 0, ls_leases = rows, ls_procs = (\<lambda>_. LIdle)(0 := p, 1 := q), ls_used = used\<rparr>"
  have "lease_reachable \<lparr>ls_now = 0, ls_leases = [], ls_procs = (\<lambda>_. LIdle), ls_used = {}\<rparr>"
    by (rule lease_reachable.init)
  then have "lease_reachable (?s [] LIdle LIdle {})" by (simp add: fun_upd_idem)
  moreover have "lease_step (?s [] LIdle LIdle {}) (?s [] (LStarting ?l) LIdle {str ''a''})"
    using lease_step.start [of "?s [] LIdle LIdle {}" 0 "str ''a''" 7200 ?l 7]
    by (simp add: sample_lease_def fun_upd_twist)
  ultimately have "lease_reachable (?s [] (LStarting ?l) LIdle {str ''a''})" by (rule lease_reachable.step)
  moreover have "lease_step (?s [] (LStarting ?l) LIdle {str ''a''}) (?s [?l] (LRunning ?l) LIdle {str ''a''})"
    using lease_step.acquire [of "?s [] (LStarting ?l) LIdle {str ''a''}" 0 ?l 1 "[?l]"]
    by (simp add: fun_upd_twist)
  ultimately have "lease_reachable (?s [?l] (LRunning ?l) LIdle {str ''a''})" by (rule lease_reachable.step)
  moreover have "lease_step (?s [?l] (LRunning ?l) LIdle {str ''a''}) leased_sys"
    using lease_step.start [of "?s [?l] (LRunning ?l) LIdle {str ''a''}" 1 "str ''b''" 7200 ?m 7]
    by (simp add: sample_lease_def leased_sys_def)
  ultimately show ?thesis by (rule lease_reachable.step)
qed

theorem lease_mutual_exclusion_witness:
  "lease_reachable leased_sys
   \<and> {q. \<exists>m. holding (ls_procs leased_sys q) = Some m \<and> le_rule_id m = 7 \<and> 0 < le_expires_at m} = {0}"
proof -
  have "holding (ls_procs leased_sys 0) = Some (sample_lease (str ''a'') 0 (7200 * us_per_second))"
    "ls_now leased_sys < le_expires_at (sample_lease (str ''a'') 0 (7200 * us_per_second))"
    by (simp_all add: leased_sys_def sample_lease_def us_per_second_def)
  from lease_mutual_exclusion [OF leased_reachable this] leased_reachable show ?thesis
    by (simp add: leased_sys_def sample_lease_def)
qed

theorem lease_row_owned_witness:
  "lease_reachable leased_sys
   \<and> upsert_lease (sample_lease (str ''b'') 0 (7200 * us_per_second)) (ls_leases leased_sys) = (0, ls_leases leased_sys)"
proof -
  have "holding (ls_procs leased_sys 0) = Some (sample_lease (str ''a'') 0 (7200 * us_per_second))"
    "ls_now leased_sys < le_expires_at (sample_lease (str ''a'') 0 (7200 * us_per_second))"
    "ls_procs leased_sys 1 = LStarting (sample_lease (str ''b'') 0 (7200 * us_per_second))"
    by (simp_all add: leased_sys_def sample_lease_def us_per_second_def)
  from lease_row_owned [OF leased_reachable this] leased_reachable show ?thesis
    by (simp add: sample_lease_def)
qed

text \<open>An environment without faults whose clock shows one second per tick, and the one in which
  the second database call fails.\<close>

definition broken_commit_env :: env where
  "broken_commit_env = quiet_env\<lparr>fault := (\<lambda>n. if n = 3 then Some (OtherError (str ''OperationalError'') []) else None)\<rparr>"

definition stale_world :: world where
  "stale_world = (new_world (empty_db\<lparr>leases := [sample_lease (str ''old'') (- 100) (- 50)]\<rparr>))"

lemma quiet_no_faults: "no_faults quiet_env"
  by (simp add: no_faults_def quiet_env_def)

lemma stale_in_range: "lease_in_range quiet_env stale_world 7200"
  by (simp add: lease_in_range_def quiet_env_def stale_world_def time_defs)

lemma stale_acquire:
  "acquire_rule_execution_lease quiet_env 7 7200 stale_world
     = (Inr (nat_str 1), snd (acquire_rule_execution_lease quiet_env 7 7200 stale_world))"
  using acquire_run [OF quiet_no_faults stale_in_range, of 7]
  by (simp add: Let_def new_lease_def stale_world_def quiet_env_def sample_lease_def us_per_second_def
      split: prod.splits)

theorem lease_entry_exact_witness:
  "fst (acquire_rule_execution_lease quiet_env 7 7200 stale_world) = Inr (uuid_hex quiet_env 1)
   \<and> lease_of (leases (committed (snd (acquire_rule_execution_lease quiet_env 7 7200 stale_world)))) 7
       = Some (new_lease quiet_env stale_world 7 7200)"
  using lease_entry_exact [OF quiet_no_faults stale_in_range prod.collapse [symmetric], of 7]
  by (simp add: stale_world_def sample_lease_def quiet_env_def us_per_second_def)

theorem lease_entry_atomic_witness:
  "fst (acquire_rule_execution_lease broken_commit_env 7 7200 stale_world) = Inl (OtherError (str ''OperationalError'') [])
   \<and> committed (snd (acquire_rule_execution_lease broken_commit_env 7 7200 stale_world)) = committed stale_world"
proof -
  have "fst (acquire_rule_execution_lease broken_commit_env 7 7200 stale_world) = Inl (OtherError (str ''OperationalError'') [])"
    by (simp add: acquire_rule_execution_lease_def claim_lease_def rollback_on_error_def eff_defs utc_now_def
        uuid4_hex_def db_exec_def db_commit_def db_rollback_def broken_commit_env_def quiet_env_def
        stale_world_def time_defs split: prod.splits)
  moreover have "committed stale_world = working stale_world" by (simp add: stale_world_def)
  ultimately show ?thesis
    using lease_entry_atomic [of stale_world broken_commit_env 7 7200, OF _ prod_eqI] by (metis fst_conv snd_conv)
qed

theorem lease_block_releases_witness:
  "fst (rule_execution_lease quiet_env 7 7200 (eraise (RuntimeError []) :: (world, unit) eff) stale_world)
     = Inl (RuntimeError [])
   \<and> leases (committed (snd (rule_execution_lease quiet_env 7 7200 (eraise (RuntimeError []) :: (world, unit) eff) stale_world)))
     = []"
proof -
  let ?w1 = "snd (acquire_rule_execution_lease quiet_env 7 7200 stale_world)"
  let ?b = "eraise (RuntimeError []) :: (world, unit) eff"
  have "?b ?w1 = (Inl (RuntimeError []), ?w1)" by simp
  from lease_block_releases [where body = ?b, OF quiet_no_faults stale_acquire this prod.collapse [symmetric]]
  have "fst (rule_execution_lease quiet_env 7 7200 ?b stale_world) = Inl (RuntimeError [])"
    "leases (committed (snd (rule_execution_lease quiet_env 7 7200 ?b stale_world)))
       = delete_lease 7 (nat_str 1) (leases (committed ?w1))" by simp_all
  moreover have "leases (committed ?w1) = [new_lease quiet_env stale_world 7 7200]"
    using acquire_run [OF quiet_no_faults stale_in_range, of 7]
    by (simp add: Let_def new_lease_def stale_world_def quiet_env_def sample_lease_def us_per_second_def)
  ultimately show ?thesis
    by (simp add: delete_lease_def new_lease_def quiet_env_def stale_world_def)
qed

end
