(* ===== verification/Mailer.thy ===== *)
theory Mailer
  imports Prelude
begin

text \<open>
  \<open>app/mailer.py\<close>. The SMTP client and the MIME library are parameters (\<open>smtp_env\<close>): the
  conversion of a header value, which rejects line breaks, the serialisation of a message, and the
  client's connection, \<open>sendmail\<close>, \<open>quit\<close> and \<open>close\<close>, each of which may raise and changes the
  surrounding state \<open>'w\<close>. Logging is not modelled.
\<close>

section \<open>Messages and results\<close>

definition SMTP_SEND_FAILURE :: pystr where
  "SMTP_SEND_FAILURE = [0x0053, 0x004D, 0x0054, 0x0050, 0x0020, 0x53D1, 0x9001, 0x5931, 0x8D25, 0xFF0C, 0x8BF7, 0x68C0, 0x67E5, 0x670D, 0x52A1, 0x5668, 0x3001, 0x7AEF, 0x53E3, 0x3001, 0x52A0, 0x5BC6, 0x65B9, 0x5F0F, 0x548C, 0x8D26, 0x53F7, 0x914D, 0x7F6E]"

definition SMTP_PARTIAL_FAILURE :: pystr where
  "SMTP_PARTIAL_FAILURE = [0x0053, 0x004D, 0x0054, 0x0050, 0x0020, 0x90E8, 0x5206, 0x6536, 0x4EF6, 0x4EBA, 0x88AB, 0x62D2, 0x6536, 0xFF0C, 0x8BF7, 0x68C0, 0x67E5, 0x90AE, 0x7BB1, 0x5730, 0x5740, 0x53CA, 0x670D, 0x52A1, 0x5668, 0x7B56, 0x7565]"

definition PLAIN_TEXT_NOTICE :: pystr where
  "PLAIN_TEXT_NOTICE = [0x0048, 0x0054, 0x004D, 0x004C, 0x0020, 0x90AE, 0x4EF6, 0x9700, 0x8981, 0x4F7F, 0x7528, 0x652F, 0x6301, 0x0020, 0x0048, 0x0054, 0x004D, 0x004C, 0x0020, 0x7684, 0x5BA2, 0x6237, 0x7AEF, 0x67E5, 0x770B, 0x3002]"

record email_message =
  recipients :: "pystr list"
  cc_recipients :: "pystr list"
  subject :: pystr
  html_body :: pystr

record mail_send_result =
  success :: bool
  error_message :: pystr
  partial_success :: bool

definition mail_ok :: mail_send_result where
  "mail_ok = \<lparr>success = True, error_message = [], partial_success = False\<rparr>"

definition mail_failed :: "pystr \<Rightarrow> bool \<Rightarrow> mail_send_result" where
  "mail_failed message partial = \<lparr>success = False, error_message = message, partial_success = partial\<rparr>"

text \<open>The public summary of an exception never shows the exception (\<open>app/error_reporting.py\<close>).\<close>

definition public_error_summary :: "exn \<Rightarrow> pystr \<Rightarrow> pystr" where
  "public_error_summary exc fallback = fallback"

record mime_message =
  mime_headers :: "(pystr \<times> pystr) list"
  mime_text :: pystr
  mime_html :: pystr

record ('w, 'c) smtp_env =
  header_value :: "pystr \<Rightarrow> pystr \<Rightarrow> pystr res"
  mime_string :: "mime_message \<Rightarrow> pystr res"
  client_factory :: "('w, 'c) eff"
  client_sendmail :: "'c \<Rightarrow> pystr \<Rightarrow> pystr list \<Rightarrow> pystr \<Rightarrow> ('w, pystr list) eff"
  client_quit :: "'c \<Rightarrow> ('w, unit) eff option"
  client_close :: "'c \<Rightarrow> ('w, unit) eff option"

section \<open>Sending\<close>

text \<open>Setting the headers in the order of the code; the first rejected value raises.\<close>

fun set_mime_headers ::
  "(pystr \<Rightarrow> pystr \<Rightarrow> pystr res) \<Rightarrow> (pystr \<times> pystr) list \<Rightarrow> (pystr \<times> pystr) list res" where
  "set_mime_headers hv [] = Inr []"
| "set_mime_headers hv ((name, value) # rest) =
     (case hv name value of
        Inl exc \<Rightarrow> Inl exc
      | Inr v \<Rightarrow> (case set_mime_headers hv rest of Inl exc \<Rightarrow> Inl exc | Inr hs \<Rightarrow> Inr ((name, v) # hs)))"

definition build_mime :: "('w, 'c) smtp_env \<Rightarrow> pystr \<Rightarrow> email_message \<Rightarrow> mime_message res" where
  "build_mime S sender message =
     (case set_mime_headers (header_value S)
         ([(str ''From'', sender), (str ''To'', join (str '', '') (recipients message))]
          @ (if cc_recipients message \<noteq> [] then [(str ''Cc'', join (str '', '') (cc_recipients message))] else [])
          @ [(str ''Subject'', subject message)]) of
        Inl exc \<Rightarrow> Inl exc
      | Inr hs \<Rightarrow> Inr \<lparr>mime_headers = hs, mime_text = PLAIN_TEXT_NOTICE, mime_html = html_body message\<rparr>)"

definition close_client :: "('w, 'c) smtp_env \<Rightarrow> 'c \<Rightarrow> 'w \<Rightarrow> 'w" where
  "close_client S client w =
     (let close = (\<lambda>w. case client_close S client of Some c \<Rightarrow> snd (c w) | None \<Rightarrow> w)
      in case client_quit S client of
           None \<Rightarrow> close w
         | Some q \<Rightarrow> (case q w of (Inr _, w1) \<Rightarrow> w1 | (Inl exc, w1) \<Rightarrow> close w1))"

definition refused_result :: "pystr list \<Rightarrow> pystr list \<Rightarrow> mail_send_result" where
  "refused_result all_recipients refused =
     (if refused \<noteq> [] then
        let partial = list_ex (\<lambda>address. address \<notin> set refused) all_recipients
        in mail_failed (if partial then SMTP_PARTIAL_FAILURE else SMTP_SEND_FAILURE) partial
      else mail_ok)"

definition send_mail :: "('w, 'c) smtp_env \<Rightarrow> pystr \<Rightarrow> email_message \<Rightarrow> ('w, mail_send_result) eff" where
  "send_mail S sender message =
     ebind (elift (build_mime S sender message)) (\<lambda>mime w.
       let all_recipients = recipients message @ cc_recipients message
       in case client_factory S w of
            (Inl exc, w1) \<Rightarrow> (Inr (mail_failed (public_error_summary exc SMTP_SEND_FAILURE) False), w1)
          | (Inr client, w1) \<Rightarrow>
              (case ebind (elift (mime_string S mime))
                      (\<lambda>text. client_sendmail S client sender all_recipients text) w1 of
                 (Inl exc, w2) \<Rightarrow>
                   (Inr (mail_failed (public_error_summary exc SMTP_SEND_FAILURE) False), close_client S client w2)
               | (Inr refused, w2) \<Rightarrow>
                   (Inr (refused_result all_recipients refused), close_client S client w2)))"

section \<open>The contract of a mailer\<close>

text \<open>
  \<open>CompatibleMailer\<close>: what \<open>RuleExecutor\<close> may be given. A result never claims full and partial
  success at once.
\<close>

locale compatible_mailer =
  fixes send :: "email_message \<Rightarrow> ('w, mail_send_result) eff"
  assumes consistent: "send m w = (Inr r, w') \<Longrightarrow> \<not> (success r \<and> partial_success r)"
begin

text \<open>The three outcomes are disjoint and cover every returned result.\<close>

lemma trichotomy:
  "send m w = (Inr r, w') \<Longrightarrow>
     success r \<and> \<not> partial_success r \<or> \<not> success r \<and> partial_success r \<or> \<not> success r \<and> \<not> partial_success r"
  using consistent by blast

end

lemma mail_result_simps [simp]:
  "success mail_ok" "\<not> partial_success mail_ok" "error_message mail_ok = []"
  "\<not> success (mail_failed e p)" "partial_success (mail_failed e p) = p" "error_message (mail_failed e p) = e"
  by (simp_all add: mail_ok_def mail_failed_def)

lemma send_mail_cases:
  assumes "send_mail S sender m w = (Inr r, w')"
  obtains (unconnected) exc where "client_factory S w = (Inl exc, w')" "r = mail_failed SMTP_SEND_FAILURE False"
  | (raised) client w1 mime exc w2 where "client_factory S w = (Inr client, w1)"
      "ebind (elift (mime_string S mime)) (client_sendmail S client sender (recipients m @ cc_recipients m)) w1 = (Inl exc, w2)"
      "w' = close_client S client w2" "r = mail_failed SMTP_SEND_FAILURE False"
  | (answered) client w1 mime refused w2 where "client_factory S w = (Inr client, w1)"
      "ebind (elift (mime_string S mime)) (client_sendmail S client sender (recipients m @ cc_recipients m)) w1 = (Inr refused, w2)"
      "w' = close_client S client w2" "r = refused_result (recipients m @ cc_recipients m) refused"
proof -
  obtain mime where b: "build_mime S sender m = Inr mime"
    using assms by (auto simp: send_mail_def ebind_Inr)
  obtain c w1 where f: "client_factory S w = (c, w1)" by (cases "client_factory S w")
  show thesis
  proof (cases c)
    case (Inl exc)
    then show thesis
      using assms b f unconnected by (simp add: send_mail_def ebind_def elift_def public_error_summary_def)
  next
    case (Inr client)
    obtain a w2 where s: "ebind (elift (mime_string S mime))
        (client_sendmail S client sender (recipients m @ cc_recipients m)) w1 = (a, w2)"
      by (metis surj_pair)
    have "w' = close_client S client w2 \<and> (case a of Inl _ \<Rightarrow> r = mail_failed SMTP_SEND_FAILURE False
        | Inr refused \<Rightarrow> r = refused_result (recipients m @ cc_recipients m) refused)"
      using assms b f Inr s
      by (cases a) (simp_all add: send_mail_def Let_def public_error_summary_def)
    then show thesis
      using f Inr s raised answered by (cases a) auto
  qed
qed

interpretation smtp_mailer: compatible_mailer "send_mail S sender" for S sender
proof
  fix m w r w'
  assume "send_mail S sender m w = (Inr r, w')"
  then show "\<not> (success r \<and> partial_success r)"
    by (cases rule: send_mail_cases) (auto simp: refused_result_def Let_def)
qed

section \<open>Properties\<close>

text \<open>
  Once the message is built, sending never raises; it reports success exactly when the server
  was reached and refused nobody, partial success exactly when it refused some of the addresses
  but not all; and every client that was opened has been closed when it returns.
\<close>

theorem send_mail_exact:
  assumes "build_mime S sender m = Inr mime"
  shows "case client_factory S w of
      (Inl exc, w1) \<Rightarrow> send_mail S sender m w = (Inr (mail_failed SMTP_SEND_FAILURE False), w1)
    | (Inr client, w1) \<Rightarrow>
        (case ebind (elift (mime_string S mime))
                (client_sendmail S client sender (recipients m @ cc_recipients m)) w1 of
           (Inl exc, w2) \<Rightarrow>
             send_mail S sender m w = (Inr (mail_failed SMTP_SEND_FAILURE False), close_client S client w2)
         | (Inr refused, w2) \<Rightarrow>
             (\<exists>r. send_mail S sender m w = (Inr r, close_client S client w2)
                \<and> success r = (refused = [])
                \<and> partial_success r = (refused \<noteq> [] \<and> \<not> set (recipients m @ cc_recipients m) \<subseteq> set refused)))"
  using assms
  by (auto simp: send_mail_def ebind_def elift_def refused_result_def Let_def public_error_summary_def
      list_ex_iff split: prod.splits sum.splits)

definition sample_message :: email_message where
  "sample_message = \<lparr>recipients = [str ''a@x'', str ''b@x''], cc_recipients = [], subject = str ''s'',
     html_body = str ''b''\<rparr>"

definition sample_smtp :: "(nat, unit) smtp_env" where
  "sample_smtp = \<lparr>header_value = (\<lambda>_ v. if 10 \<in> set v \<or> 13 \<in> set v then Inl (ValueError []) else Inr v),
     mime_string = (\<lambda>m. Inr (mime_html m)), client_factory = (\<lambda>w. (Inr (), Suc w)),
     client_sendmail = (\<lambda>_ _ _ _ w. (Inr [str ''b@x''], Suc w)),
     client_quit = (\<lambda>_. Some (\<lambda>w. (Inr (), Suc w))), client_close = (\<lambda>_. None)\<rparr>"

lemma sample_mime: "\<exists>mime. build_mime sample_smtp (str ''me@x'') sample_message = Inr mime"
  by (simp add: build_mime_def sample_smtp_def sample_message_def str_def)

theorem send_mail_exact_witness:
  "\<exists>r. send_mail sample_smtp (str ''me@x'') sample_message 0 = (Inr r, Suc (Suc (Suc 0))) \<and> \<not> success r \<and> partial_success r"
proof -
  obtain mime where "build_mime sample_smtp (str ''me@x'') sample_message = Inr mime"
    using sample_mime by blast
  from send_mail_exact [OF this, of 0] show ?thesis
    by (simp add: sample_smtp_def ebind_def elift_def close_client_def sample_message_def)
qed

end
