(* ===== verification/Template_Renderer.thy ===== *)
theory Template_Renderer
  imports Models
begin

text \<open>
  \<open>app/template_renderer.py\<close>. The sandboxed Jinja environment is a parameter: a function from the
  autoescape flag, the template and the context to the rendered text or the exception it raises.
  The HTML table of the summary mail and the escaping are modelled exactly.
\<close>

section \<open>Escaping\<close>

text \<open>\<open>html.escape(s, quote=True)\<close> replaces the ampersand first, so no character is escaped twice.\<close>

definition replace_char :: "nat \<Rightarrow> pystr \<Rightarrow> pystr \<Rightarrow> pystr" where
  "replace_char c t s = concat (map (\<lambda>x. if x = c then t else [x]) s)"

definition escape :: "pystr \<Rightarrow> pystr" where
  "escape s =
     replace_char 39 (str ''&#x27;'') (replace_char 34 (str ''&quot;'')
       (replace_char 62 (str ''&gt;'') (replace_char 60 (str ''&lt;'') (replace_char 38 (str ''&amp;'') s))))"

definition escape_char :: "nat \<Rightarrow> pystr" where
  "escape_char c =
     (if c = 38 then str ''&amp;'' else if c = 60 then str ''&lt;'' else if c = 62 then str ''&gt;''
      else if c = 34 then str ''&quot;'' else if c = 39 then str ''&#x27;'' else [c])"

section \<open>The table\<close>

definition table_header :: "pystr list \<Rightarrow> pystr" where
  "table_header columns = concat (map (\<lambda>c. str ''<th>'' @ escape c @ str ''</th>'') columns)"

definition table_row :: "pystr list \<Rightarrow> row \<Rightarrow> pystr" where
  "table_row columns row =
     str ''<tr>''
     @ concat (map (\<lambda>c. str ''<td>''
         @ escape (case map_of row c of Some v \<Rightarrow> cell_str v | None \<Rightarrow> []) @ str ''</td>'') columns)
     @ str ''</tr>''"

definition html_table :: "row list \<Rightarrow> pystr" where
  "html_table rows =
     (case rows of
        [] \<Rightarrow> str ''<table></table>''
      | first # _ \<Rightarrow>
          let columns = map fst first
          in str ''<table><thead><tr>'' @ table_header columns @ str ''</tr></thead><tbody>''
             @ concat (map (table_row columns) rows) @ str ''</tbody></table>'')"

section \<open>Rendering\<close>

datatype context_value = CtxStr pystr | CtxInt int | CtxRows "row list" | CtxCell cell | CtxMarkup pystr

type_synonym template_context = "(pystr \<times> context_value) list"

type_synonym jinja = "bool \<Rightarrow> pystr \<Rightarrow> template_context \<Rightarrow> pystr res"

record rendered_message =
  rendered_subject :: pystr
  rendered_html_body :: pystr

definition render :: "jinja \<Rightarrow> bool \<Rightarrow> pystr \<Rightarrow> template_context \<Rightarrow> pystr res" where
  "render jinja autoescape template_text ctx =
     (case jinja autoescape template_text ctx of
        Inl (JinjaTemplateError n m) \<Rightarrow> Inl (TemplateRenderError m)
      | r \<Rightarrow> r)"

definition render_message :: "jinja \<Rightarrow> pystr \<Rightarrow> template_context \<Rightarrow> pystr \<Rightarrow> template_context \<Rightarrow> rendered_message res" where
  "render_message jinja subject_template subject_context body_template body_context =
     (case render jinja False subject_template subject_context of
        Inl exc \<Rightarrow> Inl exc
      | Inr s \<Rightarrow>
          (case render jinja True body_template body_context of
             Inl exc \<Rightarrow> Inl exc
           | Inr b \<Rightarrow> Inr \<lparr>rendered_subject = s, rendered_html_body = b\<rparr>))"

definition render_summary :: "jinja \<Rightarrow> pystr \<Rightarrow> pystr \<Rightarrow> row list \<Rightarrow> template_context \<Rightarrow> rendered_message res" where
  "render_summary jinja subject_template body_template rows ctx =
     render_message jinja subject_template ctx body_template
       (AList.update (str ''table'') (CtxMarkup (html_table rows)) ctx)"

definition render_per_row :: "jinja \<Rightarrow> pystr \<Rightarrow> pystr \<Rightarrow> row \<Rightarrow> template_context \<Rightarrow> rendered_message res" where
  "render_per_row jinja subject_template body_template row ctx =
     (let merged = dict_merge ctx (map (\<lambda>(k, v). (k, CtxCell v)) row)
      in render_message jinja subject_template merged body_template merged)"

section \<open>Escaping is injective and removes every markup character\<close>

lemma replace_char_append: "replace_char c t (a @ b) = replace_char c t a @ replace_char c t b"
  by (simp add: replace_char_def)

lemma escape_append: "escape (a @ b) = escape a @ escape b"
  by (simp add: escape_def replace_char_append)

lemma escape_single: "escape [c] = escape_char c"
  by (simp add: escape_def replace_char_def escape_char_def str_def)

lemma escape_concat: "escape s = concat (map escape_char s)"
proof (induction s)
  case Nil
  then show ?case by (simp add: escape_def replace_char_def)
next
  case (Cons c s)
  have "escape (c # s) = escape [c] @ escape s" using escape_append [of "[c]" s] by simp
  with Cons show ?case by (simp add: escape_single)
qed

text \<open>The entities of the escape, read back.\<close>

function unescape :: "pystr \<Rightarrow> pystr" where
  "unescape [] = []"
| "unescape (c # s) =
     (if c \<noteq> 38 then c # unescape s
      else if take 4 s = str ''amp;'' then 38 # unescape (drop 4 s)
      else if take 3 s = str ''lt;'' then 60 # unescape (drop 3 s)
      else if take 3 s = str ''gt;'' then 62 # unescape (drop 3 s)
      else if take 5 s = str ''quot;'' then 34 # unescape (drop 5 s)
      else if take 5 s = str ''#x27;'' then 39 # unescape (drop 5 s)
      else c # unescape s)"
  by pat_completeness auto

termination unescape
  by (relation "measure length") auto

declare unescape.simps(2) [simp del]

lemma unescape_plain: "c \<noteq> 38 \<Longrightarrow> unescape (c # s) = c # unescape s"
  by (subst unescape.simps(2)) simp

lemma entity_codes:
  "str ''&amp;'' = [38, 97, 109, 112, 59]" "str ''&lt;'' = [38, 108, 116, 59]"
  "str ''&gt;'' = [38, 103, 116, 59]" "str ''&quot;'' = [38, 113, 117, 111, 116, 59]"
  "str ''&#x27;'' = [38, 35, 120, 50, 55, 59]"
  "str ''amp;'' = [97, 109, 112, 59]" "str ''lt;'' = [108, 116, 59]"
  "str ''gt;'' = [103, 116, 59]" "str ''quot;'' = [113, 117, 111, 116, 59]"
  "str ''#x27;'' = [35, 120, 50, 55, 59]"
  by (simp_all add: str_def)

lemma unescape_entity:
  "unescape (str ''&amp;'' @ s) = 38 # unescape s"
  "unescape (str ''&lt;'' @ s) = 60 # unescape s"
  "unescape (str ''&gt;'' @ s) = 62 # unescape s"
  "unescape (str ''&quot;'' @ s) = 34 # unescape s"
  "unescape (str ''&#x27;'' @ s) = 39 # unescape s"
proof -
  show "unescape (str ''&amp;'' @ s) = 38 # unescape s"
    by (simp only: entity_codes append_Cons append_Nil, subst unescape.simps(2)) (simp add: entity_codes)
  show "unescape (str ''&lt;'' @ s) = 60 # unescape s"
    by (simp only: entity_codes append_Cons append_Nil, subst unescape.simps(2)) (simp add: entity_codes)
  show "unescape (str ''&gt;'' @ s) = 62 # unescape s"
    by (simp only: entity_codes append_Cons append_Nil, subst unescape.simps(2)) (simp add: entity_codes)
  show "unescape (str ''&quot;'' @ s) = 34 # unescape s"
    by (simp only: entity_codes append_Cons append_Nil, subst unescape.simps(2)) (simp add: entity_codes)
  show "unescape (str ''&#x27;'' @ s) = 39 # unescape s"
    by (simp only: entity_codes append_Cons append_Nil, subst unescape.simps(2)) (simp add: entity_codes)
qed

lemma escape_char_simps:
  "escape_char 38 = str ''&amp;''" "escape_char 60 = str ''&lt;''" "escape_char 62 = str ''&gt;''"
  "escape_char 34 = str ''&quot;''" "escape_char 39 = str ''&#x27;''"
  "c \<notin> {38, 60, 62, 34, 39} \<Longrightarrow> escape_char c = [c]"
  by (simp_all add: escape_char_def)

lemma unescape_char: "unescape (escape_char c @ s) = c # unescape s"
proof -
  consider "c = 38" | "c = 60" | "c = 62" | "c = 34" | "c = 39" | "c \<notin> {38, 60, 62, 34, 39}" by blast
  then show ?thesis
  proof cases
    case 6
    then show ?thesis using unescape_plain [of c s] escape_char_simps(6) [OF 6] by simp
  qed (simp_all only: escape_char_simps unescape_entity)
qed

lemma escape_char_safe: "set (escape_char c) \<inter> {60, 62, 34, 39} = {}"
proof -
  consider "c = 38" | "c = 60" | "c = 62" | "c = 34" | "c = 39" | "c \<notin> {38, 60, 62, 34, 39}" by blast
  then show ?thesis
  proof cases
    case 6
    then show ?thesis using escape_char_simps(6) [OF 6] by simp
  qed (simp_all add: escape_char_simps(1-5) entity_codes)
qed

lemma escape_safe_chars: "c \<in> set (escape s) \<Longrightarrow> c \<notin> {60, 62, 34, 39}"
  using escape_char_safe unfolding escape_concat set_concat set_map by blast

lemma count_escape: "c \<in> {60, 62} \<Longrightarrow> count_list (escape s) c = 0"
  using escape_safe_chars by (fastforce simp: count_list_0_iff)

lemma count_table_header:
  "count_list (table_header columns) 60 = 2 * length columns"
  by (induction columns) (simp_all add: table_header_def count_escape str_def)

lemma count_table_row: "count_list (table_row columns row) 60 = 2 + 2 * length columns"
proof -
  have "count_list (concat (map (\<lambda>c. str ''<td>''
         @ escape (case map_of row c of Some v \<Rightarrow> cell_str v | None \<Rightarrow> []) @ str ''</td>'') columns)) 60
      = 2 * length columns"
    by (induction columns) (simp_all add: count_escape str_def)
  then show ?thesis by (simp add: table_row_def str_def)
qed

lemma count_table_rows:
  "count_list (concat (map (table_row columns) rows)) 60 = length rows * (2 + 2 * length columns)"
  by (induction rows) (simp_all add: count_table_row)

lemma tag_counts:
  "count_list (str ''<table><thead><tr>'') 60 = 3" "count_list (str ''</tr></thead><tbody>'') 60 = 3"
  "count_list (str ''</tbody></table>'') 60 = 2"
  by (simp_all add: str_def)

section \<open>Properties\<close>

text \<open>
  Escaping loses nothing and leaves no markup: reading the entities back gives the original
  text, and the escaped text contains no angle bracket and no quote.
\<close>

theorem escape_roundtrip:
  "unescape (escape s) = s \<and> set (escape s) \<inter> {60, 62, 34, 39} = {}"
proof -
  have "unescape (escape s) = s"
    by (induction s) (simp_all add: escape_concat unescape_char)
  then show ?thesis using escape_safe_chars by blast
qed

text \<open>
  The data of a query cannot inject markup into the summary mail: the number of tags in the
  table depends only on the numbers of rows and columns, never on a column name or a value.
\<close>

theorem html_table_no_injection:
  "count_list (html_table rows) 60 =
     (case rows of [] \<Rightarrow> 2 | first # _ \<Rightarrow> 8 + 2 * length first + length rows * (2 + 2 * length first))"
proof (cases rows)
  case Nil
  then show ?thesis by (simp add: html_table_def str_def)
next
  case (Cons first rest)
  have "count_list (html_table rows) 60 = 3 + count_list (table_header (map fst first)) 60 + 3
      + count_list (concat (map (table_row (map fst first)) rows)) 60 + 2"
    unfolding html_table_def Cons Let_def by (simp add: tag_counts)
  then show ?thesis
    unfolding count_table_header count_table_rows using Cons by simp
qed

end
