(* ===== verification/Sql_Validator.thy ===== *)
theory Sql_Validator
  imports Prelude
begin

text \<open>
  \<open>app/sql_validator.py\<close>. The tokenizer, the T-SQL parser and the tree walk of sqlglot are parameters;
  every check of the code on their answers is modelled, and so is the hook of the parser that the file
  overrides. A node is seen as the code sees it: the names of the classes it is an instance of, its name,
  whether it is quoted, and for a CTE the classes of its body.
\<close>

section \<open>What sqlglot answers\<close>

datatype token_kind = TSelect | TWith | TSemicolon | TOther

text \<open>\<open>cte_body_classes\<close> are the classes of \<open>node.this.unnest()\<close>, which the code reads of an \<open>exp.CTE\<close> only.\<close>

record sql_node =
  node_classes :: "string list"
  node_name :: pystr
  node_quoted :: bool
  cte_body_classes :: "string list"

text \<open>A run of the parser: it ends with its statements, raises, or calls \<open>_warn_unsupported\<close> before it falls
  back to a generic command and goes on when that call returns.\<close>

datatype 'a parse_run = Parsed 'a | Raises exn | Warns "'a parse_run"

fun run_parser :: "unit res \<Rightarrow> 'a parse_run \<Rightarrow> 'a res" where
  "run_parser hook (Parsed x) = Inr x"
| "run_parser hook (Raises exc) = Inl exc"
| "run_parser hook (Warns run) = (case hook of Inl exc \<Rightarrow> Inl exc | Inr _ \<Rightarrow> run_parser hook run)"

record ('t, 'n) sqlglot =
  tokenize :: "pystr \<Rightarrow> 't list res"
  kind_of_token :: "'t \<Rightarrow> token_kind"
  parse_tokens :: "'t list \<Rightarrow> pystr \<Rightarrow> 'n option list parse_run"
  walk :: "'n \<Rightarrow> 'n list"
  node_of :: "'n \<Rightarrow> sql_node"
  upper_table :: "nat \<Rightarrow> pystr"

definition warn_unsupported :: "unit res" where
  "warn_unsupported = Inl (OtherError (str ''ParseError'') (str ''Unsupported SQL structure''))"

definition instance_of :: "string list \<Rightarrow> string list \<Rightarrow> bool" where
  "instance_of classes types = list_ex (\<lambda>c. c \<in> set classes) types"

definition QUERY_TYPES :: "string list" where
  "QUERY_TYPES = [''Select'', ''SetOperation'']"

definition UNSAFE_NODES :: "string list" where
  "UNSAFE_NODES = [''DDL'', ''DML'', ''Command'', ''Into'', ''NextValueFor'', ''Lock'']"

definition EXTERNAL_FUNCTIONS :: "pystr list" where
  "EXTERNAL_FUNCTIONS = [str ''OPENQUERY'', str ''OPENROWSET'', str ''OPENDATASOURCE'']"

definition STATEMENT_KEYWORDS :: "pystr list" where
  "STATEMENT_KEYWORDS = map str [''ALTER'', ''CREATE'', ''DELETE'', ''DROP'', ''EXEC'', ''EXECUTE'',
     ''INSERT'', ''MERGE'', ''TRUNCATE'', ''UPDATE'', ''GRANT'', ''DENY'', ''REVOKE'', ''DBCC'', ''WAITFOR'']"

definition sqlglot_errors :: "pystr list" where
  "sqlglot_errors = [str ''ParseError'', str ''TokenError'', str ''RecursionError'']"

section \<open>The checks\<close>

definition SQL_EMPTY :: pystr where
  "SQL_EMPTY = [0x0053, 0x0051, 0x004C, 0x0020, 0x4E0D, 0x80FD, 0x4E3A, 0x7A7A]"

definition SQL_SELECT_ONLY :: pystr where
  "SQL_SELECT_ONLY = [0x53EA, 0x5141, 0x8BB8, 0x0020, 0x0053, 0x0045, 0x004C, 0x0045, 0x0043, 0x0054, 0x0020, 0x67E5, 0x8BE2]"

definition SQL_SINGLE_ONLY :: pystr where
  "SQL_SINGLE_ONLY = [0x53EA, 0x5141, 0x8BB8, 0x5355, 0x6761, 0x0020, 0x0053, 0x0045, 0x004C, 0x0045, 0x0043, 0x0054, 0x0020, 0x67E5, 0x8BE2]"

definition SQL_UNPARSABLE :: pystr where
  "SQL_UNPARSABLE = [0x0053, 0x0051, 0x004C, 0x0020, 0x65E0, 0x6CD5, 0x5B89, 0x5168, 0x89E3, 0x6790, 0xFF0C, 0x8BF7, 0x68C0, 0x67E5, 0x8BED, 0x6CD5, 0x6216, 0x4E0D, 0x652F, 0x6301, 0x7684, 0x67E5, 0x8BE2, 0x7ED3, 0x6784]"

definition SQL_UNSAFE :: pystr where
  "SQL_UNSAFE = [0x53EA, 0x5141, 0x8BB8, 0x53EA, 0x8BFB, 0x0020, 0x0053, 0x0045, 0x004C, 0x0045, 0x0043, 0x0054, 0x0020, 0x67E5, 0x8BE2, 0xFF0C, 0x4E0D, 0x5141, 0x8BB8, 0x4FEE, 0x6539, 0x6570, 0x636E, 0x6216, 0x6570, 0x636E, 0x5E93, 0x72B6, 0x6001]"

definition SQL_CTE :: pystr where
  "SQL_CTE = [0x0057, 0x0049, 0x0054, 0x0048, 0x0020, 0x5B50, 0x67E5, 0x8BE2, 0x5FC5, 0x987B, 0x662F, 0x53EA, 0x8BFB, 0x0020, 0x0053, 0x0045, 0x004C, 0x0045, 0x0043, 0x0054, 0x0020, 0x67E5, 0x8BE2]"

definition SQL_EXTERNAL :: pystr where
  "SQL_EXTERNAL = [0x4E0D, 0x5141, 0x8BB8, 0x5916, 0x90E8, 0x6570, 0x636E, 0x6E90, 0x67E5, 0x8BE2, 0x51FD, 0x6570]"

definition SQL_KEYWORD :: pystr where
  "SQL_KEYWORD = [0x8BED, 0x53E5, 0x5173, 0x952E, 0x5B57, 0x4F5C, 0x4E3A, 0x6807, 0x8BC6, 0x7B26, 0x65F6, 0x5FC5, 0x987B, 0x4F7F, 0x7528, 0x65B9, 0x62EC, 0x53F7, 0x6216, 0x53CC, 0x5F15, 0x53F7]"

definition terminators :: "('t \<Rightarrow> token_kind) \<Rightarrow> 't list \<Rightarrow> nat list" where
  "terminators kind tokens = filter (\<lambda>i. kind (tokens ! i) = TSemicolon) [0..<length tokens]"

definition check_tokens :: "('t \<Rightarrow> token_kind) \<Rightarrow> 't list \<Rightarrow> unit res" where
  "check_tokens kind tokens =
     (if tokens = [] \<or> kind (hd tokens) \<notin> {TSelect, TWith} then Inl (SqlValidationError SQL_SELECT_ONLY)
      else let ts = terminators kind tokens
           in if 1 < length ts \<or> (ts \<noteq> [] \<and> hd ts \<noteq> length tokens - 1)
              then Inl (SqlValidationError SQL_SINGLE_ONLY) else Inr ())"

definition check_node :: "(nat \<Rightarrow> pystr) \<Rightarrow> sql_node \<Rightarrow> unit res" where
  "check_node u node =
     (if instance_of (node_classes node) UNSAFE_NODES then Inl (SqlValidationError SQL_UNSAFE)
      else if instance_of (node_classes node) [''CTE''] \<and> \<not> instance_of (cte_body_classes node) QUERY_TYPES
        then Inl (SqlValidationError SQL_CTE)
      else if instance_of (node_classes node) [''Anonymous''] \<and> str_upper u (node_name node) \<in> set EXTERNAL_FUNCTIONS
        then Inl (SqlValidationError SQL_EXTERNAL)
      else if instance_of (node_classes node) [''Identifier''] \<and> \<not> node_quoted node
          \<and> str_upper u (node_name node) \<in> set STATEMENT_KEYWORDS
        then Inl (SqlValidationError SQL_KEYWORD)
      else Inr ())"

fun check_nodes :: "(nat \<Rightarrow> pystr) \<Rightarrow> sql_node list \<Rightarrow> unit res" where
  "check_nodes u [] = Inr ()"
| "check_nodes u (node # nodes) =
     (case check_node u node of Inl exc \<Rightarrow> Inl exc | Inr _ \<Rightarrow> check_nodes u nodes)"

definition tokenize_and_parse :: "('t, 'n) sqlglot \<Rightarrow> pystr \<Rightarrow> 'n option list res" where
  "tokenize_and_parse G normalized =
     (case tokenize G normalized of
        Inl exc \<Rightarrow> Inl exc
      | Inr tokens \<Rightarrow>
          (case check_tokens (kind_of_token G) tokens of
             Inl exc \<Rightarrow> Inl exc
           | Inr _ \<Rightarrow> run_parser warn_unsupported (parse_tokens G tokens normalized)))"

definition validate_select_sql :: "('t, 'n) sqlglot \<Rightarrow> pystr \<Rightarrow> unit res" where
  "validate_select_sql G sql =
     (let normalized = strip sql
      in if normalized = [] then Inl (SqlValidationError SQL_EMPTY)
         else case tokenize_and_parse G normalized of
           Inl (OtherError n m) \<Rightarrow>
             if n \<in> set sqlglot_errors then Inl (SqlValidationError SQL_UNPARSABLE) else Inl (OtherError n m)
         | Inl exc \<Rightarrow> Inl exc
         | Inr parsed \<Rightarrow>
             let statements = filter (\<lambda>s. case s of
                   Some n \<Rightarrow> \<not> instance_of (node_classes (node_of G n)) [''Semicolon''] | None \<Rightarrow> True) parsed
             in (case statements of
                   [Some stmt] \<Rightarrow>
                     if instance_of (node_classes (node_of G stmt)) QUERY_TYPES
                     then check_nodes (upper_table G) (map (node_of G) (walk G stmt))
                     else Inl (SqlValidationError SQL_SINGLE_ONLY)
                 | _ \<Rightarrow> Inl (SqlValidationError SQL_SINGLE_ONLY)))"

definition validate_select_only_sql :: "('t, 'n) sqlglot \<Rightarrow> pystr \<Rightarrow> unit res" where
  "validate_select_only_sql G sql = validate_select_sql G sql"

section \<open>What acceptance means\<close>

text \<open>
  The specification, with the names it forbids written out: a node that neither writes nor locks nor runs a
  command nor draws a sequence number, is no CTE of anything but a query, calls no external data source, and
  is no unquoted identifier spelled like a statement keyword.
\<close>

definition query_classes :: "string set" where
  "query_classes = {''Select'', ''SetOperation''}"

definition read_only_node :: "(nat \<Rightarrow> pystr) \<Rightarrow> sql_node \<Rightarrow> bool" where
  "read_only_node u node \<longleftrightarrow>
     set (node_classes node) \<inter> {''DDL'', ''DML'', ''Command'', ''Into'', ''NextValueFor'', ''Lock''} = {}
     \<and> (''CTE'' \<in> set (node_classes node) \<longrightarrow> set (cte_body_classes node) \<inter> query_classes \<noteq> {})
     \<and> (''Anonymous'' \<in> set (node_classes node) \<longrightarrow>
          str_upper u (node_name node) \<notin> str ` {''OPENQUERY'', ''OPENROWSET'', ''OPENDATASOURCE''})
     \<and> (''Identifier'' \<in> set (node_classes node) \<and> \<not> node_quoted node \<longrightarrow>
          str_upper u (node_name node) \<notin> str ` {''ALTER'', ''CREATE'', ''DELETE'', ''DROP'', ''EXEC'', ''EXECUTE'',
            ''INSERT'', ''MERGE'', ''TRUNCATE'', ''UPDATE'', ''GRANT'', ''DENY'', ''REVOKE'', ''DBCC'', ''WAITFOR''})"

lemma instance_of_simps:
  "instance_of classes [c] \<longleftrightarrow> c \<in> set classes"
  "instance_of classes QUERY_TYPES \<longleftrightarrow> set classes \<inter> query_classes \<noteq> {}"
  by (auto simp: instance_of_def QUERY_TYPES_def query_classes_def)

lemma check_node_read_only: "check_node u node = Inr () \<longleftrightarrow> read_only_node u node"
proof -
  have "instance_of (node_classes node) UNSAFE_NODES \<longleftrightarrow>
      set (node_classes node) \<inter> {''DDL'', ''DML'', ''Command'', ''Into'', ''NextValueFor'', ''Lock''} \<noteq> {}"
    by (auto simp: instance_of_def UNSAFE_NODES_def)
  moreover have "set EXTERNAL_FUNCTIONS = str ` {''OPENQUERY'', ''OPENROWSET'', ''OPENDATASOURCE''}"
    by (simp add: EXTERNAL_FUNCTIONS_def)
  moreover have "set STATEMENT_KEYWORDS = str ` {''ALTER'', ''CREATE'', ''DELETE'', ''DROP'', ''EXEC'', ''EXECUTE'',
      ''INSERT'', ''MERGE'', ''TRUNCATE'', ''UPDATE'', ''GRANT'', ''DENY'', ''REVOKE'', ''DBCC'', ''WAITFOR''}"
    by (simp add: STATEMENT_KEYWORDS_def)
  ultimately show ?thesis
    unfolding check_node_def read_only_node_def instance_of_simps by (simp split: if_split) blast
qed

lemma check_nodes_read_only: "check_nodes u nodes = Inr () \<longleftrightarrow> list_all (read_only_node u) nodes"
  by (induction nodes) (auto simp: check_node_read_only [symmetric] split: sum.splits)

lemma run_parser_Parsed: "run_parser warn_unsupported run = Inr x \<longleftrightarrow> run = Parsed x"
  by (cases run) (auto simp: warn_unsupported_def)

text \<open>A terminator only as the last token.\<close>

definition single_statement :: "('t \<Rightarrow> token_kind) \<Rightarrow> 't list \<Rightarrow> bool" where
  "single_statement kind tokens \<longleftrightarrow> list_all (\<lambda>t. kind t \<noteq> TSemicolon) (butlast tokens)"

lemma set_terminators:
  "set (terminators kind tokens) = {i. i < length tokens \<and> kind (tokens ! i) = TSemicolon}"
  by (auto simp: terminators_def)

lemma single_statement_index:
  "single_statement kind tokens \<longleftrightarrow> (\<forall>i < length tokens. kind (tokens ! i) = TSemicolon \<longrightarrow> i = length tokens - 1)"
proof -
  have "single_statement kind tokens \<longleftrightarrow> (\<forall>i < length tokens - 1. kind (tokens ! i) \<noteq> TSemicolon)"
    by (simp add: single_statement_def list_all_length nth_butlast)
  then show ?thesis by (cases tokens) (auto simp: less_Suc_eq)
qed

lemma terminators_single:
  "single_statement kind tokens \<longleftrightarrow>
     \<not> (1 < length (terminators kind tokens)
        \<or> (terminators kind tokens \<noteq> [] \<and> hd (terminators kind tokens) \<noteq> length tokens - 1))"
proof -
  let ?ts = "terminators kind tokens"
  have d: "distinct ?ts" by (simp add: terminators_def)
  have "single_statement kind tokens \<longleftrightarrow> set ?ts \<subseteq> {length tokens - 1}"
    by (auto simp: single_statement_index set_terminators)
  also have "\<dots> \<longleftrightarrow> ?ts = [] \<or> ?ts = [length tokens - 1]"
    using d by (cases ?ts; cases "tl ?ts") auto
  also have "\<dots> \<longleftrightarrow> \<not> (1 < length ?ts \<or> (?ts \<noteq> [] \<and> hd ?ts \<noteq> length tokens - 1))"
    by (cases ?ts; cases "tl ?ts") auto
  finally show ?thesis .
qed

lemma check_tokens_ok:
  "check_tokens kind tokens = Inr () \<longleftrightarrow>
     tokens \<noteq> [] \<and> kind (hd tokens) \<in> {TSelect, TWith} \<and> single_statement kind tokens"
  by (auto simp: check_tokens_def terminators_single Let_def)

text \<open>The library reads a text as one query: its tokens, and its statements without any fallback.\<close>

definition reads_as_query :: "('t, 'n) sqlglot \<Rightarrow> pystr \<Rightarrow> 't list \<Rightarrow> 'n \<Rightarrow> bool" where
  "reads_as_query G text tokens stmt \<longleftrightarrow>
     tokenize G text = Inr tokens
     \<and> (\<exists>parsed. parse_tokens G tokens text = Parsed parsed
          \<and> filter (\<lambda>s. case s of
              Some n \<Rightarrow> ''Semicolon'' \<notin> set (node_classes (node_of G n)) | None \<Rightarrow> True) parsed = [Some stmt])
     \<and> set (node_classes (node_of G stmt)) \<inter> query_classes \<noteq> {}"

lemma validate_accepts_iff:
  "validate_select_sql G sql = Inr () \<longleftrightarrow>
     strip sql \<noteq> []
     \<and> (\<exists>tokens stmt. reads_as_query G (strip sql) tokens stmt
          \<and> tokens \<noteq> [] \<and> kind_of_token G (hd tokens) \<in> {TSelect, TWith}
          \<and> single_statement (kind_of_token G) tokens
          \<and> list_all (\<lambda>n. read_only_node (upper_table G) (node_of G n)) (walk G stmt))"
proof (cases "strip sql = []")
  case True
  then show ?thesis by (simp add: validate_select_sql_def)
next
  case nonempty: False
  show ?thesis
  proof (cases "tokenize_and_parse G (strip sql)")
    case (Inl exc)
    then have "\<not> reads_as_query G (strip sql) tokens stmt" if "check_tokens (kind_of_token G) tokens = Inr ()" for tokens stmt
      using that by (auto simp: tokenize_and_parse_def reads_as_query_def)
    with Inl nonempty show ?thesis
      by (cases exc) (auto simp: validate_select_sql_def Let_def check_tokens_ok)
  next
    case (Inr parsed)
    then obtain tokens where t: "tokenize G (strip sql) = Inr tokens"
      "check_tokens (kind_of_token G) tokens = Inr ()" "parse_tokens G tokens (strip sql) = Parsed parsed"
      by (auto simp: tokenize_and_parse_def run_parser_Parsed split: sum.splits)
    let ?stmts = "filter (\<lambda>s. case s of
        Some n \<Rightarrow> ''Semicolon'' \<notin> set (node_classes (node_of G n)) | None \<Rightarrow> True) parsed"
    have ok: "check_nodes u (map (node_of G) ns) = Inr () \<longleftrightarrow> list_all (\<lambda>n. read_only_node u (node_of G n)) ns" for u ns
      by (simp add: check_nodes_read_only list.pred_map comp_def)
    have "validate_select_sql G sql = Inr () \<longleftrightarrow>
        (\<exists>stmt. ?stmts = [Some stmt] \<and> set (node_classes (node_of G stmt)) \<inter> query_classes \<noteq> {}
           \<and> list_all (\<lambda>n. read_only_node (upper_table G) (node_of G n)) (walk G stmt))"
      using Inr nonempty ok [of "upper_table G"]
      by (auto simp: validate_select_sql_def Let_def instance_of_simps split: list.splits option.splits)
    with t nonempty show ?thesis by (auto simp: check_tokens_ok reads_as_query_def)
  qed
qed

definition unexpected_error :: "exn \<Rightarrow> bool" where
  "unexpected_error exc \<longleftrightarrow>
     (\<forall>m. exc \<notin> {OtherError (str ''ParseError'') m, OtherError (str ''TokenError'') m, OtherError (str ''RecursionError'') m})"

text \<open>Every refusal is a \<open>SqlValidationError\<close>, unless the library raises something else than its own errors.\<close>

lemma validate_refusals:
  assumes "validate_select_sql G sql = Inl exc"
  shows "(\<exists>m. exc = SqlValidationError m)
    \<or> unexpected_error exc
      \<and> (tokenize G (strip sql) = Inl exc
         \<or> (\<exists>tokens. tokenize G (strip sql) = Inr tokens
              \<and> run_parser warn_unsupported (parse_tokens G tokens (strip sql)) = Inl exc))"
proof -
  have nodes: "check_nodes u ns = Inl e \<Longrightarrow> \<exists>m. e = SqlValidationError m" for u ns e
    by (induction ns) (auto simp: check_node_def split: sum.splits if_splits)
  have tokens: "check_tokens kind ts = Inl e \<Longrightarrow> \<exists>m. e = SqlValidationError m" for kind e and ts :: "'a list"
    by (auto simp: check_tokens_def Let_def split: if_splits)
  show ?thesis
  proof (cases "strip sql = []")
    case True
    with assms show ?thesis by (auto simp: validate_select_sql_def)
  next
    case nonempty: False
    show ?thesis
    proof (cases "tokenize_and_parse G (strip sql)")
      case (Inr parsed)
      with assms nonempty nodes show ?thesis
        by (auto simp: validate_select_sql_def Let_def split: list.splits option.splits if_splits)
    next
      case (Inl e)
      then have source: "(\<exists>m. e = SqlValidationError m) \<or> tokenize G (strip sql) = Inl e
          \<or> (\<exists>tokens. tokenize G (strip sql) = Inr tokens
              \<and> run_parser warn_unsupported (parse_tokens G tokens (strip sql)) = Inl e)"
        using tokens by (auto simp: tokenize_and_parse_def split: sum.splits)
      have names: "unexpected_error e" if "e = exc"
        using assms nonempty Inl that
        by (cases e) (auto simp: validate_select_sql_def Let_def sqlglot_errors_def unexpected_error_def split: if_splits)
      show ?thesis
        using assms nonempty Inl source names
        by (cases e) (auto simp: validate_select_sql_def Let_def split: if_splits)
    qed
  qed
qed

text \<open>
  C29. The validator accepts a text exactly when it is one read-only query: it tokenizes to a statement
  that begins with SELECT or WITH and has no terminator but a final one; the parser reads it without
  falling back to a generic command and finds, apart from bare semicolons, one SELECT or set operation;
  and no node of that query is a DDL or DML statement, a command, an INTO, a sequence number or a lock,
  a CTE of anything but a query, a call of an external data source, or an unquoted identifier spelled like
  a statement keyword. Whatever it refuses it refuses with \<open>SqlValidationError\<close>, except for exceptions of
  the library that are not among the three it is expected to raise.
\<close>

theorem validate_accepts_exact:
  "(validate_select_sql G sql = Inr () \<longleftrightarrow>
     strip sql \<noteq> []
     \<and> (\<exists>tokens stmt. reads_as_query G (strip sql) tokens stmt
          \<and> tokens \<noteq> [] \<and> kind_of_token G (hd tokens) \<in> {TSelect, TWith}
          \<and> list_all (\<lambda>t. kind_of_token G t \<noteq> TSemicolon) (butlast tokens)
          \<and> list_all (\<lambda>n. read_only_node (upper_table G) (node_of G n)) (walk G stmt)))
   \<and> (validate_select_sql G sql = Inr ()
      \<or> (\<exists>exc. validate_select_sql G sql = Inl exc
           \<and> ((\<exists>m. exc = SqlValidationError m)
              \<or> unexpected_error exc
                \<and> (tokenize G (strip sql) = Inl exc
                   \<or> (\<exists>tokens. tokenize G (strip sql) = Inr tokens
                        \<and> run_parser warn_unsupported (parse_tokens G tokens (strip sql)) = Inl exc)))))"
proof
  show "validate_select_sql G sql = Inr () \<longleftrightarrow>
     strip sql \<noteq> []
     \<and> (\<exists>tokens stmt. reads_as_query G (strip sql) tokens stmt
          \<and> tokens \<noteq> [] \<and> kind_of_token G (hd tokens) \<in> {TSelect, TWith}
          \<and> list_all (\<lambda>t. kind_of_token G t \<noteq> TSemicolon) (butlast tokens)
          \<and> list_all (\<lambda>n. read_only_node (upper_table G) (node_of G n)) (walk G stmt))"
    unfolding validate_accepts_iff single_statement_def ..
  show "validate_select_sql G sql = Inr ()
      \<or> (\<exists>exc. validate_select_sql G sql = Inl exc
           \<and> ((\<exists>m. exc = SqlValidationError m)
              \<or> unexpected_error exc
                \<and> (tokenize G (strip sql) = Inl exc
                   \<or> (\<exists>tokens. tokenize G (strip sql) = Inr tokens
                        \<and> run_parser warn_unsupported (parse_tokens G tokens (strip sql)) = Inl exc))))"
    using validate_refusals [of G sql] by (cases "validate_select_sql G sql") auto
qed

end
