(* ===== verification/Sql_Client.thy ===== *)
theory Sql_Client
  imports Models Sql_Validator
begin

text \<open>
  \<open>app/sql_client.py\<close>. The ODBC driver is a parameter (\<open>pyodbc_env\<close>): importing it, running one
  batch on a connection, which yields the columns and the rows the cursor will fetch, and leaving
  the connection. What the client makes of it, and the connection string it builds, is modelled.
\<close>

section \<open>Small helpers\<close>

definition odbc_sqlstate :: "bool \<Rightarrow> exn \<Rightarrow> pystr" where
  "odbc_sqlstate pyodbc_available exc =
     (if \<not> pyodbc_available then []
      else case exc of
        PyodbcError n (Some state) m \<Rightarrow>
          if length state = 5 \<and> list_all (\<lambda>c. (65 \<le> c \<and> c \<le> 90) \<or> (48 \<le> c \<and> c \<le> 57)) state
          then state else []
      | _ \<Rightarrow> [])"

text \<open>A cursor: the columns it describes (None without a result set) and the rows to fetch.\<close>

record cursor =
  description :: "pystr list option"
  remaining :: "cell list list"

definition zip_row :: "pystr list \<Rightarrow> cell list \<Rightarrow> row res" where
  "zip_row columns values =
     (if length columns \<noteq> length values then Inl (ValueError (str ''zip() arguments differ in length''))
      else Inr (dict_of_pairs (zip columns values)))"

fun zip_rows :: "pystr list \<Rightarrow> cell list list \<Rightarrow> row list res" where
  "zip_rows columns [] = Inr []"
| "zip_rows columns (v # vs) =
     (case zip_row columns v of
        Inl exc \<Rightarrow> Inl exc
      | Inr r \<Rightarrow> (case zip_rows columns vs of Inl exc \<Rightarrow> Inl exc | Inr rs \<Rightarrow> Inr (r # rs)))"

definition no_result_set :: exn where
  "no_result_set = OtherError (str ''TypeError'') []"

definition rows_from_cursor :: "cursor \<Rightarrow> row list res" where
  "rows_from_cursor cur =
     (case description cur of
        None \<Rightarrow> Inl no_result_set
      | Some columns \<Rightarrow> zip_rows columns (remaining cur))"

text \<open>\<open>fetchmany(n)\<close> gives at most the next \<open>n\<close> rows.\<close>

definition rows_from_cursor_limited :: "cursor \<Rightarrow> int \<Rightarrow> row list res" where
  "rows_from_cursor_limited cur max_rows =
     (case description cur of
        None \<Rightarrow> Inl no_result_set
      | Some columns \<Rightarrow> zip_rows columns (take (nat max_rows) (remaining cur)))"

definition odbc_brace_escape :: "pystr \<Rightarrow> pystr" where
  "odbc_brace_escape value = [123] @ concat (map (\<lambda>c. if c = 125 then [125, 125] else [c]) value) @ [125]"

definition strip_single_trailing_semicolon :: "pystr \<Rightarrow> pystr" where
  "strip_single_trailing_semicolon sql =
     (let stripped_sql = rstrip sql
      in if endswith stripped_sql (str '';'') then rstrip (butlast stripped_sql) else stripped_sql)"

definition normalize_extra_params :: "pystr \<Rightarrow> pystr" where
  "normalize_extra_params extra_params =
     (let parts = map strip (filter (\<lambda>part. strip part \<noteq> []) (split_on (\<lambda>c. c = 59) extra_params))
      in if parts = [] then [] else concat (map (\<lambda>part. part @ [59]) parts))"

section \<open>The client\<close>

record connection_params =
  cp_host :: pystr
  cp_port :: int
  cp_database :: pystr
  cp_username :: pystr
  cp_password :: pystr
  cp_connect_timeout_seconds :: int
  cp_odbc_driver :: pystr
  cp_server_override :: pystr
  cp_encrypt :: pystr
  cp_trust_server_certificate :: pystr
  cp_extra_params :: pystr

definition server_value :: "connection_params \<Rightarrow> pystr" where
  "server_value p =
     (if strip (cp_server_override p) \<noteq> [] then strip (cp_server_override p)
      else cp_host p @ [44] @ int_str (cp_port p))"

definition connection_string :: "connection_params \<Rightarrow> pystr" where
  "connection_string p =
     str ''DRIVER='' @ odbc_brace_escape (cp_odbc_driver p) @ [59]
     @ str ''SERVER='' @ odbc_brace_escape (server_value p) @ [59]
     @ str ''DATABASE='' @ odbc_brace_escape (cp_database p) @ [59]
     @ str ''UID='' @ odbc_brace_escape (cp_username p) @ [59]
     @ str ''PWD='' @ odbc_brace_escape (cp_password p) @ [59]
     @ str ''Encrypt='' @ cp_encrypt p @ [59]
     @ str ''TrustServerCertificate='' @ cp_trust_server_certificate p @ [59]
     @ str ''Connection Timeout='' @ int_str (cp_connect_timeout_seconds p) @ [59]
     @ normalize_extra_params (cp_extra_params p)"

text \<open>\<open>pyodbc_import\<close> is None when the module loads, otherwise the exception and whether it is a
  \<open>ModuleNotFoundError\<close> for pyodbc itself.\<close>

record 'w pyodbc_env =
  pyodbc_import :: "(exn \<times> bool) option"
  run_batch :: "pystr \<Rightarrow> int \<Rightarrow> pystr \<Rightarrow> ('w, cursor) eff"
  connection_exit :: "('w, unit) eff"

definition import_pyodbc :: "'w pyodbc_env \<Rightarrow> unit res" where
  "import_pyodbc C =
     (case pyodbc_import C of
        None \<Rightarrow> Inr ()
      | Some (exc, missing) \<Rightarrow>
          Inl (if missing then RuntimeError (str ''pyodbc is required to query SQL Server'') else exc))"

text \<open>A \<open>with pyodbc.connect(...)\<close> block around a pure use of the cursor.\<close>

definition with_connection :: "'w pyodbc_env \<Rightarrow> pystr \<Rightarrow> int \<Rightarrow> pystr \<Rightarrow> (cursor \<Rightarrow> 'a res) \<Rightarrow> ('w, 'a) eff" where
  "with_connection C conn timeout_seconds sql use =
     ebind (run_batch C conn timeout_seconds sql)
       (\<lambda>cur. ebind (connection_exit C) (\<lambda>_. elift (use cur)))"

definition query :: "('t, 'n) sqlglot \<Rightarrow> 'w pyodbc_env \<Rightarrow> connection_params \<Rightarrow> pystr \<Rightarrow> int \<Rightarrow> int \<Rightarrow> ('w, row list) eff" where
  "query G C p sql timeout_seconds max_rows =
     (if max_rows < 1 then eraise (ValueError (str ''max_rows must be a positive integer''))
      else
        ebind (elift (validate_select_sql G sql)) (\<lambda>_.
        ebind (elift (import_pyodbc C)) (\<lambda>_.
        with_connection C (connection_string p) timeout_seconds (strip_single_trailing_semicolon sql)
          (\<lambda>cur. rows_from_cursor_limited cur max_rows))))"

definition parse_only_batch :: "pystr \<Rightarrow> pystr" where
  "parse_only_batch executable_sql =
     str ''SET PARSEONLY ON;'' @ [10] @ executable_sql @ str '';'' @ [10] @ str ''SET PARSEONLY OFF;''"

definition validate_syntax :: "('t, 'n) sqlglot \<Rightarrow> 'w pyodbc_env \<Rightarrow> connection_params \<Rightarrow> pystr \<Rightarrow> int \<Rightarrow> ('w, unit) eff" where
  "validate_syntax G C p sql timeout_seconds =
     ebind (elift (validate_select_sql G sql)) (\<lambda>_.
     ebind (elift (import_pyodbc C)) (\<lambda>_.
     with_connection C (connection_string p) timeout_seconds
       (parse_only_batch (strip_single_trailing_semicolon sql)) (\<lambda>_. Inr ())))"

section \<open>The contract of a SQL client\<close>

text \<open>\<open>SqlClient\<close>: a query never returns more rows than it was asked for, all rows have the same
  columns, and every row is a dictionary.\<close>

locale sql_client =
  fixes run_query :: "pystr \<Rightarrow> int \<Rightarrow> int \<Rightarrow> ('w, row list) eff"
  assumes limited: "run_query sql t n w = (Inr rows, w') \<Longrightarrow> int (length rows) \<le> n"
    and uniform: "run_query sql t n w = (Inr rows, w') \<Longrightarrow> r \<in> set rows \<Longrightarrow> r' \<in> set rows \<Longrightarrow> map fst r = map fst r'"
    and dictionary: "run_query sql t n w = (Inr rows, w') \<Longrightarrow> r \<in> set rows \<Longrightarrow> distinct (map fst r)"
begin

lemma one_header:
  assumes "run_query sql t n w = (Inr rows, w')"
  shows "\<exists>columns. distinct columns \<and> (\<forall>r \<in> set rows. map fst r = columns)"
proof (cases rows)
  case Nil
  then show ?thesis by (intro exI [of _ "[]"]) simp
next
  case (Cons r rs)
  then have "r \<in> set rows" by simp
  with uniform [OF assms] dictionary [OF assms] show ?thesis by blast
qed

end

lemma zip_rows_length: "zip_rows columns vs = Inr rs \<Longrightarrow> length rs = length vs"
  by (induction vs arbitrary: rs) (auto split: sum.splits)

lemma map_fst_update:
  "map fst (AList.update k v d) = (if k \<in> set (map fst d) then map fst d else map fst d @ [k])"
  by (induction d) auto

lemma map_fst_fold_update:
  "length cs = length vs \<Longrightarrow>
   map fst (fold (\<lambda>(k, v) d. AList.update k v d) (zip cs vs) d)
     = fold (\<lambda>c ks. if c \<in> set ks then ks else ks @ [c]) cs (map fst d)"
proof (induction cs vs arbitrary: d rule: list_induct2)
  case Nil
  then show ?case by simp
next
  case (Cons c cs v vs)
  then show ?case by (simp add: map_fst_update del: set_map)
qed

lemma dict_of_pairs_columns:
  "length columns = length a \<Longrightarrow> length columns = length b \<Longrightarrow>
     map fst (dict_of_pairs (zip columns a)) = map fst (dict_of_pairs (zip columns b))"
  unfolding dict_of_pairs_def by (simp only: map_fst_fold_update list.map)

lemma zip_rows_member:
  "zip_rows columns vs = Inr rs \<Longrightarrow> r \<in> set rs \<Longrightarrow>
     \<exists>v. length v = length columns \<and> r = dict_of_pairs (zip columns v)"
  by (induction vs arbitrary: rs) (auto simp: zip_row_def split: sum.splits if_splits)

lemma query_rows:
  assumes "query G C p sql t n w = (Inr rows, w')"
  obtains columns vs where "1 \<le> n" "zip_rows columns (take (nat n) vs) = Inr rows"
  using assms
  by (auto simp: query_def with_connection_def ebind_Inr rows_from_cursor_limited_def
      split: if_splits option.splits)

interpretation pyodbc_client: sql_client "query G C p" for G C p
proof
  fix sql t n w rows w'
  assume "query G C p sql t n w = (Inr rows, w')"
  then obtain columns vs where n: "1 \<le> n" and z: "zip_rows columns (take (nat n) vs) = Inr rows"
    by (rule query_rows)
  show "int (length rows) \<le> n" using zip_rows_length [OF z] n by simp
  show "map fst r = map fst r'" if "r \<in> set rows" "r' \<in> set rows" for r r'
    using zip_rows_member [OF z that(1)] zip_rows_member [OF z that(2)] dict_of_pairs_columns by metis
  show "distinct (map fst r)" if "r \<in> set rows" for r
    using zip_rows_member [OF z that] distinct_dict_of_pairs by metis
qed

section \<open>Reading a connection string\<close>

text \<open>
  How an ODBC driver manager reads an attribute list: a value that begins with a brace ends at the
  first closing brace that is not doubled, any other value at the next semicolon.
\<close>

fun read_braced :: "pystr \<Rightarrow> (pystr \<times> pystr) option" where
  "read_braced [] = None"
| "read_braced [c] = (if c = 125 then Some ([], []) else None)"
| "read_braced (c # d # s) =
     (if c \<noteq> 125 then map_option (\<lambda>(v, r). (c # v, r)) (read_braced (d # s))
      else if d = 125 then map_option (\<lambda>(v, r). (125 # v, r)) (read_braced s)
      else Some ([], d # s))"

definition read_attribute :: "pystr \<Rightarrow> ((pystr \<times> pystr) \<times> pystr) option" where
  "read_attribute s =
     (case dropWhile (\<lambda>c. c \<noteq> 61) s of
        _ # b # r \<Rightarrow>
          if b = 123 then
            (case read_braced r of
               Some (v, sep # rest) \<Rightarrow>
                 if sep = 59 then Some ((takeWhile (\<lambda>c. c \<noteq> 61) s, v), rest) else None
             | _ \<Rightarrow> None)
          else Some ((takeWhile (\<lambda>c. c \<noteq> 61) s, takeWhile (\<lambda>c. c \<noteq> 59) (b # r)),
                     drop 1 (dropWhile (\<lambda>c. c \<noteq> 59) (b # r)))
      | _ \<Rightarrow> None)"

fun read_attributes :: "nat \<Rightarrow> pystr \<Rightarrow> ((pystr \<times> pystr) list \<times> pystr) option" where
  "read_attributes 0 s = Some ([], s)"
| "read_attributes (Suc n) s =
     (case read_attribute s of
        None \<Rightarrow> None
      | Some (a, rest) \<Rightarrow> map_option (\<lambda>(as, r). (a # as, r)) (read_attributes n rest))"

lemma read_braced_plain: "c \<noteq> 125 \<Longrightarrow> s \<noteq> [] \<Longrightarrow>
    read_braced (c # s) = map_option (\<lambda>(v, r). (c # v, r)) (read_braced s)"
  by (cases s) auto

lemma read_braced_escape:
  assumes "d \<noteq> 125"
  shows "read_braced (concat (map (\<lambda>c. if c = 125 then [125, 125] else [c]) v) @ 125 # d # rest) = Some (v, d # rest)"
proof (induction v)
  case Nil
  then show ?case using assms by simp
next
  case (Cons c v)
  then show ?case by (cases "c = 125") (simp_all add: read_braced_plain)
qed

lemma read_attribute_escape:
  assumes "\<forall>c \<in> set key. c \<noteq> 61"
  shows "read_attribute (key @ 61 # odbc_brace_escape v @ 59 # rest) = Some ((key, v), rest)"
  using assms read_braced_escape [of 59 v rest]
  by (simp add: read_attribute_def odbc_brace_escape_def takeWhile_tail dropWhile_append2 takeWhile_append2)

definition connection_tail :: "connection_params \<Rightarrow> pystr" where
  "connection_tail p =
     str ''Encrypt='' @ cp_encrypt p @ [59]
     @ str ''TrustServerCertificate='' @ cp_trust_server_certificate p @ [59]
     @ str ''Connection Timeout='' @ int_str (cp_connect_timeout_seconds p) @ [59]
     @ normalize_extra_params (cp_extra_params p)"

lemma str_key: "str (s @ ''='') = str s @ [61]"
  by (simp add: str_def)

lemma connection_keys:
  "str ''DRIVER='' = str ''DRIVER'' @ [61]" "str ''SERVER='' = str ''SERVER'' @ [61]"
  "str ''DATABASE='' = str ''DATABASE'' @ [61]" "str ''UID='' = str ''UID'' @ [61]"
  "str ''PWD='' = str ''PWD'' @ [61]"
  by (simp_all add: str_def)

lemma connection_keys_plain:
  "\<forall>c \<in> set (str ''DRIVER''). c \<noteq> 61" "\<forall>c \<in> set (str ''SERVER''). c \<noteq> 61"
  "\<forall>c \<in> set (str ''DATABASE''). c \<noteq> 61" "\<forall>c \<in> set (str ''UID''). c \<noteq> 61"
  "\<forall>c \<in> set (str ''PWD''). c \<noteq> 61"
  by (simp_all add: str_def)

lemmas read_connection_keys = connection_keys_plain [THEN read_attribute_escape]

section \<open>Properties\<close>

text \<open>
  C30. No value can inject a connection attribute: whatever the driver, server, database, user name
  and password contain (braces, semicolons, equal signs), the connection string reads back as
  exactly these five attributes with exactly these values, followed by the encryption settings.
\<close>

theorem connection_string_roundtrip:
  "read_attributes 5 (connection_string p) =
     Some ([(str ''DRIVER'', cp_odbc_driver p), (str ''SERVER'', server_value p),
            (str ''DATABASE'', cp_database p), (str ''UID'', cp_username p), (str ''PWD'', cp_password p)],
           connection_tail p)"
proof -
  have five: "(5::nat) = Suc (Suc (Suc (Suc (Suc 0))))" by simp
  have shape: "connection_string p =
      str ''DRIVER'' @ 61 # odbc_brace_escape (cp_odbc_driver p) @ 59 #
      str ''SERVER'' @ 61 # odbc_brace_escape (server_value p) @ 59 #
      str ''DATABASE'' @ 61 # odbc_brace_escape (cp_database p) @ 59 #
      str ''UID'' @ 61 # odbc_brace_escape (cp_username p) @ 59 #
      str ''PWD'' @ 61 # odbc_brace_escape (cp_password p) @ 59 # connection_tail p"
    unfolding connection_string_def connection_tail_def connection_keys by simp
  show ?thesis
    unfolding five shape
    by (simp only: read_attributes.simps read_connection_keys option.case prod.case option.map)
qed

text \<open>
  A statement the validator rejects never reaches the server, neither as a query nor as a
  syntax check, and neither does a query with a row limit below one: the client raises and the
  outside world is untouched.
\<close>

theorem rejected_sql_not_sent:
  assumes "validate_select_sql G sql = Inl exc"
  shows "query G C p sql t n w = (Inl (if n < 1 then ValueError (str ''max_rows must be a positive integer'') else exc), w)
    \<and> validate_syntax G C p sql t w = (Inl exc, w)"
  using assms by (simp add: query_def validate_syntax_def eraise_def)

text \<open>
  What a successful query returns: the statement sent is the validated text without its
  trailing semicolon, the rows are the first \<open>max_rows\<close> of the result set, one dictionary each,
  all with the same distinct columns.
\<close>

theorem query_result_exact:
  assumes "query G C p sql t n w = (Inr rows, w')"
  shows "\<exists>cur columns w1. validate_select_sql G sql = Inr ()
    \<and> run_batch C (connection_string p) t (strip_single_trailing_semicolon sql) w = (Inr cur, w1)
    \<and> description cur = Some columns
    \<and> length rows = min (nat n) (length (remaining cur))
    \<and> (\<exists>header. distinct header \<and> list_all (\<lambda>r. map fst r = header) rows)"
proof -
  from assms obtain cur w1 where
    v: "validate_select_sql G sql = Inr ()"
    and run: "run_batch C (connection_string p) t (strip_single_trailing_semicolon sql) w = (Inr cur, w1)"
    and rows: "rows_from_cursor_limited cur n = Inr rows"
    by (auto simp: query_def with_connection_def ebind_Inr split: if_splits)
  from rows obtain columns where c: "description cur = Some columns"
    and z: "zip_rows columns (take (nat n) (remaining cur)) = Inr rows"
    by (auto simp: rows_from_cursor_limited_def split: option.splits)
  have "length rows = min (nat n) (length (remaining cur))"
    using zip_rows_length [OF z] by simp
  moreover have "\<exists>header. distinct header \<and> list_all (\<lambda>r. map fst r = header) rows"
    using pyodbc_client.one_header [OF assms] by (simp add: list_all_iff)
  ultimately show ?thesis using v run c by blast
qed

section \<open>Concrete instances\<close>

text \<open>A parser that takes every text for one plain SELECT, one that finds nothing, and a driver with
  two rows.\<close>

definition plain_select :: sql_node where
  "plain_select = \<lparr>node_classes = [''Select'', ''Query'', ''Expression''], node_name = [], node_quoted = False,
     cte_body_classes = []\<rparr>"

definition sample_sqlglot :: "(nat, nat) sqlglot" where
  "sample_sqlglot = \<lparr>tokenize = (\<lambda>_. Inr [0, 1]), kind_of_token = (\<lambda>t. if t = 0 then TSelect else TOther),
     parse_tokens = (\<lambda>_ _. Parsed [Some 0]), walk = (\<lambda>n. [n]), node_of = (\<lambda>_. plain_select),
     upper_table = (\<lambda>c. [c])\<rparr>"

definition empty_sqlglot :: "(nat, nat) sqlglot" where
  "empty_sqlglot = sample_sqlglot\<lparr>parse_tokens := (\<lambda>_ _. Parsed [])\<rparr>"

definition sample_pyodbc :: "nat pyodbc_env" where
  "sample_pyodbc = \<lparr>pyodbc_import = None,
     run_batch = (\<lambda>_ _ _ w. (Inr \<lparr>description = Some [str ''a''], remaining = [[CInt 1], [CInt 2]]\<rparr>, Suc w)),
     connection_exit = (\<lambda>w. (Inr (), Suc w))\<rparr>"

definition sample_params :: connection_params where
  "sample_params = \<lparr>cp_host = str ''db'', cp_port = 1433, cp_database = str ''x'', cp_username = str ''u'',
     cp_password = str ''p};''  , cp_connect_timeout_seconds = 10, cp_odbc_driver = str ''d'',
     cp_server_override = [], cp_encrypt = str ''yes'', cp_trust_server_certificate = str ''no'',
     cp_extra_params = []\<rparr>"

lemma sample_sql_strip: "strip (str ''SELECT 1'') \<noteq> []"
  by (simp add: strip_eq_Nil str_def is_space_def)

lemma sample_valid: "validate_select_sql sample_sqlglot (str ''SELECT 1'') = Inr ()"
proof -
  have "single_statement (\<lambda>t. if t = 0 then TSelect else TOther) [0::nat, 1]"
    by (simp add: single_statement_def)
  with sample_sql_strip show ?thesis
    by (auto simp: validate_accepts_iff sample_sqlglot_def plain_select_def reads_as_query_def
        read_only_node_def query_classes_def)
qed

theorem rejected_sql_not_sent_witness:
  "query empty_sqlglot sample_pyodbc sample_params (str ''SELECT 1'') 30 5 0
     = (Inl (SqlValidationError SQL_SINGLE_ONLY), 0)"
proof -
  have "terminators (\<lambda>t. if t = 0 then TSelect else TOther) [0::nat, 1] = []"
    by (simp add: terminators_def)
  then have "validate_select_sql empty_sqlglot (str ''SELECT 1'') = Inl (SqlValidationError SQL_SINGLE_ONLY)"
    using sample_sql_strip
    by (simp add: validate_select_sql_def empty_sqlglot_def sample_sqlglot_def tokenize_and_parse_def
        check_tokens_def Let_def)
  from rejected_sql_not_sent [OF this, of sample_pyodbc sample_params 30 5 0] show ?thesis by simp
qed

theorem query_result_exact_witness:
  "query sample_sqlglot sample_pyodbc sample_params (str ''SELECT 1'') 30 1 0
     = (Inr [[(str ''a'', CInt 1)]], 2)
   \<and> (\<exists>header. distinct header \<and> list_all (\<lambda>r. map fst r = header) [[(str ''a'', CInt 1)]])"
proof -
  have q: "query sample_sqlglot sample_pyodbc sample_params (str ''SELECT 1'') 30 1 0
     = (Inr [[(str ''a'', CInt 1)]], 2)"
    by (simp add: query_def with_connection_def sample_valid import_pyodbc_def sample_pyodbc_def ebind_def
        elift_def rows_from_cursor_limited_def zip_row_def dict_of_pairs_def)
  from query_result_exact [OF q] q show ?thesis by blast
qed

end
