(* ===== verification/Executor.thy ===== *)
theory Executor
  imports Mailer Template_Renderer Sql_Client
begin

text \<open>
  \<open>app/executor.py\<close>: one execution of a rule. The validator, the SQL client, the mailer and the
  Jinja environment it is built with are the fields of \<open>executor_env\<close>; \<open>row_filter\<close> is the optional
  suppression filter. The steps are those of \<open>RuleExecutor.execute\<close> with its early returns.
\<close>

section \<open>Results\<close>

definition SQL_QUERY_FAILURE :: pystr where
  "SQL_QUERY_FAILURE = [0x0053, 0x0051, 0x004C, 0x0020, 0x0053, 0x0065, 0x0072, 0x0076, 0x0065, 0x0072, 0x0020, 0x67E5, 0x8BE2, 0x5931, 0x8D25, 0xFF0C, 0x8BF7, 0x68C0, 0x67E5, 0x6570, 0x636E, 0x6E90, 0x8FDE, 0x63A5, 0x548C, 0x67E5, 0x8BE2, 0x914D, 0x7F6E]"

record execution_mail_result =
  mr_message :: email_message
  mr_result :: mail_send_result

record execution_result =
  er_status :: execution_status
  er_row_count :: int
  er_mail_count :: int
  er_error_type :: pystr
  er_error_message :: "pystr option"
  er_mail_results :: "execution_mail_result list"
  er_sqlstate :: pystr

text \<open>\<open>ExecutionResult(status, ...)\<close> with its defaults; \<open>email_count\<close> is \<open>mail_count\<close>.\<close>

definition new_result :: "execution_status \<Rightarrow> execution_result" where
  "new_result status = \<lparr>er_status = status, er_row_count = 0, er_mail_count = 0, er_error_type = [],
     er_error_message = None, er_mail_results = [], er_sqlstate = []\<rparr>"

definition email_count :: "execution_result \<Rightarrow> int" where
  "email_count result = er_mail_count result"

record 'w executor_env =
  validate_sql :: "pystr \<Rightarrow> unit res"
  client_query :: "pystr \<Rightarrow> int \<Rightarrow> int \<Rightarrow> ('w, row list) eff"
  mailer_send :: "email_message \<Rightarrow> ('w, mail_send_result) eff"
  jinja_render :: jinja
  pyodbc_available :: bool

type_synonym 'w row_filter = "row list \<Rightarrow> ('w, row list) eff"

section \<open>Messages\<close>

definition parse_recipients :: "pystr \<Rightarrow> pystr list" where
  "parse_recipients value =
     map strip (filter (\<lambda>recipient. strip recipient \<noteq> []) (split_on (\<lambda>c. c = 44 \<or> c = 59) value))"

definition row_recipients :: "row \<Rightarrow> pystr \<Rightarrow> pystr list" where
  "row_recipients row field_name =
     (if field_name = [] then []
      else case map_of row field_name of
        None \<Rightarrow> [] | Some CNone \<Rightarrow> [] | Some v \<Rightarrow> parse_recipients (cell_str v))"

definition exception_message :: "exn \<Rightarrow> pystr" where
  "exception_message exc = (if exn_str exc \<noteq> [] then exn_str exc else exn_name exc)"

definition no_recipients :: exn where
  "no_recipients = ValueError (str ''recipients must not be empty'')"

definition message_context :: "alert_rule \<Rightarrow> row list \<Rightarrow> template_context" where
  "message_context rule rows =
     [(str ''rule_name'', CtxStr (ar_name rule)), (str ''rows'', CtxRows rows),
      (str ''row_count'', CtxInt (int (length rows)))]"

definition row_message :: "jinja \<Rightarrow> alert_rule \<Rightarrow> template_context \<Rightarrow> row \<Rightarrow> email_message res" where
  "row_message jinja rule ctx row =
     (case render_per_row jinja (ar_subject_template rule) (ar_body_template rule) row ctx of
        Inl exc \<Rightarrow> Inl exc
      | Inr rendered \<Rightarrow>
          let dynamic = row_recipients row (ar_dynamic_recipient_field rule);
              to = (if dynamic \<noteq> [] then dynamic else parse_recipients (ar_recipients rule));
              dynamic_cc = row_recipients row (ar_dynamic_cc_field rule);
              cc = (if dynamic_cc \<noteq> [] then dynamic_cc else parse_recipients (ar_cc_recipients rule))
          in if to = [] then Inl no_recipients
             else Inr \<lparr>recipients = to, cc_recipients = cc, subject = rendered_subject rendered,
                       html_body = rendered_html_body rendered\<rparr>)"

fun row_messages :: "jinja \<Rightarrow> alert_rule \<Rightarrow> template_context \<Rightarrow> row list \<Rightarrow> email_message list res" where
  "row_messages jinja rule ctx [] = Inr []"
| "row_messages jinja rule ctx (row # rows) =
     (case row_message jinja rule ctx row of
        Inl exc \<Rightarrow> Inl exc
      | Inr m \<Rightarrow> (case row_messages jinja rule ctx rows of Inl exc \<Rightarrow> Inl exc | Inr ms \<Rightarrow> Inr (m # ms)))"

definition build_messages :: "jinja \<Rightarrow> alert_rule \<Rightarrow> row list \<Rightarrow> email_message list res" where
  "build_messages jinja rule rows =
     (let fixed_recipients = parse_recipients (ar_recipients rule);
          fixed_cc_recipients = parse_recipients (ar_cc_recipients rule);
          ctx = message_context rule rows
      in if ar_send_mode rule = SUMMARY then
           if fixed_recipients = [] then Inl no_recipients
           else (case render_summary jinja (ar_subject_template rule) (ar_body_template rule) rows ctx of
                   Inl exc \<Rightarrow> Inl exc
                 | Inr rendered \<Rightarrow>
                     Inr [\<lparr>recipients = fixed_recipients, cc_recipients = fixed_cc_recipients,
                           subject = rendered_subject rendered, html_body = rendered_html_body rendered\<rparr>])
         else row_messages jinja rule ctx rows)"

section \<open>Sending\<close>

definition normalized_result :: "mail_send_result \<Rightarrow> mail_send_result" where
  "normalized_result r =
     (if success r then mail_ok
      else if partial_success r then mail_failed SMTP_PARTIAL_FAILURE True
      else mail_failed SMTP_SEND_FAILURE False)"

definition send_message :: "'w executor_env \<Rightarrow> email_message \<Rightarrow> 'w \<Rightarrow> execution_mail_result \<times> 'w" where
  "send_message X m w =
     (case mailer_send X m w of
        (Inl exc, w') \<Rightarrow>
          (\<lparr>mr_message = m, mr_result = mail_failed (public_error_summary exc SMTP_SEND_FAILURE) False\<rparr>, w')
      | (Inr r, w') \<Rightarrow> (\<lparr>mr_message = m, mr_result = normalized_result r\<rparr>, w'))"

fun send_all :: "'w executor_env \<Rightarrow> email_message list \<Rightarrow> 'w \<Rightarrow> execution_mail_result list \<times> 'w" where
  "send_all X [] w = ([], w)"
| "send_all X (m # ms) w =
     (case send_message X m w of
        (r, w1) \<Rightarrow> (case send_all X ms w1 of (rs, w2) \<Rightarrow> (r # rs, w2)))"

definition successful_count :: "execution_mail_result list \<Rightarrow> nat" where
  "successful_count rs = length (filter (\<lambda>r. success (mr_result r)) rs)"

definition any_partial :: "execution_mail_result list \<Rightarrow> bool" where
  "any_partial rs = list_ex (\<lambda>r. partial_success (mr_result r)) rs"

definition status_for_mail_results :: "execution_mail_result list \<Rightarrow> execution_status" where
  "status_for_mail_results rs =
     (if successful_count rs = length rs then SUCCESS
      else if successful_count rs = 0 \<and> \<not> any_partial rs then FAILED
      else PARTIAL_FAILED)"

definition combined_error_message :: "execution_mail_result list \<Rightarrow> pystr" where
  "combined_error_message rs =
     (if any_partial rs then SMTP_PARTIAL_FAILURE
      else let errors = filter (\<lambda>e. e \<noteq> [])
                 (map (\<lambda>r. error_message (mr_result r)) (filter (\<lambda>r. \<not> success (mr_result r)) rs))
           in if errors \<noteq> [] then SMTP_SEND_FAILURE else str ''one or more emails failed'')"

definition mail_outcome :: "int \<Rightarrow> execution_mail_result list \<Rightarrow> execution_result" where
  "mail_outcome row_count rs =
     (let has_failure = successful_count rs < length rs
      in \<lparr>er_status = status_for_mail_results rs, er_row_count = row_count,
          er_mail_count = int (successful_count rs),
          er_error_type = (if has_failure then str ''MailSendError'' else []),
          er_error_message = (if has_failure then Some (combined_error_message rs) else None),
          er_mail_results = rs, er_sqlstate = []\<rparr>)"

section \<open>Executing\<close>

definition failed_result :: "pystr \<Rightarrow> pystr \<Rightarrow> execution_result" where
  "failed_result error_type message =
     (new_result FAILED)\<lparr>er_error_type := error_type, er_error_message := Some message\<rparr>"

definition query_failure :: "'w executor_env \<Rightarrow> exn \<Rightarrow> execution_result" where
  "query_failure X exc =
     (failed_result (exn_name exc) (public_error_summary exc SQL_QUERY_FAILURE))
       \<lparr>er_sqlstate := odbc_sqlstate (pyodbc_available X) exc\<rparr>"

definition deliver :: "'w executor_env \<Rightarrow> alert_rule \<Rightarrow> int \<Rightarrow> row list \<Rightarrow> 'w \<Rightarrow> execution_result \<times> 'w" where
  "deliver X rule row_count rows w =
     (if rows = [] then ((new_result SUCCESS)\<lparr>er_row_count := row_count\<rparr>, w)
      else case build_messages (jinja_render X) rule rows of
        Inl exc \<Rightarrow>
          ((failed_result (exn_name exc) (exception_message exc))\<lparr>er_row_count := row_count\<rparr>, w)
      | Inr messages \<Rightarrow>
          (case send_all X messages w of (rs, w') \<Rightarrow> (mail_outcome row_count rs, w')))"

definition execute :: "'w executor_env \<Rightarrow> alert_rule \<Rightarrow> 'w row_filter option \<Rightarrow> ('w, execution_result) eff" where
  "execute X rule row_filter w =
     (case validate_sql X (ar_sql_text rule) of
        Inl exc \<Rightarrow> (Inr (failed_result (exn_name exc) (exception_message exc)), w)
      | Inr _ \<Rightarrow>
          (case client_query X (ar_sql_text rule) (ar_query_timeout_seconds rule) (ar_max_rows rule) w of
             (Inl exc, w1) \<Rightarrow> (Inr (query_failure X exc), w1)
           | (Inr rows, w1) \<Rightarrow>
               (case (case row_filter of Some f \<Rightarrow> f rows w1 | None \<Rightarrow> (Inr rows, w1)) of
                  (Inl exc, w2) \<Rightarrow> (Inl exc, w2)
                | (Inr rows', w2) \<Rightarrow>
                    (case deliver X rule (int (length rows)) rows' w2 of (r, w3) \<Rightarrow> (Inr r, w3)))))"

section \<open>Lemmas\<close>

lemma send_all_messages: "map mr_message (fst (send_all X ms w)) = ms"
proof (induction ms arbitrary: w)
  case Nil
  then show ?case by simp
next
  case (Cons m ms)
  have "mr_message (fst (send_message X m w)) = m"
    by (simp add: send_message_def split: prod.splits sum.splits)
  with Cons show ?case by (simp split: prod.splits) (metis fst_conv)
qed

lemma send_message_normal:
  "mr_result (fst (send_message X m w)) \<in>
     {mail_ok, mail_failed SMTP_PARTIAL_FAILURE True, mail_failed SMTP_SEND_FAILURE False}"
  by (auto simp: send_message_def normalized_result_def public_error_summary_def split: prod.splits sum.splits)

lemma send_all_normal:
  "r \<in> set (fst (send_all X ms w)) \<Longrightarrow> mr_result r \<in>
     {mail_ok, mail_failed SMTP_PARTIAL_FAILURE True, mail_failed SMTP_SEND_FAILURE False}"
proof (induction ms arbitrary: w)
  case Nil
  then show ?case by simp
next
  case (Cons m ms)
  obtain a w1 where a: "send_message X m w = (a, w1)" by (cases "send_message X m w")
  obtain rs w2 where rs: "send_all X ms w1 = (rs, w2)" by (cases "send_all X ms w1")
  from Cons.prems a rs have "r = a \<or> r \<in> set rs" by simp
  then show ?case
    using send_message_normal [of X m w] a Cons.IH [of w1] rs by (metis fst_conv)
qed

lemma successful_all: "successful_count rs = length rs \<longleftrightarrow> (\<forall>r \<in> set rs. success (mr_result r))"
proof
  assume eq: "successful_count rs = length rs"
  show "\<forall>r \<in> set rs. success (mr_result r)"
  proof (rule ccontr)
    assume "\<not> (\<forall>r \<in> set rs. success (mr_result r))"
    then have "successful_count rs < length rs"
      unfolding successful_count_def by (auto intro: length_filter_less)
    with eq show False by simp
  qed
qed (simp add: successful_count_def)

lemma successful_none: "successful_count rs = 0 \<longleftrightarrow> (\<forall>r \<in> set rs. \<not> success (mr_result r))"
  by (auto simp: successful_count_def filter_empty_conv)

text \<open>A message reached somebody.\<close>

definition delivered :: "execution_mail_result \<Rightarrow> bool" where
  "delivered r \<longleftrightarrow> success (mr_result r) \<or> partial_success (mr_result r)"

lemma status_FAILED:
  "status_for_mail_results rs = FAILED \<longleftrightarrow> rs \<noteq> [] \<and> (\<forall>r \<in> set rs. \<not> delivered r)"
proof -
  have "successful_count rs = length rs \<and> successful_count rs = 0 \<longleftrightarrow> rs = []"
    by (auto simp: successful_count_def)
  then show ?thesis
    unfolding status_for_mail_results_def any_partial_def delivered_def
    using successful_all [of rs] successful_none [of rs] by (auto simp: list_ex_iff)
qed

lemma status_SUCCESS:
  "status_for_mail_results rs = SUCCESS \<longleftrightarrow> (\<forall>r \<in> set rs. success (mr_result r))"
  by (simp add: status_for_mail_results_def successful_all)

lemma execute_cases:
  assumes "execute X rule rf w = (Inr res, w')"
  obtains (invalid) exc where "validate_sql X (ar_sql_text rule) = Inl exc" "w' = w"
      "res = failed_result (exn_name exc) (exception_message exc)"
  | (query_failed) exc where "validate_sql X (ar_sql_text rule) = Inr ()"
      "client_query X (ar_sql_text rule) (ar_query_timeout_seconds rule) (ar_max_rows rule) w = (Inl exc, w')"
      "res = query_failure X exc"
  | (filtered) rows w1 rows' w2 where "validate_sql X (ar_sql_text rule) = Inr ()"
      "client_query X (ar_sql_text rule) (ar_query_timeout_seconds rule) (ar_max_rows rule) w = (Inr rows, w1)"
      "(case rf of Some f \<Rightarrow> f rows w1 | None \<Rightarrow> (Inr rows, w1)) = (Inr rows', w2)"
      "deliver X rule (int (length rows)) rows' w2 = (res, w')"
proof (cases "validate_sql X (ar_sql_text rule)")
  case (Inl exc)
  with assms invalid show thesis by (auto simp: execute_def)
next
  case (Inr u)
  obtain q w1 where q: "client_query X (ar_sql_text rule) (ar_query_timeout_seconds rule) (ar_max_rows rule) w = (q, w1)"
    by (metis surj_pair)
  show thesis
  proof (cases q)
    case (Inl exc)
    with assms Inr q query_failed show thesis by (simp add: execute_def)
  next
    case (Inr rows)
    obtain f w2 where f: "(case rf of Some f \<Rightarrow> f rows w1 | None \<Rightarrow> (Inr rows, w1)) = (f, w2)"
      by (metis surj_pair)
    with assms Inr q \<open>validate_sql X (ar_sql_text rule) = Inr u\<close> filtered show thesis
      by (cases f) (auto simp: execute_def split: prod.splits)
  qed
qed

lemma deliver_cases:
  assumes "deliver X rule n rows w = (res, w')"
  obtains (nothing) "rows = []" "res = (new_result SUCCESS)\<lparr>er_row_count := n\<rparr>" "w' = w"
  | (unbuildable) exc where "rows \<noteq> []" "build_messages (jinja_render X) rule rows = Inl exc"
      "res = (failed_result (exn_name exc) (exception_message exc))\<lparr>er_row_count := n\<rparr>" "w' = w"
  | (mailed) messages rs where "rows \<noteq> []" "build_messages (jinja_render X) rule rows = Inr messages"
      "send_all X messages w = (rs, w')" "res = mail_outcome n rs"
  using assms by (auto simp: deliver_def split: if_splits sum.splits prod.splits)

section \<open>Addresses\<close>

definition plain_address :: "pystr \<Rightarrow> bool" where
  "plain_address a \<longleftrightarrow> a \<noteq> [] \<and> strip a = a \<and> 44 \<notin> set a \<and> 59 \<notin> set a"

lemma parse_recipients_plain: "a \<in> set (parse_recipients v) \<Longrightarrow> plain_address a"
  using set_strip by (fastforce simp: parse_recipients_def plain_address_def dest: split_on_no_sep)

lemma row_recipients_parsed: "row_recipients row f = [] \<or> (\<exists>v. row_recipients row f = parse_recipients v)"
proof (cases "map_of row f")
  case None
  then show ?thesis by (simp add: row_recipients_def)
next
  case (Some v)
  then show ?thesis by (cases v) (auto simp: row_recipients_def)
qed

lemma row_recipients_plain: "a \<in> set (row_recipients row f) \<Longrightarrow> plain_address a"
  using row_recipients_parsed [of row f] parse_recipients_plain by fastforce

definition addressed :: "email_message \<Rightarrow> bool" where
  "addressed m \<longleftrightarrow> recipients m \<noteq> [] \<and> list_all plain_address (recipients m @ cc_recipients m)"

lemma row_message_addressed: "row_message jinja rule ctx row = Inr m \<Longrightarrow> addressed m"
  by (auto simp: row_message_def addressed_def Let_def list_all_iff parse_recipients_plain
      row_recipients_plain split: sum.splits if_splits)

lemma row_messages_addressed:
  "row_messages jinja rule ctx rows = Inr ms \<Longrightarrow> list_all addressed ms \<and> length ms = length rows"
  by (induction rows arbitrary: ms) (auto dest: row_message_addressed split: sum.splits)

lemma build_messages_addressed:
  assumes "build_messages jinja rule rows = Inr ms"
  shows "list_all addressed ms \<and> length ms = (if ar_send_mode rule = SUMMARY then 1 else length rows)"
proof (cases "ar_send_mode rule = SUMMARY")
  case True
  then obtain x y where "parse_recipients (ar_recipients rule) \<noteq> []"
    "ms = [\<lparr>recipients = parse_recipients (ar_recipients rule),
            cc_recipients = parse_recipients (ar_cc_recipients rule),
            subject = x, html_body = y\<rparr>]"
    using assms
    by (cases "render_summary jinja (ar_subject_template rule) (ar_body_template rule) rows (message_context rule rows)")
      (auto simp: build_messages_def Let_def split: if_splits)
  with True show ?thesis by (auto simp: addressed_def list_all_iff parse_recipients_plain)
next
  case False
  with assms row_messages_addressed show ?thesis by (fastforce simp: build_messages_def Let_def)
qed

section \<open>The production executor\<close>

text \<open>An executor whose client and mailer meet their contracts.\<close>

locale rule_executor = sql_client run_query + compatible_mailer send
  for run_query :: "pystr \<Rightarrow> int \<Rightarrow> int \<Rightarrow> ('w, row list) eff"
    and send :: "email_message \<Rightarrow> ('w, mail_send_result) eff" +
  fixes validate :: "pystr \<Rightarrow> unit res" and jinja :: jinja and available :: bool
begin

lemma row_count_bound:
  assumes "execute \<lparr>validate_sql = validate, client_query = run_query, mailer_send = send,
      jinja_render = jinja, pyodbc_available = available\<rparr> rule rf w = (Inr res, w')"
  shows "er_row_count res \<le> max 0 (ar_max_rows rule)"
  using assms
proof (cases rule: execute_cases)
  case (invalid exc)
  then show ?thesis by (simp add: failed_result_def new_result_def)
next
  case (query_failed exc)
  then show ?thesis by (simp add: query_failure_def failed_result_def new_result_def)
next
  case (filtered rows w1 rows' w2)
  then have "int (length rows) \<le> ar_max_rows rule" using limited by simp
  with filtered(4) show ?thesis
    by (cases rule: deliver_cases) (auto simp: failed_result_def new_result_def mail_outcome_def Let_def)
qed

end

interpretation production: rule_executor "query G C p" "send_mail S sender" validate jinja available
  for G C p S sender validate jinja available
  by unfold_locales

definition production_env ::
  "('t, 'n) sqlglot \<Rightarrow> 'w pyodbc_env \<Rightarrow> connection_params \<Rightarrow> ('w, 'c) smtp_env \<Rightarrow> pystr \<Rightarrow> jinja \<Rightarrow> bool
     \<Rightarrow> 'w executor_env" where
  "production_env G C p S sender jinja available =
     \<lparr>validate_sql = validate_select_only_sql G, client_query = query G C p, mailer_send = send_mail S sender,
      jinja_render = jinja, pyodbc_available = available\<rparr>"

section \<open>Properties\<close>

text \<open>What is read before anything is sent: the rows of the query that the filter lets through.\<close>

definition rows_to_mail :: "'w executor_env \<Rightarrow> alert_rule \<Rightarrow> 'w row_filter option \<Rightarrow> ('w, row list) eff" where
  "rows_to_mail X rule rf =
     ebind (client_query X (ar_sql_text rule) (ar_query_timeout_seconds rule) (ar_max_rows rule)) (\<lambda>rows.
       case rf of Some f \<Rightarrow> f rows | None \<Rightarrow> ereturn rows)"

text \<open>An execution that does not deliver does the same with any mailer: none is called.\<close>

lemma deliver_without_mailer:
  assumes "deliver X rule n rows w = (res, w')" and "rows = [] \<or> (\<exists>exc. build_messages (jinja_render X) rule rows = Inl exc)"
  shows "deliver (X\<lparr>mailer_send := send\<rparr>) rule n rows w = (res, w')"
  using assms by (auto simp: deliver_def)


text \<open>
  C10. The status tells what happened to the mails: of an execution that sent any, SUCCESS means
  every message was accepted for every recipient, FAILED that no message reached anybody, and
  PARTIAL_FAILED everything in between; the mail count is the number of full successes.
\<close>

theorem execute_status_exact:
  assumes "execute X rule rf w = (Inr res, w')" and "er_mail_results res \<noteq> []"
  shows "er_status res =
      (if list_all (\<lambda>r. success (mr_result r)) (er_mail_results res) then SUCCESS
       else if list_all (\<lambda>r. \<not> delivered r) (er_mail_results res) then FAILED
       else PARTIAL_FAILED)
    \<and> er_mail_count res = int (length (filter (\<lambda>r. success (mr_result r)) (er_mail_results res)))"
proof -
  obtain n rs where res: "res = mail_outcome n rs"
    using assms(1)
  proof (cases rule: execute_cases)
    case (filtered rows w1 rows' w2)
    from filtered(4) show ?thesis
      by (cases rule: deliver_cases) (use assms(2) that in \<open>simp_all add: new_result_def failed_result_def\<close>)
  qed (use assms(2) in \<open>simp_all add: query_failure_def new_result_def failed_result_def\<close>)
  have status: "status_for_mail_results rs =
      (if \<forall>r \<in> set rs. success (mr_result r) then SUCCESS
       else if \<forall>r \<in> set rs. \<not> delivered r then FAILED else PARTIAL_FAILED)"
  proof (cases "status_for_mail_results rs")
    case RUNNING
    then show ?thesis by (simp add: status_for_mail_results_def split: if_splits)
  next
    case SUCCESS
    then show ?thesis using status_SUCCESS [of rs] by simp
  next
    case FAILED
    then show ?thesis using status_FAILED [of rs] status_SUCCESS [of rs] by auto
  next
    case PARTIAL_FAILED
    then show ?thesis
      using status_FAILED [of rs] status_SUCCESS [of rs] by (cases "rs = []") auto
  qed
  then show ?thesis
    by (simp add: res mail_outcome_def Let_def list_all_iff successful_count_def)
qed

text \<open>
  No rule ever reports, or mails about, more rows than its limit when it runs with the SQL
  client and the mailer of the application.
\<close>

theorem execute_row_limit:
  assumes "execute (production_env G C p S sender jinja available) rule rf w = (Inr res, w')"
  shows "er_row_count res \<le> max 0 (ar_max_rows rule)"
  using assms unfolding production_env_def by (rule production.row_count_bound)

section \<open>Concrete instances\<close>

definition sample_rule :: alert_rule where
  "sample_rule = \<lparr>ar_id = Some 7, ar_name = str ''r'', ar_data_source_id = 1, ar_sql_text = str ''SELECT 1'',
     ar_cron_expression = str ''* * * * *'', ar_recipients = str ''a@x'', ar_cc_recipients = [],
     ar_subject_template = str ''s'', ar_body_template = str ''b'', ar_send_mode = PER_ROW,
     ar_query_timeout_seconds = 30, ar_max_rows = 2, ar_enabled = True, ar_notes = [],
     ar_dynamic_recipient_field = [], ar_dynamic_cc_field = [], ar_suppress_duplicates = False,
     ar_suppression_key_field = [], ar_suppression_window_hours = 24, ar_created_at = 0,
     ar_archived_at = None, ar_updated_at = 0\<rparr>"

definition sample_rows :: "row list" where
  "sample_rows = [[(str ''k'', CInt 1)], [(str ''k'', CInt 2)]]"

text \<open>A mailer that fails on its second message, counting the messages in the world.\<close>

definition sample_executor :: "nat executor_env" where
  "sample_executor = \<lparr>validate_sql = (\<lambda>_. Inr ()), client_query = (\<lambda>_ _ _ w. (Inr sample_rows, w)),
     mailer_send = (\<lambda>m w. (if w = 1 then Inl (OtherError [] []) else Inr mail_ok, Suc w)),
     jinja_render = (\<lambda>_ t _. Inr t), pyodbc_available = True\<rparr>"

definition sample_mail :: email_message where
  "sample_mail = \<lparr>recipients = [str ''a@x''], cc_recipients = [], subject = str ''s'', html_body = str ''b''\<rparr>"

definition sample_outcome :: execution_result where
  "sample_outcome = mail_outcome 2
     [\<lparr>mr_message = sample_mail, mr_result = mail_ok\<rparr>,
      \<lparr>mr_message = sample_mail, mr_result = mail_failed SMTP_SEND_FAILURE False\<rparr>]"

lemma sample_recipients: "parse_recipients (str ''a@x'') = [str ''a@x'']" "parse_recipients [] = []"
  by (simp_all add: parse_recipients_def str_def strip_def lstrip_def rstrip_def is_space_def)

lemma sample_messages:
  "build_messages (\<lambda>_ t _. Inr t) sample_rule sample_rows = Inr [sample_mail, sample_mail]"
  by (simp add: build_messages_def row_message_def render_per_row_def render_message_def render_def
      row_recipients_def sample_rule_def sample_rows_def sample_mail_def sample_recipients Let_def)

lemma sample_execution: "execute sample_executor sample_rule None 0 = (Inr sample_outcome, 2)"
proof -
  have "deliver sample_executor sample_rule 2 sample_rows 0 = (sample_outcome, 2)"
    using sample_messages
    by (simp add: deliver_def sample_executor_def sample_outcome_def send_message_def normalized_result_def
        public_error_summary_def sample_rows_def)
  then show ?thesis
    by (simp add: execute_def sample_executor_def) (simp add: sample_rows_def)
qed


theorem execute_status_exact_witness:
  "er_mail_results sample_outcome \<noteq> [] \<and> er_status sample_outcome = PARTIAL_FAILED \<and> er_mail_count sample_outcome = 1"
proof -
  have n: "er_mail_results sample_outcome \<noteq> []" by (simp add: sample_outcome_def mail_outcome_def Let_def)
  have "er_mail_results sample_outcome = [\<lparr>mr_message = sample_mail, mr_result = mail_ok\<rparr>,
      \<lparr>mr_message = sample_mail, mr_result = mail_failed SMTP_SEND_FAILURE False\<rparr>]"
    by (simp add: sample_outcome_def mail_outcome_def Let_def)
  with execute_status_exact [OF sample_execution n] n show ?thesis by (simp add: delivered_def)
qed

theorem execute_row_limit_witness:
  "\<exists>res w'. execute (production_env sample_sqlglot sample_pyodbc sample_params sample_smtp [] (\<lambda>_ t _. Inr t) True)
       (sample_rule\<lparr>ar_max_rows := 1\<rparr>) None 0 = (Inr res, w') \<and> er_row_count res \<le> 1"
proof -
  let ?X = "production_env sample_sqlglot sample_pyodbc sample_params sample_smtp [] (\<lambda>_ t _. Inr t) True"
  let ?r = "sample_rule\<lparr>ar_max_rows := 1\<rparr>"
  have "\<exists>res w'. execute ?X ?r None 0 = (Inr res, w')"
    by (auto simp: execute_def split: sum.splits prod.splits)
  then obtain res w' where e: "execute ?X ?r None 0 = (Inr res, w')" by blast
  from execute_row_limit [OF e] e show ?thesis by (auto simp: sample_rule_def)
qed

end
