(* ===== verification/Crypto.thy ===== *)
theory Crypto
  imports Prelude
begin

text \<open>
  \<open>app/crypto.py\<close>: the cipher that keeps the stored passwords. Fernet is a parameter on byte
  strings, with its decryption of its own tokens as the law of the locale \<open>fernet\<close>; the UTF-8
  conversions around it are modelled.
\<close>

section \<open>Decoding UTF-8\<close>

definition continuation :: "nat \<Rightarrow> bool" where
  "continuation b \<longleftrightarrow> 0x80 \<le> b \<and> b < 0xC0"

text \<open>The strict decoder: no overlong forms, no surrogates, nothing beyond U+10FFFF.\<close>

definition decode_char :: "nat list \<Rightarrow> (nat \<times> nat list) option" where
  "decode_char bs =
     (case bs of
        [] \<Rightarrow> None
      | b # r \<Rightarrow>
          if b < 0x80 then Some (b, r)
          else if 0xC2 \<le> b \<and> b < 0xE0 then
            (case r of b1 # r1 \<Rightarrow>
               if continuation b1 then Some ((b - 0xC0) * 64 + (b1 - 0x80), r1) else None
             | _ \<Rightarrow> None)
          else if 0xE0 \<le> b \<and> b < 0xF0 then
            (case r of b1 # b2 # r2 \<Rightarrow>
               let c = (b - 0xE0) * 4096 + (b1 - 0x80) * 64 + (b2 - 0x80)
               in if continuation b1 \<and> continuation b2 \<and> 0x800 \<le> c \<and> \<not> (0xD800 \<le> c \<and> c \<le> 0xDFFF)
                  then Some (c, r2) else None
             | _ \<Rightarrow> None)
          else if 0xF0 \<le> b \<and> b < 0xF5 then
            (case r of b1 # b2 # b3 # r3 \<Rightarrow>
               let c = (b - 0xF0) * 262144 + (b1 - 0x80) * 4096 + (b2 - 0x80) * 64 + (b3 - 0x80)
               in if continuation b1 \<and> continuation b2 \<and> continuation b3 \<and> 0x10000 \<le> c \<and> c \<le> 0x10FFFF
                  then Some (c, r3) else None
             | _ \<Rightarrow> None)
          else None)"

lemma decode_char_shorter: "decode_char bs = Some (c, r) \<Longrightarrow> length r < length bs"
  by (auto simp: decode_char_def Let_def split: list.splits if_splits)

function utf8_decode :: "nat list \<Rightarrow> pystr option" where
  "utf8_decode bs =
     (if bs = [] then Some []
      else case decode_char bs of None \<Rightarrow> None | Some (c, r) \<Rightarrow> map_option (\<lambda>s. c # s) (utf8_decode r))"
  by pat_completeness auto

termination utf8_decode
  by (relation "measure length") (auto dest: decode_char_shorter)

declare utf8_decode.simps [simp del]

lemma utf8_decode_Nil [simp]: "utf8_decode [] = Some []"
  by (simp add: utf8_decode.simps)

lemma utf8_decode_step: "decode_char bs = Some (c, r) \<Longrightarrow> utf8_decode bs = map_option (\<lambda>s. c # s) (utf8_decode r)"
  by (subst utf8_decode.simps) (auto simp: decode_char_def)

lemma base64_3: "(c::nat) div 4096 * 4096 + c div 64 mod 64 * 64 + c mod 64 = c"
proof -
  have "c div 64 = c div 64 div 64 * 64 + c div 64 mod 64" by (rule div_mult_mod_eq [symmetric])
  moreover have "c = c div 64 * 64 + c mod 64" by (rule div_mult_mod_eq [symmetric])
  moreover have "c div 64 div 64 = c div 4096" by (simp add: div_mult2_eq [symmetric])
  ultimately show ?thesis by linarith
qed

lemma base64_4: "(c::nat) div 262144 * 262144 + c div 4096 mod 64 * 4096 + c div 64 mod 64 * 64 + c mod 64 = c"
proof -
  have "c div 4096 = c div 4096 div 64 * 64 + c div 4096 mod 64" by (rule div_mult_mod_eq [symmetric])
  moreover have "c div 4096 div 64 = c div 262144" by (simp add: div_mult2_eq [symmetric])
  ultimately show ?thesis using base64_3 [of c] by linarith
qed

lemma decode_encoded_char:
  assumes "utf8_char c = Some bs" and "c \<le> 0x10FFFF"
  shows "decode_char (bs @ r) = Some (c, r)"
proof -
  have bounds: "c mod 64 < 64" "c div 64 mod 64 < 64" "c div 4096 mod 64 < 64" by simp_all
  consider "c < 0x80" | "0x80 \<le> c" "c < 0x800" | "0x800 \<le> c" "c < 0x10000" "\<not> (0xD800 \<le> c \<and> c \<le> 0xDFFF)"
    | "0x10000 \<le> c"
    using assms(1) by (cases "0xD800 \<le> c \<and> c \<le> 0xDFFF"; cases "c < 0x10000"; cases "c < 0x800"; cases "c < 0x80")
      (auto simp: utf8_char_def)
  then show ?thesis
  proof cases
    case 1
    then show ?thesis using assms(1) by (auto simp: utf8_char_def decode_char_def)
  next
    case 2
    then have "2 \<le> c div 64" "c div 64 < 32" by auto
    moreover have "c div 64 * 64 + c mod 64 = c" by (rule div_mult_mod_eq)
    ultimately show ?thesis
      using assms(1) 2 bounds by (auto simp: utf8_char_def decode_char_def continuation_def)
  next
    case 3
    then have "c div 4096 < 16" by auto
    with 3 base64_3 [of c] bounds assms(1) show ?thesis
      by (auto simp: utf8_char_def decode_char_def continuation_def Let_def split: if_splits)
  next
    case 4
    then have "c div 262144 < 5" using assms(2) by auto
    with 4 base64_4 [of c] bounds assms show ?thesis
      by (auto simp: utf8_char_def decode_char_def continuation_def Let_def split: if_splits)
  qed
qed

lemma utf8_roundtrip:
  "utf8_encode s = Some bs \<Longrightarrow> \<forall>c \<in> set s. c \<le> 0x10FFFF \<Longrightarrow> utf8_decode bs = Some s"
proof (induction s arbitrary: bs)
  case Nil
  then show ?case by simp
next
  case (Cons c s)
  from Cons.prems(1) obtain b bs' where b: "utf8_char c = Some b" and bs': "utf8_encode s = Some bs'"
    and bs: "bs = b @ bs'"
    by (auto split: option.splits)
  have "decode_char bs = Some (c, bs')"
    unfolding bs by (rule decode_encoded_char [OF b]) (use Cons.prems(2) in simp)
  with utf8_decode_step Cons.IH [OF bs'] Cons.prems(2) show ?case by simp
qed

section \<open>The cipher\<close>

record 'k fernet_lib =
  new_fernet :: "nat list \<Rightarrow> 'k res"
  fernet_encrypt :: "'k \<Rightarrow> nat \<Rightarrow> nat list \<Rightarrow> nat list"
  fernet_decrypt :: "'k \<Rightarrow> nat list \<Rightarrow> nat list res"

definition encode_res :: "pystr \<Rightarrow> nat list res" where
  "encode_res s = (case utf8_encode s of None \<Rightarrow> Inl unicode_encode_error | Some b \<Rightarrow> Inr b)"

definition decode_res :: "nat list \<Rightarrow> pystr res" where
  "decode_res b = (case utf8_decode b of
      None \<Rightarrow> Inl (ValueError (str ''codec can't decode byte'')) | Some s \<Rightarrow> Inr s)"

definition from_key_material :: "'k fernet_lib \<Rightarrow> pystr \<Rightarrow> 'k res" where
  "from_key_material F key_material =
     (case encode_res key_material of Inl exc \<Rightarrow> Inl exc | Inr b \<Rightarrow> new_fernet F b)"

text \<open>\<open>nonce\<close> stands for the time and the initialisation vector Fernet draws.\<close>

definition encrypt :: "'k fernet_lib \<Rightarrow> 'k \<Rightarrow> nat \<Rightarrow> pystr \<Rightarrow> pystr res" where
  "encrypt F key nonce value =
     (case encode_res value of Inl exc \<Rightarrow> Inl exc | Inr b \<Rightarrow> decode_res (fernet_encrypt F key nonce b))"

definition decrypt :: "'k fernet_lib \<Rightarrow> 'k \<Rightarrow> pystr \<Rightarrow> pystr res" where
  "decrypt F key encrypted_value =
     (case encode_res encrypted_value of
        Inl exc \<Rightarrow> Inl exc
      | Inr b \<Rightarrow> (case fernet_decrypt F key b of Inl exc \<Rightarrow> Inl exc | Inr v \<Rightarrow> decode_res v))"

text \<open>What the code relies on: tokens are ASCII and decrypt to what was encrypted.\<close>

definition fernet_laws :: "'k fernet_lib \<Rightarrow> bool" where
  "fernet_laws F \<longleftrightarrow>
     (\<forall>k n b. fernet_decrypt F k (fernet_encrypt F k n b) = Inr b \<and> (\<forall>c \<in> set (fernet_encrypt F k n b). c < 128))"

lemma ascii_decode: "\<forall>c \<in> set b. c < 128 \<Longrightarrow> utf8_decode b = Some b"
proof (induction b)
  case Nil
  then show ?case by simp
next
  case (Cons c b)
  then have "decode_char (c # b) = Some (c, b)" by (simp add: decode_char_def)
  with Cons utf8_decode_step show ?case by simp
qed

lemma ascii_encode_utf8: "\<forall>c \<in> set s. c < 128 \<Longrightarrow> utf8_encode s = Some s"
  by (induction s) (auto simp: utf8_char_def)

text \<open>
  Stored secrets come back: every text without lone surrogates encrypts, and decrypting the
  stored token with the same key gives exactly the text, for any Fernet that decrypts its own
  tokens.
\<close>

theorem secret_roundtrip:
  assumes "fernet_laws F" and "\<forall>c \<in> set secret. c \<le> 0x10FFFF \<and> \<not> (0xD800 \<le> c \<and> c \<le> 0xDFFF)"
  shows "\<exists>token. encrypt F key nonce secret = Inr token \<and> decrypt F key token = Inr secret"
proof -
  have "\<exists>b. utf8_encode secret = Some b"
    using assms(2) by (induction secret) (auto simp: utf8_char_def)
  then obtain b where b: "utf8_encode secret = Some b" by blast
  let ?t = "fernet_encrypt F key nonce b"
  have t: "fernet_decrypt F key ?t = Inr b" "\<forall>c \<in> set ?t. c < 128"
    using assms(1) by (simp_all add: fernet_laws_def)
  have "encrypt F key nonce secret = Inr ?t"
    using ascii_decode [OF t(2)] b by (simp add: encrypt_def encode_res_def decode_res_def)
  moreover have "decrypt F key ?t = Inr secret"
    using ascii_encode_utf8 [OF t(2)] t(1) utf8_roundtrip [OF b] assms(2)
    by (simp add: decrypt_def encode_res_def decode_res_def)
  ultimately show ?thesis by blast
qed

text \<open>A Fernet whose token writes every byte as that many letters and a separator.\<close>

definition unary_fernet :: "unit fernet_lib" where
  "unary_fernet = \<lparr>new_fernet = (\<lambda>_. Inr ()),
     fernet_encrypt = (\<lambda>_ _ b. concat (map (\<lambda>n. replicate n 97 @ [46]) b)),
     fernet_decrypt = (\<lambda>_ t. Inr (map length (butlast (split_on (\<lambda>c. c = 46) t))))\<rparr>"

lemma unary_split:
  "split_on (\<lambda>c. c = 46) (concat (map (\<lambda>n. replicate n 97 @ [46]) b)) = map (\<lambda>n. replicate n 97) b @ [[]]"
  by (induction b) (simp_all add: split_on_append_sep)

lemma unary_laws: "fernet_laws unary_fernet"
  by (auto simp: fernet_laws_def unary_fernet_def unary_split comp_def)

theorem secret_roundtrip_witness:
  "\<exists>token. encrypt unary_fernet () 0 ([0x5BC6, 0x7801] @ str ''!'') = Inr token
     \<and> decrypt unary_fernet () token = Inr ([0x5BC6, 0x7801] @ str ''!'')"
  by (rule secret_roundtrip [OF unary_laws]) (simp add: str_def)

end
