(* ===== verification/Execution_Service.thy ===== *)
theory Execution_Service
  imports Execution_Lock Executor Crypto
begin

text \<open>
  \<open>app/execution_service.py\<close>: what happens when a rule is run. The database session and the
  surroundings are those of \<open>Store\<close>; \<open>service_env\<close> adds the libraries the service builds its
  clients from. The state dictionary that the suppression filter shares with its creator is a
  second component of the executor's state.
\<close>

section \<open>Surroundings\<close>

text \<open>\<open>smtplib\<close>: connecting, with or without TLS from the start, the upgrade and the login.\<close>

record ('w, 'c) smtplib =
  smtp_ssl_connect :: "pystr \<Rightarrow> int \<Rightarrow> int \<Rightarrow> ('w, 'c) eff"
  smtp_connect :: "pystr \<Rightarrow> int \<Rightarrow> int \<Rightarrow> ('w, 'c) eff"
  smtp_starttls :: "'c \<Rightarrow> ('w, unit) eff"
  smtp_login :: "'c \<Rightarrow> pystr \<Rightarrow> pystr \<Rightarrow> ('w, unit) eff"
  smtp_transport :: "('w, 'c) smtp_env"

record ('t, 'n, 'c, 'k) service_env =
  surroundings :: env
  sqlglot_lib :: "('t, 'n) sqlglot"
  odbc_driver_lib :: "world pyodbc_env"
  odbc_available :: bool
  smtp_library :: "(world, 'c) smtplib"
  jinja_lib :: jinja
  fernet :: "'k fernet_lib"
  secret_key :: pystr
  rule_execution_lease_seconds :: int

definition RULE_EXECUTION_FAILURE :: pystr where
  "RULE_EXECUTION_FAILURE = [0x89C4, 0x5219, 0x6267, 0x884C, 0x5931, 0x8D25, 0xFF0C, 0x8BF7, 0x68C0, 0x67E5, 0x6570, 0x636E, 0x6E90, 0x548C, 0x0020, 0x0053, 0x004D, 0x0054, 0x0050, 0x0020, 0x914D, 0x7F6E]"

text \<open>The keys a run let through and the keys it suppressed.\<close>

record suppression_state =
  new_keys :: "pystr list"
  suppressed_keys :: "pystr list"
  state_now :: datetime

record execution_attempt =
  at_result :: execution_result
  at_suppression :: "suppression_state option"

section \<open>Building the clients\<close>

definition decrypt_secret :: "('t, 'n, 'c, 'k) service_env \<Rightarrow> pystr \<Rightarrow> pystr res" where
  "decrypt_secret S encrypted_value =
     (case from_key_material (fernet S) (secret_key S) of
        Inl exc \<Rightarrow> Inl exc
      | Inr key \<Rightarrow> decrypt (fernet S) key encrypted_value)"

definition build_sql_client :: "('t, 'n, 'c, 'k) service_env \<Rightarrow> sql_data_source \<Rightarrow> connection_params res" where
  "build_sql_client S ds =
     (case decrypt_secret S (ds_encrypted_password ds) of
        Inl exc \<Rightarrow> Inl exc
      | Inr password \<Rightarrow>
          Inr \<lparr>cp_host = ds_host ds, cp_port = ds_port ds, cp_database = ds_database ds,
               cp_username = ds_username ds, cp_password = password,
               cp_connect_timeout_seconds = ds_connect_timeout_seconds ds,
               cp_odbc_driver = ds_odbc_driver ds, cp_server_override = ds_server_override ds,
               cp_encrypt = ds_encrypt ds, cp_trust_server_certificate = ds_trust_server_certificate ds,
               cp_extra_params = ds_extra_params ds\<rparr>)"

definition smtp_client_factory :: "('w, 'c) smtplib \<Rightarrow> smtp_config \<Rightarrow> pystr \<Rightarrow> ('w, 'c) eff" where
  "smtp_client_factory L config password =
     ebind
       (if sc_use_ssl config then
          smtp_ssl_connect L (sc_host config) (sc_port config) (sc_timeout_seconds config)
        else
          ebind (smtp_connect L (sc_host config) (sc_port config) (sc_timeout_seconds config)) (\<lambda>client.
          if sc_use_tls config then ebind (smtp_starttls L client) (\<lambda>_. ereturn client)
          else ereturn client))
       (\<lambda>client. ebind (smtp_login L client (sc_username config) password) (\<lambda>_. ereturn client))"

definition build_smtp_mailer ::
  "('t, 'n, 'c, 'k) service_env \<Rightarrow> smtp_config \<Rightarrow> (email_message \<Rightarrow> (world, mail_send_result) eff) res" where
  "build_smtp_mailer S config =
     (case decrypt_secret S (sc_encrypted_password config) of
        Inl exc \<Rightarrow> Inl exc
      | Inr password \<Rightarrow>
          Inr (send_mail ((smtp_transport (smtp_library S))
                 \<lparr>client_factory := smtp_client_factory (smtp_library S) config password\<rparr>) (sc_sender config)))"

section \<open>The rows of the configuration\<close>

definition get_enabled_data_source :: "env \<Rightarrow> alert_rule \<Rightarrow> (world, sql_data_source) eff" where
  "get_enabled_data_source E rule =
     ebind (db_query E (\<lambda>d. db_get ds_id (ar_data_source_id rule) (data_sources d))) (\<lambda>found.
       case found of
         None \<Rightarrow> eraise (ConfigurationError ([0x89C4, 0x5219, 0x5173, 0x8054, 0x7684, 0x6570, 0x636E, 0x6E90, 0x4E0D, 0x5B58, 0x5728]))
       | Some ds \<Rightarrow>
           if ds_enabled ds then ereturn ds
           else eraise (ConfigurationError ([0x89C4, 0x5219, 0x5173, 0x8054, 0x7684, 0x6570, 0x636E, 0x6E90, 0x5DF2, 0x7981, 0x7528])))"

definition get_enabled_smtp_config :: "env \<Rightarrow> (world, smtp_config) eff" where
  "get_enabled_smtp_config E =
     ebind (db_query E (\<lambda>d. take 2 (filter sc_enabled (smtp_configs d)))) (\<lambda>configs.
       if configs = [] then eraise (ConfigurationError ([0x672A, 0x914D, 0x7F6E, 0x53EF, 0x7528, 0x7684, 0x0020, 0x0053, 0x004D, 0x0054, 0x0050, 0x0020, 0x670D, 0x52A1]))
       else if 1 < length configs then eraise (ConfigurationError ([0x542F, 0x7528, 0x7684, 0x0020, 0x0053, 0x004D, 0x0054, 0x0050, 0x0020, 0x914D, 0x7F6E, 0x51B2, 0x7A81]))
       else ereturn (hd configs))"

section \<open>Suppression of duplicates\<close>

definition row_suppression_key :: "row \<Rightarrow> pystr \<Rightarrow> pystr" where
  "row_suppression_key row field_name =
     (case map_of row field_name of
        None \<Rightarrow> [] | Some CNone \<Rightarrow> [] | Some v \<Rightarrow> strip (cell_str v))"

definition matches_key :: "alert_rule \<Rightarrow> pystr \<Rightarrow> alert_suppression \<Rightarrow> bool" where
  "matches_key rule key s \<longleftrightarrow> Some (as_rule_id s) = ar_id rule \<and> as_suppression_key s = key"

definition get_suppression_record :: "env \<Rightarrow> alert_rule \<Rightarrow> pystr \<Rightarrow> (world, alert_suppression option) eff" where
  "get_suppression_record E rule key = db_query E (\<lambda>d. find (matches_key rule key) (suppressions d))"

definition on_world :: "(world, 'a) eff \<Rightarrow> (world \<times> 's, 'a) eff" where
  "on_world m = (\<lambda>(w, s). case m w of (r, w') \<Rightarrow> (r, (w', s)))"

text \<open>The filter: \<open>seen_in_run\<close> holds exactly the new keys, so both are one list here.\<close>

fun filter_rows :: "env \<Rightarrow> alert_rule \<Rightarrow> datetime \<Rightarrow> row list \<Rightarrow> (world \<times> suppression_state, row list) eff" where
  "filter_rows E rule cutoff [] = ereturn []"
| "filter_rows E rule cutoff (row # rows) =
     (let key = row_suppression_key row (ar_suppression_key_field rule)
      in if key = [] then ebind (filter_rows E rule cutoff rows) (\<lambda>rest. ereturn (row # rest))
         else
           ebind (on_world (get_suppression_record E rule key)) (\<lambda>suppression (w, st).
             if key \<in> set (new_keys st)
                \<or> (case suppression of Some s \<Rightarrow> cutoff \<le> as_last_seen_at s | None \<Rightarrow> False)
             then filter_rows E rule cutoff rows (w, st\<lparr>suppressed_keys := suppressed_keys st @ [key]\<rparr>)
             else ebind (filter_rows E rule cutoff rows) (\<lambda>rest. ereturn (row # rest))
                    (w, st\<lparr>new_keys := new_keys st @ [key]\<rparr>)))"

text \<open>The cutoff raises \<open>OverflowError\<close> when the window is out of range of \<open>timedelta\<close> or \<open>datetime\<close>.\<close>

definition build_suppression_filter :: "env \<Rightarrow> alert_rule \<Rightarrow> (world, (datetime \<times> suppression_state) option) eff" where
  "build_suppression_filter E rule =
     (if \<not> ar_suppress_duplicates rule \<or> ar_suppression_key_field rule = [] then ereturn None
      else
        ebind (utc_now E) (\<lambda>now.
        ebind (elift (timedelta_hours (ar_suppression_window_hours rule))) (\<lambda>window.
        ebind (elift (datetime_in_range (now - window))) (\<lambda>cutoff.
        ereturn (Some (cutoff, \<lparr>new_keys = [], suppressed_keys = [], state_now = now\<rparr>))))))"

definition note_suppression :: "env \<Rightarrow> alert_rule \<Rightarrow> datetime \<Rightarrow> pystr \<Rightarrow> db \<Rightarrow> db" where
  "note_suppression E rule now key d =
     (if list_ex (matches_key rule key) (suppressions d) then
        d\<lparr>suppressions := update_first (matches_key rule key)
             (\<lambda>s. s\<lparr>as_last_seen_at := now, as_hit_count := as_hit_count s + 1\<rparr>) (suppressions d)\<rparr>
      else
        d\<lparr>suppressions := suppressions d @
             [\<lparr>as_id = Some (assign_id E (map as_id (suppressions d))), as_rule_id = the (ar_id rule),
               as_suppression_key = key, as_first_seen_at = now, as_last_seen_at = now, as_hit_count = 1\<rparr>]\<rparr>)"

definition persist_suppression_state :: "env \<Rightarrow> alert_rule \<Rightarrow> suppression_state \<Rightarrow> (world, unit) eff" where
  "persist_suppression_state E rule st =
     efor (new_keys st @ suppressed_keys st) (\<lambda>key.
       ebind (get_suppression_record E rule key) (\<lambda>_.
       db_exec E (\<lambda>d. ((), note_suppression E rule (state_now st) key d))))"

section \<open>Retrying\<close>

definition retryable_sqlstates :: "pystr list" where
  "retryable_sqlstates = [str ''40001'', str ''HYT00'', str ''HYT01'']"

definition retryable_error_types :: "pystr list" where
  "retryable_error_types = [str ''ConnectionError'', str ''MailSendError'', str ''OSError'',
     str ''RuntimeError'', str ''TimeoutError'']"

definition is_retryable_result :: "execution_result \<Rightarrow> bool" where
  "is_retryable_result result =
     (if er_status result \<noteq> FAILED then False
      else if er_sqlstate result \<noteq> [] then
        startswith (er_sqlstate result) (str ''08'') \<or> er_sqlstate result \<in> set retryable_sqlstates
      else er_error_type result \<in> set retryable_error_types)"

definition with_exhausted_retry_message :: "execution_result \<Rightarrow> int \<Rightarrow> execution_result" where
  "with_exhausted_retry_message result attempts_used =
     (let retry_count = attempts_used - 1
      in if retry_count \<le> 0 \<or> \<not> is_retryable_result result then result
         else let message =
                (case er_error_message result of
                   Some m \<Rightarrow> if m \<noteq> [] then m
                     else if er_error_type result \<noteq> [] then er_error_type result else [0x89C4, 0x5219, 0x6267, 0x884C, 0x5931, 0x8D25]
                 | None \<Rightarrow> if er_error_type result \<noteq> [] then er_error_type result else [0x89C4, 0x5219, 0x6267, 0x884C, 0x5931, 0x8D25])
              in result\<lparr>er_error_message :=
                   Some (message @ [0xFF08, 0x5DF2, 0x91CD, 0x8BD5, 0x0020] @ int_str retry_count @ [0x0020, 0x6B21, 0xFF09])\<rparr>)"

section \<open>One attempt\<close>

definition attempt_env ::
  "('t, 'n, 'c, 'k) service_env \<Rightarrow> connection_params \<Rightarrow> (email_message \<Rightarrow> (world, mail_send_result) eff)
     \<Rightarrow> (world \<times> 's) executor_env" where
  "attempt_env S p send =
     \<lparr>validate_sql = validate_select_only_sql (sqlglot_lib S),
      client_query = (\<lambda>sql t n. on_world (query (sqlglot_lib S) (odbc_driver_lib S) p sql t n)),
      mailer_send = (\<lambda>m. on_world (send m)), jinja_render = jinja_lib S, pyodbc_available = odbc_available S\<rparr>"

definition run_executor ::
  "('t, 'n, 'c, 'k) service_env \<Rightarrow> alert_rule \<Rightarrow> (datetime \<times> suppression_state) option \<Rightarrow> connection_params
     \<Rightarrow> (email_message \<Rightarrow> (world, mail_send_result) eff) \<Rightarrow> (world, execution_attempt) eff" where
  "run_executor S rule supp p send w =
     (case supp of
        None \<Rightarrow>
          (case execute (attempt_env S p send) rule None (w, ()) of
             (Inl exc, (w', _)) \<Rightarrow> (Inl exc, w')
           | (Inr result, (w', _)) \<Rightarrow> (Inr \<lparr>at_result = result, at_suppression = None\<rparr>, w'))
      | Some (cutoff, st) \<Rightarrow>
          (case execute (attempt_env S p send) rule
                  (Some (filter_rows (surroundings S) rule cutoff)) (w, st) of
             (Inl exc, (w', _)) \<Rightarrow> (Inl exc, w')
           | (Inr result, (w', st')) \<Rightarrow> (Inr \<lparr>at_result = result, at_suppression = Some st'\<rparr>, w')))"

definition execute_rule_once :: "('t, 'n, 'c, 'k) service_env \<Rightarrow> alert_rule \<Rightarrow> (world, execution_attempt) eff" where
  "execute_rule_once S rule =
     ecatch
       (ebind (get_enabled_data_source (surroundings S) rule) (\<lambda>data_source.
        ebind (get_enabled_smtp_config (surroundings S)) (\<lambda>config.
        ebind (build_suppression_filter (surroundings S) rule) (\<lambda>supp.
        ebind (elift (build_sql_client S data_source)) (\<lambda>p.
        ebind (elift (build_smtp_mailer S config)) (\<lambda>send.
        run_executor S rule supp p send))))))
       (\<lambda>exc. ereturn
          (case exc of
             ConfigurationError m \<Rightarrow>
               \<lparr>at_result = failed_result (str ''ConfigurationError'') m, at_suppression = None\<rparr>
           | _ \<Rightarrow>
               \<lparr>at_result = failed_result (exn_name exc) (public_error_summary exc RULE_EXECUTION_FAILURE),
                at_suppression = None\<rparr>))"

section \<open>The whole execution\<close>

definition sleep_for :: "real \<Rightarrow> (world, unit) eff" where
  "sleep_for seconds w = (Inr (), w\<lparr>sleeps := sleeps w @ [seconds]\<rparr>)"

text \<open>The loop over the attempts; \<open>attempts_used\<close> counts those already made. With no attempt left
  the result of the code is still \<open>None\<close>.\<close>

fun run_attempts ::
  "('t, 'n, 'c, 'k) service_env \<Rightarrow> alert_rule \<Rightarrow> real \<Rightarrow> nat \<Rightarrow> int
     \<Rightarrow> (world, execution_attempt option \<times> int) eff" where
  "run_attempts S rule retry_delay_seconds 0 attempts_used = ereturn (None, attempts_used)"
| "run_attempts S rule retry_delay_seconds (Suc left) attempts_used =
     ebind (execute_rule_once S rule) (\<lambda>attempt.
       if \<not> is_retryable_result (at_result attempt) \<or> left = 0
       then ereturn (Some attempt, attempts_used + 1)
       else ebind (if 0 < retry_delay_seconds then sleep_for retry_delay_seconds else ereturn ())
              (\<lambda>_. run_attempts S rule retry_delay_seconds left (attempts_used + 1)))"

definition duration_ms :: "datetime \<Rightarrow> datetime \<Rightarrow> int" where
  "duration_ms started_at finished_at = max 0 ((finished_at - started_at) div 1000)"

definition build_execution_log ::
  "alert_rule \<Rightarrow> trigger_type \<Rightarrow> execution_result \<Rightarrow> datetime \<Rightarrow> datetime \<Rightarrow> int \<Rightarrow> execution_log" where
  "build_execution_log rule trigger result started_at finished_at log_id =
     \<lparr>el_id = Some log_id, el_rule_id = the (ar_id rule), el_trigger_type = trigger, el_status = er_status result,
      el_started_at = started_at, el_finished_at = Some finished_at, el_row_count = er_row_count result,
      el_email_count = email_count result, el_duration_ms = duration_ms started_at finished_at,
      el_error_type = er_error_type result,
      el_error_message = (case er_error_message result of Some m \<Rightarrow> m | None \<Rightarrow> [])\<rparr>"

definition build_mail_log :: "int \<Rightarrow> execution_mail_result \<Rightarrow> int \<Rightarrow> datetime \<Rightarrow> mail_log" where
  "build_mail_log execution_log_id mr mail_id now =
     (let (st, message) =
        (if success (mr_result mr) then (MailSUCCESS, [])
         else if partial_success (mr_result mr) then (MailPARTIAL_FAILED, SMTP_PARTIAL_FAILURE)
         else (MailFAILED, SMTP_SEND_FAILURE))
      in \<lparr>ml_id = Some mail_id, ml_execution_log_id = execution_log_id,
          ml_recipients = join [44] (recipients (mr_message mr)),
          ml_cc_recipients = join [44] (cc_recipients (mr_message mr)), ml_subject = subject (mr_message mr),
          ml_status = st, ml_error_message = message, ml_sent_at = now\<rparr>)"

definition add_execution_log ::
  "env \<Rightarrow> alert_rule \<Rightarrow> trigger_type \<Rightarrow> execution_result \<Rightarrow> datetime \<Rightarrow> datetime \<Rightarrow> (world, execution_log) eff" where
  "add_execution_log E rule trigger result started_at finished_at =
     db_exec E (\<lambda>d.
       let log = build_execution_log rule trigger result started_at finished_at
                   (assign_id E (map el_id (execution_logs d)))
       in (log, d\<lparr>execution_logs := execution_logs d @ [log]\<rparr>))"

definition add_mail_log :: "env \<Rightarrow> int \<Rightarrow> execution_mail_result \<Rightarrow> (world, unit) eff" where
  "add_mail_log E log_id mr =
     ebind (utc_now E) (\<lambda>now.
       db_exec E (\<lambda>d. ((), d\<lparr>mail_logs := mail_logs d @
         [build_mail_log log_id mr (assign_id E (map ml_id (mail_logs d))) now]\<rparr>)))"

text \<open>The refresh after the commit is a query that may still raise.\<close>

definition persist_execution_result ::
  "env \<Rightarrow> alert_rule \<Rightarrow> trigger_type \<Rightarrow> execution_result \<Rightarrow> suppression_state option \<Rightarrow> datetime \<Rightarrow> datetime
     \<Rightarrow> (world, execution_log) eff" where
  "persist_execution_result E rule trigger result supp started_at finished_at =
     rollback_on_error E
       (ebind (case supp of
                 Some st \<Rightarrow> if er_status result = SUCCESS then persist_suppression_state E rule st else ereturn ()
               | None \<Rightarrow> ereturn ()) (\<lambda>_.
        ebind (add_execution_log E rule trigger result started_at finished_at) (\<lambda>log.
        ebind (efor (er_mail_results result) (add_mail_log E (the (el_id log)))) (\<lambda>_.
        ebind (db_commit E) (\<lambda>_.
        ebind (db_query E (\<lambda>_. ())) (\<lambda>_. ereturn log))))))"

text \<open>The body that runs under the lease.\<close>

definition execution_body ::
  "('t, 'n, 'c, 'k) service_env \<Rightarrow> alert_rule \<Rightarrow> trigger_type \<Rightarrow> int \<Rightarrow> real \<Rightarrow> (world, execution_log) eff" where
  "execution_body S rule trigger max_attempts d =
     ebind (utc_now (surroundings S)) (\<lambda>started_at.
     ebind (run_attempts S rule d (nat (max 1 max_attempts)) 0) (\<lambda>(last_attempt, used).
     let result = (case last_attempt of
                     Some a \<Rightarrow> at_result a
                   | None \<Rightarrow> failed_result (str ''RuntimeError'') ([0x89C4, 0x5219, 0x6267, 0x884C, 0x5931, 0x8D25]));
         supp = (case last_attempt of Some a \<Rightarrow> at_suppression a | None \<Rightarrow> None)
     in ebind (utc_now (surroundings S)) (\<lambda>finished_at.
          persist_execution_result (surroundings S) rule trigger (with_exhausted_retry_message result used) supp
            started_at finished_at)))"

definition execute_rule_by_id ::
  "('t, 'n, 'c, 'k) service_env \<Rightarrow> int \<Rightarrow> trigger_type \<Rightarrow> int \<Rightarrow> real \<Rightarrow> (world, execution_log) eff" where
  "execute_rule_by_id S rule_id trigger max_attempts retry_delay_seconds =
     ebind (db_query (surroundings S) (\<lambda>d. db_get ar_id rule_id (alert_rules d))) (\<lambda>found.
       case found of
         None \<Rightarrow> eraise (RuleNotFoundError (str ''rule '' @ int_str rule_id @ str '' not found''))
       | Some rule \<Rightarrow>
           if ar_archived_at rule \<noteq> None
           then eraise (RuleNotFoundError (str ''rule '' @ int_str rule_id @ str '' not found''))
           else rule_execution_lease (surroundings S) rule_id (rule_execution_lease_seconds S)
                  (execution_body S rule trigger max_attempts retry_delay_seconds))"

section \<open>Persistence\<close>

definition mail_status_of :: "execution_mail_result \<Rightarrow> mail_status" where
  "mail_status_of mr =
     (if success (mr_result mr) then MailSUCCESS
      else if partial_success (mr_result mr) then MailPARTIAL_FAILED else MailFAILED)"

text \<open>A mail log that records a mail result under an execution log.\<close>

definition records_mail :: "int \<Rightarrow> execution_mail_result \<Rightarrow> mail_log \<Rightarrow> bool" where
  "records_mail log_id mr ml \<longleftrightarrow>
     ml_execution_log_id ml = log_id \<and> ml_status ml = mail_status_of mr
     \<and> ml_recipients ml = join [44] (recipients (mr_message mr))
     \<and> ml_cc_recipients ml = join [44] (cc_recipients (mr_message mr))
     \<and> ml_subject ml = subject (mr_message mr)"

lemma build_mail_log_records: "records_mail log_id mr (build_mail_log log_id mr i now)"
  by (simp add: records_mail_def build_mail_log_def mail_status_of_def)

lemma add_mail_log_Inr:
  assumes "add_mail_log E log_id mr w = (Inr (), w')"
  shows "\<exists>ml. records_mail log_id mr ml \<and> committed w' = committed w
    \<and> working w' = (working w)\<lparr>mail_logs := mail_logs (working w) @ [ml]\<rparr>"
  using assms
  by (auto simp: add_mail_log_def ebind_Inr db_exec_Inr utc_now_def intro: build_mail_log_records)

lemma add_mail_logs_Inr:
  "efor mrs (add_mail_log E log_id) w = (Inr (), w') \<Longrightarrow>
   \<exists>mls. list_all2 (records_mail log_id) mrs mls \<and> committed w' = committed w
     \<and> working w' = (working w)\<lparr>mail_logs := mail_logs (working w) @ mls\<rparr>"
proof (induction mrs arbitrary: w)
  case Nil
  then show ?case by simp
next
  case (Cons mr mrs)
  then obtain w1 where 1: "add_mail_log E log_id mr w = (Inr (), w1)"
    and 2: "efor mrs (add_mail_log E log_id) w1 = (Inr (), w')"
    by (auto simp: ebind_Inr)
  from add_mail_log_Inr [OF 1] Cons.IH [OF 2] obtain ml mls where
    "records_mail log_id mr ml" "list_all2 (records_mail log_id) mrs mls"
    "committed w' = committed w"
    "working w' = (working w)\<lparr>mail_logs := mail_logs (working w) @ ml # mls\<rparr>"
    by auto
  then show ?case by (intro exI [of _ "ml # mls"]) simp
qed

text \<open>Noting a run's keys in the suppression table changes no other table.\<close>

definition note_keys :: "env \<Rightarrow> alert_rule \<Rightarrow> suppression_state \<Rightarrow> db \<Rightarrow> db" where
  "note_keys E rule st d = fold (note_suppression E rule (state_now st)) (new_keys st @ suppressed_keys st) d"

lemma efor_note_Inr:
  "efor keys (\<lambda>key. ebind (get_suppression_record E rule key) (\<lambda>_.
       db_exec E (\<lambda>d. ((), note_suppression E rule now key d)))) w = (Inr (), w') \<Longrightarrow>
   committed w' = committed w \<and> working w' = fold (note_suppression E rule now) keys (working w)"
  by (induction keys arbitrary: w)
    (force simp: ebind_Inr get_suppression_record_def db_query_Inr db_exec_Inr)+

lemma persist_suppression_Inr:
  "persist_suppression_state E rule st w = (Inr (), w') \<Longrightarrow>
   committed w' = committed w \<and> working w' = note_keys E rule st (working w)"
  unfolding persist_suppression_state_def note_keys_def by (rule efor_note_Inr)

lemma note_suppression_frame:
  "execution_logs (note_suppression E rule now k d) = execution_logs d"
  "mail_logs (note_suppression E rule now k d) = mail_logs d"
  "leases (note_suppression E rule now k d) = leases d"
  "alert_rules (note_suppression E rule now k d) = alert_rules d"
  by (simp_all add: note_suppression_def)

lemma note_keys_frame:
  "execution_logs (note_keys E rule st d) = execution_logs d" "mail_logs (note_keys E rule st d) = mail_logs d"
proof -
  have "execution_logs (fold (note_suppression E rule now) ks d) = execution_logs d
      \<and> mail_logs (fold (note_suppression E rule now) ks d) = mail_logs d" for now ks d
    by (induction ks arbitrary: d) (simp_all add: note_suppression_frame)
  then show "execution_logs (note_keys E rule st d) = execution_logs d"
    "mail_logs (note_keys E rule st d) = mail_logs d"
    unfolding note_keys_def by blast+
qed

lemma note_keys_leases: "leases (note_keys E rule st d) = leases d"
proof -
  have "leases (fold (note_suppression E rule now) ks d) = leases d" for now ks d
    by (induction ks arbitrary: d) (simp_all add: note_suppression_frame)
  then show ?thesis unfolding note_keys_def by blast
qed

text \<open>The database after the writes of \<open>persist_execution_result\<close>.\<close>

definition persisted ::
  "env \<Rightarrow> alert_rule \<Rightarrow> trigger_type \<Rightarrow> execution_result \<Rightarrow> suppression_state option \<Rightarrow> datetime \<Rightarrow> datetime
     \<Rightarrow> db \<Rightarrow> db \<Rightarrow> execution_log \<Rightarrow> bool" where
  "persisted E rule trigger result supp started finished d d' lg \<longleftrightarrow>
     (\<exists>mls. let d1 = (case supp of Some st \<Rightarrow> if er_status result = SUCCESS then note_keys E rule st d else d
                                 | None \<Rightarrow> d)
            in lg = build_execution_log rule trigger result started finished
                       (assign_id E (map el_id (execution_logs d)))
             \<and> list_all2 (records_mail (the (el_id lg))) (er_mail_results result) mls
             \<and> d' = d1\<lparr>execution_logs := execution_logs d @ [lg], mail_logs := mail_logs d @ mls\<rparr>)"

definition write_result ::
  "env \<Rightarrow> alert_rule \<Rightarrow> trigger_type \<Rightarrow> execution_result \<Rightarrow> suppression_state option \<Rightarrow> datetime \<Rightarrow> datetime
     \<Rightarrow> (world, execution_log) eff" where
  "write_result E rule trigger result supp started_at finished_at =
     ebind (case supp of
                 Some st \<Rightarrow> if er_status result = SUCCESS then persist_suppression_state E rule st else ereturn ()
               | None \<Rightarrow> ereturn ()) (\<lambda>_.
     ebind (add_execution_log E rule trigger result started_at finished_at) (\<lambda>lg.
     ebind (efor (er_mail_results result) (add_mail_log E (the (el_id lg)))) (\<lambda>_. ereturn lg)))"

lemma ebind_assoc: "ebind (ebind m f) g w = ebind m (\<lambda>x. ebind (f x) g) w"
  by (auto simp: ebind_def split: prod.splits sum.splits)

lemma persist_write:
  "persist_execution_result E rule trigger result supp s f =
     rollback_on_error E (ebind (write_result E rule trigger result supp s f) (\<lambda>lg.
       ebind (db_commit E) (\<lambda>_. ebind (db_query E (\<lambda>_. ())) (\<lambda>_. ereturn lg))))"
  by (rule ext) (simp add: persist_execution_result_def write_result_def ebind_assoc rollback_on_error_def
      ecatch_def ebind_def cong: if_cong split: prod.splits sum.splits option.splits)

lemma supp_step_Inr:
  assumes "(case supp of
                 Some st \<Rightarrow> if er_status result = SUCCESS then persist_suppression_state E rule st else ereturn ()
               | None \<Rightarrow> ereturn ()) w = (Inr u, w')"
  shows "committed w' = committed w \<and> working w' =
     (case supp of Some st \<Rightarrow> if er_status result = SUCCESS then note_keys E rule st (working w) else working w
                 | None \<Rightarrow> working w)"
  using assms persist_suppression_Inr by (cases supp) (auto split: if_splits)

lemma write_result_Inr:
  assumes "write_result E rule trigger result supp s f w = (Inr lg, w')"
  shows "committed w' = committed w \<and> persisted E rule trigger result supp s f (working w) (working w') lg"
proof -
  from assms obtain w1 w2 where
    1: "(case supp of Some st \<Rightarrow> if er_status result = SUCCESS then persist_suppression_state E rule st else ereturn ()
               | None \<Rightarrow> ereturn ()) w = (Inr (), w1)"
    and 2: "add_execution_log E rule trigger result s f w1 = (Inr lg, w2)"
    and 3: "efor (er_mail_results result) (add_mail_log E (the (el_id lg))) w2 = (Inr (), w')"
    unfolding write_result_def ebind_Inr by auto
  note w1 = supp_step_Inr [OF 1]
  from w1 have logs: "execution_logs (working w1) = execution_logs (working w)"
    "mail_logs (working w1) = mail_logs (working w)"
    by (auto simp: note_keys_frame split: option.splits)
  from 2 have w2: "committed w2 = committed w1"
    "lg = build_execution_log rule trigger result s f (assign_id E (map el_id (execution_logs (working w1))))"
    "working w2 = (working w1)\<lparr>execution_logs := execution_logs (working w1) @ [lg]\<rparr>"
    by (auto simp: add_execution_log_def db_exec_Inr Let_def)
  from add_mail_logs_Inr [OF 3] obtain mls where
    "list_all2 (records_mail (the (el_id lg))) (er_mail_results result) mls" "committed w' = committed w2"
    "working w' = (working w2)\<lparr>mail_logs := mail_logs (working w2) @ mls\<rparr>" by blast
  with w1 w2 logs show ?thesis
    by (auto simp: persisted_def Let_def intro!: exI [of _ mls])
qed

lemma write_result_keeps: "preserves keeps_committed (write_result E rule trigger result supp s f)"
  unfolding write_result_def persist_suppression_state_def get_suppression_record_def add_execution_log_def
    add_mail_log_def
  by (cases supp) (auto intro!: keeps_committed_intros)

lemma persist_result:
  assumes "committed w = working w" and "persist_execution_result E rule trigger result supp s f w = (r, w')"
  shows "(case r of Inr lg \<Rightarrow> persisted E rule trigger result supp s f (committed w) (committed w') lg
                  | Inl exc \<Rightarrow> committed w' = committed w
                      \<or> (\<exists>lg. persisted E rule trigger result supp s f (committed w) (committed w') lg))
    \<and> working w' = committed w'"
proof -
  obtain a w1 where a: "write_result E rule trigger result supp s f w = (a, w1)"
    by (cases "write_result E rule trigger result supp s f w")
  show ?thesis
  proof (cases a)
    case (Inl exc)
    with a have "committed w1 = committed w"
      using preserves_committedD [OF write_result_keeps, of E rule trigger result supp s f w] by simp
    with Inl a assms show ?thesis
      unfolding persist_write rollback_on_error_def eff_defs
      by (cases "fault E (ticks w1)") (auto simp: db_rollback_def)
  next
    case (Inr lg)
    note w1 = write_result_Inr [OF a [unfolded Inr]]
    show ?thesis
    proof (cases "fault E (ticks w1)")
      case (Some exc)
      with Inr a assms w1 show ?thesis
        unfolding persist_write rollback_on_error_def eff_defs
        by (cases "fault E (Suc (ticks w1))") (auto simp: db_rollback_def db_commit_def)
    next
      case None
      with Inr a assms w1 show ?thesis
        unfolding persist_write rollback_on_error_def eff_defs
        by (cases "fault E (Suc (ticks w1))"; cases "fault E (Suc (Suc (ticks w1)))")
          (auto simp: db_rollback_def db_commit_def db_query_def db_exec_def)
    qed
  qed
qed

end
