(* ===== verification/Suppression.thy ===== *)
theory Suppression
  imports Execution_Service
begin

text \<open>
  What the suppression of duplicate alerts promises: the filter of \<open>_build_suppression_filter\<close> is
  refined to a pure function of the rows and of the keys seen recently, and the persisted state of
  a successful run makes those keys recent for the next one.
\<close>

section \<open>The abstract filter\<close>

text \<open>The keys in order of first occurrence, without the empty key and the recent ones.\<close>

definition first_occurrences :: "'a list \<Rightarrow> 'a list" where
  "first_occurrences xs = rev (remdups (rev xs))"

lemma first_occurrences_snoc:
  "first_occurrences (xs @ [x]) = (if x \<in> set xs then first_occurrences xs else first_occurrences xs @ [x])"
  by (simp add: first_occurrences_def)

lemma set_first_occurrences [simp]: "set (first_occurrences xs) = set xs"
  by (simp add: first_occurrences_def)

lemma distinct_first_occurrences [simp]: "distinct (first_occurrences xs)"
  by (simp add: first_occurrences_def)

text \<open>The pure filter: \<open>recent\<close> tells which keys have a record inside the window.\<close>

fun suppress ::
  "(pystr \<Rightarrow> bool) \<Rightarrow> (row \<Rightarrow> pystr) \<Rightarrow> pystr list \<Rightarrow> row list \<Rightarrow> row list \<times> pystr list \<times> pystr list" where
  "suppress recent key_of seen [] = ([], seen, [])"
| "suppress recent key_of seen (row # rows) =
     (let key = key_of row
      in if key = [] then (case suppress recent key_of seen rows of (kept, n, s) \<Rightarrow> (row # kept, n, s))
         else if key \<in> set seen \<or> recent key
           then (case suppress recent key_of seen rows of (kept, n, s) \<Rightarrow> (kept, n, key # s))
         else (case suppress recent key_of (seen @ [key]) rows of (kept, n, s) \<Rightarrow> (row # kept, n, s)))"

definition recent_key :: "alert_rule \<Rightarrow> datetime \<Rightarrow> db \<Rightarrow> pystr \<Rightarrow> bool" where
  "recent_key rule cutoff d key \<longleftrightarrow>
     (case find (matches_key rule key) (suppressions d) of Some s \<Rightarrow> cutoff \<le> as_last_seen_at s | None \<Rightarrow> False)"

lemma get_suppression_run:
  assumes "no_faults E"
  shows "get_suppression_record E rule key w = (Inr (find (matches_key rule key) (suppressions (working w))), tick w)"
  using assms by (simp add: get_suppression_record_def db_query_def db_exec_def tick_def)

text \<open>The refinement: with working calls the filter of the code computes the pure one.\<close>

lemma filter_rows_suppress:
  assumes "no_faults E"
  shows "\<exists>w'. filter_rows E rule cutoff rows (w, st) =
      (let (kept, n, s) = suppress (recent_key rule cutoff (working w))
             (\<lambda>row. row_suppression_key row (ar_suppression_key_field rule)) (new_keys st) rows
       in (Inr kept, (w', st\<lparr>new_keys := n, suppressed_keys := suppressed_keys st @ s\<rparr>)))
    \<and> committed w' = committed w \<and> working w' = working w"
proof (induction rows arbitrary: w st)
  case Nil
  then show ?case by simp
next
  case (Cons row rows)
  let ?key = "row_suppression_key row (ar_suppression_key_field rule)"
  let ?recent = "recent_key rule cutoff (working w)"
  note run = get_suppression_run [OF assms, of rule ?key w]
  show ?case
  proof (cases "?key = []")
    case True
    with Cons.IH [of w st] show ?thesis by (auto simp: Let_def ebind_def split: prod.splits)
  next
    case nonempty: False
    have step: "filter_rows E rule cutoff (row # rows) (w, st) =
        (if ?key \<in> set (new_keys st) \<or> ?recent ?key
         then filter_rows E rule cutoff rows (tick w, st\<lparr>suppressed_keys := suppressed_keys st @ [?key]\<rparr>)
         else ebind (filter_rows E rule cutoff rows) (\<lambda>rest. ereturn (row # rest))
                    (tick w, st\<lparr>new_keys := new_keys st @ [?key]\<rparr>))"
      using nonempty run by (simp add: Let_def ebind_def on_world_def recent_key_def)
    show ?thesis
    proof (cases "?key \<in> set (new_keys st) \<or> ?recent ?key")
      case True
      from Cons.IH [of "tick w" "st\<lparr>suppressed_keys := suppressed_keys st @ [?key]\<rparr>"] nonempty True step
      show ?thesis by (auto simp: Let_def split: prod.splits)
    next
      case False
      from Cons.IH [of "tick w" "st\<lparr>new_keys := new_keys st @ [?key]\<rparr>"] nonempty False step
      show ?thesis by (auto simp: Let_def ebind_def split: prod.splits)
    qed
  qed
qed

text \<open>What the pure filter computes, in closed form.\<close>

lemma suppress_new_keys:
  "suppress recent key_of seen rows = (kept, n, s) \<Longrightarrow> distinct seen \<Longrightarrow>
   n = seen @ filter (\<lambda>k. k \<notin> set seen) (first_occurrences (filter (\<lambda>k. k \<noteq> [] \<and> \<not> recent k) (map key_of rows)))"
proof (induction rows arbitrary: seen kept n s rule: rev_induct)
  case Nil
  then show ?case by (simp add: first_occurrences_def)
next
  case (snoc row rows)
  have snoc_step: "suppress recent key_of seen (rs @ [row]) =
      (case suppress recent key_of seen rs of (kept, n, s) \<Rightarrow>
         if key_of row = [] then (kept @ [row], n, s)
         else if key_of row \<in> set n \<or> recent (key_of row) then (kept, n, s @ [key_of row])
         else (kept @ [row], n @ [key_of row], s))" for rs
    by (induction rs arbitrary: seen) (auto simp: Let_def split: prod.splits)
  obtain kept' n' s' where p: "suppress recent key_of seen rows = (kept', n', s')"
    by (metis prod_cases3)
  note IH = snoc.IH [OF p snoc.prems(2)]
  let ?k = "key_of row"
  let ?f = "filter (\<lambda>k. k \<noteq> [] \<and> \<not> recent k) (map key_of rows)"
  show ?case
  proof (cases "?k = [] \<or> recent ?k")
    case True
    with snoc.prems(1) p IH snoc_step [of rows] show ?thesis by (auto split: if_splits)
  next
    case False
    have mem: "?k \<in> set n' \<longleftrightarrow> ?k \<in> set seen \<or> ?k \<in> set ?f" using IH False by auto
    have "n = (if ?k \<in> set n' then n' else n' @ [?k])"
      using snoc.prems(1) p snoc_step [of rows] False by (auto split: if_splits)
    with IH mem False show ?thesis by (auto simp: first_occurrences_snoc)
  qed
qed

lemma suppress_kept:
  "suppress recent key_of seen rows = (kept, n, s) \<Longrightarrow>
   n = seen @ filter (\<lambda>k. k \<noteq> []) (map key_of kept)
   \<and> filter (\<lambda>r. key_of r = []) kept = filter (\<lambda>r. key_of r = []) rows
   \<and> subseq kept rows \<and> length kept + length s = length rows"
proof (induction rows arbitrary: seen kept n s)
  case Nil
  then show ?case by simp
next
  case (Cons row rows)
  define seen' where "seen' = (if key_of row = [] \<or> key_of row \<in> set seen \<or> recent (key_of row)
    then seen else seen @ [key_of row])"
  obtain kept' n' s' where p: "suppress recent key_of seen' rows = (kept', n', s')"
    by (metis prod_cases3)
  from Cons.IH [OF p] Cons.prems p show ?case
    by (auto simp: Let_def seen'_def split: if_splits)
qed

lemma filter_rows_run:
  assumes "no_faults E"
  shows "\<exists>kept w2. filter_rows E rule cutoff rows (w, st) = (Inr kept, w2) \<and> subseq kept rows"
proof -
  let ?key = "\<lambda>row. row_suppression_key row (ar_suppression_key_field rule)"
  obtain kept n s where p: "suppress (recent_key rule cutoff (working w)) ?key (new_keys st) rows = (kept, n, s)"
    by (metis prod_cases3)
  from filter_rows_suppress [OF assms, of rule cutoff rows w st] suppress_kept [OF p] p show ?thesis
    by (auto simp del: filter_rows.simps suppress.simps)
qed

text \<open>The rows the filter passes, by their positions: row \<open>i\<close> of a key passes when the key has no
  record inside the window and no earlier row has it.\<close>

definition passing :: "(pystr \<Rightarrow> bool) \<Rightarrow> pystr list \<Rightarrow> pystr list \<Rightarrow> nat set" where
  "passing recent seen keys =
     {i. i < length keys \<and> (keys ! i = [] \<or> \<not> recent (keys ! i) \<and> keys ! i \<notin> set seen \<union> set (take i keys))}"

lemma passing_Cons:
  "0 \<in> passing recent seen (k # keys) \<longleftrightarrow> k = [] \<or> \<not> recent k \<and> k \<notin> set seen"
  "{j. Suc j \<in> passing recent seen (k # keys)} =
     passing recent (if k = [] \<or> k \<in> set seen \<or> recent k then seen else seen @ [k]) keys"
  by (auto simp: passing_def)

lemma suppress_passing:
  "suppress recent key_of seen rows = (kept, n, s) \<Longrightarrow>
     kept = nths rows (passing recent seen (map key_of rows))
     \<and> s = nths (map key_of rows) (- passing recent seen (map key_of rows))"
proof (induction rows arbitrary: seen kept n s)
  case Nil
  then show ?case by simp
next
  case (Cons row rows)
  define seen' where "seen' = (if key_of row = [] \<or> key_of row \<in> set seen \<or> recent (key_of row)
    then seen else seen @ [key_of row])"
  obtain kept' n' s' where p: "suppress recent key_of seen' rows = (kept', n', s')"
    by (metis prod_cases3)
  let ?P = "passing recent seen (map key_of (row # rows))"
  let ?P' = "passing recent seen' (map key_of rows)"
  have P: "{j. Suc j \<in> ?P} = ?P'" "0 \<in> ?P \<longleftrightarrow> key_of row = [] \<or> \<not> recent (key_of row) \<and> key_of row \<notin> set seen"
    using passing_Cons [of recent seen "key_of row" "map key_of rows"] by (simp_all add: seen'_def)
  have complement: "{j. Suc j \<in> - ?P} = - ?P'" using P(1) by auto
  have nths: "nths (row # rows) ?P = (if 0 \<in> ?P then [row] else []) @ kept'"
    "nths (map key_of (row # rows)) (- ?P) = (if 0 \<in> ?P then [] else [key_of row]) @ s'"
    using Cons.IH [OF p] P(1) complement by (simp_all add: nths_Cons)
  have step: "(kept, n, s) = (if 0 \<in> ?P then (row # kept', n', s') else (kept', n', key_of row # s'))"
    using Cons.prems p unfolding P(2) by (auto simp: Let_def seen'_def split: if_splits)
  show ?case using step nths by (cases "0 \<in> ?P") simp_all
qed

text \<open>
  C6. Within one run the filter keeps exactly these rows, in their order: the rows without a key,
  and a row with a key when no record of the key lies inside the window and no earlier row of the
  result has the same key. The keys of the rows it keeps are the new keys, the keys of the rows it
  drops the suppressed ones, each once for every row. The database is only read.
\<close>

theorem suppression_filter_exact:
  assumes "no_faults E" and "new_keys st = []" and "suppressed_keys st = []"
    and "filter_rows E rule cutoff rows (w, st) = (r, (w', st'))"
    and "keys = map (\<lambda>row. row_suppression_key row (ar_suppression_key_field rule)) rows"
    and "passed = {i. i < length rows
       \<and> (keys ! i = [] \<or> \<not> recent_key rule cutoff (working w) (keys ! i) \<and> keys ! i \<notin> set (take i keys))}"
  shows "r = Inr (nths rows passed)
    \<and> new_keys st' = filter (\<lambda>k. k \<noteq> []) (nths keys passed)
    \<and> suppressed_keys st' = nths keys (- passed)
    \<and> state_now st' = state_now st
    \<and> committed w' = committed w \<and> working w' = working w"
proof -
  let ?key = "\<lambda>row. row_suppression_key row (ar_suppression_key_field rule)"
  obtain kept n s where p: "suppress (recent_key rule cutoff (working w)) ?key [] rows = (kept, n, s)"
    by (metis prod_cases3)
  from filter_rows_suppress [OF assms(1), of rule cutoff rows w st] assms(2-4) p
  have r: "r = Inr kept" "new_keys st' = n" "suppressed_keys st' = s" "state_now st' = state_now st"
    "committed w' = committed w" "working w' = working w" by auto
  have "passed = passing (recent_key rule cutoff (working w)) [] keys"
    using assms(5,6) by (simp add: passing_def)
  with suppress_passing [OF p] suppress_kept [OF p] r assms(5) show ?thesis
    by (simp add: nths_map)
qed

section \<open>From one run to the next\<close>

lemma matches_note [simp]:
  "matches_key rule k (s\<lparr>as_last_seen_at := now, as_hit_count := n\<rparr>) = matches_key rule k s"
  by (simp add: matches_key_def)

lemma find_noted:
  assumes "ar_id rule = Some rid"
  shows "find (matches_key rule k) (suppressions (note_suppression E rule now k' d)) =
    (if k = k' then
       Some (case find (matches_key rule k) (suppressions d) of
          Some s \<Rightarrow> s\<lparr>as_last_seen_at := now, as_hit_count := as_hit_count s + 1\<rparr>
        | None \<Rightarrow> \<lparr>as_id = Some (assign_id E (map as_id (suppressions d))), as_rule_id = rid,
                    as_suppression_key = k, as_first_seen_at = now, as_last_seen_at = now, as_hit_count = 1\<rparr>)
     else find (matches_key rule k) (suppressions d))"
proof (cases "find (matches_key rule k') (suppressions d)")
  case None
  then show ?thesis
    using assms by (auto simp: note_suppression_def list_ex_find find_append matches_key_def split: option.splits)
next
  case (Some s)
  show ?thesis
  proof (cases "k = k'")
    case True
    with Some show ?thesis
      by (simp add: note_suppression_def list_ex_find find_update_first)
  next
    case False
    then have "matches_key rule k' x \<Longrightarrow> \<not> matches_key rule k x" for x
      by (auto simp: matches_key_def)
    with Some False show ?thesis
      by (simp add: note_suppression_def list_ex_find find_update_other)
  qed
qed

text \<open>The record of a key, as far as the filter looks at it.\<close>

definition last_seen :: "alert_rule \<Rightarrow> db \<Rightarrow> pystr \<Rightarrow> datetime option" where
  "last_seen rule d key = map_option as_last_seen_at (find (matches_key rule key) (suppressions d))"

lemma recent_last_seen:
  "recent_key rule cutoff d key \<longleftrightarrow> (\<exists>t. last_seen rule d key = Some t \<and> cutoff \<le> t)"
  by (auto simp: recent_key_def last_seen_def split: option.splits)

lemma last_seen_noted:
  "ar_id rule = Some rid \<Longrightarrow>
   last_seen rule (note_suppression E rule now k' d) k = (if k = k' then Some now else last_seen rule d k)"
  by (auto simp: last_seen_def find_noted split: option.splits)

lemma last_seen_fold:
  "ar_id rule = Some rid \<Longrightarrow>
   last_seen rule (fold (note_suppression E rule now) ks d) k =
     (if k \<in> set ks then Some now else last_seen rule d k)"
  by (induction ks arbitrary: d) (auto simp: last_seen_noted)

lemma last_seen_note_keys:
  "ar_id rule = Some rid \<Longrightarrow>
   last_seen rule (note_keys E rule st d) k =
     (if k \<in> set (new_keys st @ suppressed_keys st) then Some (state_now st) else last_seen rule d k)"
  unfolding note_keys_def by (rule last_seen_fold)

lemma last_seen_tables [simp]:
  "last_seen rule (d\<lparr>execution_logs := l, mail_logs := m\<rparr>) k = last_seen rule d k"
  by (simp add: last_seen_def)

lemma persisted_last_seen:
  assumes "persisted E rule trigger result (Some st) s f d d' lg" and "ar_id rule = Some rid"
  shows "last_seen rule d' k =
    (if er_status result = SUCCESS \<and> k \<in> set (new_keys st @ suppressed_keys st)
     then Some (state_now st) else last_seen rule d k)"
  using assms last_seen_note_keys [OF assms(2), of E st d k]
  by (auto simp: persisted_def Let_def split: if_splits)

text \<open>
  Consecutive successful runs of one rule that suppresses duplicates: each builds its filter, runs
  the rows of its query through it and persists the state the filter left, and the next one finds
  the suppression records that were committed; everything else may have changed in between. The
  list holds the time of each run, the rows of its query and the rows it kept.
\<close>

type_synonym suppressed_run = "datetime \<times> row list \<times> row list"

inductive successful_runs ::
  "env \<Rightarrow> alert_rule \<Rightarrow> alert_suppression list \<Rightarrow> suppressed_run list \<Rightarrow> bool" for E rule where
  none: "successful_runs E rule ss []"
| run: "successful_runs E rule (suppressions (working w)) ((state_now st0, rows, kept) # runs)"
  if "committed w = working w"
    and "build_suppression_filter E rule w = (Inr (Some (cutoff, st0)), w1)"
    and "filter_rows E rule cutoff rows (w1, st0) = (Inr kept, (w2, st))"
    and "committed w3 = committed w2" and "working w3 = working w2"
    and "er_status result = SUCCESS"
    and "persist_execution_result E rule trigger result (Some st) started finished w3 = (Inr lg, w4)"
    and "successful_runs E rule (suppressions (committed w4)) runs"

inductive_cases successful_runs_ConsE: "successful_runs E rule ss (r # runs)"

fun close_together :: "timedelta \<Rightarrow> datetime list \<Rightarrow> bool" where
  "close_together window (a # b # ts) \<longleftrightarrow> b - a \<le> window \<and> close_together window (b # ts)"
| "close_together window _ \<longleftrightarrow> True"

text \<open>How many rows of a key a run kept.\<close>

definition alerts_for :: "alert_rule \<Rightarrow> pystr \<Rightarrow> row list \<Rightarrow> nat" where
  "alerts_for rule key kept =
     length (filter (\<lambda>row. row_suppression_key row (ar_suppression_key_field rule) = key) kept)"

text \<open>What one filter and its persistence do to a key the rows have. No assumption on the calls is
  needed: the run returned.\<close>

lemma filter_rows_returned:
  "filter_rows E rule cutoff rows (w, st) = (Inr kept, (w', st')) \<Longrightarrow>
     suppress (recent_key rule cutoff (working w))
       (\<lambda>row. row_suppression_key row (ar_suppression_key_field rule)) (new_keys st) rows
       = (kept, new_keys st', drop (length (suppressed_keys st)) (suppressed_keys st'))
     \<and> take (length (suppressed_keys st)) (suppressed_keys st') = suppressed_keys st
     \<and> state_now st' = state_now st \<and> committed w' = committed w \<and> working w' = working w"
proof (induction rows arbitrary: w st kept)
  case Nil
  then show ?case by auto
next
  case (Cons row rows)
  let ?key = "row_suppression_key row (ar_suppression_key_field rule)"
  let ?recent = "recent_key rule cutoff (working w)"
  show ?case
  proof (cases "?key = []")
    case True
    with Cons.prems obtain rest where "filter_rows E rule cutoff rows (w, st) = (Inr rest, (w', st'))" "kept = row # rest"
      by (auto simp: Let_def ebind_Inr)
    with Cons.IH [of w st rest] True show ?thesis by (simp add: Let_def)
  next
    case nonempty: False
    with Cons.prems have step:
      "(if ?key \<in> set (new_keys st) \<or> ?recent ?key
         then filter_rows E rule cutoff rows (tick w, st\<lparr>suppressed_keys := suppressed_keys st @ [?key]\<rparr>)
         else ebind (filter_rows E rule cutoff rows) (\<lambda>rest. ereturn (row # rest))
                    (tick w, st\<lparr>new_keys := new_keys st @ [?key]\<rparr>)) = (Inr kept, (w', st'))"
      by (auto simp: Let_def ebind_Inr on_world_def get_suppression_record_def db_query_Inr recent_key_def
          split: prod.splits)
    show ?thesis
    proof (cases "?key \<in> set (new_keys st) \<or> ?recent ?key")
      case True
      with step have "filter_rows E rule cutoff rows (tick w, st\<lparr>suppressed_keys := suppressed_keys st @ [?key]\<rparr>)
          = (Inr kept, (w', st'))" by simp
      from Cons.IH [OF this] have IH: "suppress ?recent
          (\<lambda>row. row_suppression_key row (ar_suppression_key_field rule)) (new_keys st) rows
          = (kept, new_keys st', drop (Suc (length (suppressed_keys st))) (suppressed_keys st'))"
        "take (Suc (length (suppressed_keys st))) (suppressed_keys st') = suppressed_keys st @ [?key]"
        "state_now st' = state_now st" "committed w' = committed w" "working w' = working w" by auto
      have keys: "suppressed_keys st' = (suppressed_keys st @ [?key]) @ drop (Suc (length (suppressed_keys st))) (suppressed_keys st')"
        using append_take_drop_id [of "Suc (length (suppressed_keys st))" "suppressed_keys st'"] IH(2) by simp
      have "drop (length (suppressed_keys st)) (suppressed_keys st')
          = ?key # drop (Suc (length (suppressed_keys st))) (suppressed_keys st')"
        "take (length (suppressed_keys st)) (suppressed_keys st') = suppressed_keys st"
        by (subst keys, simp)+
      with IH nonempty True show ?thesis by (auto simp: Let_def)
    next
      case False
      with step obtain rest where "filter_rows E rule cutoff rows (tick w, st\<lparr>new_keys := new_keys st @ [?key]\<rparr>)
          = (Inr rest, (w', st'))" "kept = row # rest" by (auto simp: ebind_Inr)
      with Cons.IH [OF this(1)] nonempty False show ?thesis by (simp add: Let_def)
    qed
  qed
qed

lemma suppress_noted:
  "suppress recent key_of seen rows = (kept, n, s) \<Longrightarrow>
     set seen \<subseteq> set n \<and> {k \<in> key_of ` set rows. k \<noteq> []} \<subseteq> set n \<union> set s"
proof (induction rows arbitrary: seen kept n s)
  case Nil
  then show ?case by simp
next
  case (Cons row rows)
  define seen' where "seen' = (if key_of row = [] \<or> key_of row \<in> set seen \<or> recent (key_of row)
    then seen else seen @ [key_of row])"
  obtain kept' n' s' where p: "suppress recent key_of seen' rows = (kept', n', s')"
    by (metis prod_cases3)
  from Cons.IH [OF p] Cons.prems p show ?case
    by (auto simp: Let_def seen'_def split: if_splits)
qed

lemma distinct_filter_eq:
  "distinct xs \<Longrightarrow> length (filter (\<lambda>x. x = k) xs) = (if k \<in> set xs then 1 else 0)"
  by (induction xs) auto

lemma build_suppression_filter_Inr:
  assumes "build_suppression_filter E rule w = (Inr (Some (cutoff, st)), w')"
    and "timedelta_hours (ar_suppression_window_hours rule) = Inr window"
  shows "cutoff = state_now st - window" "new_keys st = []" "suppressed_keys st = []"
    "committed w' = committed w" "working w' = working w"
  using assms by (auto simp: build_suppression_filter_def ebind_Inr utc_now_def elift_def datetime_in_range_def
      split: if_splits)

lemma one_run:
  assumes rule: "ar_id rule = Some rid" "timedelta_hours (ar_suppression_window_hours rule) = Inr window"
    and key: "key \<noteq> []" "\<exists>row\<in>set rows. row_suppression_key row (ar_suppression_key_field rule) = key"
    and world: "committed w = working w" "committed w3 = committed w2" "working w3 = working w2"
    and build: "build_suppression_filter E rule w = (Inr (Some (cutoff, st0)), w1)"
    and filtered: "filter_rows E rule cutoff rows (w1, st0) = (Inr kept, (w2, st))"
    and persist: "er_status result = SUCCESS"
      "persist_execution_result E rule trigger result (Some st) s f w3 = (Inr lg, w4)"
  shows "alerts_for rule key kept = (if recent_key rule (state_now st0 - window) (working w) key then 0 else 1)"
    and "last_seen rule (committed w4) key = Some (state_now st0)"
proof -
  let ?key = "\<lambda>row. row_suppression_key row (ar_suppression_key_field rule)"
  let ?recent = "recent_key rule cutoff (working w)"
  note b = build_suppression_filter_Inr [OF build rule(2)]
  from filter_rows_returned [OF filtered] b
  have run: "suppress ?recent ?key [] rows = (kept, new_keys st, suppressed_keys st)"
    and st: "state_now st = state_now st0" "committed w2 = committed w" "working w2 = working w" by simp_all
  have kept: "filter (\<lambda>k. k \<noteq> []) (map ?key kept)
      = first_occurrences (filter (\<lambda>k. k \<noteq> [] \<and> \<not> ?recent k) (map ?key rows))"
    using suppress_kept [OF run] suppress_new_keys [OF run] by simp
  have "alerts_for rule key kept = length (filter (\<lambda>k. k = key) (filter (\<lambda>k. k \<noteq> []) (map ?key kept)))"
    using key(1) by (auto simp: alerts_for_def filter_map comp_def intro!: arg_cong [of _ _ length] filter_cong)
  also have "\<dots> = (if key \<in> set (filter (\<lambda>k. k \<noteq> [] \<and> \<not> ?recent k) (map ?key rows)) then 1 else 0)"
    unfolding kept by (simp add: distinct_filter_eq)
  also have "\<dots> = (if ?recent key then 0 else 1)" using key by auto
  finally show "alerts_for rule key kept = (if recent_key rule (state_now st0 - window) (working w) key then 0 else 1)"
    using b(1) by simp
  have "committed w3 = working w3" using world st by simp
  from persist_result [OF this persist(2)]
  have "persisted E rule trigger result (Some st) s f (committed w3) (committed w4) lg" by simp
  from persisted_last_seen [OF this rule(1), of key] suppress_noted [OF run] key persist(1) st(1)
  show "last_seen rule (committed w4) key = Some (state_now st0)" by auto
qed

text \<open>A key whose record lies inside the window of the next run stays silent.\<close>

lemma runs_silent:
  assumes "ar_id rule = Some rid" and "timedelta_hours (ar_suppression_window_hours rule) = Inr window"
    and "key \<noteq> []"
  shows "successful_runs E rule ss runs \<Longrightarrow>
     map_option as_last_seen_at (find (matches_key rule key) ss) = Some t \<Longrightarrow>
     \<forall>(now, rows, kept)\<in>set runs. \<exists>row\<in>set rows. row_suppression_key row (ar_suppression_key_field rule) = key \<Longrightarrow>
     close_together window (t # map fst runs) \<Longrightarrow>
     map (\<lambda>(now, rows, kept). alerts_for rule key kept) runs = replicate (length runs) 0"
proof (induction arbitrary: t rule: successful_runs.induct)
  case none
  then show ?case by simp
next
  case (run w cutoff st0 w1 rows kept w2 st w3 result trigger started finished lg w4 runs)
  have found: "\<exists>row\<in>set rows. row_suppression_key row (ar_suppression_key_field rule) = key"
    using run.prems(2) by simp
  note one = one_run [OF assms(1-3) found run.hyps(1,4,5,2,3,6,7)]
  have "recent_key rule (state_now st0 - window) (working w) key"
    using run.prems(1,3) by (auto simp: recent_last_seen last_seen_def)
  with one(1) have "alerts_for rule key kept = 0" by simp
  moreover from run.IH [of "state_now st0"] one(2) run.prems(2,3)
  have "map (\<lambda>(now, rows, kept). alerts_for rule key kept) runs = replicate (length runs) 0"
    by (simp add: last_seen_def)
  ultimately show ?case by simp
qed

section \<open>Properties\<close>

text \<open>
  A key that was sent, or suppressed, in a successful run is not alerted again by a later run
  whose window still reaches back to that run: no row with such a key passes the filter.
\<close>

theorem suppression_window_holds:
  assumes "persist_execution_result E rule trigger result (Some st) s f w = (Inr lg, w')"
    and "committed w = working w" and "er_status result = SUCCESS" and "ar_id rule = Some rid"
    and "no_faults E'" and "new_keys st' = []" and "suppressed_keys st' = []" and "cutoff \<le> state_now st"
    and "filter_rows E' rule cutoff rows (w', st') = (Inr kept, w2)"
    and "row \<in> set kept" and "row_suppression_key row (ar_suppression_key_field rule) = key" and "key \<noteq> []"
  shows "key \<notin> set (new_keys st @ suppressed_keys st)"
proof
  assume k: "key \<in> set (new_keys st @ suppressed_keys st)"
  let ?key = "\<lambda>row. row_suppression_key row (ar_suppression_key_field rule)"
  let ?recent = "recent_key rule cutoff (working w')"
  from persist_result [OF assms(2,1)]
  have "persisted E rule trigger result (Some st) s f (committed w) (working w') lg" by simp
  from persisted_last_seen [OF this assms(4), of key] k assms(3,8) have "?recent key"
    by (simp add: recent_last_seen)
  obtain kept' n ss where p: "suppress ?recent ?key [] rows = (kept', n, ss)"
    by (metis prod_cases3)
  from filter_rows_suppress [OF assms(5), of rule cutoff rows w' st'] assms(6,7,9) p
  have "kept' = kept" by auto
  with suppress_kept [OF p] suppress_new_keys [OF p]
  have "filter (\<lambda>k. k \<noteq> []) (map ?key kept)
      = first_occurrences (filter (\<lambda>k. k \<noteq> [] \<and> \<not> ?recent k) (map ?key rows))" by simp
  then have "set (filter (\<lambda>k. k \<noteq> []) (map ?key kept))
      = set (filter (\<lambda>k. k \<noteq> [] \<and> \<not> ?recent k) (map ?key rows))" by (simp only: set_first_occurrences)
  moreover have "key \<in> set (filter (\<lambda>k. k \<noteq> []) (map ?key kept))" using assms(10-12) by auto
  ultimately show False using \<open>?recent key\<close> by auto
qed


section \<open>Concrete instances\<close>

definition keyed_rule :: alert_rule where
  "keyed_rule = sample_rule\<lparr>ar_suppress_duplicates := True, ar_suppression_key_field := str ''k''\<rparr>"

definition keyed_rows :: "row list" where
  "keyed_rows = [[(str ''k'', CInt 1)], [(str ''k'', CInt 1)], [(str ''k'', CNone)], [(str ''k'', CInt 2)]]"

definition empty_state :: "datetime \<Rightarrow> suppression_state" where
  "empty_state now = \<lparr>new_keys = [], suppressed_keys = [], state_now = now\<rparr>"

text \<open>Key 2 was seen an hour before the run at hour 30.\<close>

definition hours :: "int \<Rightarrow> datetime" where
  "hours h = h * 3600 * us_per_second"

definition seen_db :: db where
  "seen_db = empty_db\<lparr>suppressions := [\<lparr>as_id = Some 1, as_rule_id = 7, as_suppression_key = [50],
     as_first_seen_at = hours 29, as_last_seen_at = hours 29, as_hit_count = 1\<rparr>]\<rparr>"

lemma keyed_keys:
  "map (\<lambda>row. row_suppression_key row (ar_suppression_key_field keyed_rule)) keyed_rows = [[49], [49], [], [50]]"
  by (simp add: row_suppression_key_def keyed_rows_def keyed_rule_def sample_rule_def int_str_def
      nat_str.simps strip_def lstrip_def rstrip_def is_space_def)

lemma seen_recent:
  "recent_key keyed_rule (hours 6) seen_db k \<longleftrightarrow> k = [50]"
  by (auto simp: recent_key_def seen_db_def matches_key_def keyed_rule_def sample_rule_def hours_def
      us_per_second_def empty_db_def)

definition keyed_run :: "row list res \<times> world \<times> suppression_state" where
  "keyed_run = filter_rows quiet_env keyed_rule (hours 6) keyed_rows (new_world seen_db, empty_state (hours 30))"

lemma keyed_keys_eq:
  "[[49], [49], [], [50]] = map (\<lambda>row. row_suppression_key row (ar_suppression_key_field keyed_rule)) keyed_rows"
  by (simp add: keyed_keys)

lemma keyed_passed:
  "{0, 2} = {i. i < length keyed_rows
     \<and> ([[49], [49], [], [50::nat]] ! i = [] \<or> \<not> recent_key keyed_rule (hours 6) (working (new_world seen_db)) ([[49], [49], [], [50]] ! i)
        \<and> [[49], [49], [], [50]] ! i \<notin> set (take i [[49], [49], [], [50]]))}" (is "_ = {i. i < _ \<and> ?p i}")
proof -
  have p: "?p 0" "\<not> ?p 1" "?p 2" "\<not> ?p 3" by (simp_all add: seen_recent)
  have four: "length keyed_rows = 4" by (simp add: keyed_rows_def)
  have "i < 4 \<and> ?p i \<longleftrightarrow> i = 0 \<or> i = 2" for i
  proof (cases "i < 4")
    case True
    then consider "i = 0" | "i = 1" | "i = 2" | "i = 3" by linarith
    then show ?thesis using p by cases simp_all
  next
    case False
    then show ?thesis by simp
  qed
  then show ?thesis unfolding four by blast
qed

text \<open>The second row repeats the key of the first, the third has none, the key of the last is recent.\<close>

theorem suppression_filter_exact_witness:
  "\<exists>w' st'. keyed_run = (Inr [[(str ''k'', CInt 1)], [(str ''k'', CNone)]], (w', st'))
     \<and> new_keys st' = [[49]] \<and> suppressed_keys st' = [[49], [50]] \<and> state_now st' = hours 30"
proof -
  obtain r w' st' where run: "keyed_run = (r, (w', st'))" by (cases keyed_run) auto
  have st: "new_keys (empty_state (hours 30)) = []" "suppressed_keys (empty_state (hours 30)) = []"
    "state_now (empty_state (hours 30)) = hours 30"
    by (simp_all add: empty_state_def)
  have "nths keyed_rows {0, 2} = [[(str ''k'', CInt 1)], [(str ''k'', CNone)]]"
    "nths [[49], [49], [], [50::nat]] {0, 2} = [[49], []]"
    "nths [[49], [49], [], [50::nat]] (- {0, 2}) = [[49], [50]]"
    by (simp_all add: keyed_rows_def nths_Cons)
  with suppression_filter_exact [OF quiet_no_faults st(1,2) run [unfolded keyed_run_def] keyed_keys_eq keyed_passed]
    run st(3)
  show ?thesis by auto
qed

definition sent_state :: suppression_state where
  "sent_state = \<lparr>new_keys = [[49]], suppressed_keys = [], state_now = hours 30\<rparr>"

lemma sent_persisted:
  "\<exists>lg w'. persist_execution_result quiet_env keyed_rule MANUAL (new_result SUCCESS) (Some sent_state) 0 1 (new_world empty_db)
     = (Inr lg, w')"
  by (simp add: persist_execution_result_def persist_suppression_state_def sent_state_def new_result_def
      rollback_on_error_def eff_defs get_suppression_record_def db_query_def db_exec_def db_commit_def
      add_execution_log_def quiet_env_def Let_def split: prod.splits)

theorem suppression_window_holds_witness:
  "\<exists>lg w'. persist_execution_result quiet_env keyed_rule MANUAL (new_result SUCCESS) (Some sent_state) 0 1 (new_world empty_db)
       = (Inr lg, w')
     \<and> fst (filter_rows quiet_env keyed_rule (hours 30) [[(str ''k'', CInt 1)]] (w', empty_state (hours 54))) = Inr []"
proof -
  obtain lg w' where p: "persist_execution_result quiet_env keyed_rule MANUAL (new_result SUCCESS) (Some sent_state) 0 1
      (new_world empty_db) = (Inr lg, w')" using sent_persisted by blast
  let ?rows = "[[(str ''k'', CInt 1)]]"
  have props: "committed (new_world empty_db) = working (new_world empty_db)"
    "er_status (new_result SUCCESS) = SUCCESS" "ar_id keyed_rule = Some 7"
    "new_keys (empty_state (hours 54)) = []" "suppressed_keys (empty_state (hours 54)) = []"
    "hours 30 \<le> state_now sent_state"
    by (simp_all add: new_result_def keyed_rule_def sample_rule_def empty_state_def sent_state_def)
  obtain kept w2 where f: "filter_rows quiet_env keyed_rule (hours 30) ?rows (w', empty_state (hours 54)) = (Inr kept, w2)"
    and sub: "subseq kept ?rows"
    using filter_rows_run [OF quiet_no_faults] by blast
  have key: "row_suppression_key [(str ''k'', CInt 1)] (ar_suppression_key_field keyed_rule) = [49]"
    by (simp add: row_suppression_key_def keyed_rule_def int_str_def nat_str.simps strip_def lstrip_def
        rstrip_def is_space_def)
  have "[(str ''k'', CInt 1)] \<notin> set kept"
    using suppression_window_holds [OF p props(1-3) quiet_no_faults props(4-6) f _ key]
    by (auto simp: sent_state_def)
  moreover have "set kept \<subseteq> set ?rows"
    using sub by (metis notin_set_nthsI subseq_conv_nths subsetI)
  ultimately have "kept = []" by (cases kept) auto
  with p f show ?thesis by auto
qed

text \<open>Working calls let the runs of a rule follow each other at any times.\<close>

lemma no_faults_persist:
  assumes "no_faults E"
  shows "\<exists>lg w'. persist_execution_result E rule trigger result supp s f w = (Inr lg, w')"
proof -
  have marks: "\<exists>w'. efor ks (\<lambda>key. ebind (get_suppression_record E rule key) (\<lambda>_.
       db_exec E (\<lambda>d. ((), note_suppression E rule now key d)))) w = (Inr (), w')" for ks now w
    using assms by (induction ks arbitrary: w) (simp_all add: ebind_def get_suppression_record_def db_query_def db_calls_run)
  have first: "\<exists>w'. (case supp of
                 Some st \<Rightarrow> if er_status result = SUCCESS then persist_suppression_state E rule st else ereturn ()
               | None \<Rightarrow> ereturn ()) w = (Inr (), w')" for w
    using marks by (cases supp) (simp_all add: persist_suppression_state_def)
  have mails: "\<exists>w'. efor ms (add_mail_log E i) w = (Inr (), w')" for ms i w
    using assms by (induction ms arbitrary: w) (simp_all add: ebind_def add_mail_log_def utc_now_def db_calls_run)
  obtain w1 where 1: "(case supp of
                 Some st \<Rightarrow> if er_status result = SUCCESS then persist_suppression_state E rule st else ereturn ()
               | None \<Rightarrow> ereturn ()) w = (Inr (), w1)" using first by blast
  obtain lg w2 where 2: "add_execution_log E rule trigger result s f w1 = (Inr lg, w2)"
    using assms by (simp add: add_execution_log_def db_calls_run)
  obtain w3 where 3: "efor (er_mail_results result) (add_mail_log E (the (el_id lg))) w2 = (Inr (), w3)"
    using mails by blast
  have "write_result E rule trigger result supp s f w = (Inr lg, w3)"
    using 1 2 3 unfolding write_result_def by (simp add: ebind_def)
  then show ?thesis
    using assms unfolding persist_write rollback_on_error_def
    by (simp add: eff_defs db_calls_run db_query_def)
qed

lemma runs_exist:
  assumes "no_faults E" and "ar_suppress_duplicates rule" and "ar_suppression_key_field rule \<noteq> []"
    and "timedelta_hours (ar_suppression_window_hours rule) = Inr window"
  shows "\<forall>n\<in>set ns. datetime_min \<le> clock E n - window \<and> clock E n - window \<le> datetime_max \<Longrightarrow>
     \<exists>runs. successful_runs E rule ss runs \<and> map (\<lambda>(now, rows, kept). (now, rows)) runs = map (\<lambda>n. (clock E n, rows)) ns"
proof (induction ns arbitrary: ss)
  case Nil
  then show ?case using successful_runs.none by (intro exI [of _ "[]"]) simp
next
  case (Cons n ns)
  define w where "w = (new_world (empty_db\<lparr>suppressions := ss\<rparr>))\<lparr>ticks := n\<rparr>"
  define st0 where "st0 = \<lparr>new_keys = [], suppressed_keys = [], state_now = clock E n\<rparr>"
  have w: "committed w = working w" "suppressions (working w) = ss"
    by (simp_all add: w_def new_world_def empty_db_def)
  have build: "build_suppression_filter E rule w = (Inr (Some (clock E n - window, st0)), tick w)"
    using assms Cons.prems
    by (simp add: build_suppression_filter_def ebind_def utc_now_def elift_def ereturn_def datetime_in_range_def
        st0_def w_def)
  obtain kept w2 st where f: "filter_rows E rule (clock E n - window) rows (tick w, st0) = (Inr kept, (w2, st))"
    using filter_rows_run [OF assms(1), of rule "clock E n - window" rows "tick w" st0] by (metis prod.collapse)
  obtain lg w4 where p: "persist_execution_result E rule MANUAL (new_result SUCCESS) (Some st) 0 1 w2 = (Inr lg, w4)"
    using no_faults_persist [OF assms(1)] by blast
  from Cons.IH [of "suppressions (committed w4)"] Cons.prems obtain runs where
    runs: "successful_runs E rule (suppressions (committed w4)) runs"
      "map (\<lambda>(now, rows, kept). (now, rows)) runs = map (\<lambda>n. (clock E n, rows)) ns" by auto
  have "successful_runs E rule (suppressions (working w)) ((state_now st0, rows, kept) # runs)"
    by (rule successful_runs.run [OF w(1) build f refl refl _ p runs(1)]) (simp add: new_result_def)
  with w(2) runs(2) show ?case by (intro exI [of _ "(state_now st0, rows, kept) # runs"]) (simp add: st0_def)
qed

text \<open>Every twelve hours over two days, with a window of 24 hours: one alert.\<close>

definition half_days :: "nat list" where
  "half_days = [0, 43200, 86400, 129600, 172800]"

definition keyed_once :: "row list" where
  "keyed_once = [[(str ''k'', CInt 1)]]"


end
