(* ===== verification/Execution_Theorems.thy ===== *)
theory Execution_Theorems
  imports Suppression
begin

text \<open>
  What \<open>execute_rule_by_id\<close> promises as a whole: atomic persistence, bounded retries that never
  follow a delivery, exactly one log per execution. The libraries act outside the database
  (\<open>libraries_frame\<close>): a query on SQL Server or an SMTP dialogue does not change the local tables.
\<close>

section \<open>Frames of the libraries\<close>

definition optional_preserves :: "('w \<Rightarrow> 'w \<Rightarrow> bool) \<Rightarrow> ('w, unit) eff option \<Rightarrow> bool" where
  "optional_preserves R m = (case m of None \<Rightarrow> True | Some f \<Rightarrow> preserves R f)"

definition transport_frame :: "('w \<Rightarrow> 'w \<Rightarrow> bool) \<Rightarrow> ('w, 'c) smtp_env \<Rightarrow> bool" where
  "transport_frame R T \<longleftrightarrow>
     (\<forall>c a b t. preserves R (client_sendmail T c a b t))
     \<and> (\<forall>c. optional_preserves R (client_quit T c)) \<and> (\<forall>c. optional_preserves R (client_close T c))"

definition libraries_frame :: "('t, 'n, 'c, 'k) service_env \<Rightarrow> bool" where
  "libraries_frame S \<longleftrightarrow>
     (\<forall>conn t sql. preserves same_db (run_batch (odbc_driver_lib S) conn t sql))
     \<and> preserves same_db (connection_exit (odbc_driver_lib S))
     \<and> (\<forall>h p t. preserves same_db (smtp_ssl_connect (smtp_library S) h p t))
     \<and> (\<forall>h p t. preserves same_db (smtp_connect (smtp_library S) h p t))
     \<and> (\<forall>c. preserves same_db (smtp_starttls (smtp_library S) c))
     \<and> (\<forall>c u p. preserves same_db (smtp_login (smtp_library S) c u p))
     \<and> transport_frame same_db (smtp_transport (smtp_library S))"

lemma optional_preservesD:
  "optional_preserves R m \<Longrightarrow> m = Some f \<Longrightarrow> R w (snd (f w))"
  by (simp add: optional_preserves_def preserves_def)

lemma close_client_R:
  assumes R: "state_relation R" and T: "transport_frame R T"
  shows "R w (close_client T c w)"
proof -
  note refl = state_relation.reflexive [OF R] and trans = state_relation.transitive [OF R]
  have "optional_preserves R (client_close T c)" "optional_preserves R (client_quit T c)"
    using T by (simp_all add: transport_frame_def)
  note C = optional_preservesD [OF this(1)] and Q = optional_preservesD [OF this(2)]
  have close: "R w1 (case client_close T c of Some f \<Rightarrow> snd (f w1) | None \<Rightarrow> w1)" for w1
    using C refl by (cases "client_close T c") simp_all
  show ?thesis
  proof (cases "client_quit T c")
    case None
    then show ?thesis using close by (simp add: close_client_def Let_def)
  next
    case (Some q)
    obtain r w1 where q: "q w = (r, w1)" by (cases "q w")
    with Q [OF Some, of w] have "R w w1" by simp
    then show ?thesis
      using Some q close [of w1] trans by (cases r) (auto simp: close_client_def Let_def)
  qed
qed

lemma send_mail_R:
  assumes R: "state_relation R" and T: "transport_frame R T" and F: "preserves R (client_factory T)"
  shows "preserves R (send_mail T sender m)"
  unfolding preserves_def
proof
  fix w
  note trans = state_relation.transitive [OF R]
  obtain r w' where e: "send_mail T sender m w = (r, w')" by (cases "send_mail T sender m w")
  show "R w (snd (send_mail T sender m w))"
  proof (cases r)
    case (Inl exc)
    with e have "w' = w"
      by (cases "build_mime T sender m") (auto simp: send_mail_def Let_def split: prod.splits sum.splits)
    with e show ?thesis by (simp add: state_relation.reflexive [OF R])
  next
    case (Inr res)
    with e have "send_mail T sender m w = (Inr res, w')" by simp
    then have "R w w'"
    proof (cases rule: send_mail_cases)
      case (unconnected exc)
      with F show ?thesis unfolding preserves_def by (metis snd_conv)
    next
      case (raised client w1 mime exc w2)
      have "R w w1" using F raised(1) unfolding preserves_def by (metis snd_conv)
      moreover have "preserves R (ebind (elift (mime_string T mime)) (client_sendmail T client sender (recipients m @ cc_recipients m)))"
        using T by (intro state_relation.ebind [OF R] state_relation.elift [OF R]) (simp add: transport_frame_def)
      then have "R w1 w2" using raised(2) unfolding preserves_def by (metis snd_conv)
      ultimately show ?thesis using close_client_R [OF R T] trans raised(3) by blast
    next
      case (answered client w1 mime refused w2)
      have "R w w1" using F answered(1) unfolding preserves_def by (metis snd_conv)
      moreover have "preserves R (ebind (elift (mime_string T mime)) (client_sendmail T client sender (recipients m @ cc_recipients m)))"
        using T by (intro state_relation.ebind [OF R] state_relation.elift [OF R]) (simp add: transport_frame_def)
      then have "R w1 w2" using answered(2) unfolding preserves_def by (metis snd_conv)
      ultimately show ?thesis using close_client_R [OF R T] trans answered(3) by blast
    qed
    with e show ?thesis by simp
  qed
qed

lemma query_R:
  assumes R: "state_relation R" and "\<forall>conn t sql. preserves R (run_batch C conn t sql)"
    and "preserves R (connection_exit C)"
  shows "preserves R (query G C p sql t n)"
  unfolding query_def with_connection_def
  using assms(2,3) by (auto intro!: state_relation.ebind [OF R] state_relation.elift [OF R] state_relation.eraise [OF R])

lemma send_all_R:
  assumes R: "state_relation R" and S: "\<forall>m. preserves R (mailer_send X m)"
  shows "R w (snd (send_all X ms w))"
proof (induction ms arbitrary: w)
  case Nil
  then show ?case by (simp add: state_relation.reflexive [OF R])
next
  case (Cons m ms)
  obtain r w1 where m: "send_message X m w = (r, w1)" by (cases "send_message X m w")
  have "R w (snd (mailer_send X m w))" using S by (simp add: preserves_def)
  with m have "R w w1" by (auto simp: send_message_def split: prod.splits sum.splits)
  with Cons.IH [of w1] m show ?case
    by (auto split: prod.splits intro: state_relation.transitive [OF R])
qed

lemma execute_R:
  assumes R: "state_relation R" and Q: "\<forall>sql t n. preserves R (client_query X sql t n)"
    and S: "\<forall>m. preserves R (mailer_send X m)"
    and F: "\<forall>f rows. rf = Some f \<longrightarrow> preserves R (f rows)"
  shows "preserves R (execute X rule rf)"
  unfolding preserves_def
proof
  fix w
  note refl = state_relation.reflexive [OF R] and trans = state_relation.transitive [OF R]
  obtain q w1 where q: "client_query X (ar_sql_text rule) (ar_query_timeout_seconds rule) (ar_max_rows rule) w = (q, w1)"
    by (metis surj_pair)
  have 1: "R w w1" using Q q unfolding preserves_def by (metis snd_conv)
  show "R w (snd (execute X rule rf w))"
  proof (cases "validate_sql X (ar_sql_text rule)")
    case (Inl exc)
    then show ?thesis by (simp add: execute_def refl)
  next
    case valid: (Inr u)
    show ?thesis
    proof (cases q)
      case (Inl exc)
      with valid q 1 show ?thesis by (simp add: execute_def)
    next
      case (Inr rows)
      obtain fr w2 where fr: "(case rf of Some f \<Rightarrow> f rows w1 | None \<Rightarrow> (Inr rows, w1)) = (fr, w2)"
        by (metis surj_pair)
      have "R w1 w2"
      proof (cases rf)
        case None
        with fr show ?thesis by (simp add: refl)
      next
        case (Some f)
        with F fr show ?thesis unfolding preserves_def by (metis option.simps(5) snd_conv)
      qed
      with 1 have 2: "R w w2" by (rule trans)
      show ?thesis
      proof (cases fr)
        case (Inl exc)
        with valid q Inr fr 2 show ?thesis by (simp add: execute_def)
      next
        case (Inr rows')
        obtain r w3 where d: "deliver X rule (int (length rows)) rows' w2 = (r, w3)" by (metis surj_pair)
        have "R w2 w3"
          using d
        proof (cases rule: deliver_cases)
          case (mailed messages rs)
          then show ?thesis using send_all_R [OF R S, of w2 messages] by simp
        qed (simp_all add: refl)
        with valid q \<open>q = Inr rows\<close> fr Inr d 2 show ?thesis by (auto simp: execute_def intro: trans)
      qed
    qed
  qed
qed

section \<open>An attempt only reads the database\<close>

definition same_db_fst :: "world \<times> 's \<Rightarrow> world \<times> 's \<Rightarrow> bool" where
  "same_db_fst a b \<longleftrightarrow> same_db (fst a) (fst b)"

interpretation sf: state_relation same_db_fst
  by unfold_locales (auto simp: same_db_fst_def same_db_def)

lemma on_world_fst: "preserves same_db m \<Longrightarrow> preserves same_db_fst (on_world m)"
  by (auto simp: preserves_def same_db_fst_def on_world_def split: prod.splits) (metis snd_conv)

lemma get_suppression_same_db: "preserves same_db (get_suppression_record E rule key)"
  by (simp add: get_suppression_record_def db_query_same_db)

lemma filter_rows_fst: "preserves same_db_fst (filter_rows E rule cutoff rows)"
proof (induction rows)
  case Nil
  then show ?case by (simp add: sf.ereturn)
next
  case (Cons row rows)
  let ?key = "row_suppression_key row (ar_suppression_key_field rule)"
  have rest: "preserves same_db_fst (ebind (filter_rows E rule cutoff rows) (\<lambda>rest. ereturn (row # rest)))"
    by (intro sf.ebind Cons.IH sf.ereturn)
  have step: "preserves same_db_fst (\<lambda>(w, st).
             if ?key \<in> set (new_keys st)
                \<or> (case suppression of Some s \<Rightarrow> cutoff \<le> as_last_seen_at s | None \<Rightarrow> False)
             then filter_rows E rule cutoff rows (w, st\<lparr>suppressed_keys := suppressed_keys st @ [?key]\<rparr>)
             else ebind (filter_rows E rule cutoff rows) (\<lambda>rest. ereturn (row # rest))
                    (w, st\<lparr>new_keys := new_keys st @ [?key]\<rparr>))" for suppression
    using Cons.IH rest unfolding preserves_def same_db_fst_def by (auto split: prod.splits)
  note bound = sf.ebind [OF on_world_fst [OF get_suppression_same_db] step]
  show ?case
    unfolding filter_rows.simps Let_def by (cases "?key = []") (simp_all only: if_True if_False simp_thms rest bound)
qed

lemma attempt_env_fst:
  assumes "libraries_frame S" and "\<forall>m. preserves same_db (send m)"
  shows "preserves same_db_fst (client_query (attempt_env S p send) sql t n)"
    and "preserves same_db_fst (mailer_send (attempt_env S p send) m)"
proof -
  have "preserves same_db (query (sqlglot_lib S) (odbc_driver_lib S) p sql t n)"
    using assms(1) by (intro query_R sd.state_relation_axioms) (simp_all add: libraries_frame_def)
  then show "preserves same_db_fst (client_query (attempt_env S p send) sql t n)"
    by (simp add: attempt_env_def on_world_fst)
  show "preserves same_db_fst (mailer_send (attempt_env S p send) m)"
    using assms(2) by (simp add: attempt_env_def on_world_fst)
qed

lemma run_executor_same_db:
  assumes "libraries_frame S" and "\<forall>m. preserves same_db (send m)"
  shows "preserves same_db (run_executor S rule supp p send)"
proof (cases supp)
  case None
  have "preserves same_db_fst (execute (attempt_env S p send :: (world \<times> unit) executor_env) rule None)"
    using attempt_env_fst [OF assms] by (intro execute_R sf.state_relation_axioms) auto
  then show ?thesis
    unfolding preserves_def same_db_fst_def None run_executor_def
    by (auto split: prod.splits sum.splits) (metis fst_conv snd_conv)+
next
  case (Some cs)
  obtain cutoff st where cs: "cs = (cutoff, st)" by (cases cs)
  have "preserves same_db_fst (execute (attempt_env S p send :: (world \<times> suppression_state) executor_env) rule
      (Some (filter_rows (surroundings S) rule cutoff)))"
    using attempt_env_fst [OF assms] filter_rows_fst by (intro execute_R sf.state_relation_axioms) auto
  then show ?thesis
    unfolding preserves_def same_db_fst_def Some cs run_executor_def
    by (auto split: prod.splits sum.splits) (metis fst_conv snd_conv)+
qed

lemma client_factory_same_db:
  assumes "libraries_frame S"
  shows "preserves same_db (smtp_client_factory (smtp_library S) config password)"
  using assms unfolding smtp_client_factory_def libraries_frame_def
  by (auto intro!: same_db_intros)

lemma built_mailer_same_db:
  assumes "libraries_frame S" and "build_smtp_mailer S config = Inr send"
  shows "preserves same_db (send m)"
proof -
  from assms(2) obtain password where send: "send = send_mail ((smtp_transport (smtp_library S))
      \<lparr>client_factory := smtp_client_factory (smtp_library S) config password\<rparr>) (sc_sender config)"
    by (auto simp: build_smtp_mailer_def split: sum.splits)
  show ?thesis
    unfolding send
    by (rule send_mail_R [OF sd.state_relation_axioms])
      (use assms(1) client_factory_same_db [OF assms(1)] in \<open>simp_all add: libraries_frame_def transport_frame_def\<close>)
qed

lemma execute_rule_once_same_db:
  assumes "libraries_frame S"
  shows "preserves same_db (execute_rule_once S rule)"
proof -
  have mail: "preserves same_db (ebind (elift (build_smtp_mailer S config)) (\<lambda>send. run_executor S rule supp p send))"
    for config supp p
  proof (cases "build_smtp_mailer S config")
    case (Inl exc)
    then show ?thesis by (simp add: preserves_def same_db_def)
  next
    case (Inr send)
    with run_executor_same_db [OF assms, of send rule supp p] built_mailer_same_db [OF assms Inr]
    show ?thesis by (simp add: preserves_def)
  qed
  show ?thesis
    unfolding execute_rule_once_def get_enabled_data_source_def get_enabled_smtp_config_def
      build_suppression_filter_def
    by (auto intro!: same_db_intros mail split: option.splits exn.splits)
qed

lemma sleep_for_same_db: "preserves same_db (sleep_for s)"
  by (simp add: preserves_def same_db_def sleep_for_def)

lemma run_attempts_same_db:
  assumes "libraries_frame S"
  shows "preserves same_db (run_attempts S rule d n u)"
  by (induction n arbitrary: u)
    (auto intro!: same_db_intros execute_rule_once_same_db [OF assms] sleep_for_same_db)

section \<open>Retries\<close>

lemma execute_rule_once_returns: "\<exists>a w'. execute_rule_once S rule w = (Inr a, w')"
  by (auto simp: execute_rule_once_def ecatch_def ereturn_def split: prod.splits sum.splits)

lemma execute_failed_undelivered:
  assumes "execute X rule rf w = (Inr res, w')" and "er_status res = FAILED"
  shows "list_all (\<lambda>r. \<not> delivered r) (er_mail_results res)"
  using assms(1)
proof (cases rule: execute_cases)
  case (filtered rows w1 rows' w2)
  from filtered(4) show ?thesis
  proof (cases rule: deliver_cases)
    case (mailed messages rs)
    with assms(2) status_FAILED [of rs] show ?thesis by (simp add: mail_outcome_def Let_def list_all_iff)
  qed (simp_all add: new_result_def failed_result_def)
qed (simp_all add: query_failure_def new_result_def failed_result_def)

lemma once_failed_undelivered:
  assumes "execute_rule_once S rule w = (Inr a, w')" and "er_status (at_result a) = FAILED"
  shows "list_all (\<lambda>r. \<not> delivered r) (er_mail_results (at_result a))"
proof -
  have run: "list_all (\<lambda>r. \<not> delivered r) (er_mail_results (at_result a))"
    if e: "run_executor S rule supp p send w0 = (Inr a, w'')" for supp p send w0 w''
  proof (cases supp)
    case None
    from e obtain w2 where "execute (attempt_env S p send :: (world \<times> unit) executor_env) rule None (w0, ()) = (Inr (at_result a), w2)"
      by (auto simp: run_executor_def None split: prod.splits sum.splits)
    then show ?thesis using assms(2) by (rule execute_failed_undelivered)
  next
    case (Some cs)
    obtain cutoff st where cs: "cs = (cutoff, st)" by (cases cs)
    from e obtain w2 where "execute (attempt_env S p send :: (world \<times> suppression_state) executor_env) rule
        (Some (filter_rows (surroundings S) rule cutoff)) (w0, st) = (Inr (at_result a), w2)"
      by (auto simp: run_executor_def Some cs split: prod.splits sum.splits)
    then show ?thesis using assms(2) by (rule execute_failed_undelivered)
  qed
  have "(\<exists>supp p send w0. run_executor S rule supp p send w0 = (Inr a, w')) \<or> er_mail_results (at_result a) = []"
    using assms(1) unfolding execute_rule_once_def ecatch_Inr
  proof (elim disjE exE conjE)
    assume "ebind (get_enabled_data_source (surroundings S) rule) (\<lambda>data_source.
        ebind (get_enabled_smtp_config (surroundings S)) (\<lambda>config.
        ebind (build_suppression_filter (surroundings S) rule) (\<lambda>supp.
        ebind (elift (build_sql_client S data_source)) (\<lambda>p.
        ebind (elift (build_smtp_mailer S config)) (\<lambda>send.
        run_executor S rule supp p send))))) w = (Inr a, w')"
    then show ?thesis unfolding ebind_Inr by blast
  next
    fix exc w1
    assume "ereturn (case exc of
             ConfigurationError m \<Rightarrow>
               \<lparr>at_result = failed_result (str ''ConfigurationError'') m, at_suppression = None\<rparr>
           | _ \<Rightarrow>
               \<lparr>at_result = failed_result (exn_name exc) (public_error_summary exc RULE_EXECUTION_FAILURE),
                at_suppression = None\<rparr>) w1 = (Inr a, w')"
    then show ?thesis by (cases exc) (simp_all add: failed_result_def new_result_def)
  qed
  then show ?thesis using run by auto
qed

text \<open>The attempts a run makes, in order.\<close>

fun attempt_history ::
  "('t, 'n, 'c, 'k) service_env \<Rightarrow> alert_rule \<Rightarrow> real \<Rightarrow> nat \<Rightarrow> world \<Rightarrow> execution_attempt list" where
  "attempt_history S rule d 0 w = []"
| "attempt_history S rule d (Suc left) w =
     (case execute_rule_once S rule w of
        (Inl exc, w1) \<Rightarrow> []
      | (Inr a, w1) \<Rightarrow>
          a # (if \<not> is_retryable_result (at_result a) \<or> left = 0 then []
               else attempt_history S rule d left (if 0 < d then snd (sleep_for d w1) else w1)))"

lemma attempt_history_run:
  "\<exists>w'. run_attempts S rule d (Suc n) u w =
     (Inr (Some (last (attempt_history S rule d (Suc n) w)), u + int (length (attempt_history S rule d (Suc n) w))), w')
   \<and> attempt_history S rule d (Suc n) w \<noteq> []
   \<and> length (attempt_history S rule d (Suc n) w) \<le> Suc n"
proof (induction n arbitrary: u w)
  case 0
  obtain a w1 where a: "execute_rule_once S rule w = (Inr a, w1)" using execute_rule_once_returns by blast
  then show ?case by (simp add: ebind_def)
next
  case (Suc n)
  obtain a w1 where a: "execute_rule_once S rule w = (Inr a, w1)" using execute_rule_once_returns by blast
  show ?case
  proof (cases "is_retryable_result (at_result a)")
    case False
    with a show ?thesis by (simp add: ebind_def)
  next
    case True
    let ?w2 = "if 0 < d then snd (sleep_for d w1) else w1"
    have "run_attempts S rule d (Suc (Suc n)) u w = run_attempts S rule d (Suc n) (u + 1) ?w2"
      using a True by (simp add: ebind_def sleep_for_def ereturn_def)
    moreover have "attempt_history S rule d (Suc (Suc n)) w = a # attempt_history S rule d (Suc n) ?w2"
      using a True by simp
    ultimately show ?thesis
      using Suc.IH [of "u + 1" ?w2] by (auto simp del: attempt_history.simps(2) run_attempts.simps(2))
  qed
qed

lemma attempt_history_undelivered:
  "a \<in> set (butlast (attempt_history S rule d n w)) \<Longrightarrow>
     is_retryable_result (at_result a) \<and> list_all (\<lambda>r. \<not> delivered r) (er_mail_results (at_result a))"
proof (induction n arbitrary: w)
  case 0
  then show ?case by simp
next
  case (Suc n)
  obtain b w1 where b: "execute_rule_once S rule w = (Inr b, w1)" using execute_rule_once_returns by blast
  show ?case
  proof (cases "is_retryable_result (at_result b) \<and> n \<noteq> 0")
    case True
    let ?w2 = "if 0 < d then snd (sleep_for d w1) else w1"
    from True have failed: "er_status (at_result b) = FAILED"
      by (auto simp: is_retryable_result_def split: if_splits)
    have "attempt_history S rule d (Suc n) w = b # attempt_history S rule d n ?w2" using b True by simp
    with Suc.prems have "a = b \<or> a \<in> set (butlast (attempt_history S rule d n ?w2))"
      by (auto split: if_splits)
    then show ?thesis
      using Suc.IH True once_failed_undelivered [OF b failed] by blast
  next
    case False
    with b Suc.prems show ?thesis by auto
  qed
qed

section \<open>The execution as a whole\<close>

lemma execution_body_persists:
  assumes "libraries_frame S" and "execution_body S rule trigger n d w = (r, w')"
  obtains result supp s f w2 where "committed w2 = committed w" "working w2 = working w"
    "persist_execution_result (surroundings S) rule trigger result supp s f w2 = (r, w')"
proof -
  let ?E = "surroundings S"
  let ?w1 = "tick w"
  obtain m where m: "nat (max 1 n) = Suc m" by (metis Suc_pred' max.strict_coboundedI1 zero_less_nat_eq zero_less_one)
  from attempt_history_run [of S rule d m 0 ?w1] obtain a used w2 where
    run: "run_attempts S rule d (nat (max 1 n)) 0 ?w1 = (Inr (Some a, used), w2)"
    unfolding m by blast
  from preserves_sameD [OF run_attempts_same_db [OF assms(1)] run]
  have same: "committed (tick w2) = committed w" "working (tick w2) = working w" by simp_all
  have "persist_execution_result ?E rule trigger (with_exhausted_retry_message (at_result a) used)
      (at_suppression a) (clock ?E (ticks w)) (clock ?E (ticks w2)) (tick w2) = (r, w')"
    using assms(2) run by (simp add: execution_body_def ebind_def utc_now_def)
  with same that show thesis by blast
qed

lemma persisted_log:
  assumes "persisted E rule trigger result supp s f d d' lg" and "ar_id rule = Some rid"
  shows "execution_logs d' = execution_logs d @ [lg]" "el_rule_id lg = rid" "el_trigger_type lg = trigger"
    "leases d' = leases d"
proof -
  from assms(1) obtain mls d1 where d1: "d1 = (case supp of
        Some st \<Rightarrow> if er_status result = SUCCESS then note_keys E rule st d else d | None \<Rightarrow> d)"
    and lg: "lg = build_execution_log rule trigger result s f (assign_id E (map el_id (execution_logs d)))"
    and d': "d' = d1\<lparr>execution_logs := execution_logs d @ [lg], mail_logs := mail_logs d @ mls\<rparr>"
    unfolding persisted_def Let_def by blast
  have "leases d1 = leases d"
    unfolding d1 by (cases supp) (simp_all add: note_keys_leases)
  then show "execution_logs d' = execution_logs d @ [lg]" "el_rule_id lg = rid" "el_trigger_type lg = trigger"
    "leases d' = leases d"
    by (simp_all add: d' lg build_execution_log_def assms(2))
qed

lemma execution_runs:
  assumes "libraries_frame S" and "no_faults (surroundings S)"
    and "db_get ar_id rule_id (alert_rules (working w)) = Some rule" and "ar_archived_at rule = None"
    and "lease_in_range (surroundings S) (tick w) (rule_execution_lease_seconds S)"
    and "lease_of (leases (working w)) rule_id = None
      \<or> le_expires_at (the (lease_of (leases (working w)) rule_id)) \<le> clock (surroundings S) (Suc (ticks w))"
  shows "\<exists>lg w'. execute_rule_by_id S rule_id trigger n d w = (Inr lg, w')"
proof -
  let ?E = "surroundings S"
  let ?body = "execution_body S rule trigger n d"
  let ?new = "new_lease ?E (tick w) rule_id (rule_execution_lease_seconds S)"
  have sel: "le_rule_id ?new = rule_id" "le_acquired_at ?new = clock ?E (Suc (ticks w))"
    by (simp_all add: new_lease_def)
  have "fst (upsert_lease ?new (leases (working w))) = 1"
    using assms(6) upsert_rowcount [of ?new "leases (working w)"] sel by (auto split: option.splits)
  then obtain token w2 where acq:
    "acquire_rule_execution_lease ?E rule_id (rule_execution_lease_seconds S) (tick w) = (Inr token, w2)"
    using acquire_run [OF assms(2,5), of rule_id] by (simp add: Let_def)
  obtain b w3 where b: "?body w2 = (b, w3)" by (metis surj_pair)
  obtain result supp s f w4 where
    p: "persist_execution_result ?E rule trigger result supp s f w4 = (b, w3)"
    by (rule execution_body_persists [OF assms(1) b])
  obtain lg w5 where "persist_execution_result ?E rule trigger result supp s f w4 = (Inr lg, w5)"
    using no_faults_persist [OF assms(2)] by blast
  with p have lg: "b = Inr lg" by simp
  obtain r w' where ex: "rule_execution_lease ?E rule_id (rule_execution_lease_seconds S) ?body (tick w) = (r, w')"
    by (metis surj_pair)
  have "r = Inr lg" using lease_released [OF assms(2) acq b ex] lg by simp
  moreover have "db_query ?E (\<lambda>db. db_get ar_id rule_id (alert_rules db)) w = (Inr (Some rule), tick w)"
    using assms(2,3) by (simp add: db_query_Inr)
  ultimately show ?thesis
    using ex assms(4) by (simp add: execute_rule_by_id_def ebind_def)
qed

section \<open>Properties\<close>

text \<open>
  C2. The records of an execution are all or nothing: whatever database call fails, the committed
  database either is unchanged or has gained exactly the execution log, one mail log per message
  with the status of its delivery, and, for a success only, the suppression marks; a call that
  returns has gained them; and nothing is left pending.
\<close>

theorem persist_all_or_nothing:
  assumes "committed w = working w" and "persist_execution_result E rule trigger result supp s f w = (r, w')"
  shows "working w' = committed w'
    \<and> (committed w' = committed w \<and> (\<exists>exc. r = Inl exc)
       \<or> (\<exists>lg mls. persisted E rule trigger result supp s f (committed w) (committed w') lg
            \<and> execution_logs (committed w') = execution_logs (committed w) @ [lg]
            \<and> mail_logs (committed w') = mail_logs (committed w) @ mls
            \<and> list_all2 (records_mail (the (el_id lg))) (er_mail_results result) mls
            \<and> (r = Inr lg \<or> (\<exists>exc. r = Inl exc))))"
proof -
  have logs: "\<exists>mls. execution_logs d' = execution_logs d @ [lg] \<and> mail_logs d' = mail_logs d @ mls
      \<and> list_all2 (records_mail (the (el_id lg))) (er_mail_results result) mls"
    if "persisted E rule trigger result supp s f d d' lg" for d d' lg
    using that by (auto simp: persisted_def Let_def)
  note p = persist_result [OF assms]
  show ?thesis
  proof (cases r)
    case (Inl exc)
    with p logs show ?thesis by auto
  next
    case (Inr lg)
    with p logs show ?thesis by auto
  qed
qed

text \<open>
  C4. Retries are bounded and never follow a delivery: a run makes between one and
  \<open>max(1, max_attempts)\<close> attempts and reports the last one with the true number of attempts; each
  attempt that was followed by another had a retryable failure and had reached no recipient, so a
  retry never repeats a mail the mailer reported as delivered.
\<close>

theorem retries_bounded_and_safe:
  assumes "1 \<le> n" and "as = attempt_history S rule d n w"
  shows "(\<exists>w'. run_attempts S rule d n 0 w = (Inr (Some (last as), int (length as)), w'))
    \<and> 1 \<le> length as \<and> length as \<le> n
    \<and> list_all (\<lambda>a. is_retryable_result (at_result a)
         \<and> list_all (\<lambda>r. \<not> delivered r) (er_mail_results (at_result a))) (butlast as)"
proof -
  obtain m where m: "n = Suc m" using assms(1) by (cases n) auto
  from attempt_history_run [of S rule d m 0 w] have
    "\<exists>w'. run_attempts S rule d n 0 w = (Inr (Some (last as), int (length as)), w')" "as \<noteq> []" "length as \<le> n"
    unfolding m assms(2) by auto
  moreover have "list_all (\<lambda>a. is_retryable_result (at_result a)
         \<and> list_all (\<lambda>r. \<not> delivered r) (er_mail_results (at_result a))) (butlast as)"
    using attempt_history_undelivered unfolding assms(2) list_all_iff by blast
  ultimately show ?thesis by (cases as) auto
qed

text \<open>
  C1. With a working database, an execution that is not refused writes exactly one log, for this
  rule and trigger, and its lease is gone when it returns; a refused one (unknown or archived rule,
  rule already running) writes no log. Either way nothing is left pending.
\<close>

theorem execution_logged_exactly_once:
  assumes "libraries_frame S" and "no_faults (surroundings S)" and "committed w = working w"
    and "distinct (lease_keys (leases (committed w)))"
    and "execute_rule_by_id S rule_id trigger n d w = (r, w')"
  shows "working w' = committed w'
    \<and> (case r of
         Inr lg \<Rightarrow> execution_logs (committed w') = execution_logs (committed w) @ [lg]
           \<and> el_rule_id lg = rule_id \<and> el_trigger_type lg = trigger
           \<and> lease_of (leases (committed w')) rule_id = None
       | Inl exc \<Rightarrow> execution_logs (committed w') = execution_logs (committed w)
           \<and> mail_logs (committed w') = mail_logs (committed w))"
proof -
  let ?E = "surroundings S"
  let ?w1 = "tick w"
  have q: "db_query ?E (\<lambda>db. db_get ar_id rule_id (alert_rules db)) w = (Inr (db_get ar_id rule_id (alert_rules (working w))), ?w1)"
    using assms(2) by (simp add: db_query_Inr)
  show ?thesis
  proof (cases "\<exists>rule. db_get ar_id rule_id (alert_rules (working w)) = Some rule \<and> ar_archived_at rule = None")
    case False
    then have "\<exists>exc. r = Inl exc" "w' = ?w1"
      using assms(5) q by (auto simp: execute_rule_by_id_def Let_def ebind_def split: option.splits if_splits)
    with assms(3) show ?thesis by auto
  next
    case True
    then obtain rule where rule: "db_get ar_id rule_id (alert_rules (working w)) = Some rule" "ar_archived_at rule = None"
      by blast
    from rule(1) have id: "ar_id rule = Some rule_id" by (auto dest: db_get_Some)
    let ?body = "execution_body S rule trigger n d"
    have ex: "rule_execution_lease ?E rule_id (rule_execution_lease_seconds S) ?body ?w1 = (r, w')"
      using assms(5) q rule by (simp add: execute_rule_by_id_def Let_def ebind_def)
    obtain a w2 where acq: "acquire_rule_execution_lease ?E rule_id (rule_execution_lease_seconds S) ?w1 = (a, w2)"
      by (metis surj_pair)
    show ?thesis
    proof (cases a)
      case (Inl exc)
      have "r = Inl exc" "w' = w2" using ex acq Inl by (simp_all add: rule_execution_lease_def ebind_def)
      moreover have "committed w2 = committed w" "working w2 = committed w2"
        using refused_lease [OF assms(2) _ acq [unfolded Inl]] assms(3) by simp_all
      ultimately show ?thesis by simp
    next
      case (Inr token)
      from granted_lease [OF assms(2) acq [unfolded Inr]] obtain new where
        g: "committed w2 = (working ?w1)\<lparr>leases := snd (upsert_lease new (leases (working ?w1)))\<rparr>"
          "working w2 = committed w2" "le_rule_id new = rule_id" "le_owner_token new = token"
          "fst (upsert_lease new (leases (working ?w1))) = 1" by blast
      obtain b w3 where b: "?body w2 = (b, w3)" by (metis surj_pair)
      obtain result supp s f w4 where
        p: "committed w4 = committed w2" "working w4 = working w2"
          "persist_execution_result ?E rule trigger result supp s f w4 = (b, w3)"
        by (rule execution_body_persists [OF assms(1) b])
      obtain lg w5 where "persist_execution_result ?E rule trigger result supp s f w4 = (Inr lg, w5)"
        using no_faults_persist [OF assms(2)] by blast
      with p(3) have lg: "b = Inr lg" by simp
      have "committed w4 = working w4" using p(1,2) g(2) by simp
      from persist_result [OF this p(3)]
      have per: "persisted ?E rule trigger result supp s f (committed w2) (committed w3) lg"
        unfolding lg p(1) by simp
      have out: "r = Inr lg" "working w' = committed w'"
        "committed w' = (committed w3)\<lparr>leases := delete_lease rule_id token (leases (committed w3))\<rparr>"
        using lease_released [OF assms(2) acq [unfolded Inr] b ex] lg by simp_all
      note logs = persisted_log [OF per id]
      have "lease_of (leases (committed w2)) rule_id = Some new" "distinct (lease_keys (leases (committed w2)))"
        using g assms(3,4) upsert_distinct by (simp_all add: upsert_lease_of)
      then have "lease_of (leases (committed w')) rule_id = None"
        using out(3) logs(4) g(4) by (simp add: delete_lease_of)
      with out logs g assms(3) show ?thesis by simp
    qed
  qed
qed

text \<open>
  C5. Nothing but a refusal keeps an execution from its log: with a working database, a rule that
  exists, is not archived and has no unexpired lease is executed, and the call returns a log,
  whatever SQL Server, the templates, the suppression settings or the SMTP server do.
\<close>

theorem execution_always_returns:
  assumes "libraries_frame S" and "no_faults (surroundings S)"
    and "db_get ar_id rule_id (alert_rules (working w)) = Some rule" and "ar_archived_at rule = None"
    and "lease_in_range (surroundings S) (tick w) (rule_execution_lease_seconds S)"
    and "lease_of (leases (working w)) rule_id = None
      \<or> le_expires_at (the (lease_of (leases (working w)) rule_id)) \<le> clock (surroundings S) (Suc (ticks w))"
  shows "\<exists>lg w'. execute_rule_by_id S rule_id trigger n d w = (Inr lg, w')"
  using assms by (rule execution_runs)

lemma window_overflows:
  assumes "now - h * 3600 * us_per_second < datetime_min"
  shows "\<exists>m. ebind (elift (timedelta_hours h)) (\<lambda>window.
      ebind (elift (datetime_in_range (now - window))) f) w = (Inl (OverflowError m), w)"
  using assms by (auto simp: timedelta_hours_def timedelta_us_def datetime_in_range_def Let_def)

text \<open>
  C8. A suppression window that reaches back before the year 1 disables its rule: the cutoff
  raises \<open>OverflowError\<close>, so that every attempt fails before the query is run, no mail is ever sent,
  and the failure is not retried.
\<close>

theorem suppression_window_overflow:
  assumes "no_faults (surroundings S)"
    and "db_get ds_id (ar_data_source_id rule) (data_sources (working w)) = Some ds" and "ds_enabled ds"
    and "filter sc_enabled (smtp_configs (working w)) = [config]"
    and "ar_suppress_duplicates rule" and "ar_suppression_key_field rule \<noteq> []"
    and "clock (surroundings S) (ticks w + 2) - ar_suppression_window_hours rule * 3600 * us_per_second < datetime_min"
  shows "\<exists>w'. execute_rule_once S rule w =
      (Inr \<lparr>at_result = failed_result (str ''OverflowError'') RULE_EXECUTION_FAILURE, at_suppression = None\<rparr>, w')
    \<and> \<not> is_retryable_result (failed_result (str ''OverflowError'') RULE_EXECUTION_FAILURE)"
proof -
  let ?E = "surroundings S"
  let ?w = "tick (tick w)"
  have ds: "get_enabled_data_source ?E rule w = (Inr ds, tick w)"
    using assms(1-3) by (simp add: get_enabled_data_source_def ebind_def db_query_def db_exec_def tick_def)
  have sc: "get_enabled_smtp_config ?E (tick w) = (Inr config, ?w)"
    using assms(1,4) by (simp add: get_enabled_smtp_config_def ebind_def db_query_def db_exec_def tick_def)
  have ticks: "ticks ?w = ticks w + 2" by simp
  obtain m where "build_suppression_filter ?E rule ?w = (Inl (OverflowError m), tick ?w)"
    using assms(5,6) window_overflows [OF assms(7), of _ "tick ?w"] ticks
    by (auto simp: build_suppression_filter_def ebind_def [of "utc_now ?E"] utc_now_def)
  with ds sc have "execute_rule_once S rule w =
      (Inr \<lparr>at_result = failed_result (str ''OverflowError'') RULE_EXECUTION_FAILURE, at_suppression = None\<rparr>, tick ?w)"
    by (simp add: execute_rule_once_def ecatch_def ebind_def public_error_summary_def ereturn_def)
  then show ?thesis
    by (simp add: is_retryable_result_def failed_result_def new_result_def retryable_error_types_def)
qed

section \<open>Concrete instances\<close>

text \<open>A service whose key cannot be loaded, so that every attempt fails with a retryable error.\<close>

definition keyless_service :: "(nat, nat, unit, unit) service_env" where
  "keyless_service = \<lparr>surroundings = quiet_env, sqlglot_lib = sample_sqlglot,
     odbc_driver_lib = \<lparr>pyodbc_import = None, run_batch = (\<lambda>_ _ _. eraise (OtherError [] [])),
                        connection_exit = ereturn ()\<rparr>,
     odbc_available = True,
     smtp_library = \<lparr>smtp_ssl_connect = (\<lambda>_ _ _. ereturn ()), smtp_connect = (\<lambda>_ _ _. ereturn ()),
        smtp_starttls = (\<lambda>_. ereturn ()), smtp_login = (\<lambda>_ _ _. ereturn ()),
        smtp_transport = \<lparr>header_value = (\<lambda>_ v. Inr v), mime_string = (\<lambda>m. Inr (mime_html m)),
          client_factory = ereturn (), client_sendmail = (\<lambda>_ _ _ _. ereturn []),
          client_quit = (\<lambda>_. None), client_close = (\<lambda>_. None)\<rparr>\<rparr>,
     jinja_lib = (\<lambda>_ t _. Inr t),
     fernet = unary_fernet\<lparr>new_fernet := (\<lambda>_. Inl (RuntimeError []))\<rparr>, secret_key = [],
     rule_execution_lease_seconds = 7200\<rparr>"

definition sample_source :: sql_data_source where
  "sample_source = \<lparr>ds_id = Some 1, ds_name = [], ds_host = [], ds_port = 1433, ds_database = [],
     ds_username = [], ds_encrypted_password = [], ds_enabled = True, ds_connect_timeout_seconds = 10,
     ds_odbc_driver = [], ds_server_override = [], ds_encrypt = [], ds_trust_server_certificate = [],
     ds_extra_params = [], ds_created_at = 0, ds_updated_at = 0\<rparr>"

definition sample_smtp_config :: smtp_config where
  "sample_smtp_config = \<lparr>sc_id = Some 1, sc_host = [], sc_port = 25, sc_username = [],
     sc_encrypted_password = [], sc_sender = [], sc_use_tls = True, sc_use_ssl = False,
     sc_timeout_seconds = 10, sc_enabled = True, sc_updated_at = 0\<rparr>"

definition service_db :: db where
  "service_db = empty_db\<lparr>data_sources := [sample_source], smtp_configs := [sample_smtp_config],
     alert_rules := [sample_rule]\<rparr>"

lemma keyless_frame: "libraries_frame keyless_service"
  by (simp add: libraries_frame_def transport_frame_def optional_preserves_def keyless_service_def
      sd.ereturn sd.eraise)

lemma keyless_quiet: "no_faults (surroundings keyless_service)"
  by (simp add: keyless_service_def quiet_no_faults)

lemma keyless_once:
  assumes "working w = service_db"
  shows "execute_rule_once keyless_service sample_rule w =
    (Inr \<lparr>at_result = failed_result (str ''RuntimeError'') RULE_EXECUTION_FAILURE, at_suppression = None\<rparr>, tick (tick w))"
proof -
  have "get_enabled_data_source quiet_env sample_rule w = (Inr sample_source, tick w)"
    using assms by (simp add: get_enabled_data_source_def ebind_def db_query_def db_exec_def tick_def quiet_env_def
        service_db_def db_get_def sample_source_def sample_rule_def)
  moreover have "get_enabled_smtp_config quiet_env (tick w) = (Inr sample_smtp_config, tick (tick w))"
    using assms by (simp add: get_enabled_smtp_config_def ebind_def db_query_def db_exec_def tick_def quiet_env_def
        service_db_def sample_smtp_config_def)
  moreover have "build_suppression_filter quiet_env sample_rule = ereturn None"
    by (simp add: build_suppression_filter_def sample_rule_def)
  moreover have "build_sql_client keyless_service sample_source = Inl (RuntimeError [])"
    by (simp add: build_sql_client_def decrypt_secret_def from_key_material_def encode_res_def keyless_service_def)
  moreover have "surroundings keyless_service = quiet_env" by (simp add: keyless_service_def)
  ultimately show ?thesis
    by (simp add: execute_rule_once_def ecatch_def ebind_def public_error_summary_def ereturn_def elift_def)
qed

lemma runtime_retryable: "is_retryable_result (failed_result (str ''RuntimeError'') m)"
  by (simp add: is_retryable_result_def failed_result_def new_result_def retryable_error_types_def)

lemma keyless_history: "length (attempt_history keyless_service sample_rule 1 3 (new_world service_db)) = 3"
proof -
  have "attempt_history keyless_service sample_rule 1 (Suc n) w =
      \<lparr>at_result = failed_result (str ''RuntimeError'') RULE_EXECUTION_FAILURE, at_suppression = None\<rparr>
      # (if n = 0 then [] else attempt_history keyless_service sample_rule 1 n (snd (sleep_for 1 (tick (tick w)))))"
    if "working w = service_db" for n w
    using keyless_once [OF that] by (simp add: runtime_retryable)
  then show ?thesis by (simp add: numeral_3_eq_3 sleep_for_def del: attempt_history.simps(2))
qed

theorem retries_bounded_and_safe_witness:
  "length (attempt_history keyless_service sample_rule 1 3 (new_world service_db)) = 3
   \<and> (\<exists>a w'. run_attempts keyless_service sample_rule 1 3 0 (new_world service_db) = (Inr (Some a, 3), w'))"
proof -
  have "(1::nat) \<le> 3" by simp
  from retries_bounded_and_safe [OF this refl, of keyless_service sample_rule 1 "new_world service_db"] keyless_history
  show ?thesis by auto
qed

text \<open>An environment in which the commit of the records fails.\<close>

definition failing_env :: env where
  "failing_env = quiet_env\<lparr>fault := (\<lambda>n. if n = 1 then Some (OtherError (str ''OperationalError'') []) else None)\<rparr>"

theorem persist_all_or_nothing_witness:
  "fst (persist_execution_result failing_env sample_rule MANUAL (new_result SUCCESS) None 0 1 (new_world service_db))
     = Inl (OtherError (str ''OperationalError'') [])
   \<and> working (snd (persist_execution_result failing_env sample_rule MANUAL (new_result SUCCESS) None 0 1 (new_world service_db)))
     = committed (snd (persist_execution_result failing_env sample_rule MANUAL (new_result SUCCESS) None 0 1 (new_world service_db)))"
proof -
  let ?p = "persist_execution_result failing_env sample_rule MANUAL (new_result SUCCESS) None 0 1 (new_world service_db)"
  have "fst ?p = Inl (OtherError (str ''OperationalError'') [])"
    by (simp add: persist_execution_result_def rollback_on_error_def eff_defs add_execution_log_def db_exec_def
        db_commit_def db_rollback_def failing_env_def quiet_env_def new_result_def Let_def split: prod.splits)
  moreover have "committed (new_world service_db) = working (new_world service_db)" by simp
  ultimately show ?thesis
    using persist_all_or_nothing [OF _ prod.collapse [symmetric],
        of "new_world service_db" failing_env sample_rule MANUAL "new_result SUCCESS" None 0 1] by simp
qed

lemma service_rule: "db_get ar_id 7 (alert_rules service_db) = Some sample_rule" "ar_archived_at sample_rule = None"
  by (simp_all add: service_db_def db_get_def sample_rule_def)

lemma keyless_range: "lease_in_range (surroundings keyless_service) (tick (new_world service_db))
    (rule_execution_lease_seconds keyless_service)"
  by (simp add: lease_in_range_def keyless_service_def quiet_env_def time_defs)

lemma keyless_returns: "\<exists>lg w'. execute_rule_by_id keyless_service 7 MANUAL 3 1 (new_world service_db) = (Inr lg, w')"
proof -
  have "working (new_world service_db) = service_db" "leases service_db = []"
    by (simp_all add: service_db_def empty_db_def)
  then show ?thesis
    using execution_runs [OF keyless_frame keyless_quiet _ service_rule(2) keyless_range] service_rule(1) by simp
qed

theorem execution_always_returns_witness:
  "\<exists>lg w'. execute_rule_by_id keyless_service 7 SCHEDULED 3 1 (new_world service_db) = (Inr lg, w')"
proof -
  have w: "working (new_world service_db) = service_db" "leases service_db = []"
    by (simp_all add: service_db_def empty_db_def)
  from service_rule(1) have "db_get ar_id 7 (alert_rules (working (new_world service_db))) = Some sample_rule"
    by simp
  from execution_always_returns [OF keyless_frame keyless_quiet this service_rule(2) keyless_range] w
  show ?thesis by simp
qed

theorem execution_logged_exactly_once_witness:
  "\<exists>lg w'. execute_rule_by_id keyless_service 7 MANUAL 3 1 (new_world service_db) = (Inr lg, w')
     \<and> execution_logs (committed w') = [lg] \<and> el_rule_id lg = 7 \<and> lease_of (leases (committed w')) 7 = None"
proof -
  obtain lg w' where e: "execute_rule_by_id keyless_service 7 MANUAL 3 1 (new_world service_db) = (Inr lg, w')"
    using keyless_returns by blast
  have "committed (new_world service_db) = working (new_world service_db)"
    "distinct (lease_keys (leases (committed (new_world service_db))))"
    by (simp_all add: service_db_def empty_db_def lease_keys_def)
  from execution_logged_exactly_once [OF keyless_frame keyless_quiet this e] e show ?thesis
    by (auto simp: service_db_def empty_db_def)
qed

theorem suppression_window_overflow_witness:
  "\<exists>w'. execute_rule_once keyless_service (keyed_rule\<lparr>ar_suppression_window_hours := 100000000\<rparr>) (new_world service_db) =
      (Inr \<lparr>at_result = failed_result (str ''OverflowError'') RULE_EXECUTION_FAILURE, at_suppression = None\<rparr>, w')"
proof -
  let ?r = "keyed_rule\<lparr>ar_suppression_window_hours := 100000000\<rparr>"
  have "db_get ds_id (ar_data_source_id ?r) (data_sources (working (new_world service_db))) = Some sample_source"
    "ds_enabled sample_source"
    "filter sc_enabled (smtp_configs (working (new_world service_db))) = [sample_smtp_config]"
    "ar_suppress_duplicates ?r" "ar_suppression_key_field ?r \<noteq> []"
    "clock (surroundings keyless_service) (ticks (new_world service_db) + 2)
       - ar_suppression_window_hours ?r * 3600 * us_per_second < datetime_min"
    by (simp_all add: service_db_def db_get_def sample_source_def sample_smtp_config_def keyed_rule_def
        sample_rule_def keyless_service_def quiet_env_def us_per_second_def datetime_min_def)
  from suppression_window_overflow [OF keyless_quiet this] show ?thesis by blast
qed

end
