(* ===== verification/Py_Int.thy ===== *)
theory Py_Int
  imports Prelude
begin

text \<open>
  Python's \<open>int(text)\<close>, which the routes, the log filters and the scheduler apply to submitted text:
  surrounding white space, a sign, decimal digits of any script with single underscores between them,
  and the limit of 4300 digits. \<open>None\<close> is the \<open>ValueError\<close>. The decimal value of the code points
  above 127 is a parameter (the Unicode tables of the interpreter).
\<close>

section \<open>Definition\<close>

definition int_space :: "nat \<Rightarrow> bool" where
  "int_space c \<longleftrightarrow> (9 \<le> c \<and> c \<le> 13) \<or> c = 32 \<or> (128 \<le> c \<and> is_space c)"

definition digit_value :: "(nat \<Rightarrow> nat option) \<Rightarrow> nat \<Rightarrow> nat option" where
  "digit_value decimals c =
     (if 48 \<le> c \<and> c \<le> 57 then Some (c - 48) else if c < 128 then None else decimals c)"

fun int_digits :: "(nat \<Rightarrow> nat option) \<Rightarrow> pystr \<Rightarrow> nat list option" where
  "int_digits decimals [] = None"
| "int_digits decimals [c] = map_option (\<lambda>d. [d]) (digit_value decimals c)"
| "int_digits decimals (c # c' # cs) =
     (case digit_value decimals c of
        None \<Rightarrow> None
      | Some d \<Rightarrow> map_option ((#) d) (if c' = 95 then int_digits decimals cs else int_digits decimals (c' # cs)))"

definition digits_value :: "nat list \<Rightarrow> nat" where
  "digits_value ds = foldl (\<lambda>a d. 10 * a + d) 0 ds"

definition int_max_str_digits :: nat where
  "int_max_str_digits = 4300"

definition int_trim :: "pystr \<Rightarrow> pystr" where
  "int_trim s = rev (dropWhile int_space (rev (dropWhile int_space s)))"

definition py_int :: "(nat \<Rightarrow> nat option) \<Rightarrow> pystr \<Rightarrow> int option" where
  "py_int decimals s =
     (let t = int_trim s;
          negative = (case t of c # _ \<Rightarrow> c = 45 | [] \<Rightarrow> False);
          body = (case t of c # r \<Rightarrow> if c = 43 \<or> c = 45 then r else t | [] \<Rightarrow> [])
      in case int_digits decimals body of
           None \<Rightarrow> None
         | Some ds \<Rightarrow>
             if int_max_str_digits < length ds then None
             else Some (if negative then - int (digits_value ds) else int (digits_value ds)))"

section \<open>Reading back what \<open>str\<close> wrote\<close>

lemma nat_str_step: "nat_str n = (if n < 10 then [48 + n] else nat_str (n div 10) @ [48 + n mod 10])"
  by (rule nat_str.simps)

definition digit_chars :: "pystr \<Rightarrow> bool" where
  "digit_chars s \<longleftrightarrow> list_all (\<lambda>c. 48 \<le> c \<and> c \<le> 57) s"

lemma digit_chars_nat_str [simp]: "digit_chars (nat_str n)"
  by (auto simp: digit_chars_def list_all_iff dest: nat_str_digits)

lemma int_digits_digit_chars:
  "s \<noteq> [] \<Longrightarrow> digit_chars s \<Longrightarrow> int_digits decimals s = Some (map (\<lambda>c. c - 48) s)"
  by (induction decimals s rule: int_digits.induct) (auto simp: digit_chars_def digit_value_def)

lemma digits_value_snoc [simp]: "digits_value (ds @ [d]) = 10 * digits_value ds + d"
  by (simp add: digits_value_def)

lemma digits_value_nat_str: "digits_value (map (\<lambda>c. c - 48) (nat_str n)) = n"
proof (induction n rule: nat_str.induct)
  case (1 n)
  show ?case
  proof (cases "n < 10")
    case True
    then show ?thesis by (simp add: nat_str_step [of n] digits_value_def)
  next
    case False
    with 1 show ?thesis by (simp add: nat_str_step [of n])
  qed
qed

lemma nat_str_length: "0 < k \<Longrightarrow> n < 10 ^ k \<Longrightarrow> length (nat_str n) \<le> k"
proof (induction k arbitrary: n)
  case 0
  then show ?case by simp
next
  case (Suc k)
  show ?case
  proof (cases "n < 10")
    case True
    then show ?thesis by (simp add: nat_str_step [of n])
  next
    case False
    with Suc.prems have "0 < k" by (cases k) auto
    moreover have "n div 10 < 10 ^ k" using Suc.prems by (simp add: less_mult_imp_div_less mult.commute)
    ultimately show ?thesis using Suc.IH [of "n div 10"] False by (simp add: nat_str_step [of n])
  qed
qed

lemma dropWhile_none: "list_all (\<lambda>c. \<not> P c) s \<Longrightarrow> dropWhile P s = s"
  by (cases s) auto

lemma dropWhile_space_digits:
  assumes "digit_chars s"
  shows "dropWhile int_space s = s" and "dropWhile int_space (rev s) = rev s"
proof -
  have "list_all (\<lambda>c. \<not> int_space c) s"
    using assms by (auto simp: digit_chars_def list_all_iff int_space_def)
  then show "dropWhile int_space s = s" and "dropWhile int_space (rev s) = rev s"
    by (intro dropWhile_none; simp add: list_all_iff)+
qed

lemma py_int_of_digits:
  assumes "digit_chars s" and "s \<noteq> []" and "length s \<le> int_max_str_digits"
  shows "py_int decimals s = Some (int (digits_value (map (\<lambda>c. c - 48) s)))"
    and "py_int decimals (45 # s) = Some (- int (digits_value (map (\<lambda>c. c - 48) s)))"
proof -
  obtain c cs where cs: "s = c # cs" using assms(2) by (cases s) auto
  then have c: "c \<noteq> 43" "c \<noteq> 45" using assms(1) by (auto simp: digit_chars_def)
  have digits: "int_digits decimals s = Some (map (\<lambda>c. c - 48) s)"
    by (rule int_digits_digit_chars [OF assms(2,1)])
  have trim: "int_trim s = s" by (simp add: int_trim_def dropWhile_space_digits [OF assms(1)])
  have body: "(case s of c # r \<Rightarrow> if c = 43 \<or> c = 45 then r else s | [] \<Rightarrow> []) = s"
      "(case s of c # _ \<Rightarrow> c = 45 | [] \<Rightarrow> False) = False"
    using c cs by simp_all
  show "py_int decimals s = Some (int (digits_value (map (\<lambda>c. c - 48) s)))"
    using assms(3) unfolding py_int_def Let_def trim body digits by simp
  obtain e es where es: "rev s = e # es" using assms(2) by (cases "rev s") auto
  then have "\<not> int_space e" using dropWhile_space_digits(2) [OF assms(1)]
    by (metis dropWhile_eq_Cons_conv)
  then have "int_trim (45 # s) = 45 # s"
    using es by (simp add: int_trim_def int_space_def [of 45] rev_swap)
  then show "py_int decimals (45 # s) = Some (- int (digits_value (map (\<lambda>c. c - 48) s)))"
    using digits assms(3) unfolding py_int_def Let_def by simp
qed

lemma int_max_str_digits_pos: "0 < int_max_str_digits"
  by (simp add: int_max_str_digits_def)

theorem py_int_int_str:
  assumes "\<bar>i\<bar> < 10 ^ int_max_str_digits"
  shows "py_int decimals (int_str i) = Some i"
proof -
  have "int (nat \<bar>i\<bar>) < int (10 ^ int_max_str_digits)" using assms by simp
  then have "nat \<bar>i\<bar> < 10 ^ int_max_str_digits" by (simp only: of_nat_less_iff)
  then have len: "length (nat_str (nat \<bar>i\<bar>)) \<le> int_max_str_digits"
    by (rule nat_str_length [OF int_max_str_digits_pos])
  note digits = py_int_of_digits [OF digit_chars_nat_str nat_str_not_Nil len, of decimals]
  show ?thesis
  proof (cases "i < 0")
    case True
    then have "int_str i = 45 # nat_str (nat \<bar>i\<bar>)" by (simp add: int_str_def)
    then show ?thesis using digits(2) True by (simp only: digits_value_nat_str) simp
  next
    case False
    then have "int_str i = nat_str (nat \<bar>i\<bar>)" by (simp add: int_str_def)
    then show ?thesis using digits(1) False by (simp only: digits_value_nat_str) simp
  qed
qed

lemma nat_str_inject [simp]: "nat_str m = nat_str n \<longleftrightarrow> m = n"
  by (metis digits_value_nat_str)

lemma nat_str_no_minus: "nat_str n \<noteq> 45 # s"
proof
  assume "nat_str n = 45 # s"
  then have "45 \<in> set (nat_str n)" by simp
  then show False by (auto dest: nat_str_digits)
qed

lemma int_str_inject [simp]: "int_str i = int_str j \<longleftrightarrow> i = j"
  using nat_str_no_minus nat_str_no_minus [symmetric] by (auto simp: int_str_def)

text \<open>Small integers, as the forms and job identifiers write them.\<close>

lemma py_int_small: "\<bar>i\<bar> < 10 ^ 30 \<Longrightarrow> py_int decimals (int_str i) = Some i"
proof (rule py_int_int_str)
  assume "\<bar>i\<bar> < 10 ^ 30"
  also have "(10::int) ^ 30 \<le> 10 ^ int_max_str_digits"
  proof (rule power_increasing)
    show "30 \<le> int_max_str_digits" by (simp add: int_max_str_digits_def)
  qed simp
  finally show "\<bar>i\<bar> < 10 ^ int_max_str_digits" .
qed

end
