(* ===== verification/Scheduler.thy ===== *)
theory Scheduler
  imports Store Py_Int
begin

text \<open>
  \<open>app/scheduler.py\<close>: which rules are scheduled, and how a \<open>RuleScheduleSynchronizer\<close> brings the
  jobs of the scheduler in line with them. APScheduler and its cron triggers are parameters; what the
  synchronizer relies on is that a call which returns did what it says and one that raises left the
  table of jobs alone (\<open>job_table\<close>). The synchronizer's own state is the dictionary
  \<open>known_cron_by_rule_id\<close>; an effect here acts on the pair of the scheduler's state and that dictionary.
\<close>

section \<open>The scheduler\<close>

text \<open>A job is seen through its trigger. Every job is added with \<open>replace_existing\<close>, one instance at
  a time, coalesced, with the given grace time for misfires and the rule id as its argument.\<close>

record ('s, 'tr) job_scheduler =
  get_jobs :: "('s, (pystr \<times> 'tr) list) eff"
  get_job :: "pystr \<Rightarrow> ('s, 'tr option) eff"
  add_job :: "pystr \<Rightarrow> int \<Rightarrow> 'tr \<Rightarrow> int \<Rightarrow> ('s, unit) eff"
  remove_job :: "pystr \<Rightarrow> ('s, unit) eff"
  reschedule_job :: "pystr \<Rightarrow> 'tr \<Rightarrow> ('s, unit) eff"
  from_crontab :: "pystr \<Rightarrow> 'tr res"
  trigger_str :: "'tr \<Rightarrow> pystr"
  decimals_of :: "nat \<Rightarrow> nat option"

definition RULE_SCHEDULE_SYNC_FAILURE :: pystr where
  "RULE_SCHEDULE_SYNC_FAILURE = [0x89C4, 0x5219, 0x8C03, 0x5EA6, 0x540C, 0x6B65, 0x672A, 0x5B8C, 0x5168, 0x6210, 0x529F]"

fun valid_scheduled_rules :: "('s, 'tr) job_scheduler \<Rightarrow> alert_rule list \<Rightarrow> alert_rule list res" where
  "valid_scheduled_rules S [] = Inr []"
| "valid_scheduled_rules S (rule # rules) =
     (if ar_archived_at rule \<noteq> None \<or> \<not> ar_enabled rule \<or> ar_id rule = None
      then valid_scheduled_rules S rules
      else case from_crontab S (ar_cron_expression rule) of
             Inl (ValueError m) \<Rightarrow> valid_scheduled_rules S rules
           | Inl exc \<Rightarrow> Inl exc
           | Inr t \<Rightarrow> map_sum id ((#) rule) (valid_scheduled_rules S rules))"

definition job_id :: "int \<Rightarrow> pystr" where
  "job_id rule_id = str ''rule-'' @ int_str rule_id"

definition rule_id_from_job_id :: "('s, 'tr) job_scheduler \<Rightarrow> pystr \<Rightarrow> int option" where
  "rule_id_from_job_id S j =
     (if startswith j (str ''rule-'') then py_int (decimals_of S) (drop 5 j) else None)"

definition cron_signature :: "('s, 'tr) job_scheduler \<Rightarrow> pystr \<Rightarrow> pystr res" where
  "cron_signature S cron = map_sum id (trigger_str S) (from_crontab S cron)"

definition add_rule_job :: "('s, 'tr) job_scheduler \<Rightarrow> int \<Rightarrow> alert_rule \<Rightarrow> ('s, unit) eff" where
  "add_rule_job S grace rule =
     ebind (elift (from_crontab S (ar_cron_expression rule))) (\<lambda>t.
       add_job S (job_id (the (ar_id rule))) (the (ar_id rule)) t grace)"

section \<open>The synchronizer\<close>

type_synonym known_crons = "(int \<times> pystr) list"

definition on_scheduler :: "('s, 'a) eff \<Rightarrow> ('s \<times> known_crons, 'a) eff" where
  "on_scheduler m = (\<lambda>(s, known). case m s of (r, s') \<Rightarrow> (r, (s', known)))"

definition get_known :: "('s \<times> known_crons, known_crons) eff" where
  "get_known = (\<lambda>(s, known). (Inr known, (s, known)))"

definition put_known :: "known_crons \<Rightarrow> ('s \<times> known_crons, unit) eff" where
  "put_known known = (\<lambda>(s, _). (Inr (), (s, known)))"

text \<open>The constructor: the jobs the scheduler already has are known by their triggers.\<close>

definition init_synchronizer :: "('s, 'tr) job_scheduler \<Rightarrow> ('s, known_crons) eff" where
  "init_synchronizer S =
     ebind (get_jobs S) (\<lambda>jobs.
       ereturn (fold (\<lambda>(j, t) known.
         case rule_id_from_job_id S j of
           Some i \<Rightarrow> AList.update i (trigger_str S t) known | None \<Rightarrow> known) jobs []))"

definition remove_rule :: "('s, 'tr) job_scheduler \<Rightarrow> int \<Rightarrow> ('s \<times> known_crons, unit) eff" where
  "remove_rule S rule_id =
     ebind (on_scheduler (get_job S (job_id rule_id))) (\<lambda>job.
     ebind (if job \<noteq> None then on_scheduler (remove_job S (job_id rule_id)) else ereturn ()) (\<lambda>_.
     ebind get_known (\<lambda>known. put_known (AList.delete rule_id known))))"

definition sync_rule ::
  "('s, 'tr) job_scheduler \<Rightarrow> int \<Rightarrow> int \<times> alert_rule \<Rightarrow> ('s \<times> known_crons, unit) eff" where
  "sync_rule S grace = (\<lambda>(rule_id, rule).
     ebind (on_scheduler (get_job S (job_id rule_id))) (\<lambda>job.
     ebind (elift (cron_signature S (ar_cron_expression rule))) (\<lambda>signature.
     ebind get_known (\<lambda>known.
       if map_of known rule_id = Some signature \<and> job \<noteq> None then ereturn ()
       else
         ebind
           (if job = None then on_scheduler (add_rule_job S grace rule)
            else ebind (elift (from_crontab S (ar_cron_expression rule))) (\<lambda>t.
                   on_scheduler (reschedule_job S (job_id rule_id) t))) (\<lambda>_.
         ebind get_known (\<lambda>known. put_known (AList.update rule_id signature known)))))))"

text \<open>A loop whose body is \<open>try ... except Exception: failed_operations += 1\<close>.\<close>

fun count_failures :: "'a list \<Rightarrow> ('a \<Rightarrow> ('s, unit) eff) \<Rightarrow> ('s, nat) eff" where
  "count_failures [] f = ereturn 0"
| "count_failures (x # xs) f =
     ebind (ecatch (ebind (f x) (\<lambda>_. ereturn 0)) (\<lambda>_. ereturn 1)) (\<lambda>n.
     ebind (count_failures xs f) (\<lambda>m. ereturn (n + m)))"

text \<open>The order in which Python iterates over a set of integers is a parameter.\<close>

definition sync_schedule ::
  "('s, 'tr) job_scheduler \<Rightarrow> (int list \<Rightarrow> int list) \<Rightarrow> int \<Rightarrow> alert_rule list \<Rightarrow> ('s \<times> known_crons, unit) eff" where
  "sync_schedule S set_order grace rules =
     ebind (elift (valid_scheduled_rules S rules)) (\<lambda>valid.
     ebind get_known (\<lambda>known.
     let desired = dict_of_pairs (map (\<lambda>r. (the (ar_id r), r)) valid);
         stale = set_order (filter (\<lambda>i. map_of desired i = None) (map fst known))
     in ebind (count_failures stale (remove_rule S)) (\<lambda>n.
        ebind (count_failures desired (sync_rule S grace)) (\<lambda>m.
          if 0 < n + m then eraise (RuleScheduleSyncError RULE_SCHEDULE_SYNC_FAILURE)
          else ereturn ()))))"

text \<open>\<open>fresh\<close> is a new background scheduler; its zone is Asia/Shanghai.\<close>

definition build_scheduler ::
  "('s, 'tr) job_scheduler \<Rightarrow> 's \<Rightarrow> int \<Rightarrow> alert_rule list \<Rightarrow> unit res \<times> 's" where
  "build_scheduler S fresh grace rules =
     ebind (elift (valid_scheduled_rules S rules)) (\<lambda>valid. efor valid (add_rule_job S grace)) fresh"

section \<open>Rules and job identifiers\<close>

lemma job_id_inject [simp]: "job_id i = job_id j \<longleftrightarrow> i = j"
  by (simp add: job_id_def)

lemma rule_id_from_job_id_job_id:
  "\<bar>i\<bar> < 10 ^ 30 \<Longrightarrow> rule_id_from_job_id S (job_id i) = Some i"
  by (simp add: rule_id_from_job_id_def job_id_def startswith_def py_int_small str_def)

definition schedulable :: "('s, 'tr) job_scheduler \<Rightarrow> alert_rule \<Rightarrow> bool" where
  "schedulable S rule \<longleftrightarrow>
     ar_archived_at rule = None \<and> ar_enabled rule \<and> ar_id rule \<noteq> None
     \<and> (\<exists>t. from_crontab S (ar_cron_expression rule) = Inr t)"

lemma valid_scheduled_rules_filter:
  "valid_scheduled_rules S rules = Inr valid \<Longrightarrow> valid = filter (schedulable S) rules"
proof (induction rules arbitrary: valid)
  case Nil
  then show ?case by simp
next
  case (Cons rule rules)
  then show ?case
    by (cases "valid_scheduled_rules S rules")
      (auto simp: schedulable_def split: if_splits sum.splits exn.splits)
qed

section \<open>What the synchronizer relies on\<close>

definition job_table :: "('s, 'tr) job_scheduler \<Rightarrow> ('s \<Rightarrow> pystr \<Rightarrow> 'tr option) \<Rightarrow> bool" where
  "job_table S jobs \<longleftrightarrow>
     (\<forall>s j r s'. get_job S j s = (r, s') \<longrightarrow> jobs s' = jobs s \<and> (case r of Inr x \<Rightarrow> x = jobs s j | Inl _ \<Rightarrow> True))
     \<and> (\<forall>s j i t g r s'. add_job S j i t g s = (r, s')
          \<longrightarrow> jobs s' = (case r of Inr _ \<Rightarrow> (jobs s)(j := Some t) | Inl _ \<Rightarrow> jobs s))
     \<and> (\<forall>s j r s'. remove_job S j s = (r, s')
          \<longrightarrow> jobs s' = (case r of Inr _ \<Rightarrow> (jobs s)(j := None) | Inl _ \<Rightarrow> jobs s))
     \<and> (\<forall>s j t r s'. reschedule_job S j t s = (r, s')
          \<longrightarrow> jobs s' = (case r of Inr _ \<Rightarrow> (jobs s)(j := Some t) | Inl _ \<Rightarrow> jobs s))"

lemma job_table_calls:
  assumes "job_table S jobs"
  shows "get_job S j s = (r, s') \<Longrightarrow> jobs s' = jobs s" "get_job S j s = (Inr x, s') \<Longrightarrow> x = jobs s j"
    "add_job S j i t g s = (Inr u, s') \<Longrightarrow> jobs s' = (jobs s)(j := Some t)"
    "add_job S j i t g s = (Inl exc, s') \<Longrightarrow> jobs s' = jobs s"
    "remove_job S j s = (Inr u, s') \<Longrightarrow> jobs s' = (jobs s)(j := None)"
    "remove_job S j s = (Inl exc, s') \<Longrightarrow> jobs s' = jobs s"
    "reschedule_job S j t s = (Inr u, s') \<Longrightarrow> jobs s' = (jobs s)(j := Some t)"
    "reschedule_job S j t s = (Inl exc, s') \<Longrightarrow> jobs s' = jobs s"
  using assms unfolding job_table_def by (fastforce split: sum.splits)+

text \<open>
  The abstract state: for each rule the schedule of its job, as the scheduler has it and as the
  synchronizer remembers it. It is coherent when the two agree wherever both exist.
\<close>

definition schedule_view ::
  "('s, 'tr) job_scheduler \<Rightarrow> ('s \<Rightarrow> pystr \<Rightarrow> 'tr option) \<Rightarrow> 's \<times> known_crons \<Rightarrow> int \<Rightarrow> pystr option \<times> pystr option" where
  "schedule_view S jobs = (\<lambda>(s, known) i. (map_option (trigger_str S) (jobs s (job_id i)), map_of known i))"

definition coherent_view :: "pystr option \<times> pystr option \<Rightarrow> bool" where
  "coherent_view v \<longleftrightarrow> (case v of (Some a, Some b) \<Rightarrow> a = b | _ \<Rightarrow> True)"

definition other_jobs :: "('s \<Rightarrow> pystr \<Rightarrow> 'tr option) \<Rightarrow> 's \<times> known_crons \<Rightarrow> pystr \<Rightarrow> 'tr option" where
  "other_jobs jobs st j = (if j \<in> range job_id then None else jobs (fst st) j)"

text \<open>What one operation may do: nothing when it raises, and only to its rule when it returns.\<close>

definition hits :: "('s, 'tr) job_scheduler \<Rightarrow> ('s \<Rightarrow> pystr \<Rightarrow> 'tr option) \<Rightarrow> int \<Rightarrow> pystr option \<times> pystr option
    \<Rightarrow> ('s \<times> known_crons, unit) eff \<Rightarrow> bool" where
  "hits S jobs i target m \<longleftrightarrow>
     (\<forall>st r st'. m st = (r, st') \<longrightarrow> coherent_view (schedule_view S jobs st i) \<longrightarrow>
        other_jobs jobs st' = other_jobs jobs st
        \<and> schedule_view S jobs st' = (case r of
            Inr _ \<Rightarrow> (schedule_view S jobs st)(i := target) | Inl _ \<Rightarrow> schedule_view S jobs st))"

lemma hitsI:
  assumes "\<And>s known r s' known'. m (s, known) = (r, (s', known'))
      \<Longrightarrow> coherent_view (map_option (trigger_str S) (jobs s (job_id i)), map_of known i)
      \<Longrightarrow> (case r of
            Inr _ \<Rightarrow> (\<exists>x. jobs s' = (jobs s)(job_id i := x) \<and> map_option (trigger_str S) x = fst target)
                     \<and> map_of known' = (map_of known)(i := snd target)
          | Inl _ \<Rightarrow> jobs s' = jobs s \<and> known' = known)"
  shows "hits S jobs i target m"
  unfolding hits_def
proof (intro allI impI)
  fix st r st'
  assume run: "m st = (r, st')" and coh: "coherent_view (schedule_view S jobs st i)"
  obtain s known s' known' where st: "st = (s, known)" "st' = (s', known')" by (cases st; cases st')
  from assms [of s known r s' known'] run coh
  show "other_jobs jobs st' = other_jobs jobs st
      \<and> schedule_view S jobs st' = (case r of
          Inr _ \<Rightarrow> (schedule_view S jobs st)(i := target) | Inl _ \<Rightarrow> schedule_view S jobs st)"
    by (cases target) (auto simp: st schedule_view_def other_jobs_def fun_eq_iff split: sum.splits)
qed

lemma remove_rule_hits:
  assumes "job_table S jobs"
  shows "hits S jobs i (None, None) (remove_rule S i)"
proof (rule hitsI)
  fix s known r s' known'
  assume run: "remove_rule S i (s, known) = (r, (s', known'))"
  note T = job_table_calls [OF assms]
  obtain r1 s1 where g: "get_job S (job_id i) s = (r1, s1)" by (cases "get_job S (job_id i) s")
  obtain r2 s2 where d: "remove_job S (job_id i) s1 = (r2, s2)" by (cases "remove_job S (job_id i) s1")
  have same: "(jobs s)(job_id i := None) = jobs s" if "jobs s (job_id i) = None" using that by auto
  show "case r of
      Inr _ \<Rightarrow> (\<exists>x. jobs s' = (jobs s)(job_id i := x) \<and> map_option (trigger_str S) x = fst (None, None))
               \<and> map_of known' = (map_of known)(i := snd (None, None))
    | Inl _ \<Rightarrow> jobs s' = jobs s \<and> known' = known"
    using run T(1) [OF g] T(2) [of "job_id i" s _ s1] T(5) [of "job_id i" s1 _ s2] T(6) [of "job_id i" s1 _ s2] same
    by (cases r1; cases r2)
      (auto simp: remove_rule_def eff_defs on_scheduler_def get_known_def put_known_def g d dict_simps
        split: if_splits)
qed

lemma sync_rule_hits:
  assumes "job_table S jobs" and cron: "from_crontab S (ar_cron_expression rule) = Inr t" and "ar_id rule = Some i"
  shows "hits S jobs i (Some (trigger_str S t), Some (trigger_str S t)) (sync_rule S grace (i, rule))"
proof (rule hitsI)
  fix s known r s' known'
  assume run: "sync_rule S grace (i, rule) (s, known) = (r, (s', known'))"
    and coh: "coherent_view (map_option (trigger_str S) (jobs s (job_id i)), map_of known i)"
  note T = job_table_calls [OF assms(1)]
  define j where "j = job_id i"
  obtain r1 s1 where g: "get_job S j s = (r1, s1)" by (cases "get_job S j s")
  obtain r2 s2 where a: "add_job S j i t grace s1 = (r2, s2)" by (cases "add_job S j i t grace s1")
  obtain r3 s3 where e: "reschedule_job S j t s1 = (r3, s3)" by (cases "reschedule_job S j t s1")
  have same: "jobs s = (jobs s)(j := jobs s j)" "map_of known = (map_of known)(i := map_of known i)" by auto
  have run': "sync_rule S grace (i, rule) (s, known) =
     (case r1 of
        Inl exc \<Rightarrow> (Inl exc, (s1, known))
      | Inr job \<Rightarrow>
          if map_of known i = Some (trigger_str S t) \<and> job \<noteq> None then (Inr (), (s1, known))
          else if job = None then
            (case r2 of Inl exc \<Rightarrow> (Inl exc, (s2, known))
             | Inr _ \<Rightarrow> (Inr (), (s2, AList.update i (trigger_str S t) known)))
          else
            (case r3 of Inl exc \<Rightarrow> (Inl exc, (s3, known))
             | Inr _ \<Rightarrow> (Inr (), (s3, AList.update i (trigger_str S t) known))))"
    by (simp add: sync_rule_def eff_defs on_scheduler_def get_known_def put_known_def g a e cron
        cron_signature_def add_rule_job_def assms(3) j_def [symmetric] split: sum.splits)
  show "case r of
      Inr _ \<Rightarrow> (\<exists>x. jobs s' = (jobs s)(job_id i := x)
                 \<and> map_option (trigger_str S) x = fst (Some (trigger_str S t), Some (trigger_str S t)))
               \<and> map_of known' = (map_of known)(i := snd (Some (trigger_str S t), Some (trigger_str S t)))
    | Inl _ \<Rightarrow> jobs s' = jobs s \<and> known' = known"
  proof (cases r1)
    case (Inl exc)
    then show ?thesis using run run' T(1) [OF g] by auto
  next
    case (Inr job)
    have job: "job = jobs s j" "jobs s1 = jobs s" using T(1,2) g Inr by blast+
    show ?thesis
    proof (cases "map_of known i = Some (trigger_str S t) \<and> job \<noteq> None")
      case True
      then have "map_option (trigger_str S) (jobs s j) = Some (trigger_str S t)"
        using coh job by (auto simp: coherent_view_def j_def)
      then show ?thesis
        using True run run' Inr job same by (auto simp: j_def [symmetric] fun_upd_idem intro!: exI [of _ "jobs s j"])
    next
      case False
      then show ?thesis
        using run run' Inr job T(3) [of j i t grace s1 _ s2] T(4) [of j i t grace s1 _ s2]
          T(7) [of j t s1 _ s3] T(8) [of j t s1 _ s3] a e
        by (auto simp: j_def [symmetric] dict_simps split: sum.splits if_splits)
    qed
  qed
qed


section \<open>The loops\<close>

lemma hitsD:
  assumes "hits S jobs i target m" and "m st = (r, st')" and "coherent_view (schedule_view S jobs st i)"
  shows "other_jobs jobs st' = other_jobs jobs st"
    and "schedule_view S jobs st' = (case r of
          Inr _ \<Rightarrow> (schedule_view S jobs st)(i := target) | Inl _ \<Rightarrow> schedule_view S jobs st)"
  using assms unfolding hits_def by blast+

definition loop_result ::
  "('s, 'tr) job_scheduler \<Rightarrow> ('s \<Rightarrow> pystr \<Rightarrow> 'tr option) \<Rightarrow> ('a \<Rightarrow> int) \<Rightarrow> ('a \<Rightarrow> pystr option \<times> pystr option)
     \<Rightarrow> 'a list \<Rightarrow> 's \<times> known_crons \<Rightarrow> nat \<Rightarrow> 's \<times> known_crons \<Rightarrow> bool" where
  "loop_result S jobs key target xs st n st' \<longleftrightarrow>
     other_jobs jobs st' = other_jobs jobs st
     \<and> (\<forall>i. i \<notin> key ` set xs \<longrightarrow> schedule_view S jobs st' i = schedule_view S jobs st i)
     \<and> (\<forall>x \<in> set xs. schedule_view S jobs st' (key x) \<in> {schedule_view S jobs st (key x), target x})
     \<and> (n = 0 \<longrightarrow> (\<forall>x \<in> set xs. schedule_view S jobs st' (key x) = target x))"

lemma count_failures_hits:
  "(\<And>x. x \<in> set xs \<Longrightarrow> hits S jobs (key x) (target x) (f x)) \<Longrightarrow> distinct (map key xs)
    \<Longrightarrow> (\<And>x. x \<in> set xs \<Longrightarrow> coherent_view (schedule_view S jobs st (key x)))
    \<Longrightarrow> \<exists>n st'. count_failures xs f st = (Inr n, st') \<and> loop_result S jobs key target xs st n st'"
proof (induction xs arbitrary: st)
  case Nil
  then show ?case by (simp add: loop_result_def)
next
  case (Cons x xs)
  obtain r st1 where x: "f x st = (r, st1)" by (cases "f x st")
  have hit: "hits S jobs (key x) (target x) (f x)" and coh: "coherent_view (schedule_view S jobs st (key x))"
    using Cons.prems by simp_all
  note step = hitsD [OF hit x coh]
  have new: "key y \<noteq> key x" if "y \<in> set xs" for y
    using that Cons.prems(2) by (metis distinct.simps(2) image_eqI image_set list.simps(9))
  have rest: "schedule_view S jobs st1 i = schedule_view S jobs st i" if "i \<noteq> key x" for i
    using that by (cases r) (simp_all add: step(2))
  have "\<exists>m st'. count_failures xs f st1 = (Inr m, st') \<and> loop_result S jobs key target xs st1 m st'"
    using Cons.prems rest new by (intro Cons.IH) auto
  then obtain m st' where
    m: "count_failures xs f st1 = (Inr m, st')" "loop_result S jobs key target xs st1 m st'" by blast
  define n where "n = (case r of Inr _ \<Rightarrow> 0 | Inl _ \<Rightarrow> 1) + m"
  have run: "count_failures (x # xs) f st = (Inr n, st')"
    by (cases r) (simp_all add: n_def ebind_def ecatch_def ereturn_def x m(1))
  have here: "schedule_view S jobs st' (key x) = schedule_view S jobs st1 (key x)"
  proof -
    have "key x \<notin> key ` set xs" using new by force
    then show ?thesis using m(2) unfolding loop_result_def by blast
  qed
  have "loop_result S jobs key target (x # xs) st n st'"
    unfolding loop_result_def
  proof (intro conjI allI impI ballI)
    show "other_jobs jobs st' = other_jobs jobs st"
      using m(2) step(1) by (simp add: loop_result_def)
    show "schedule_view S jobs st' i = schedule_view S jobs st i" if "i \<notin> key ` set (x # xs)" for i
      using that m(2) rest [of i] by (simp add: loop_result_def)
    show "schedule_view S jobs st' (key y) \<in> {schedule_view S jobs st (key y), target y}"
      if "y \<in> set (x # xs)" for y
    proof (cases "y = x")
      case True
      then show ?thesis using here step(2) by (cases r) simp_all
    next
      case False
      then have y: "y \<in> set xs" using that by simp
      then show ?thesis using m(2) rest [OF new [OF y]] by (auto simp: loop_result_def)
    qed
    show "schedule_view S jobs st' (key y) = target y" if n: "n = 0" and y: "y \<in> set (x # xs)" for y
    proof (cases "y = x")
      case True
      have "\<exists>u. r = Inr u" using n by (cases r) (simp_all add: n_def)
      then show ?thesis using here step(2) True by auto
    next
      case False
      then show ?thesis using m(2) n y by (simp add: loop_result_def n_def)
    qed
  qed
  with run show ?case by blast
qed

section \<open>Synchronization\<close>

text \<open>The specification: the schedule each rule should have, none for a rule that is not scheduled.\<close>

definition wanted_schedule :: "('s, 'tr) job_scheduler \<Rightarrow> alert_rule list \<Rightarrow> int \<Rightarrow> pystr option" where
  "wanted_schedule S rules i =
     (case map_of (rev (map (\<lambda>r. (the (ar_id r), r)) (filter (schedulable S) rules))) i of
        None \<Rightarrow> None
      | Some rule \<Rightarrow>
          (case from_crontab S (ar_cron_expression rule) of Inr t \<Rightarrow> Some (trigger_str S t) | Inl _ \<Rightarrow> None))"

text \<open>The synchronizer knows every job of a rule, with its schedule.\<close>

definition tracked :: "pystr option \<times> pystr option \<Rightarrow> bool" where
  "tracked v \<longleftrightarrow> (case fst v of Some a \<Rightarrow> snd v = Some a | None \<Rightarrow> True)"

definition enumerates_sets :: "(int list \<Rightarrow> int list) \<Rightarrow> bool" where
  "enumerates_sets order \<longleftrightarrow> (\<forall>xs. set (order xs) = set xs \<and> distinct (order xs))"

lemma tracked_coherent: "tracked v \<Longrightarrow> coherent_view v"
  by (cases v) (auto simp: tracked_def coherent_view_def split: option.splits)

lemma tracked_pair [simp]: "tracked (a, a)"
  by (simp add: tracked_def split: option.splits)

lemma map_of_dict_of_pairs: "map_of (dict_of_pairs ps) = map_of (rev ps)"
  by (simp add: dict_of_pairs_def map_of_fold_update)

lemma desired_rules:
  assumes "valid_scheduled_rules S rules = Inr valid"
  defines "desired \<equiv> dict_of_pairs (map (\<lambda>r. (the (ar_id r), r)) valid)"
  shows "x \<in> set desired \<Longrightarrow> \<exists>t. ar_id (snd x) = Some (fst x) \<and> from_crontab S (ar_cron_expression (snd x)) = Inr t
      \<and> wanted_schedule S rules (fst x) = Some (trigger_str S t)"
    and "map_of desired i = None \<Longrightarrow> wanted_schedule S rules i = None"
    and "distinct (map fst desired)"
proof -
  have lookup: "map_of desired = map_of (rev (map (\<lambda>r. (the (ar_id r), r)) (filter (schedulable S) rules)))"
    unfolding desired_def map_of_dict_of_pairs valid_scheduled_rules_filter [OF assms(1)] ..
  show keys: "distinct (map fst desired)"
    unfolding desired_def by (rule distinct_dict_of_pairs)
  show "map_of desired i = None \<Longrightarrow> wanted_schedule S rules i = None"
    by (simp add: wanted_schedule_def lookup)
  assume x: "x \<in> set desired"
  then have found: "map_of desired (fst x) = Some (snd x)"
    using keys by (simp add: map_of_is_SomeI)
  then have "(fst x, snd x) \<in> set (rev (map (\<lambda>r. (the (ar_id r), r)) (filter (schedulable S) rules)))"
    unfolding lookup by (rule map_of_SomeD)
  then have rule: "fst x = the (ar_id (snd x))" "schedulable S (snd x)" by auto
  then obtain t where t: "from_crontab S (ar_cron_expression (snd x)) = Inr t" "ar_id (snd x) \<noteq> None"
    by (auto simp: schedulable_def)
  have "wanted_schedule S rules (fst x) = Some (trigger_str S t)"
    using found t(1) by (simp add: wanted_schedule_def lookup)
  with t rule(1) show "\<exists>t. ar_id (snd x) = Some (fst x) \<and> from_crontab S (ar_cron_expression (snd x)) = Inr t
      \<and> wanted_schedule S rules (fst x) = Some (trigger_str S t)" by auto
qed

lemma sync_schedule_views:
  assumes table: "job_table S jobs" and order: "enumerates_sets set_order"
    and valid: "valid_scheduled_rules S rules = Inr valid"
    and tracks: "\<And>i. tracked (schedule_view S jobs st i)"
  obtains n st' where
    "sync_schedule S set_order grace rules st =
       (if 0 < n then Inl (RuleScheduleSyncError RULE_SCHEDULE_SYNC_FAILURE) else Inr (), st')"
    "other_jobs jobs st' = other_jobs jobs st"
    "\<And>i. schedule_view S jobs st' i \<in> {schedule_view S jobs st i, (wanted_schedule S rules i, wanted_schedule S rules i)}"
    "\<And>i. (n :: nat) = 0 \<Longrightarrow> schedule_view S jobs st' i = (wanted_schedule S rules i, wanted_schedule S rules i)"
proof -
  obtain s known where st: "st = (s, known)" by (cases st)
  define desired where "desired = dict_of_pairs (map (\<lambda>r. (the (ar_id r), r)) valid)"
  define stale where "stale = set_order (filter (\<lambda>i. map_of desired i = None) (map fst known))"
  define target where "target = (\<lambda>i. (wanted_schedule S rules i, wanted_schedule S rules i))"
  note D = desired_rules [OF valid, folded desired_def]
  have stale: "set stale = {i. map_of known i \<noteq> None \<and> map_of desired i = None}" "distinct stale"
    using order by (auto simp: stale_def enumerates_sets_def map_of_eq_None_iff)
  have none: "target i = (None, None)" if "map_of desired i = None" for i
    using D(2) [OF that] by (simp add: target_def)
  have hits1: "hits S jobs i (target i) (remove_rule S i)" if "i \<in> set stale" for i
    using remove_rule_hits [OF table] none that stale(1) by auto
  have hits2: "hits S jobs (fst x) (target (fst x)) (sync_rule S grace x)" if "x \<in> set desired" for x
  proof -
    obtain i rule where x: "x = (i, rule)" by (cases x)
    from D(1) [OF that] obtain t where t: "ar_id rule = Some i" "from_crontab S (ar_cron_expression rule) = Inr t"
        "wanted_schedule S rules i = Some (trigger_str S t)" by (auto simp: x)
    show ?thesis using sync_rule_hits [OF table t(2,1), of grace] by (simp add: x target_def t(3))
  qed
  have "\<exists>n st1. count_failures stale (remove_rule S) st = (Inr n, st1)
      \<and> loop_result S jobs (\<lambda>i. i) target stale st n st1"
    by (rule count_failures_hits) (use hits1 stale(2) tracks tracked_coherent in auto)
  then obtain n st1 where 1: "count_failures stale (remove_rule S) st = (Inr n, st1)"
      "loop_result S jobs (\<lambda>i. i) target stale st n st1" by blast
  have view1: "schedule_view S jobs st1 i \<in> {schedule_view S jobs st i, target i}" for i
    using 1(2) by (cases "i \<in> set stale") (auto simp: loop_result_def)
  have "\<exists>m st2. count_failures desired (sync_rule S grace) st1 = (Inr m, st2)
      \<and> loop_result S jobs fst (\<lambda>x. target (fst x)) desired st1 m st2"
  proof (rule count_failures_hits)
    show "hits S jobs (fst x) (target (fst x)) (sync_rule S grace x)" if "x \<in> set desired" for x
      by (rule hits2 [OF that])
    show "distinct (map fst desired)" by (rule D(3))
    show "coherent_view (schedule_view S jobs st1 (fst x))" if "x \<in> set desired" for x
      using view1 [of "fst x"] tracks [of "fst x"] by (auto intro: tracked_coherent simp: target_def)
  qed
  then obtain m st2 where 2: "count_failures desired (sync_rule S grace) st1 = (Inr m, st2)"
      "loop_result S jobs fst (\<lambda>x. target (fst x)) desired st1 m st2" by blast
  have run: "sync_schedule S set_order grace rules st =
      (if 0 < n + m then Inl (RuleScheduleSyncError RULE_SCHEDULE_SYNC_FAILURE) else Inr (), st2)"
    using 1(1) 2(1) unfolding stale_def desired_def st
    by (simp add: sync_schedule_def Let_def valid get_known_def ebind_def elift_def ereturn_def eraise_def)
  have others: "other_jobs jobs st2 = other_jobs jobs st"
    using 1(2) 2(2) by (simp add: loop_result_def)
  have in_desired: "i \<in> fst ` set desired \<longleftrightarrow> map_of desired i \<noteq> None" for i
    by (simp add: map_of_eq_None_iff)
  have view2: "schedule_view S jobs st2 i \<in> {schedule_view S jobs st i, target i}" for i
  proof (cases "i \<in> fst ` set desired")
    case True
    then show ?thesis using 2(2) view1 [of i] by (auto simp: loop_result_def)
  next
    case False
    then show ?thesis using 2(2) view1 [of i] by (simp add: loop_result_def)
  qed
  have all_done: "schedule_view S jobs st2 i = target i" if "n + m = 0" for i
  proof (cases "i \<in> fst ` set desired")
    case True
    then show ?thesis using 2(2) that by (auto simp: loop_result_def)
  next
    case False
    then have same: "schedule_view S jobs st2 i = schedule_view S jobs st1 i"
      using 2(2) by (simp add: loop_result_def)
    show ?thesis
    proof (cases "i \<in> set stale")
      case True
      then show ?thesis using 1(2) that same by (simp add: loop_result_def)
    next
      case out: False
      then have "map_of known i = None" using False stale(1) in_desired by auto
      then have "schedule_view S jobs st i = (None, None)"
        using tracks [of i] by (auto simp: st schedule_view_def tracked_def split: option.splits)
      moreover have "target i = (None, None)" using none False in_desired by blast
      ultimately show ?thesis using 1(2) out same by (simp add: loop_result_def)
    qed
  qed
  show thesis
    by (rule that [OF run others]) (use view2 all_done in \<open>auto simp: target_def\<close>)
qed


lemma sync_schedule_facts:
  assumes "job_table S jobs" and "enumerates_sets set_order"
    and "valid_scheduled_rules S rules = Inr valid"
    and "\<And>i. tracked (schedule_view S jobs st i)"
    and run: "sync_schedule S set_order grace rules st = (r, st')"
  shows "r = Inr () \<or> r = Inl (RuleScheduleSyncError RULE_SCHEDULE_SYNC_FAILURE)"
    and "other_jobs jobs st' = other_jobs jobs st"
    and "schedule_view S jobs st' i
           \<in> {schedule_view S jobs st i, (wanted_schedule S rules i, wanted_schedule S rules i)}"
    and "r = Inr () \<Longrightarrow> schedule_view S jobs st' i = (wanted_schedule S rules i, wanted_schedule S rules i)"
    and "tracked (schedule_view S jobs st' i)"
proof -
  obtain n st2 where v:
    "sync_schedule S set_order grace rules st =
       (if 0 < n then Inl (RuleScheduleSyncError RULE_SCHEDULE_SYNC_FAILURE) else Inr (), st2)"
    "other_jobs jobs st2 = other_jobs jobs st"
    "\<And>i. schedule_view S jobs st2 i \<in> {schedule_view S jobs st i, (wanted_schedule S rules i, wanted_schedule S rules i)}"
    "\<And>i. (n :: nat) = 0 \<Longrightarrow> schedule_view S jobs st2 i = (wanted_schedule S rules i, wanted_schedule S rules i)"
    by (rule sync_schedule_views [OF assms(1-4)]) blast
  have st2: "st2 = st'" and r: "r = (if 0 < n then Inl (RuleScheduleSyncError RULE_SCHEDULE_SYNC_FAILURE) else Inr ())"
    using run v(1) by auto
  show "r = Inr () \<or> r = Inl (RuleScheduleSyncError RULE_SCHEDULE_SYNC_FAILURE)" using r by simp
  show "other_jobs jobs st' = other_jobs jobs st" using v(2) st2 by simp
  show "schedule_view S jobs st' i
      \<in> {schedule_view S jobs st i, (wanted_schedule S rules i, wanted_schedule S rules i)}"
    using v(3) st2 by blast
  show "schedule_view S jobs st' i = (wanted_schedule S rules i, wanted_schedule S rules i)" if "r = Inr ()"
    using v(4) st2 r that by (cases "n = 0") simp_all
  show "tracked (schedule_view S jobs st' i)"
    using v(3) [of i] assms(4) [of i] st2 by auto
qed

text \<open>
  C32. Synchronization refines the wanted schedule, rule by rule, whatever scheduler calls fail: it
  either returns or raises \<open>RuleScheduleSyncError\<close>; jobs that belong to no rule are untouched; every
  rule ends with exactly the job its cron expression asks for (none when it is archived, disabled or
  has no valid expression) or is left as it was, so that the failure of one rule never disturbs
  another; when it returns every rule is as wanted; and the synchronizer's memory stays true, so that
  the next synchronization repairs what failed.
\<close>

theorem sync_schedule_refines:
  assumes "job_table S jobs" and "enumerates_sets set_order"
    and "valid_scheduled_rules S rules = Inr valid"
    and "\<And>i. tracked (schedule_view S jobs st i)"
    and run: "sync_schedule S set_order grace rules st = (r, st')"
  shows "(r = Inr () \<or> r = Inl (RuleScheduleSyncError RULE_SCHEDULE_SYNC_FAILURE))
    \<and> other_jobs jobs st' = other_jobs jobs st
    \<and> schedule_view S jobs st' i
           \<in> {schedule_view S jobs st i, (wanted_schedule S rules i, wanted_schedule S rules i)}
    \<and> (r = Inr () \<longrightarrow> schedule_view S jobs st' i = (wanted_schedule S rules i, wanted_schedule S rules i))
    \<and> tracked (schedule_view S jobs st' i)"
  using sync_schedule_facts [OF assms] by blast

text \<open>A scheduler that keeps its jobs in a map and whose trigger is the expression itself; an empty
  expression is invalid.\<close>

definition map_scheduler :: "(pystr \<Rightarrow> pystr option, pystr) job_scheduler" where
  "map_scheduler = \<lparr>get_jobs = ereturn [], get_job = (\<lambda>j s. (Inr (s j), s)),
     add_job = (\<lambda>j i t g s. (Inr (), s(j := Some t))), remove_job = (\<lambda>j s. (Inr (), s(j := None))),
     reschedule_job = (\<lambda>j t s. (Inr (), s(j := Some t))),
     from_crontab = (\<lambda>c. if c = [] then Inl (ValueError []) else Inr c), trigger_str = (\<lambda>t. t),
     decimals_of = (\<lambda>c. None)\<rparr>"

lemma map_scheduler_table: "job_table map_scheduler (\<lambda>s. s)"
  by (auto simp: job_table_def map_scheduler_def)

definition cron_rule :: "int \<Rightarrow> pystr \<Rightarrow> alert_rule" where
  "cron_rule i cron = \<lparr>ar_id = Some i, ar_name = [], ar_data_source_id = 1, ar_sql_text = [],
     ar_cron_expression = cron, ar_recipients = [], ar_cc_recipients = [], ar_subject_template = [],
     ar_body_template = [], ar_send_mode = SUMMARY, ar_query_timeout_seconds = 30, ar_max_rows = 500,
     ar_enabled = True, ar_notes = [], ar_dynamic_recipient_field = [], ar_dynamic_cc_field = [],
     ar_suppress_duplicates = False, ar_suppression_key_field = [], ar_suppression_window_hours = 24,
     ar_created_at = 0, ar_archived_at = None, ar_updated_at = 0\<rparr>"

theorem sync_schedule_refines_witness:
  "\<exists>r st'. sync_schedule map_scheduler remdups 300 [cron_rule 7 (str ''0 9 * * *'')] (Map.empty, []) = (r, st')
     \<and> (r = Inr () \<longleftrightarrow> fst st' (job_id 7) = Some (str ''0 9 * * *''))"
proof -
  let ?rules = "[cron_rule 7 (str ''0 9 * * *'')]"
  have valid: "valid_scheduled_rules map_scheduler ?rules = Inr ?rules"
    by (simp add: cron_rule_def map_scheduler_def)
  have order: "enumerates_sets remdups" by (simp add: enumerates_sets_def)
  have tracks: "tracked (schedule_view map_scheduler (\<lambda>s. s) (Map.empty, []) i)" for i
    by (simp add: tracked_def schedule_view_def)
  obtain r st' where run: "sync_schedule map_scheduler remdups 300 ?rules (Map.empty, []) = (r, st')"
    by (cases "sync_schedule map_scheduler remdups 300 ?rules (Map.empty, [])")
  have wanted: "wanted_schedule map_scheduler ?rules 7 = Some (str ''0 9 * * *'')"
    by (simp add: wanted_schedule_def schedulable_def cron_rule_def map_scheduler_def)
  note R = sync_schedule_refines [OF map_scheduler_table order valid tracks run]
  have ok: "r = Inr ()"
    using run by (auto simp: sync_schedule_def valid ebind_def ecatch_def elift_def ereturn_def get_known_def
        put_known_def Let_def dict_of_pairs_def sync_rule_def on_scheduler_def map_scheduler_def
        cron_rule_def cron_signature_def add_rule_job_def)
  moreover have "fst st' (job_id 7) = Some (str ''0 9 * * *'')"
  proof -
    have "schedule_view map_scheduler (\<lambda>s. s) st' 7 = (Some (str ''0 9 * * *''), Some (str ''0 9 * * *''))"
      using R [of 7] ok by (simp only: wanted)
    moreover have "trigger_str map_scheduler = (\<lambda>t. t)" by (simp add: map_scheduler_def)
    ultimately show ?thesis by (simp add: schedule_view_def option.map_ident split: prod.splits)
  qed
  ultimately show ?thesis using run by blast
qed

text \<open>A new scheduler has no jobs, so that the synchronizer starts with a true memory.\<close>

lemma init_synchronizer_tracked:
  assumes "get_jobs S s = (Inr [], s')" and "\<And>j. jobs s' j = None"
  shows "\<exists>known. init_synchronizer S s = (Inr known, s') \<and> tracked (schedule_view S jobs (s', known) i)"
  using assms by (auto simp: init_synchronizer_def ebind_def tracked_def schedule_view_def)

text \<open>Building a scheduler adds the job of every valid rule when no call fails.\<close>

lemma add_rule_jobs_table:
  assumes "job_table S jobs" and "efor rules (add_rule_job S grace) s = (Inr (), s')"
    and "list_all (schedulable S) rules" and "distinct (map ar_id rules)"
  shows "list_all (\<lambda>rule. \<exists>t. from_crontab S (ar_cron_expression rule) = Inr t
           \<and> jobs s' (job_id (the (ar_id rule))) = Some t) rules
    \<and> (\<forall>j. j \<notin> (\<lambda>r. job_id (the (ar_id r))) ` set rules \<longrightarrow> jobs s' j = jobs s j)"
  using assms(2-4)
proof (induction rules arbitrary: s)
  case Nil
  then show ?case by simp
next
  case (Cons rule rules)
  then obtain s1 where 1: "add_rule_job S grace rule s = (Inr (), s1)" "efor rules (add_rule_job S grace) s1 = (Inr (), s')"
    by (auto simp: ebind_Inr)
  then obtain t where t: "from_crontab S (ar_cron_expression rule) = Inr t"
      "jobs s1 = (jobs s)(job_id (the (ar_id rule)) := Some t)"
    using job_table_calls(3) [OF assms(1)] by (auto simp: add_rule_job_def ebind_Inr)
  note IH = Cons.IH [OF 1(2)]
  have new: "job_id (the (ar_id rule)) \<notin> (\<lambda>r. job_id (the (ar_id r))) ` set rules"
  proof
    assume "job_id (the (ar_id rule)) \<in> (\<lambda>r. job_id (the (ar_id r))) ` set rules"
    then obtain r where r: "r \<in> set rules" "the (ar_id rule) = the (ar_id r)" by auto
    then have "ar_id r = ar_id rule"
      using Cons.prems(2) by (auto simp: schedulable_def list_all_iff)
    with r(1) Cons.prems(3) show False by (metis distinct.simps(2) image_eqI image_set list.simps(9))
  qed
  show ?case using IH Cons.prems t new by (auto simp: list_all_iff)
qed


section \<open>When the scheduler works\<close>

text \<open>No call raises that has no reason to: only removing or rescheduling a job that does not exist
  may, and a cron expression is refused with \<open>ValueError\<close> only.\<close>

definition reliable_scheduler :: "('s, 'tr) job_scheduler \<Rightarrow> ('s \<Rightarrow> pystr \<Rightarrow> 'tr option) \<Rightarrow> bool" where
  "reliable_scheduler S jobs \<longleftrightarrow>
     (\<forall>s j. \<exists>x s'. get_job S j s = (Inr x, s'))
     \<and> (\<forall>s j i t g. \<exists>s'. add_job S j i t g s = (Inr (), s'))
     \<and> (\<forall>s j. jobs s j \<noteq> None \<longrightarrow> (\<exists>s'. remove_job S j s = (Inr (), s')))
     \<and> (\<forall>s j t. jobs s j \<noteq> None \<longrightarrow> (\<exists>s'. reschedule_job S j t s = (Inr (), s')))
     \<and> (\<forall>c exc. from_crontab S c = Inl exc \<longrightarrow> (\<exists>m. exc = ValueError m))"

lemma valid_scheduled_rules_total:
  assumes "reliable_scheduler S jobs"
  shows "\<exists>valid. valid_scheduled_rules S rules = Inr valid"
proof (induction rules)
  case (Cons rule rules)
  then obtain valid where valid: "valid_scheduled_rules S rules = Inr valid" by blast
  show ?case
  proof (cases "from_crontab S (ar_cron_expression rule)")
    case (Inl exc)
    then obtain m where "exc = ValueError m" using assms unfolding reliable_scheduler_def by blast
    then show ?thesis using valid Inl by simp
  qed (use valid in simp)
qed simp

lemma reliable_calls:
  assumes "job_table S jobs" and "reliable_scheduler S jobs"
  obtains s1 where "get_job S j s = (Inr (jobs s j), s1)" "jobs s1 = jobs s"
proof -
  obtain x s1 where "get_job S j s = (Inr x, s1)" using assms(2) unfolding reliable_scheduler_def by blast
  with job_table_calls(1,2) [OF assms(1)] show thesis using that by metis
qed

lemma remove_rule_returns:
  assumes "job_table S jobs" and "reliable_scheduler S jobs"
  shows "\<exists>st'. remove_rule S i st = (Inr (), st')"
proof -
  obtain s known where st: "st = (s, known)" by (cases st)
  obtain s1 where g: "get_job S (job_id i) s = (Inr (jobs s (job_id i)), s1)" "jobs s1 = jobs s"
    by (rule reliable_calls [OF assms])
  show ?thesis
  proof (cases "jobs s (job_id i)")
    case None
    then show ?thesis by (simp add: remove_rule_def eff_defs on_scheduler_def get_known_def put_known_def g st)
  next
    case (Some t)
    then have "jobs s1 (job_id i) \<noteq> None" using g(2) by simp
    then obtain s2 where "remove_job S (job_id i) s1 = (Inr (), s2)"
      using assms(2) unfolding reliable_scheduler_def by blast
    then show ?thesis
      using Some by (simp add: remove_rule_def eff_defs on_scheduler_def get_known_def put_known_def g st)
  qed
qed

lemma sync_rule_returns:
  assumes "job_table S jobs" and "reliable_scheduler S jobs" and "from_crontab S (ar_cron_expression rule) = Inr t"
  shows "\<exists>st'. sync_rule S grace (i, rule) st = (Inr (), st')"
proof -
  obtain s known where st: "st = (s, known)" by (cases st)
  obtain s1 where g: "get_job S (job_id i) s = (Inr (jobs s (job_id i)), s1)" "jobs s1 = jobs s"
    by (rule reliable_calls [OF assms(1,2)])
  obtain s2 where a: "add_job S (job_id (the (ar_id rule))) (the (ar_id rule)) t grace s1 = (Inr (), s2)"
    using assms(2) unfolding reliable_scheduler_def by blast
  have "jobs s (job_id i) \<noteq> None \<Longrightarrow> \<exists>s3. reschedule_job S (job_id i) t s1 = (Inr (), s3)"
    using assms(2) g(2) unfolding reliable_scheduler_def by metis
  then show ?thesis
    using a assms(3)
    by (cases "jobs s (job_id i)"; cases "map_of known i = Some (trigger_str S t)")
      (auto simp: sync_rule_def eff_defs on_scheduler_def get_known_def put_known_def g st cron_signature_def
        add_rule_job_def)
qed

lemma count_failures_none:
  "(\<And>x st. x \<in> set xs \<Longrightarrow> \<exists>st'. f x st = (Inr (), st')) \<Longrightarrow> \<exists>st'. count_failures xs f st = (Inr 0, st')"
proof (induction xs arbitrary: st)
  case (Cons x xs)
  obtain st1 where x: "f x st = (Inr (), st1)" using Cons.prems [of x st] by auto
  have "\<exists>st'. count_failures xs f st1 = (Inr 0, st')" by (rule Cons.IH) (simp add: Cons.prems)
  then show ?case by (auto simp: ebind_def ecatch_def ereturn_def x)
qed simp

lemma sync_schedule_returns:
  assumes "job_table S jobs" and "reliable_scheduler S jobs"
  shows "\<exists>st'. sync_schedule S set_order grace rules st = (Inr (), st')"
proof -
  obtain valid where valid: "valid_scheduled_rules S rules = Inr valid"
    using valid_scheduled_rules_total [OF assms(2)] by blast
  obtain s known where st: "st = (s, known)" by (cases st)
  define desired where "desired = dict_of_pairs (map (\<lambda>r. (the (ar_id r), r)) valid)"
  define stale where "stale = set_order (filter (\<lambda>i. map_of desired i = None) (map fst known))"
  obtain st1 where 1: "count_failures stale (remove_rule S) st = (Inr 0, st1)"
    using count_failures_none [of stale "remove_rule S"] remove_rule_returns [OF assms] by blast
  have "\<exists>st'. sync_rule S grace x st = (Inr (), st')" if x: "x \<in> set desired" for x st
  proof -
    obtain t where "from_crontab S (ar_cron_expression (snd x)) = Inr t"
      using desired_rules(1) [OF valid, of x] x unfolding desired_def by blast
    from sync_rule_returns [OF assms this, of grace "fst x" st] show ?thesis by simp
  qed
  then obtain st2 where 2: "count_failures desired (sync_rule S grace) st1 = (Inr 0, st2)"
    using count_failures_none [of desired "sync_rule S grace"] by blast
  show ?thesis
    using 1 2 unfolding stale_def desired_def st
    by (simp add: sync_schedule_def Let_def valid get_known_def ebind_def elift_def ereturn_def)
qed

end
