(* ===== verification/Worker_Health.thy ===== *)
theory Worker_Health
  imports Store
begin

text \<open>
  \<open>app/worker_health.py\<close> and \<open>app/health.py\<close>: the heartbeat row the worker keeps, and what
  \<open>check_readiness\<close> and the readiness route of \<open>app/main.py\<close> conclude from it.
\<close>

section \<open>The heartbeat\<close>

definition WORKER_SYNC_FAILURE :: pystr where
  "WORKER_SYNC_FAILURE = [0x0057, 0x006F, 0x0072, 0x006B, 0x0065, 0x0072, 0x0020, 0x540C, 0x6B65, 0x5931, 0x8D25, 0xFF0C, 0x8BF7, 0x68C0, 0x67E5, 0x6570, 0x636E, 0x5E93, 0x8FDE, 0x63A5, 0x548C, 0x8C03, 0x5EA6, 0x914D, 0x7F6E]"

definition summarize_worker_error :: "exn \<Rightarrow> pystr" where
  "summarize_worker_error exc = WORKER_SYNC_FAILURE"

definition summarize_error_text :: "pystr \<Rightarrow> pystr" where
  "summarize_error_text text = WORKER_SYNC_FAILURE"

text \<open>A given time is naive, or carries its offset from UTC.\<close>

definition naive_utc :: "env \<Rightarrow> (datetime \<times> timedelta option) option \<Rightarrow> (world, datetime) eff" where
  "naive_utc E now =
     (case now of
        None \<Rightarrow> utc_now E
      | Some (t, None) \<Rightarrow> ereturn t
      | Some (t, Some offset) \<Rightarrow> elift (datetime_in_range (t - offset)))"

definition heartbeat_of :: "db \<Rightarrow> worker_heartbeat option" where
  "heartbeat_of d = find (\<lambda>h. hb_id h = 1) (heartbeats d)"

text \<open>The new row or the changed one; \<open>session.commit()\<close> writes it.\<close>

definition write_heartbeat ::
  "worker_heartbeat \<Rightarrow> (worker_heartbeat \<Rightarrow> worker_heartbeat) \<Rightarrow> db \<Rightarrow> db" where
  "write_heartbeat fresh change d =
     (if heartbeat_of d = None then d\<lparr>heartbeats := heartbeats d @ [fresh]\<rparr>
      else d\<lparr>heartbeats := update_first (\<lambda>h. hb_id h = 1) change (heartbeats d)\<rparr>)"

definition commit_write :: "env \<Rightarrow> (db \<Rightarrow> db) \<Rightarrow> (world, unit) eff" where
  "commit_write E f = rollback_on_error E (ebind (db_exec E (\<lambda>d. ((), f d))) (\<lambda>_. db_commit E))"

definition record_worker_start ::
  "env \<Rightarrow> pystr \<Rightarrow> (datetime \<times> timedelta option) option \<Rightarrow> (world, unit) eff" where
  "record_worker_start E worker_id now =
     ebind (naive_utc E now) (\<lambda>timestamp.
     ebind (db_query E heartbeat_of) (\<lambda>heartbeat.
     commit_write E (write_heartbeat
       \<lparr>hb_id = 1, hb_worker_id = worker_id, hb_started_at = timestamp, hb_last_seen_at = timestamp,
        hb_last_sync_ok = True, hb_last_error = []\<rparr>
       (\<lambda>h. h\<lparr>hb_worker_id := worker_id, hb_started_at := timestamp, hb_last_seen_at := timestamp,
              hb_last_sync_ok := True, hb_last_error := []\<rparr>))))"

definition record_worker_sync ::
  "env \<Rightarrow> pystr \<Rightarrow> bool \<Rightarrow> pystr \<Rightarrow> (datetime \<times> timedelta option) option \<Rightarrow> (world, unit) eff" where
  "record_worker_sync E worker_id ok error_text now =
     ebind (naive_utc E now) (\<lambda>timestamp.
     ebind (db_query E heartbeat_of) (\<lambda>heartbeat.
     let message = (if ok then [] else summarize_error_text error_text)
     in commit_write E (write_heartbeat
          \<lparr>hb_id = 1, hb_worker_id = worker_id, hb_started_at = timestamp, hb_last_seen_at = timestamp,
           hb_last_sync_ok = ok, hb_last_error = message\<rparr>
          (\<lambda>h. h\<lparr>hb_worker_id := worker_id, hb_last_seen_at := timestamp,
                 hb_last_sync_ok := ok, hb_last_error := message\<rparr>))))"

section \<open>Readiness\<close>

record readiness_result =
  rr_ready :: bool
  rr_components :: "(pystr \<times> pystr) list"

definition required_tables :: "pystr list" where
  "required_tables =
     [str ''adminuser'', str ''alertrule'', str ''executionlog'', str ''maillog'', str ''workerheartbeat'']"

definition readiness :: "bool \<Rightarrow> string \<Rightarrow> string \<Rightarrow> readiness_result" where
  "readiness ready database worker =
     \<lparr>rr_ready = ready, rr_components = [(str ''database'', str database), (str ''worker'', str worker)]\<rparr>"

text \<open>
  \<open>table_names\<close> is what the inspection of the schema returns. The session yields either the early
  answer or the heartbeat. The age is compared in microseconds; \<open>total_seconds()\<close> rounds it to a
  double, which is exact below 285 years.
\<close>

definition read_heartbeat :: "env \<Rightarrow> pystr list \<Rightarrow> (world, readiness_result + worker_heartbeat option) eff" where
  "read_heartbeat E table_names =
     ecatch
       (with_session
          (ebind (db_query E (\<lambda>_. ())) (\<lambda>_.
           ebind (db_query E (\<lambda>_. table_names)) (\<lambda>tables.
           if \<not> list_all (\<lambda>t. t \<in> set tables) required_tables
           then ereturn (Inl (readiness False ''schema_incomplete'' ''unknown''))
           else ebind (db_query E heartbeat_of) (\<lambda>heartbeat. ereturn (Inr heartbeat))))))
       (\<lambda>_. ereturn (Inl (readiness False ''unavailable'' ''unknown'')))"

definition heartbeat_verdict :: "int \<Rightarrow> datetime \<Rightarrow> worker_heartbeat \<Rightarrow> readiness_result" where
  "heartbeat_verdict heartbeat_timeout_seconds now heartbeat =
     (if now - hb_last_seen_at heartbeat > heartbeat_timeout_seconds * us_per_second
      then readiness False ''ready'' ''stale''
      else if \<not> hb_last_sync_ok heartbeat then readiness False ''ready'' ''sync_failed''
      else readiness True ''ready'' ''ready'')"

definition check_readiness :: "env \<Rightarrow> pystr list \<Rightarrow> int \<Rightarrow> (world, readiness_result) eff" where
  "check_readiness E table_names heartbeat_timeout_seconds =
     ebind (read_heartbeat E table_names) (\<lambda>answer.
       case answer of
         Inl result \<Rightarrow> ereturn result
       | Inr None \<Rightarrow> ereturn (readiness False ''ready'' ''missing'')
       | Inr (Some heartbeat) \<Rightarrow>
           ebind (utc_now E) (\<lambda>now. ereturn (heartbeat_verdict heartbeat_timeout_seconds now heartbeat)))"

text \<open>The route: status code, the text of \<open>status\<close>, and the components. \<open>get_engine()\<close> may raise.\<close>

definition readiness_route ::
  "env \<Rightarrow> unit res \<Rightarrow> pystr list \<Rightarrow> int \<Rightarrow> (world, int \<times> pystr \<times> (pystr \<times> pystr) list) eff" where
  "readiness_route E engine table_names heartbeat_timeout_seconds =
     ebind
       (case engine of
          Inl _ \<Rightarrow> ereturn (readiness False ''unavailable'' ''unknown'')
        | Inr _ \<Rightarrow> check_readiness E table_names heartbeat_timeout_seconds)
       (\<lambda>result. ereturn
          (if rr_ready result then 200 else 503,
           if rr_ready result then str ''ready'' else str ''not_ready'', rr_components result))"

definition health_route :: "(pystr \<times> pystr) list" where
  "health_route = [(str ''status'', str ''ok'')]"

section \<open>What is recorded\<close>

lemma heartbeat_of_write:
  assumes "hb_id fresh = 1" and "\<And>h. hb_id (change h) = hb_id h"
  shows "heartbeat_of (write_heartbeat fresh change d) =
     (case heartbeat_of d of None \<Rightarrow> Some fresh | Some h \<Rightarrow> Some (change h))"
proof (cases "heartbeat_of d")
  case None
  then show ?thesis using assms(1) by (simp add: write_heartbeat_def heartbeat_of_def find_append)
next
  case (Some h)
  then show ?thesis
    using assms(2) by (simp add: write_heartbeat_def heartbeat_of_def find_update_first)
qed

text \<open>A commit or nothing: the database afterwards is the new one or the old one.\<close>

lemma commit_write_committed:
  "committed (snd (commit_write E f w)) \<in> {committed w, f (working w)}"
  by (cases "fault E (ticks w)"; cases "fault E (Suc (ticks w))")
    (simp_all add: commit_write_def committed_rollback_on_error eff_defs db_exec_def db_commit_def)

lemma commit_write_returns:
  "commit_write E f w = (Inr u, w') \<Longrightarrow> committed w' = f (working w) \<and> working w' = f (working w)"
  by (auto simp: commit_write_def rollback_on_error_def ecatch_Inr ebind_Inr db_exec_Inr db_commit_Inr)

lemma record_worker_sync_returns:
  assumes "record_worker_sync E worker_id ok error_text None w = (Inr u, w')"
  shows "\<exists>h. heartbeat_of (committed w') = Some h \<and> hb_worker_id h = worker_id
    \<and> hb_last_seen_at h = clock E (ticks w) \<and> hb_last_sync_ok h = ok
    \<and> hb_last_error h = (if ok then [] else WORKER_SYNC_FAILURE)"
  using assms
  by (auto simp: record_worker_sync_def naive_utc_def ebind_Inr utc_now_def db_query_Inr Let_def
      summarize_error_text_def heartbeat_of_write dest!: commit_write_returns split: option.splits)

lemma commit_write_runs:
  "no_faults E \<Longrightarrow> \<exists>w'. commit_write E f w = (Inr (), w') \<and> committed w' = f (working w)
     \<and> working w' = f (working w) \<and> ticks w' = ticks w + 2"
  by (simp add: commit_write_def rollback_on_error_def eff_defs db_calls_run)

lemma record_worker_sync_runs:
  assumes "no_faults E"
  shows "\<exists>w'. record_worker_sync E worker_id ok error_text None w = (Inr (), w') \<and> ticks w' = ticks w + 4"
  using commit_write_runs [OF assms] assms
  by (fastforce simp: record_worker_sync_def naive_utc_def utc_now_def ebind_def db_query_def db_calls_run Let_def)

text \<open>What a heartbeat changes: the heartbeat table only.\<close>

lemma record_worker_sync_tables:
  assumes "record_worker_sync E worker_id ok error_text None w = (r, w')" and "committed w = working w"
  shows "committed w' \<in> range (\<lambda>hs. (committed w)\<lparr>heartbeats := hs\<rparr>)"
proof -
  have same: "d \<in> range (\<lambda>hs. d\<lparr>heartbeats := hs\<rparr>)" for d :: db
    by (rule range_eqI [of _ _ "heartbeats d"]) simp
  have wrote: "write_heartbeat fresh change d \<in> range (\<lambda>hs. d\<lparr>heartbeats := hs\<rparr>)" for fresh change d
    by (simp add: write_heartbeat_def)
  have "committed w' = committed w \<or> (\<exists>fresh change. committed w' = write_heartbeat fresh change (working w))"
  proof (cases "fault E (Suc (ticks w))")
    case (Some exc)
    then show ?thesis using assms(1)
      by (simp add: record_worker_sync_def naive_utc_def utc_now_def ebind_def db_query_def db_exec_def)
        (metis tick_simps(1))
  next
    case None
    define w1 where "w1 = tick (tick w\<lparr>working := working w\<rparr>)"
    from None assms(1) obtain fresh change where
      "commit_write E (write_heartbeat fresh change) w1 = (r, w')"
      by (auto simp: record_worker_sync_def naive_utc_def utc_now_def ebind_def db_query_def db_exec_def
          Let_def w1_def)
    then show ?thesis
      using commit_write_committed [of E "write_heartbeat fresh change" w1] by (auto simp: w1_def)
  qed
  then show ?thesis using same wrote assms(2) by metis
qed

section \<open>What readiness means\<close>

lemma read_heartbeat_runs:
  "no_faults E \<Longrightarrow> \<exists>w'. read_heartbeat E tables w =
     (Inr (if \<not> set required_tables \<subseteq> set tables then Inl (readiness False ''schema_incomplete'' ''unknown'')
           else Inr (heartbeat_of (committed w))), w')
     \<and> (set required_tables \<subseteq> set tables \<longrightarrow> ticks w' = ticks w + 3)"
  by (auto simp: read_heartbeat_def eff_defs with_session_def db_query_def db_calls_run list_all_iff subset_iff)

lemma read_heartbeat_fails:
  "fault E (ticks w) \<noteq> None \<or> fault E (Suc (ticks w)) \<noteq> None \<Longrightarrow>
   \<exists>w'. read_heartbeat E tables w = (Inr (Inl (readiness False ''unavailable'' ''unknown'')), w')"
  by (cases "fault E (ticks w)"; cases "fault E (Suc (ticks w))")
    (simp_all add: read_heartbeat_def eff_defs with_session_def db_query_def db_exec_def)

lemma read_heartbeat_returns: "\<exists>a w'. read_heartbeat E tables w = (Inr a, w')"
  by (force simp: read_heartbeat_def ecatch_def ereturn_def split: sum.splits prod.splits)

lemma check_readiness_returns: "\<exists>result w'. check_readiness E tables timeout w = (Inr result, w')"
proof -
  obtain a w1 where "read_heartbeat E tables w = (Inr a, w1)" using read_heartbeat_returns by blast
  then show ?thesis
    by (cases a rule: sum.exhaust)
      (auto simp: check_readiness_def ebind_def utc_now_def ereturn_def split: option.splits)
qed

lemma check_readiness_runs:
  assumes "no_faults E"
  shows "fst (check_readiness E tables timeout w) = Inr
     (if \<not> set required_tables \<subseteq> set tables then readiness False ''schema_incomplete'' ''unknown''
      else case heartbeat_of (committed w) of
             None \<Rightarrow> readiness False ''ready'' ''missing''
           | Some h \<Rightarrow> heartbeat_verdict timeout (clock E (ticks w + 3)) h)"
proof -
  obtain w' where "read_heartbeat E tables w =
     (Inr (if \<not> set required_tables \<subseteq> set tables then Inl (readiness False ''schema_incomplete'' ''unknown'')
           else Inr (heartbeat_of (committed w))), w')"
     "set required_tables \<subseteq> set tables \<Longrightarrow> ticks w' = ticks w + 3"
    using read_heartbeat_runs [OF assms] by blast
  then show ?thesis
    by (simp add: check_readiness_def ebind_def utc_now_def ereturn_def split: option.splits)
qed

lemma readiness_route_cases:
  shows "no_faults E \<Longrightarrow> fst (readiness_route E (Inr ()) tables timeout w) = Inr
     (if \<not> set required_tables \<subseteq> set tables
      then (503, str ''not_ready'', [(str ''database'', str ''schema_incomplete''), (str ''worker'', str ''unknown'')])
      else case heartbeat_of (committed w) of
             None \<Rightarrow> (503, str ''not_ready'', [(str ''database'', str ''ready''), (str ''worker'', str ''missing'')])
           | Some h \<Rightarrow>
               if clock E (ticks w + 3) - hb_last_seen_at h > timeout * us_per_second
               then (503, str ''not_ready'', [(str ''database'', str ''ready''), (str ''worker'', str ''stale'')])
               else if \<not> hb_last_sync_ok h
               then (503, str ''not_ready'', [(str ''database'', str ''ready''), (str ''worker'', str ''sync_failed'')])
               else (200, str ''ready'', [(str ''database'', str ''ready''), (str ''worker'', str ''ready'')]))"
  and "fault E (ticks w) \<noteq> None \<or> fault E (Suc (ticks w)) \<noteq> None
     \<Longrightarrow> fst (readiness_route E (Inr ()) tables timeout w) = Inr
           (503, str ''not_ready'', [(str ''database'', str ''unavailable''), (str ''worker'', str ''unknown'')])"
  and "\<exists>answer. fst (readiness_route E engine tables timeout w) = Inr answer"
proof -
  have route: "fst (readiness_route E (Inr ()) tables timeout w) =
      map_sum id (\<lambda>result. (if rr_ready result then 200 else 503,
        if rr_ready result then str ''ready'' else str ''not_ready'', rr_components result))
        (fst (check_readiness E tables timeout w))"
    by (simp add: readiness_route_def ebind_def ereturn_def split: sum.splits prod.splits)
  show "fst (readiness_route E (Inr ()) tables timeout w) = Inr
     (if \<not> set required_tables \<subseteq> set tables
      then (503, str ''not_ready'', [(str ''database'', str ''schema_incomplete''), (str ''worker'', str ''unknown'')])
      else case heartbeat_of (committed w) of
             None \<Rightarrow> (503, str ''not_ready'', [(str ''database'', str ''ready''), (str ''worker'', str ''missing'')])
           | Some h \<Rightarrow>
               if clock E (ticks w + 3) - hb_last_seen_at h > timeout * us_per_second
               then (503, str ''not_ready'', [(str ''database'', str ''ready''), (str ''worker'', str ''stale'')])
               else if \<not> hb_last_sync_ok h
               then (503, str ''not_ready'', [(str ''database'', str ''ready''), (str ''worker'', str ''sync_failed'')])
               else (200, str ''ready'', [(str ''database'', str ''ready''), (str ''worker'', str ''ready'')]))"
    if "no_faults E"
    unfolding route check_readiness_runs [OF that]
    by (simp add: readiness_def heartbeat_verdict_def split: option.splits)
  show "fst (readiness_route E (Inr ()) tables timeout w) = Inr
      (503, str ''not_ready'', [(str ''database'', str ''unavailable''), (str ''worker'', str ''unknown'')])"
    if "fault E (ticks w) \<noteq> None \<or> fault E (Suc (ticks w)) \<noteq> None"
    using read_heartbeat_fails [OF that, of tables]
    by (auto simp: route check_readiness_def ebind_def ereturn_def readiness_def)
  show "\<exists>answer. fst (readiness_route E engine tables timeout w) = Inr answer"
    using check_readiness_returns [of E tables timeout w]
    by (cases engine) (auto simp: readiness_route_def ebind_def ereturn_def)
qed

text \<open>
  C34. Readiness tells the truth. With a working database the route answers 200 exactly when the
  tables exist, a heartbeat exists, it is no older than the timeout and the last synchronization
  succeeded, and otherwise 503 with the first reason that applies; when a call to the database fails
  the answer is 503, database unavailable, and the route never raises.
\<close>

theorem readiness_exact:
  "(no_faults E \<longrightarrow> fst (readiness_route E (Inr ()) tables timeout w) = Inr
     (if \<not> set required_tables \<subseteq> set tables
      then (503, str ''not_ready'', [(str ''database'', str ''schema_incomplete''), (str ''worker'', str ''unknown'')])
      else case heartbeat_of (committed w) of
             None \<Rightarrow> (503, str ''not_ready'', [(str ''database'', str ''ready''), (str ''worker'', str ''missing'')])
           | Some h \<Rightarrow>
               if clock E (ticks w + 3) - hb_last_seen_at h > timeout * us_per_second
               then (503, str ''not_ready'', [(str ''database'', str ''ready''), (str ''worker'', str ''stale'')])
               else if \<not> hb_last_sync_ok h
               then (503, str ''not_ready'', [(str ''database'', str ''ready''), (str ''worker'', str ''sync_failed'')])
               else (200, str ''ready'', [(str ''database'', str ''ready''), (str ''worker'', str ''ready'')])))
  \<and> (fault E (ticks w) \<noteq> None \<or> fault E (Suc (ticks w)) \<noteq> None
     \<longrightarrow> fst (readiness_route E (Inr ()) tables timeout w) = Inr
           (503, str ''not_ready'', [(str ''database'', str ''unavailable''), (str ''worker'', str ''unknown'')]))
  \<and> (\<exists>answer. fst (readiness_route E engine tables timeout w) = Inr answer)"
  using readiness_route_cases(1) [of E tables timeout w] readiness_route_cases(2) [of E w tables timeout]
    readiness_route_cases(3) [of E engine tables timeout w] by blast


theorem readiness_exact_witness:
  "fst (readiness_route \<lparr>fault = (\<lambda>n. None), clock = (\<lambda>n. 70 * us_per_second), uuid_hex = (\<lambda>n. []), assign_id = (\<lambda>ids. 1)\<rparr>
      (Inr ()) required_tables 60
      (new_world (empty_db\<lparr>heartbeats := [\<lparr>hb_id = 1, hb_worker_id = [], hb_started_at = 0,
         hb_last_seen_at = 10 * us_per_second, hb_last_sync_ok = True, hb_last_error = []\<rparr>]\<rparr>)))
   = Inr (200, str ''ready'', [(str ''database'', str ''ready''), (str ''worker'', str ''ready'')])"
  by (subst readiness_exact [THEN conjunct1, rule_format]) (simp_all add: no_faults_def heartbeat_of_def us_per_second_def)

end
