(* ===== verification/Log_Export.thy ===== *)
theory Log_Export
  imports Store
begin

text \<open>
  The CSV export of \<open>app/log_service.py\<close>: the keyset batches of \<open>_iter_log_batches\<close>, which read a
  log table in descending order of (timestamp, id) with one database session per batch, and the CSV
  text of \<open>stream_csv\<close> with its neutralised cells. The table may change between two batches, so it
  is a function of the number of the session; a session may also raise.
\<close>

section \<open>The order of the export\<close>

datatype log_key = Log_Key (key_time: datetime) (key_id: int)

text \<open>The cursor condition of the query: an earlier time, or the same time and a smaller id.\<close>

instantiation log_key :: linorder
begin

definition less_log_key :: "log_key \<Rightarrow> log_key \<Rightarrow> bool" where
  "less_log_key a b \<longleftrightarrow> key_time a < key_time b \<or> (key_time a = key_time b \<and> key_id a < key_id b)"

definition less_eq_log_key :: "log_key \<Rightarrow> log_key \<Rightarrow> bool" where
  "less_eq_log_key a b \<longleftrightarrow> key_time a < key_time b \<or> (key_time a = key_time b \<and> key_id a \<le> key_id b)"

instance
  by standard (auto simp: less_log_key_def less_eq_log_key_def log_key.expand)

end

definition execution_log_key :: "execution_log \<Rightarrow> log_key" where
  "execution_log_key l = Log_Key (el_started_at l) (the (el_id l))"

definition mail_log_key :: "mail_log \<Rightarrow> log_key" where
  "mail_log_key l = Log_Key (ml_sent_at l) (the (ml_id l))"

section \<open>Batches\<close>

definition CSV_EXPORT_BATCH_SIZE :: nat where
  "CSV_EXPORT_BATCH_SIZE = 500"

definition before_cursor :: "('r \<Rightarrow> log_key) \<Rightarrow> log_key option \<Rightarrow> 'r \<Rightarrow> bool" where
  "before_cursor key cursor r = (case cursor of None \<Rightarrow> True | Some c \<Rightarrow> key r < c)"

definition log_batch :: "('r \<Rightarrow> log_key) \<Rightarrow> int \<Rightarrow> log_key option \<Rightarrow> 'r list \<Rightarrow> 'r list" where
  "log_batch key max_id cursor rows =
     take CSV_EXPORT_BATCH_SIZE
       (rev (sort_key key (filter (\<lambda>r. key_id (key r) \<le> max_id \<and> before_cursor key cursor r) rows)))"

text \<open>
  The loop of the generator: the batches it yields and how it ends, \<open>None\<close> when the fuel is used up
  (the consumer stopped reading, or the loop is still running).
\<close>

fun log_batches_from ::
  "('r \<Rightarrow> log_key) \<Rightarrow> (nat \<Rightarrow> 'r list res) \<Rightarrow> int \<Rightarrow> nat \<Rightarrow> nat \<Rightarrow> log_key option
     \<Rightarrow> 'r list list \<times> unit res option" where
  "log_batches_from key tables max_id 0 session cursor = ([], None)"
| "log_batches_from key tables max_id (Suc fuel) session cursor =
     (case tables session of
        Inl exc \<Rightarrow> ([], Some (Inl exc))
      | Inr rows \<Rightarrow>
          (let batch = log_batch key max_id cursor rows
           in if batch = [] then ([], Some (Inr ()))
              else (case log_batches_from key tables max_id fuel (Suc session) (Some (key (last batch))) of
                      (batches, outcome) \<Rightarrow> (batch # batches, outcome))))"

definition iter_log_batches ::
  "('r \<Rightarrow> log_key) \<Rightarrow> (nat \<Rightarrow> 'r list res) \<Rightarrow> nat \<Rightarrow> 'r list list \<times> unit res option" where
  "iter_log_batches key tables fuel =
     (case tables 0 of
        Inl exc \<Rightarrow> ([], Some (Inl exc))
      | Inr [] \<Rightarrow> ([], Some (Inr ()))
      | Inr (r # rs) \<Rightarrow>
          log_batches_from key tables (fold max (map (key_id \<circ> key) rs) (key_id (key r))) fuel 1 None)"

definition iter_execution_log_batches ::
  "(nat \<Rightarrow> execution_log list res) \<Rightarrow> nat \<Rightarrow> execution_log list list \<times> unit res option" where
  "iter_execution_log_batches tables fuel = iter_log_batches execution_log_key tables fuel"

definition iter_mail_log_batches ::
  "(nat \<Rightarrow> mail_log list res) \<Rightarrow> nat \<Rightarrow> mail_log list list \<times> unit res option" where
  "iter_mail_log_batches tables fuel = iter_log_batches mail_log_key tables fuel"

section \<open>One batch\<close>

definition strictly_descending :: "('r \<Rightarrow> log_key) \<Rightarrow> 'r list \<Rightarrow> bool" where
  "strictly_descending key rs \<longleftrightarrow> sorted_wrt (\<lambda>a b. key b < key a) rs"

lemma distinct_ids_distinct_keys:
  "distinct (map (key_id \<circ> key) rows) \<Longrightarrow> distinct (map key rows)"
  by (induction rows) auto

lemma strictly_descending_rev_sort:
  assumes "distinct (map key rows)"
  shows "strictly_descending key (rev (sort_key key rows))"
proof -
  have "distinct (map key (sort_key key rows))"
    using assms by (simp add: distinct_map)
  then have "sorted_wrt (<) (map key (sort_key key rows))"
    by (simp add: strict_sorted_iff)
  then show ?thesis
    by (simp add: strictly_descending_def sorted_wrt_rev sorted_wrt_map)
qed

lemma strictly_descending_append:
  "strictly_descending key (xs @ ys) \<longleftrightarrow>
     strictly_descending key xs \<and> strictly_descending key ys \<and> (\<forall>x \<in> set xs. \<forall>y \<in> set ys. key y < key x)"
  by (simp add: strictly_descending_def sorted_wrt_append)

lemma strictly_descending_last:
  assumes "strictly_descending key xs" and "x \<in> set xs"
  shows "key (last xs) \<le> key x"
proof -
  have "xs = butlast xs @ [last xs]" using assms(2) by (cases xs) simp_all
  then have "strictly_descending key (butlast xs @ [last xs])" using assms(1) by simp
  moreover have "x \<in> set (butlast xs) \<or> x = last xs"
    using assms(2) \<open>xs = butlast xs @ [last xs]\<close> by (metis Un_iff empty_iff empty_set set_append set_ConsD)
  ultimately show ?thesis by (auto simp: strictly_descending_append)
qed

lemma log_batch_props:
  assumes "distinct (map (key_id \<circ> key) rows)"
  shows "strictly_descending key (log_batch key m cursor rows)"
    and "length (log_batch key m cursor rows) \<le> CSV_EXPORT_BATCH_SIZE"
    and "\<And>r. r \<in> set (log_batch key m cursor rows)
           \<Longrightarrow> r \<in> set rows \<and> key_id (key r) \<le> m \<and> before_cursor key cursor r"
    and "\<And>r. r \<in> set rows \<Longrightarrow> key_id (key r) \<le> m \<Longrightarrow> before_cursor key cursor r
           \<Longrightarrow> r \<in> set (log_batch key m cursor rows)
             \<or> (log_batch key m cursor rows \<noteq> [] \<and> key r < key (last (log_batch key m cursor rows)))"
proof -
  define selected where
    "selected = filter (\<lambda>r. key_id (key r) \<le> m \<and> before_cursor key cursor r) rows"
  define xs where "xs = rev (sort_key key selected)"
  define n where "n = CSV_EXPORT_BATCH_SIZE"
  have n: "0 < n" by (simp add: n_def CSV_EXPORT_BATCH_SIZE_def)
  have batch: "log_batch key m cursor rows = take n xs"
    by (simp add: log_batch_def selected_def xs_def n_def)
  have "distinct (map key selected)"
    using distinct_ids_distinct_keys [OF assms] by (simp add: selected_def distinct_map_filter)
  then have desc: "strictly_descending key (take n xs @ drop n xs)"
    unfolding xs_def append_take_drop_id by (rule strictly_descending_rev_sort)
  show "strictly_descending key (log_batch key m cursor rows)"
    using desc unfolding batch strictly_descending_append by blast
  show "length (log_batch key m cursor rows) \<le> CSV_EXPORT_BATCH_SIZE"
    by (simp add: batch n_def)
  have set_xs: "set xs = {r \<in> set rows. key_id (key r) \<le> m \<and> before_cursor key cursor r}"
    by (auto simp: xs_def selected_def)
  show "r \<in> set rows \<and> key_id (key r) \<le> m \<and> before_cursor key cursor r"
    if "r \<in> set (log_batch key m cursor rows)" for r
    using that set_xs unfolding batch by (auto dest: in_set_takeD)
  show "r \<in> set (log_batch key m cursor rows)
      \<or> (log_batch key m cursor rows \<noteq> [] \<and> key r < key (last (log_batch key m cursor rows)))"
    if "r \<in> set rows" "key_id (key r) \<le> m" "before_cursor key cursor r" for r
  proof (cases "r \<in> set (take n xs)")
    case False
    have "r \<in> set xs" using that set_xs by blast
    then have r: "r \<in> set (drop n xs)"
      using False by (metis Un_iff append_take_drop_id set_append)
    have ne: "take n xs \<noteq> []" using \<open>r \<in> set xs\<close> n by auto
    then have "last (take n xs) \<in> set (take n xs)" by (rule last_in_set)
    then have "key r < key (last (take n xs))"
      using desc r unfolding strictly_descending_append by blast
    with ne show ?thesis by (simp add: batch)
  qed (simp add: batch)
qed

lemmas log_batch_descending = log_batch_props(1)
  and log_batch_length = log_batch_props(2)
  and log_batch_rows = log_batch_props(3)
  and log_batch_complete = log_batch_props(4)


section \<open>The whole export\<close>

text \<open>
  What the loop relies on: primary keys are unique in every session, and of the rows up to the
  largest id at the start none is added or changed later (new rows get larger ids; rows may vanish).
\<close>

definition only_vanishing :: "('r \<Rightarrow> log_key) \<Rightarrow> int \<Rightarrow> (nat \<Rightarrow> 'r list) \<Rightarrow> bool" where
  "only_vanishing key m T \<longleftrightarrow>
     (\<forall>n. distinct (map (key_id \<circ> key) (T n))
        \<and> {r \<in> set (T n). key_id (key r) \<le> m} \<subseteq> set (T 0))"

definition remaining :: "('r \<Rightarrow> log_key) \<Rightarrow> (nat \<Rightarrow> 'r list) \<Rightarrow> log_key option \<Rightarrow> 'r set" where
  "remaining key T cursor = {r \<in> set (T 0). before_cursor key cursor r}"

lemma remaining_decreases:
  assumes "r \<in> remaining key T cursor"
  shows "card (remaining key T (Some (key r))) < card (remaining key T cursor)"
proof (rule psubset_card_mono)
  have "key x < key r \<Longrightarrow> before_cursor key cursor x" for x
    using assms by (auto simp: remaining_def before_cursor_def split: option.splits)
  then show "remaining key T (Some (key r)) \<subset> remaining key T cursor"
    using assms by (fastforce simp: remaining_def before_cursor_def [of key "Some (key r)"])
qed (simp add: remaining_def)

lemma log_batches_from_exact:
  assumes T: "only_vanishing key m T" and tables: "\<And>n. tables n = Inr (T n)"
  shows "card (remaining key T cursor) < fuel \<Longrightarrow>
    (\<exists>bs. log_batches_from key tables m fuel n cursor = (bs, Some (Inr ()))
      \<and> strictly_descending key (concat bs)
      \<and> set (concat bs) \<subseteq> remaining key T cursor
      \<and> (\<forall>r. key_id (key r) \<le> m \<longrightarrow> before_cursor key cursor r \<longrightarrow> (\<forall>n. r \<in> set (T n)) \<longrightarrow> r \<in> set (concat bs))
      \<and> list_all (\<lambda>b. b \<noteq> [] \<and> length b \<le> CSV_EXPORT_BATCH_SIZE) bs)"
proof (induction fuel arbitrary: n cursor)
  case 0
  then show ?case by simp
next
  case (Suc fuel)
  define b where "b = log_batch key m cursor (T n)"
  have ids: "distinct (map (key_id \<circ> key) (T n))" using T by (simp add: only_vanishing_def)
  have rows: "r \<in> remaining key T cursor" if "r \<in> set b" for r
    using log_batch_rows [OF ids, of r m cursor] that T
    by (auto simp: b_def remaining_def only_vanishing_def)
  have complete: "r \<in> set b \<or> (b \<noteq> [] \<and> key r < key (last b))"
    if "r \<in> set (T n)" "key_id (key r) \<le> m" "before_cursor key cursor r" for r
    unfolding b_def by (rule log_batch_complete [OF ids that])
  show ?case
  proof (cases "b = []")
    case True
    then show ?thesis
      using complete by (intro exI [of _ "[]"]) (auto simp: tables b_def strictly_descending_def)
  next
    case False
    then have last: "last b \<in> remaining key T cursor" by (intro rows last_in_set)
    have "card (remaining key T (Some (key (last b)))) < fuel"
      using remaining_decreases [OF last] Suc.prems by simp
    from Suc.IH [OF this, of "Suc n"] obtain bs where bs:
      "log_batches_from key tables m fuel (Suc n) (Some (key (last b))) = (bs, Some (Inr ()))"
      "strictly_descending key (concat bs)" "set (concat bs) \<subseteq> remaining key T (Some (key (last b)))"
      "\<And>r. key_id (key r) \<le> m \<Longrightarrow> before_cursor key (Some (key (last b))) r \<Longrightarrow> (\<And>n. r \<in> set (T n))
         \<Longrightarrow> r \<in> set (concat bs)"
      "list_all (\<lambda>b. b \<noteq> [] \<and> length b \<le> CSV_EXPORT_BATCH_SIZE) bs" by blast
    have b: "strictly_descending key b" "length b \<le> CSV_EXPORT_BATCH_SIZE"
      unfolding b_def by (rule log_batch_descending [OF ids], rule log_batch_length [OF ids])
    have later: "key r < key (last b)" "r \<in> remaining key T cursor" if "r \<in> set (concat bs)" for r
    proof -
      show less: "key r < key (last b)"
        using that bs(3) by (auto simp: remaining_def before_cursor_def)
      with last that bs(3) show "r \<in> remaining key T cursor"
        by (fastforce simp: remaining_def before_cursor_def split: option.splits)
    qed
    have "strictly_descending key (b @ concat bs)"
      unfolding strictly_descending_append
      using b(1) bs(2) strictly_descending_last [OF b(1)] later(1) by (meson order_less_le_trans)
    moreover have "set (b @ concat bs) \<subseteq> remaining key T cursor" using rows later(2) by auto
    moreover have "r \<in> set (b @ concat bs)"
      if r: "key_id (key r) \<le> m" "before_cursor key cursor r" "\<And>n. r \<in> set (T n)" for r
      using complete [OF r(3,1,2)] bs(4) [OF r(1) _ r(3)] by (auto simp: before_cursor_def)
    moreover have "log_batches_from key tables m (Suc fuel) n cursor = (b # bs, Some (Inr ()))"
      using False bs(1) by (simp add: tables [of n] Let_def b_def [symmetric])
    ultimately show ?thesis
      using False b(2) bs(5) by (intro exI [of _ "b # bs"]) simp
  qed
qed

definition largest_id :: "('r \<Rightarrow> log_key) \<Rightarrow> 'r list \<Rightarrow> int" where
  "largest_id key rows = Max (set (map (key_id \<circ> key) rows))"

lemma fold_max_largest:
  "fold max (map (key_id \<circ> key) rs) (key_id (key r)) = largest_id key (r # rs)"
  by (simp add: largest_id_def Max.set_eq_fold [symmetric] del: set_map)


lemma largest_id_ge: "r \<in> set rows \<Longrightarrow> key_id (key r) \<le> largest_id key rows"
  by (simp add: largest_id_def)

lemma iter_log_batches_complete:
  assumes tables: "\<And>n. tables n = Inr (T n)"
    and old_rows: "only_vanishing key (largest_id key (T 0)) T"
    and fuel: "length (T 0) < fuel"
  shows "\<exists>bs. iter_log_batches key tables fuel = (bs, Some (Inr ()))
    \<and> strictly_descending key (concat bs)
    \<and> set (concat bs) \<subseteq> set (T 0)
    \<and> {r. \<forall>n. r \<in> set (T n)} \<subseteq> set (concat bs)
    \<and> list_all (\<lambda>b. b \<noteq> [] \<and> length b \<le> CSV_EXPORT_BATCH_SIZE) bs"
proof (cases "T 0")
  case Nil
  then have "iter_log_batches key tables fuel = ([], Some (Inr ()))"
    by (simp add: iter_log_batches_def tables)
  moreover have "{r. \<forall>n. r \<in> set (T n)} = {}" using Nil by (auto intro: exI [of _ 0])
  ultimately show ?thesis using Nil by (simp add: strictly_descending_def)
next
  case (Cons r rs)
  have start: "iter_log_batches key tables fuel
      = log_batches_from key tables (largest_id key (T 0)) fuel 1 None"
    unfolding iter_log_batches_def tables Cons sum.case list.case fold_max_largest ..
  have all: "remaining key T None = set (T 0)" by (simp add: remaining_def before_cursor_def)
  have "card (remaining key T None) < fuel"
    using fuel card_length [of "T 0"] unfolding all by simp
  from log_batches_from_exact [OF old_rows tables this, of 1] obtain bs where
    bs: "log_batches_from key tables (largest_id key (T 0)) fuel 1 None = (bs, Some (Inr ()))"
      "strictly_descending key (concat bs)" "set (concat bs) \<subseteq> set (T 0)"
      "\<And>r. key_id (key r) \<le> largest_id key (T 0) \<Longrightarrow> before_cursor key None r
         \<Longrightarrow> (\<And>n. r \<in> set (T n)) \<Longrightarrow> r \<in> set (concat bs)"
      "list_all (\<lambda>b. b \<noteq> [] \<and> length b \<le> CSV_EXPORT_BATCH_SIZE) bs"
    unfolding all by blast
  have "{r. \<forall>n. r \<in> set (T n)} \<subseteq> set (concat bs)"
    using bs(4) largest_id_ge [of _ "T 0" key] by (auto simp: before_cursor_def simp del: set_concat)
  then show ?thesis using bs start by auto
qed

text \<open>Without changes the export is the sorted table.\<close>

lemma strictly_descending_unique:
  "strictly_descending key xs \<Longrightarrow> strictly_descending key ys \<Longrightarrow> set xs = set ys \<Longrightarrow> xs = ys"
proof (induction xs arbitrary: ys)
  case Nil
  then show ?case by simp
next
  case (Cons x xs)
  then obtain y ys' where ys: "ys = y # ys'" by (cases ys) auto
  have "x = y"
    using Cons.prems unfolding ys strictly_descending_def
    by (metis insert_iff list.simps(15) order_less_asym sorted_wrt.simps(2))
  moreover have "set xs = set ys'"
    using Cons.prems unfolding ys strictly_descending_def \<open>x = y\<close> by auto
  ultimately show ?case
    using Cons.IH [of ys'] Cons.prems unfolding ys by (simp add: strictly_descending_def)
qed


lemma iter_log_batches_static:
  assumes "distinct (map (key_id \<circ> key) rows)" and "length rows < fuel"
  shows "\<exists>bs. iter_log_batches key (\<lambda>n. Inr rows) fuel = (bs, Some (Inr ())) \<and> concat bs = rev (sort_key key rows)"
proof -
  have "only_vanishing key (largest_id key rows) (\<lambda>n. rows)"
    using assms(1) by (auto simp: only_vanishing_def)
  from iter_log_batches_complete [of "\<lambda>n. Inr rows" "\<lambda>n. rows", OF refl this assms(2)] obtain bs where
    bs: "iter_log_batches key (\<lambda>n. Inr rows) fuel = (bs, Some (Inr ()))"
      "strictly_descending key (concat bs)" "set (concat bs) = set rows" by auto
  have "concat bs = rev (sort_key key rows)"
    using strictly_descending_unique [OF bs(2) strictly_descending_rev_sort]
      distinct_ids_distinct_keys [OF assms(1)] bs(3) by simp
  with bs(1) show ?thesis by blast
qed

text \<open>
  C36. The export is complete and ends: when rows with old ids only vanish while it runs (new ones
  get larger ids), the batches are never empty and hold at most 500 rows, their concatenation is in
  strictly descending order of (time, id), so that no row comes twice, it holds only rows of the
  table as it was at the start and every one of them that stays; and the generator ends after at most
  one session per row and one more.
\<close>

theorem log_export_complete:
  assumes tables: "\<And>n. tables n = Inr (T n)"
    and old_rows: "only_vanishing key (largest_id key (T 0)) T"
    and fuel: "length (T 0) < fuel"
  shows "\<exists>bs. iter_log_batches key tables fuel = (bs, Some (Inr ()))
    \<and> strictly_descending key (concat bs)
    \<and> set (concat bs) \<subseteq> set (T 0)
    \<and> {r. \<forall>n. r \<in> set (T n)} \<subseteq> set (concat bs)
    \<and> list_all (\<lambda>b. b \<noteq> [] \<and> length b \<le> CSV_EXPORT_BATCH_SIZE) bs"
  by (rule iter_log_batches_complete [OF assms])

definition sample_log :: "int \<Rightarrow> datetime \<Rightarrow> execution_log" where
  "sample_log i t = \<lparr>el_id = Some i, el_rule_id = 1, el_trigger_type = MANUAL, el_status = SUCCESS,
     el_started_at = t, el_finished_at = Some t, el_row_count = 0, el_email_count = 0,
     el_duration_ms = 0, el_error_type = [], el_error_message = []\<rparr>"

definition sample_tables :: "nat \<Rightarrow> execution_log list" where
  "sample_tables n = (if n = 0 then [sample_log 1 50, sample_log 2 70] else [sample_log 1 50, sample_log 3 10])"

theorem log_export_complete_witness:
  "\<exists>bs. iter_log_batches execution_log_key (\<lambda>n. Inr (sample_tables n)) 3 = (bs, Some (Inr ()))
    \<and> strictly_descending execution_log_key (concat bs)
    \<and> set (concat bs) \<subseteq> {sample_log 1 50, sample_log 2 70} \<and> sample_log 1 50 \<in> set (concat bs)"
proof -
  have "largest_id execution_log_key (sample_tables 0) = 2"
    by (simp add: largest_id_def sample_tables_def execution_log_key_def sample_log_def)
  then have "only_vanishing execution_log_key (largest_id execution_log_key (sample_tables 0)) sample_tables"
    by (auto simp: only_vanishing_def sample_tables_def execution_log_key_def sample_log_def)
  from log_export_complete [OF refl this, of 3] obtain bs where
    bs: "iter_log_batches execution_log_key (\<lambda>n. Inr (sample_tables n)) 3 = (bs, Some (Inr ()))"
      "strictly_descending execution_log_key (concat bs)" "set (concat bs) \<subseteq> set (sample_tables 0)"
      "{r. \<forall>n. r \<in> set (sample_tables n)} \<subseteq> set (concat bs)"
    by (auto simp: sample_tables_def)
  moreover have "sample_log 1 50 \<in> {r. \<forall>n. r \<in> set (sample_tables n)}" by (simp add: sample_tables_def)
  moreover have "set (sample_tables 0) = {sample_log 1 50, sample_log 2 70}" by (simp add: sample_tables_def)
  ultimately show ?thesis by blast
qed

section \<open>CSV\<close>

text \<open>
  The cells of a row are those of \<open>Models\<close>: a timestamp is a \<open>CObj\<close> given by its \<open>str()\<close>, a string
  enumeration is a string. \<open>csv.writer\<close> in its default dialect writes \<open>None\<close> as the empty field,
  quotes a field that contains a comma, a quote or a line break, doubles the quotes in it, quotes the
  only field of a row when it is empty, and ends each row with CR LF.
\<close>

definition csv_safe_cell :: "cell \<Rightarrow> cell" where
  "csv_safe_cell c =
     (case c of
        CStr s \<Rightarrow>
          if list_ex (startswith s) [str ''='', str ''+'', str ''-'', str ''@''] then CStr (39 # s) else c
      | _ \<Rightarrow> c)"

definition csv_text :: "cell \<Rightarrow> pystr" where
  "csv_text c = (case c of CNone \<Rightarrow> [] | _ \<Rightarrow> cell_str c)"

definition csv_special :: "nat \<Rightarrow> bool" where
  "csv_special c \<longleftrightarrow> c = 44 \<or> c = 34 \<or> c = 13 \<or> c = 10"

definition double_quotes :: "pystr \<Rightarrow> pystr" where
  "double_quotes s = concat (map (\<lambda>c. if c = 34 then [34, 34] else [c]) s)"

definition csv_field :: "pystr \<Rightarrow> pystr" where
  "csv_field s = (if list_ex csv_special s then [34] @ double_quotes s @ [34] else s)"

definition csv_row :: "pystr list \<Rightarrow> pystr" where
  "csv_row cols = (if cols = [[]] then [34, 34] else join [44] (map csv_field cols)) @ [13, 10]"

definition BOM :: pystr where
  "BOM = [0xFEFF]"

definition stream_csv :: "pystr list \<Rightarrow> cell list list list \<Rightarrow> pystr list" where
  "stream_csv headers row_batches =
     BOM # csv_row headers
       # concat (map (\<lambda>batch. map (\<lambda>row. csv_row (map (csv_text \<circ> csv_safe_cell) row)) batch) row_batches)"

text \<open>
  A reader of the format, as a specification: \<open>quoted\<close> says whether the scan is between quotes,
  \<open>field\<close> and \<open>row\<close> hold what was read of the current field and row. It refuses a text that ends in
  the middle of a row and a CR without its LF.
\<close>

fun read_csv :: "bool \<Rightarrow> pystr \<Rightarrow> pystr list \<Rightarrow> pystr \<Rightarrow> pystr list list option" where
  "read_csv quoted field row [] = (if quoted \<or> field \<noteq> [] \<or> row \<noteq> [] then None else Some [])"
| "read_csv quoted field row [c] =
     (if quoted \<and> c = 34 then read_csv False field row [] else None)"
| "read_csv quoted field row (c # d # cs) =
     (if quoted then
        (if c \<noteq> 34 then read_csv True (field @ [c]) row (d # cs)
         else if d = 34 then read_csv True (field @ [34]) row cs
         else read_csv False field row (d # cs))
      else if c = 34 then read_csv True field row (d # cs)
      else if c = 44 then read_csv False [] (row @ [field]) (d # cs)
      else if c = 13 then
        (if d = 10 then map_option ((#) (row @ [field])) (read_csv False [] [] cs) else None)
      else read_csv False (field @ [c]) row (d # cs))"

text \<open>What follows a field: the comma or the end of the row, never a quote.\<close>

definition field_end :: "pystr \<Rightarrow> bool" where
  "field_end rest \<longleftrightarrow> (\<exists>c d cs. rest = c # d # cs \<and> c \<noteq> 34)"

lemma read_quoted:
  "field_end rest \<Longrightarrow> read_csv True field row (double_quotes s @ 34 # rest) = read_csv False (field @ s) row rest"
proof (induction s arbitrary: field)
  case Nil
  then show ?case by (auto simp: double_quotes_def field_end_def)
next
  case (Cons c s)
  have ne: "\<exists>e es. double_quotes s @ 34 # rest = e # es"
    by (cases "double_quotes s") auto
  with Cons show ?case
    by (cases "c = 34") (auto simp: double_quotes_def)
qed

lemma read_plain:
  "field_end rest \<Longrightarrow> list_all (\<lambda>c. \<not> csv_special c) s
     \<Longrightarrow> read_csv False field row (s @ rest) = read_csv False (field @ s) row rest"
proof (induction s arbitrary: field)
  case Nil
  then show ?case by simp
next
  case (Cons c s)
  then have "\<exists>e es. s @ rest = e # es" by (cases s) (auto simp: field_end_def)
  with Cons show ?case by (auto simp: csv_special_def)
qed

lemma read_field:
  assumes "field_end rest"
  shows "read_csv False [] row (csv_field s @ rest) = read_csv False s row rest"
proof (cases "list_ex csv_special s")
  case True
  have "\<exists>e es. double_quotes s @ 34 # rest = e # es" by (cases "double_quotes s") auto
  then show ?thesis
    using read_quoted [OF assms, of "[]" row s] True by (auto simp: csv_field_def)
next
  case False
  then show ?thesis
    using read_plain [OF assms, of s "[]" row] by (simp add: csv_field_def list_ex_iff list_all_iff)
qed

lemma read_fields:
  "cols \<noteq> [] \<Longrightarrow> read_csv False [] row (join [44] (map csv_field cols) @ 13 # 10 # rest)
     = map_option ((#) (row @ cols)) (read_csv False [] [] rest)"
proof (induction cols arbitrary: row)
  case Nil
  then show ?case by simp
next
  case (Cons s cols)
  show ?case
  proof (cases cols)
    case Nil
    then show ?thesis by (simp add: read_field [of "13 # 10 # rest"] field_end_def)
  next
    case (Cons s' ss)
    define tail where "tail = join [44] (map csv_field cols) @ 13 # 10 # rest"
    have "\<exists>e es. tail = e # es" unfolding tail_def by (cases "join [44] (map csv_field cols)") auto
    then have ends: "field_end (44 # tail)" by (auto simp: field_end_def)
    have "read_csv False [] row (csv_field s @ 44 # tail) = read_csv False [] (row @ [s]) tail"
      using read_field [OF ends, of row s] \<open>\<exists>e es. tail = e # es\<close> by auto
    then show ?thesis
      using Cons.IH [of "row @ [s]"] Cons by (simp add: tail_def)
  qed
qed

lemma read_csv_row:
  "cols \<noteq> [] \<Longrightarrow> read_csv False [] [] (csv_row cols @ rest) = map_option ((#) cols) (read_csv False [] [] rest)"
  using read_fields [of cols "[]" rest] by (auto simp: csv_row_def)

lemma read_csv_rows:
  "list_all (\<lambda>cols. cols \<noteq> []) rows \<Longrightarrow> read_csv False [] [] (concat (map csv_row rows)) = Some rows"
  by (induction rows) (simp_all add: read_csv_row)


lemma csv_safe_cell_text:
  "csv_text (csv_safe_cell (CStr s)) = [] \<or> hd (csv_text (csv_safe_cell (CStr s))) \<notin> {61, 43, 45, 64}"
  by (cases s) (auto simp: csv_safe_cell_def csv_text_def startswith_def str_def)

lemma csv_safe_cell_other: "\<forall>s. c \<noteq> CStr s \<Longrightarrow> csv_safe_cell c = c"
  by (cases c) (simp_all add: csv_safe_cell_def)

lemma stream_csv_reads_back:
  assumes "headers \<noteq> []" and "list_all (list_all (\<lambda>row. row \<noteq> [])) batches"
  shows "\<exists>chunks. stream_csv headers batches = BOM # chunks
    \<and> read_csv False [] [] (concat chunks)
       = Some (headers # map (map (csv_text \<circ> csv_safe_cell)) (concat batches))"
proof -
  define rows where "rows = headers # map (map (csv_text \<circ> csv_safe_cell)) (concat batches)"
  have "stream_csv headers batches = BOM # map csv_row rows"
    by (simp add: stream_csv_def rows_def map_concat comp_def)
  moreover have "list_all (\<lambda>cols. cols \<noteq> []) rows"
    using assms by (auto simp: rows_def list_all_iff)
  ultimately show ?thesis using read_csv_rows [of rows] rows_def by metis
qed

section \<open>The two downloads\<close>

definition EXECUTION_CSV_HEADERS :: "pystr list" where
  "EXECUTION_CSV_HEADERS =
     [str ''ID'', [0x89C4, 0x5219, 0x0049, 0x0044], [0x89E6, 0x53D1, 0x65B9, 0x5F0F], [0x72B6, 0x6001], [0x5F00, 0x59CB, 0x65F6, 0x95F4], [0x7ED3, 0x675F, 0x65F6, 0x95F4], [0x8FD4, 0x56DE, 0x884C, 0x6570], [0x90AE, 0x4EF6, 0x6570],
      [0x8017, 0x65F6, 0x6BEB, 0x79D2], [0x9519, 0x8BEF, 0x7C7B, 0x578B], [0x9519, 0x8BEF, 0x4FE1, 0x606F]]"

definition MAIL_CSV_HEADERS :: "pystr list" where
  "MAIL_CSV_HEADERS =
     [str ''ID'', [0x6267, 0x884C, 0x8BB0, 0x5F55, 0x0049, 0x0044], [0x6536, 0x4EF6, 0x4EBA], [0x6284, 0x9001], [0x4E3B, 0x9898], [0x72B6, 0x6001], [0x9519, 0x8BEF, 0x4FE1, 0x606F], [0x53D1, 0x9001, 0x65F6, 0x95F4]]"

definition id_cell :: "int option \<Rightarrow> cell" where
  "id_cell i = (case i of None \<Rightarrow> CNone | Some n \<Rightarrow> CInt n)"

definition execution_csv_row :: "(datetime \<Rightarrow> pystr) \<Rightarrow> execution_log \<Rightarrow> cell list" where
  "execution_csv_row datetime_str l =
     [id_cell (el_id l), CInt (el_rule_id l), CStr (trigger_type_value (el_trigger_type l)),
      CStr (execution_status_value (el_status l)), CObj (datetime_str (el_started_at l)),
      (case el_finished_at l of None \<Rightarrow> CStr [] | Some t \<Rightarrow> CObj (datetime_str t)),
      CInt (el_row_count l), CInt (el_email_count l), CInt (el_duration_ms l),
      CStr (el_error_type l), CStr (el_error_message l)]"

definition mail_csv_row :: "(datetime \<Rightarrow> pystr) \<Rightarrow> mail_log \<Rightarrow> cell list" where
  "mail_csv_row datetime_str l =
     [id_cell (ml_id l), CInt (ml_execution_log_id l), CStr (ml_recipients l), CStr (ml_cc_recipients l),
      CStr (ml_subject l), CStr (mail_status_value (ml_status l)), CStr (ml_error_message l),
      CObj (datetime_str (ml_sent_at l))]"

definition export_execution_logs_csv ::
  "(datetime \<Rightarrow> pystr) \<Rightarrow> (nat \<Rightarrow> execution_log list res) \<Rightarrow> nat \<Rightarrow> pystr list \<times> unit res option" where
  "export_execution_logs_csv datetime_str tables fuel =
     (case iter_execution_log_batches tables fuel of
        (batches, outcome) \<Rightarrow>
          (stream_csv EXECUTION_CSV_HEADERS (map (map (execution_csv_row datetime_str)) batches), outcome))"

definition export_mail_logs_csv ::
  "(datetime \<Rightarrow> pystr) \<Rightarrow> (nat \<Rightarrow> mail_log list res) \<Rightarrow> nat \<Rightarrow> pystr list \<times> unit res option" where
  "export_mail_logs_csv datetime_str tables fuel =
     (case iter_mail_log_batches tables fuel of
        (batches, outcome) \<Rightarrow>
          (stream_csv MAIL_CSV_HEADERS (map (map (mail_csv_row datetime_str)) batches), outcome))"

lemma stream_csv_of_logs:
  assumes "headers \<noteq> []" and "\<And>l. cells l \<noteq> []"
  shows "\<exists>chunks. stream_csv headers (map (map cells) bs) = BOM # chunks
    \<and> read_csv False [] [] (concat chunks)
       = Some (headers # map (map (csv_text \<circ> csv_safe_cell) \<circ> cells) (concat bs))"
proof -
  have "list_all (list_all (\<lambda>row. row \<noteq> [])) (map (map cells) bs)"
    using assms(2) by (simp add: list_all_iff)
  from stream_csv_reads_back [OF assms(1) this] show ?thesis
    by (simp add: map_concat [symmetric] comp_def)
qed

lemma export_headers_not_Nil [simp]: "EXECUTION_CSV_HEADERS \<noteq> []" "MAIL_CSV_HEADERS \<noteq> []"
  by (simp_all add: EXECUTION_CSV_HEADERS_def MAIL_CSV_HEADERS_def)

lemma csv_export_facts:
  assumes "distinct (map (key_id \<circ> execution_log_key) logs)" and "distinct (map (key_id \<circ> mail_log_key) mails)"
    and "length logs < fuel" and "length mails < fuel"
  shows "\<exists>chunks. export_execution_logs_csv datetime_str (\<lambda>n. Inr logs) fuel = (BOM # chunks, Some (Inr ()))
      \<and> read_csv False [] [] (concat chunks) = Some (EXECUTION_CSV_HEADERS
          # map (map (csv_text \<circ> csv_safe_cell) \<circ> execution_csv_row datetime_str) (rev (sort_key execution_log_key logs)))"
    and "\<exists>chunks. export_mail_logs_csv datetime_str (\<lambda>n. Inr mails) fuel = (BOM # chunks, Some (Inr ()))
      \<and> read_csv False [] [] (concat chunks) = Some (MAIL_CSV_HEADERS
          # map (map (csv_text \<circ> csv_safe_cell) \<circ> mail_csv_row datetime_str) (rev (sort_key mail_log_key mails)))"
    and "csv_text (csv_safe_cell (CStr s)) = [] \<or> hd (csv_text (csv_safe_cell (CStr s))) \<notin> {61, 43, 45, 64}"
proof -
  have cells: "execution_csv_row datetime_str l \<noteq> []" "mail_csv_row datetime_str m \<noteq> []" for l m
    by (simp_all add: execution_csv_row_def mail_csv_row_def)
  obtain bs where bs: "iter_execution_log_batches (\<lambda>n. Inr logs) fuel = (bs, Some (Inr ()))"
      "concat bs = rev (sort_key execution_log_key logs)"
    using iter_log_batches_static [OF assms(1,3)] unfolding iter_execution_log_batches_def by blast
  show "\<exists>chunks. export_execution_logs_csv datetime_str (\<lambda>n. Inr logs) fuel = (BOM # chunks, Some (Inr ()))
      \<and> read_csv False [] [] (concat chunks) = Some (EXECUTION_CSV_HEADERS
          # map (map (csv_text \<circ> csv_safe_cell) \<circ> execution_csv_row datetime_str) (rev (sort_key execution_log_key logs)))"
    using stream_csv_of_logs [of _ "execution_csv_row datetime_str" bs, OF export_headers_not_Nil(1) cells(1)]
    unfolding export_execution_logs_csv_def bs by auto
  obtain cs where cs: "iter_mail_log_batches (\<lambda>n. Inr mails) fuel = (cs, Some (Inr ()))"
      "concat cs = rev (sort_key mail_log_key mails)"
    using iter_log_batches_static [OF assms(2,4)] unfolding iter_mail_log_batches_def by blast
  show "\<exists>chunks. export_mail_logs_csv datetime_str (\<lambda>n. Inr mails) fuel = (BOM # chunks, Some (Inr ()))
      \<and> read_csv False [] [] (concat chunks) = Some (MAIL_CSV_HEADERS
          # map (map (csv_text \<circ> csv_safe_cell) \<circ> mail_csv_row datetime_str) (rev (sort_key mail_log_key mails)))"
    using stream_csv_of_logs [of _ "mail_csv_row datetime_str" cs, OF export_headers_not_Nil(2) cells(2)]
    unfolding export_mail_logs_csv_def cs by auto
qed (rule csv_safe_cell_text)

text \<open>
  C37. The downloaded file reads back as the table: on an unchanged table both downloads end, the
  text after the byte order mark is read by any reader of the format as the header row and one row
  per log, newest first, whatever quotes, commas and line breaks the texts hold, and every cell comes
  back as the value of the log, save that a text that a spreadsheet would run as a formula has an
  apostrophe in front; no text cell of a file begins with an equals, plus, minus or at sign.
\<close>

theorem csv_export_reads_back:
  assumes "distinct (map (key_id \<circ> execution_log_key) logs)" and "distinct (map (key_id \<circ> mail_log_key) mails)"
    and "length logs < fuel" and "length mails < fuel"
  shows "(\<exists>chunks. export_execution_logs_csv datetime_str (\<lambda>n. Inr logs) fuel = (BOM # chunks, Some (Inr ()))
      \<and> read_csv False [] [] (concat chunks) = Some (EXECUTION_CSV_HEADERS
          # map (map (csv_text \<circ> csv_safe_cell) \<circ> execution_csv_row datetime_str) (rev (sort_key execution_log_key logs))))
    \<and> (\<exists>chunks. export_mail_logs_csv datetime_str (\<lambda>n. Inr mails) fuel = (BOM # chunks, Some (Inr ()))
      \<and> read_csv False [] [] (concat chunks) = Some (MAIL_CSV_HEADERS
          # map (map (csv_text \<circ> csv_safe_cell) \<circ> mail_csv_row datetime_str) (rev (sort_key mail_log_key mails))))
    \<and> (csv_text (csv_safe_cell (CStr s)) = [] \<or> hd (csv_text (csv_safe_cell (CStr s))) \<notin> {61, 43, 45, 64})"
  using csv_export_facts [OF assms] by blast


theorem csv_export_reads_back_witness:
  "\<exists>chunks. export_execution_logs_csv (\<lambda>t. int_str t) (\<lambda>n. Inr [sample_log 1 50, sample_log 2 70]) 3
      = (BOM # chunks, Some (Inr ()))
    \<and> map_option length (read_csv False [] [] (concat chunks)) = Some 3"
proof -
  have "distinct (map (key_id \<circ> execution_log_key) [sample_log 1 50, sample_log 2 70])"
    by (simp add: sample_log_def execution_log_key_def)
  from csv_export_reads_back [OF this, of "[]" 3 "\<lambda>t. int_str t" "[]"] show ?thesis by auto
qed

end
