(* ===== verification/Log_Service.thy ===== *)
theory Log_Service
  imports Log_Export Py_Int "HOL-Library.Multiset"
begin

text \<open>
  The log pages and the retention of \<open>app/log_service.py\<close>, with the log page of \<open>app/routes.py\<close>:
  filters, pagination, and the clean-up of expired logs, one database session and one transaction
  per batch. The LIKE operator of the database, the order each single query gives rows of equal time,
  and what it refuses (a LIKE pattern beyond its limit) are parameters; that it takes no whole number
  beyond 64 bits is modelled.
\<close>

section \<open>Filters\<close>

definition DEFAULT_PAGE_SIZE :: int where "DEFAULT_PAGE_SIZE = 50"

definition MIN_PAGE_SIZE :: int where "MIN_PAGE_SIZE = 10"

definition MAX_PAGE_SIZE :: int where "MAX_PAGE_SIZE = 200"

definition DEFAULT_CLEANUP_BATCH_SIZE :: int where "DEFAULT_CLEANUP_BATCH_SIZE = 500"

record log_filters =
  lf_execution_status :: pystr
  lf_trigger_type :: pystr
  lf_rule_id :: pystr
  lf_mail_status :: pystr
  lf_keyword :: pystr

text \<open>What the queries ask the database: \<open>like_contains\<close> is \<open>column LIKE '%keyword%'\<close>, and
  \<open>execution_order offset limit\<close> the order by the time column, descending, that the query with this
  offset and limit sees: two queries may put rows of the same time in different orders.
  \<open>execution_query_error\<close> is an error the database answers a query on this table with.\<close>

record log_queries =
  like_contains :: "pystr \<Rightarrow> pystr \<Rightarrow> bool"
  execution_order :: "int \<Rightarrow> int \<Rightarrow> execution_log list \<Rightarrow> execution_log list"
  mail_order :: "int \<Rightarrow> int \<Rightarrow> mail_log list \<Rightarrow> mail_log list"
  execution_query_error :: "db \<Rightarrow> log_filters \<Rightarrow> exn option"
  mail_query_error :: "db \<Rightarrow> log_filters \<Rightarrow> exn option"
  decimal_digits :: "nat \<Rightarrow> nat option"

text \<open>The rule number the filter asks for; a text that is no number asks for rule -1.\<close>

definition filter_rule_id :: "log_queries \<Rightarrow> pystr \<Rightarrow> int" where
  "filter_rule_id Q text = (case py_int (decimal_digits Q) text of Some i \<Rightarrow> i | None \<Rightarrow> - 1)"

definition execution_log_matches :: "log_queries \<Rightarrow> log_filters \<Rightarrow> execution_log \<Rightarrow> bool" where
  "execution_log_matches Q f l \<longleftrightarrow>
     (if lf_execution_status f \<in> set (map execution_status_value execution_statuses)
      then execution_status_value (el_status l) = lf_execution_status f else True)
     \<and> (if lf_trigger_type f \<in> set (map trigger_type_value trigger_types)
        then trigger_type_value (el_trigger_type l) = lf_trigger_type f else True)
     \<and> (if lf_rule_id f \<noteq> [] then el_rule_id l = filter_rule_id Q (lf_rule_id f) else True)
     \<and> (if lf_keyword f \<noteq> [] then
          like_contains Q (el_error_type l) (lf_keyword f) \<or> like_contains Q (el_error_message l) (lf_keyword f)
        else True)"

definition mail_log_matches :: "log_queries \<Rightarrow> log_filters \<Rightarrow> mail_log \<Rightarrow> bool" where
  "mail_log_matches Q f l \<longleftrightarrow>
     (if lf_mail_status f \<in> set (map mail_status_value mail_statuses)
      then mail_status_value (ml_status l) = lf_mail_status f else True)
     \<and> (if lf_keyword f \<noteq> [] then
          like_contains Q (ml_recipients l) (lf_keyword f) \<or> like_contains Q (ml_cc_recipients l) (lf_keyword f)
          \<or> like_contains Q (ml_subject l) (lf_keyword f) \<or> like_contains Q (ml_error_message l) (lf_keyword f)
        else True)"

section \<open>Pagination\<close>

record 'r page =
  pg_items :: "'r list"
  pg_page :: int
  pg_page_size :: int
  pg_total :: int
  pg_total_pages :: int
  pg_has_previous :: bool
  pg_has_next :: bool

text \<open>\<open>ceil(row_total / per_page)\<close> is computed in doubles, exact for tables below 2^53 rows.\<close>

definition normalized_page_size :: "int \<Rightarrow> int" where
  "normalized_page_size requested_size = min (max requested_size MIN_PAGE_SIZE) MAX_PAGE_SIZE"

definition total_pages_of :: "int \<Rightarrow> int \<Rightarrow> int" where
  "total_pages_of row_total page_size = max 1 ((row_total + page_size - 1) div page_size)"

definition paginate :: "(int \<Rightarrow> int \<Rightarrow> 'r list \<Rightarrow> 'r list) \<Rightarrow> 'r list \<Rightarrow> int \<Rightarrow> int \<Rightarrow> 'r page" where
  "paginate ordered rows requested_page requested_size =
     (let row_total = int (length rows);
          page_size = normalized_page_size requested_size;
          total_pages = total_pages_of row_total page_size;
          page_no = min (max requested_page 1) total_pages;
          offset = (page_no - 1) * page_size
      in \<lparr>pg_items = take (nat page_size) (drop (nat offset) (ordered offset page_size rows)),
          pg_page = page_no, pg_page_size = page_size, pg_total = row_total, pg_total_pages = total_pages,
          pg_has_previous = 1 < page_no, pg_has_next = page_no < total_pages\<rparr>)"

definition list_execution_logs ::
  "log_queries \<Rightarrow> db \<Rightarrow> log_filters \<Rightarrow> int \<Rightarrow> int \<Rightarrow> execution_log page res" where
  "list_execution_logs Q d f p per_page =
     (case (if lf_rule_id f \<noteq> [] then sqlite_int (filter_rule_id Q (lf_rule_id f)) else Inr ()) of
        Inl exc \<Rightarrow> Inl exc
      | Inr _ \<Rightarrow>
          (case execution_query_error Q d f of
             Some exc \<Rightarrow> Inl exc
           | None \<Rightarrow>
               Inr (paginate (execution_order Q) (filter (execution_log_matches Q f) (execution_logs d)) p per_page)))"

definition list_mail_logs :: "log_queries \<Rightarrow> db \<Rightarrow> log_filters \<Rightarrow> int \<Rightarrow> int \<Rightarrow> mail_log page res" where
  "list_mail_logs Q d f p per_page =
     (case mail_query_error Q d f of
        Some exc \<Rightarrow> Inl exc
      | None \<Rightarrow> Inr (paginate (mail_order Q) (filter (mail_log_matches Q f) (mail_logs d)) p per_page))"

definition log_page_parameter :: "log_queries \<Rightarrow> (pystr \<Rightarrow> pystr option) \<Rightarrow> pystr \<Rightarrow> int \<Rightarrow> int" where
  "log_page_parameter Q params name fallback =
     (case params name of
        None \<Rightarrow> fallback
      | Some text \<Rightarrow> (case py_int (decimal_digits Q) text of Some i \<Rightarrow> i | None \<Rightarrow> fallback))"

definition stripped_param :: "(pystr \<Rightarrow> pystr option) \<Rightarrow> pystr \<Rightarrow> pystr" where
  "stripped_param params name = strip (case params name of Some text \<Rightarrow> text | None \<Rightarrow> [])"

definition logs_page ::
  "log_queries \<Rightarrow> db \<Rightarrow> (pystr \<Rightarrow> pystr option)
    \<Rightarrow> (log_filters \<times> execution_log page \<times> mail_log page) res" where
  "logs_page Q d params =
     (let f = \<lparr>lf_execution_status = stripped_param params (str ''execution_status''),
                lf_trigger_type = stripped_param params (str ''trigger_type''),
                lf_rule_id = stripped_param params (str ''rule_id''),
                lf_mail_status = stripped_param params (str ''mail_status''),
                lf_keyword = stripped_param params (str ''keyword'')\<rparr>
      in case list_execution_logs Q d f (log_page_parameter Q params (str ''execution_page'') 1)
                (log_page_parameter Q params (str ''page_size'') DEFAULT_PAGE_SIZE) of
           Inl exc \<Rightarrow> Inl exc
         | Inr executions \<Rightarrow>
             map_sum id (\<lambda>mails. (f, executions, mails))
               (list_mail_logs Q d f (log_page_parameter Q params (str ''mail_page'') 1)
                  (pg_page_size executions)))"

lemma concat_slices: "concat (map (\<lambda>i. take k (drop (i * k) xs)) [0..<n]) = take (n * k) xs"
proof (induction n)
  case 0
  then show ?case by simp
next
  case (Suc n)
  have "take (n * k) xs @ take k (drop (n * k) xs) = take (n * k + k) xs"
    by (rule take_add [symmetric])
  with Suc show ?case by (simp add: add.commute)
qed

lemma normalized_page_size_bounds: "10 \<le> normalized_page_size s \<and> normalized_page_size s \<le> 200"
  by (simp add: normalized_page_size_def MIN_PAGE_SIZE_def MAX_PAGE_SIZE_def)

lemma total_pages_pos: "1 \<le> total_pages_of n k"
  by (simp add: total_pages_of_def)

lemma total_pages_enough:
  assumes "0 < k"
  shows "n \<le> total_pages_of n k * k"
proof -
  have "(n + k - 1) div k * k = n + k - 1 - (n + k - 1) mod k"
    by (simp add: minus_mod_eq_div_mult)
  moreover have "(n + k - 1) mod k < k" using assms by simp
  ultimately have "n \<le> (n + k - 1) div k * k" by linarith
  also have "\<dots> \<le> total_pages_of n k * k"
    by (rule mult_right_mono) (use assms in \<open>simp_all add: total_pages_of_def\<close>)
  finally show ?thesis .
qed

lemma paginate_simps:
  "pg_page_size (paginate ordered rows p s) = normalized_page_size s"
  "pg_total (paginate ordered rows p s) = int (length rows)"
  "pg_total_pages (paginate ordered rows p s) = total_pages_of (int (length rows)) (normalized_page_size s)"
  "pg_page (paginate ordered rows p s) = min (max p 1) (pg_total_pages (paginate ordered rows p s))"
  "pg_has_previous (paginate ordered rows p s) = (1 < pg_page (paginate ordered rows p s))"
  "pg_has_next (paginate ordered rows p s)
     = (pg_page (paginate ordered rows p s) < pg_total_pages (paginate ordered rows p s))"
  "pg_items (paginate ordered rows p s) = take (nat (normalized_page_size s))
     (drop (nat ((pg_page (paginate ordered rows p s) - 1) * normalized_page_size s))
       (ordered ((pg_page (paginate ordered rows p s) - 1) * normalized_page_size s) (normalized_page_size s) rows))"
  unfolding paginate_def Let_def by simp_all

lemma paginate_page_bounds:
  "1 \<le> pg_page (paginate ordered rows p s)
     \<and> pg_page (paginate ordered rows p s) \<le> pg_total_pages (paginate ordered rows p s)"
  using total_pages_pos [of "int (length rows)" "normalized_page_size s"]
  unfolding paginate_simps(4,3) by linarith

lemma paginate_clamped:
  "paginate ordered rows (pg_page (paginate ordered rows p s)) s = paginate ordered rows p s"
  using total_pages_pos [of "int (length rows)" "normalized_page_size s"]
  unfolding paginate_def Let_def by simp

text \<open>The pages of a table from the first to the last one.\<close>

definition all_pages :: "(int \<Rightarrow> int \<Rightarrow> 'r list \<Rightarrow> 'r list) \<Rightarrow> 'r list \<Rightarrow> int \<Rightarrow> 'r page list" where
  "all_pages ordered rows s =
     map (\<lambda>i. paginate ordered rows (int i + 1) s)
       [0..<nat (total_pages_of (int (length rows)) (normalized_page_size s))]"

lemma page_in_all_pages: "paginate ordered rows p s \<in> set (all_pages ordered rows s)"
proof -
  let ?pg = "paginate ordered rows p s"
  have bounds: "1 \<le> pg_page ?pg" "pg_page ?pg \<le> total_pages_of (int (length rows)) (normalized_page_size s)"
    using paginate_page_bounds [of ordered rows p s] by (simp_all add: paginate_simps(3))
  have "?pg = paginate ordered rows (int (nat (pg_page ?pg - 1)) + 1) s"
    using bounds(1) by (simp add: paginate_clamped)
  then show ?thesis using bounds by (auto simp: all_pages_def intro!: image_eqI [of _ _ "nat (pg_page ?pg - 1)"])
qed

text \<open>What a query promises of its order: the same rows, none earlier than the next one.\<close>

definition newest_first :: "('r \<Rightarrow> datetime) \<Rightarrow> 'r list \<Rightarrow> 'r list \<Rightarrow> bool" where
  "newest_first time rows answer \<longleftrightarrow>
     mset answer = mset rows \<and> sorted_wrt (\<lambda>a b. time b \<le> time a) answer"

lemma newest_first_times:
  assumes "newest_first time rows answer"
  shows "map time answer = rev (sort (map time rows))"
proof -
  have "sorted (map time (rev answer))"
    using assms by (simp add: newest_first_def sorted_wrt_rev sorted_wrt_map rev_map [symmetric] sorted_map)
  moreover have "mset (map time (rev answer)) = mset (map time rows)"
    using assms by (simp add: newest_first_def)
  ultimately have "sort (map time rows) = map time (rev answer)"
    by (intro properties_for_sort) simp_all
  then show ?thesis by (simp add: rev_map)
qed

lemma page_items_rows:
  assumes "\<And>offset limit. newest_first time rows (ordered offset limit rows)"
  shows "set (pg_items (paginate ordered rows p s)) \<subseteq> set rows"
proof -
  have "set (ordered offset limit rows) = set rows" for offset limit
    using assms [of offset limit] by (metis newest_first_def set_mset_mset)
  then show ?thesis unfolding paginate_simps(7) by (metis set_take_subset set_drop_subset subset_trans)
qed

lemma page_times:
  assumes order: "\<And>offset limit. newest_first time rows (ordered offset limit rows)"
    and i: "int i < total_pages_of (int (length rows)) (normalized_page_size s)"
    and k: "k = nat (normalized_page_size s)"
  shows "map time (pg_items (paginate ordered rows (int i + 1) s)) = take k (drop (i * k) (rev (sort (map time rows))))"
proof -
  have "pg_page (paginate ordered rows (int i + 1) s) = int i + 1"
    using i unfolding paginate_simps(4,3) by linarith
  moreover have "nat (int i * normalized_page_size s) = i * k"
    using normalized_page_size_bounds [of s] k by (simp add: nat_mult_distrib)
  ultimately show ?thesis
    unfolding paginate_simps(7) by (simp add: k take_map [symmetric] drop_map [symmetric] newest_first_times [OF order])
qed

lemma all_pages_times:
  assumes order: "\<And>offset limit. newest_first time rows (ordered offset limit rows)"
  shows "map time (concat (map pg_items (all_pages ordered rows s))) = rev (sort (map time rows))"
proof -
  define n where "n = nat (total_pages_of (int (length rows)) (normalized_page_size s))"
  define k where "k = nat (normalized_page_size s)"
  have k: "int k = normalized_page_size s" "0 < normalized_page_size s"
    using normalized_page_size_bounds [of s] by (simp_all add: k_def)
  have n: "int n = total_pages_of (int (length rows)) (normalized_page_size s)"
    using total_pages_pos [of "int (length rows)" "normalized_page_size s"] by (simp add: n_def)
  have "int (length rows) \<le> int n * int k"
    unfolding n k(1) by (rule total_pages_enough [OF k(2)])
  then have "int (length rows) \<le> int (n * k)" by (simp only: of_nat_mult)
  then have "length rows \<le> n * k" by (simp only: of_nat_le_iff)
  then have enough: "length (rev (sort (map time rows))) \<le> n * k" by simp
  have "map time (concat (map pg_items (all_pages ordered rows s)))
      = concat (map (\<lambda>i. map time (pg_items (paginate ordered rows (int i + 1) s))) [0..<n])"
    by (simp add: all_pages_def n_def map_concat o_def)
  also have "\<dots> = concat (map (\<lambda>i. take k (drop (i * k) (rev (sort (map time rows))))) [0..<n])"
    by (rule arg_cong [of _ _ concat], rule map_cong [OF refl], rule page_times [of time rows ordered, OF order _ k_def])
      (simp add: n [symmetric])
  also have "\<dots> = rev (sort (map time rows))"
    unfolding concat_slices by (rule take_all [OF enough])
  finally show ?thesis .
qed

lemma count_filter_time: "length (filter (\<lambda>r. time r = t) xs) = count (mset (map time xs)) t"
  by (induction xs) auto

text \<open>Lists with the same times agree on a row whose time no other row has.\<close>

lemma own_time_once:
  assumes times: "mset (map time shown) = mset (map time rows)" and sub: "set shown \<subseteq> set rows"
    and own: "filter (\<lambda>r. time r = time l) rows = [l]"
  shows "filter (\<lambda>r. time r = time l) shown = [l]"
proof -
  have "length (filter (\<lambda>r. time r = time l) shown) = length (filter (\<lambda>r. time r = time l) rows)"
    unfolding count_filter_time times ..
  then have "length (filter (\<lambda>r. time r = time l) shown) = 1" using own by simp
  then obtain r where r: "filter (\<lambda>r. time r = time l) shown = [r]"
    by (auto simp: length_Suc_conv)
  then have "r \<in> set (filter (\<lambda>r. time r = time l) rows)" using sub by (auto simp: filter_eq_Cons_iff)
  then show ?thesis using r own by simp
qed

lemma distinct_times_order:
  assumes times: "map time shown = rev (sort (map time rows))" and sub: "set shown \<subseteq> set rows"
    and own: "distinct (map time rows)"
  shows "shown = rev (sort_key time rows)"
proof -
  have inj: "inj_on time (set shown \<union> set (rev (sort_key time rows)))"
    using own sub by (simp add: distinct_map Un_absorb1)
  have "sort (map time rows) = map time (sort_key time rows)"
    by (rule properties_for_sort) simp_all
  then have "map time shown = map time (rev (sort_key time rows))"
    by (simp add: times rev_map)
  then show ?thesis using inj_on_map_eq_map [OF inj] by blast
qed

lemma list_execution_logs_Inr:
  "list_execution_logs Q d f p s = Inr shown \<longleftrightarrow>
     (lf_rule_id f \<noteq> [] \<longrightarrow> fits_int64 (filter_rule_id Q (lf_rule_id f))) \<and> execution_query_error Q d f = None
     \<and> shown = paginate (execution_order Q) (filter (execution_log_matches Q f) (execution_logs d)) p s"
  by (auto simp: list_execution_logs_def sqlite_int_def split: option.splits)

lemma list_execution_logs_Inl:
  "list_execution_logs Q d f p s = Inl exc \<Longrightarrow>
     lf_rule_id f \<noteq> [] \<and> \<not> fits_int64 (filter_rule_id Q (lf_rule_id f))
       \<and> exc = OverflowError (str ''Python int too large to convert to SQLite INTEGER'')
     \<or> execution_query_error Q d f = Some exc"
  by (auto simp: list_execution_logs_def sqlite_int_def split: option.splits if_splits)

lemma list_mail_logs_Inr:
  "list_mail_logs Q d f p s = Inr shown \<longleftrightarrow>
     mail_query_error Q d f = None
     \<and> shown = paginate (mail_order Q) (filter (mail_log_matches Q f) (mail_logs d)) p s"
  by (auto simp: list_mail_logs_def split: option.splits)

lemma paginate_facts:
  fixes ordered :: "int \<Rightarrow> int \<Rightarrow> 'r list \<Rightarrow> 'r list" and rows :: "'r list"
  defines "shown \<equiv> \<lambda>p s. paginate ordered rows p s"
  shows "10 \<le> pg_page_size (shown p s) \<and> pg_page_size (shown p s) \<le> 200"
    and "int (length (pg_items (shown p s))) \<le> pg_page_size (shown p s)"
    and "1 \<le> pg_page (shown p s) \<and> pg_page (shown p s) \<le> pg_total_pages (shown p s)"
    and "pg_has_previous (shown p s) = (1 < pg_page (shown p s))
      \<and> pg_has_next (shown p s) = (pg_page (shown p s) < pg_total_pages (shown p s))"
    and "pg_total (shown p s) = int (length rows)"
proof -
  show size: "10 \<le> pg_page_size (shown p s) \<and> pg_page_size (shown p s) \<le> 200"
    unfolding shown_def paginate_simps(1) by (rule normalized_page_size_bounds)
  have "length (pg_items (shown p s)) \<le> nat (pg_page_size (shown p s))"
    unfolding shown_def paginate_simps(1,7) by simp
  with size show "int (length (pg_items (shown p s))) \<le> pg_page_size (shown p s)" by linarith
  show "1 \<le> pg_page (shown p s) \<and> pg_page (shown p s) \<le> pg_total_pages (shown p s)"
    unfolding shown_def by (rule paginate_page_bounds)
  show "pg_has_previous (shown p s) = (1 < pg_page (shown p s))
      \<and> pg_has_next (shown p s) = (pg_page (shown p s) < pg_total_pages (shown p s))"
    unfolding shown_def by (simp only: paginate_simps(5,6))
  show "pg_total (shown p s) = int (length rows)"
    unfolding shown_def by (simp only: paginate_simps(2))
qed

lemma all_pages_facts:
  fixes ordered :: "int \<Rightarrow> int \<Rightarrow> 'r list \<Rightarrow> 'r list" and rows :: "'r list" and s :: int
  assumes order: "\<And>offset limit. newest_first time rows (ordered offset limit rows)"
  defines "shown \<equiv> concat (map pg_items (all_pages ordered rows s))"
  shows "map time shown = rev (sort (map time rows))"
    and "set shown \<subseteq> set rows"
    and "filter (\<lambda>r. time r = time l) rows = [l] \<Longrightarrow> filter (\<lambda>r. time r = time l) shown = [l]"
    and "distinct (map time rows) \<Longrightarrow> shown = rev (sort_key time rows)"
proof -
  show times: "map time shown = rev (sort (map time rows))"
    unfolding shown_def by (rule all_pages_times, rule order)
  show sub: "set shown \<subseteq> set rows"
    using page_items_rows [of time rows ordered, OF order] by (fastforce simp: shown_def all_pages_def)
  have "mset (map time shown) = mset (map time rows)" unfolding times by simp
  then show "filter (\<lambda>r. time r = time l) rows = [l] \<Longrightarrow> filter (\<lambda>r. time r = time l) shown = [l]"
    by (rule own_time_once [OF _ sub])
  show "distinct (map time rows) \<Longrightarrow> shown = rev (sort_key time rows)"
    by (rule distinct_times_order [OF times sub])
qed

lemma all_execution_pages:
  assumes "list_execution_logs Q d f p s = Inr shown"
  shows "map (\<lambda>i. list_execution_logs Q d f (int i + 1) s) [0..<nat (pg_total_pages shown)]
    = map Inr (all_pages (execution_order Q) (filter (execution_log_matches Q f) (execution_logs d)) s)"
proof -
  have "list_execution_logs Q d f q s
      = Inr (paginate (execution_order Q) (filter (execution_log_matches Q f) (execution_logs d)) q s)" for q
    using assms unfolding list_execution_logs_Inr by blast
  moreover have "shown = paginate (execution_order Q) (filter (execution_log_matches Q f) (execution_logs d)) p s"
    using assms unfolding list_execution_logs_Inr by blast
  ultimately show ?thesis by (simp add: all_pages_def paginate_simps(3))
qed

text \<open>
  C38. The log pages: whatever page and page size are asked for, the page is refused only for a rule
  number beyond 64 bits or by an error of the database; otherwise its size is between 10 and 200, its
  number between 1 and the number of pages, the links to its neighbours and the number of matching
  logs are right, and it is one of the pages 1 to the last. Each query may order logs of the same time
  as it likes. Read together, the pages hold as many logs of every time as match, newest first, and
  only matching ones, and each log that has its time for itself exactly once; when no two matching
  logs have the same time they are exactly the matching logs in order. Among logs of the same time one
  may be repeated and another left out.
\<close>

theorem log_pages_exact:
  fixes Q :: log_queries and d :: db and f :: log_filters and p s :: int
  assumes "\<And>offset limit rows. newest_first el_started_at rows (execution_order Q offset limit rows)"
  defines "rows \<equiv> filter (execution_log_matches Q f) (execution_logs d)"
  shows "case list_execution_logs Q d f p s of
      Inl exc \<Rightarrow>
        lf_rule_id f \<noteq> [] \<and> \<not> fits_int64 (filter_rule_id Q (lf_rule_id f))
          \<and> exc = OverflowError (str ''Python int too large to convert to SQLite INTEGER'')
        \<or> execution_query_error Q d f = Some exc
    | Inr shown \<Rightarrow>
        (lf_rule_id f \<noteq> [] \<longrightarrow> fits_int64 (filter_rule_id Q (lf_rule_id f)))
        \<and> (10 \<le> pg_page_size shown \<and> pg_page_size shown \<le> 200)
        \<and> int (length (pg_items shown)) \<le> pg_page_size shown
        \<and> (1 \<le> pg_page shown \<and> pg_page shown \<le> pg_total_pages shown)
        \<and> (pg_has_previous shown = (1 < pg_page shown) \<and> pg_has_next shown = (pg_page shown < pg_total_pages shown))
        \<and> pg_total shown = int (length rows)
        \<and> (\<exists>pages. map (\<lambda>i. list_execution_logs Q d f (int i + 1) s) [0..<nat (pg_total_pages shown)] = map Inr pages
            \<and> shown \<in> set pages
            \<and> map el_started_at (concat (map pg_items pages)) = rev (sort (map el_started_at rows))
            \<and> set (concat (map pg_items pages)) \<subseteq> set rows
            \<and> (\<forall>l. filter (\<lambda>r. el_started_at r = el_started_at l) rows = [l]
                \<longrightarrow> filter (\<lambda>r. el_started_at r = el_started_at l) (concat (map pg_items pages)) = [l])
            \<and> (distinct (map el_started_at rows)
                \<longrightarrow> concat (map pg_items pages) = rev (sort_key el_started_at rows)))"
proof (cases "list_execution_logs Q d f p s")
  case (Inl exc)
  then show ?thesis using list_execution_logs_Inl [OF Inl] by simp
next
  case (Inr shown)
  note asked = Inr [unfolded list_execution_logs_Inr, folded rows_def]
  note pages = all_execution_pages [OF Inr, folded rows_def]
  note F = all_pages_facts [of el_started_at rows "execution_order Q", where s = s, OF assms(1)]
  note P = paginate_facts [of "execution_order Q" rows p s, folded asked [THEN conjunct2, THEN conjunct2]]
  have "shown \<in> set (all_pages (execution_order Q) rows s)"
    using asked page_in_all_pages by blast
  with pages F(1,2) have "\<exists>pages. map (\<lambda>i. list_execution_logs Q d f (int i + 1) s) [0..<nat (pg_total_pages shown)] = map Inr pages
            \<and> shown \<in> set pages
            \<and> map el_started_at (concat (map pg_items pages)) = rev (sort (map el_started_at rows))
            \<and> set (concat (map pg_items pages)) \<subseteq> set rows
            \<and> (\<forall>l. filter (\<lambda>r. el_started_at r = el_started_at l) rows = [l]
                \<longrightarrow> filter (\<lambda>r. el_started_at r = el_started_at l) (concat (map pg_items pages)) = [l])
            \<and> (distinct (map el_started_at rows)
                \<longrightarrow> concat (map pg_items pages) = rev (sort_key el_started_at rows))"
    using F(3,4) by (intro exI [of _ "all_pages (execution_order Q) rows s"] conjI allI impI) blast+
  with asked P Inr show ?thesis by simp
qed

definition sample_queries :: log_queries where
  "sample_queries = \<lparr>like_contains = (\<lambda>column keyword. column = keyword),
     execution_order = (\<lambda>offset limit rows.
       rev (sort_key el_started_at (if offset = 0 then rows else rev rows))),
     mail_order = (\<lambda>offset limit rows. rev (sort_key ml_sent_at rows)),
     execution_query_error = (\<lambda>d f. None), mail_query_error = (\<lambda>d f. None), decimal_digits = (\<lambda>c. None)\<rparr>"

definition sample_logs_db :: db where
  "sample_logs_db = empty_db\<lparr>execution_logs := [sample_log 1 50, sample_log 2 70]\<rparr>"

definition sample_filters :: log_filters where
  "sample_filters = \<lparr>lf_execution_status = [], lf_trigger_type = [], lf_rule_id = [], lf_mail_status = [], lf_keyword = []\<rparr>"

lemma sample_order: "newest_first el_started_at rows (execution_order sample_queries offset limit rows)"
proof -
  have "sorted (map el_started_at (sort_key el_started_at xs))" for xs :: "execution_log list" by simp
  then have "sorted_wrt (\<lambda>a b. el_started_at a \<le> el_started_at b) (sort_key el_started_at xs)" for xs :: "execution_log list"
    unfolding sorted_map .
  then show ?thesis by (simp add: newest_first_def sample_queries_def sorted_wrt_rev)
qed

theorem log_pages_exact_witness:
  "\<exists>shown. list_execution_logs sample_queries sample_logs_db sample_filters 7 3 = Inr shown
    \<and> pg_total shown = 2 \<and> pg_items shown = [sample_log 2 70, sample_log 1 50]"
proof -
  define rows where "rows = filter (execution_log_matches sample_queries sample_filters) (execution_logs sample_logs_db)"
  have all: "rows = [sample_log 1 50, sample_log 2 70]"
    by (simp add: rows_def execution_log_matches_def sample_filters_def sample_logs_db_def execution_statuses_def
        trigger_types_def)
  define shown where "shown = paginate (execution_order sample_queries) rows 7 3"
  have asked: "list_execution_logs sample_queries sample_logs_db sample_filters 7 3 = Inr shown"
    by (simp add: list_execution_logs_def sample_filters_def sample_queries_def shown_def rows_def)
  have one: "nat (pg_total_pages shown) = 1"
    by (simp add: shown_def all paginate_simps total_pages_of_def normalized_page_size_def MIN_PAGE_SIZE_def
        MAX_PAGE_SIZE_def)
  have times: "el_started_at (sample_log 1 50) = 50" "el_started_at (sample_log 2 70) = 70"
    by (simp_all add: sample_log_def)
  have own: "distinct (map el_started_at rows)"
    and sorted: "rev (sort_key el_started_at rows) = [sample_log 2 70, sample_log 1 50]"
    by (simp_all add: all times)
  from log_pages_exact [where d = sample_logs_db and f = sample_filters and p = 7 and s = 3, OF sample_order,
      folded rows_def, unfolded asked sum.case one]
  obtain pages where total: "pg_total shown = int (length rows)"
    and pages: "map (\<lambda>i. list_execution_logs sample_queries sample_logs_db sample_filters (int i + 1) 3) [0..<1]
      = map Inr pages" "shown \<in> set pages"
      "concat (map pg_items pages) = rev (sort_key el_started_at rows)"
    using own by blast
  from pages(1) have "length pages = 1" by (metis length_map length_upt diff_zero)
  with pages(2) have "pages = [shown]" by (auto simp: length_Suc_conv)
  with pages(3) have "pg_items shown = [sample_log 2 70, sample_log 1 50]" by (simp add: sorted)
  with asked total show ?thesis by (simp add: all)
qed


section \<open>Retention\<close>

definition expired :: "datetime \<Rightarrow> execution_log \<Rightarrow> bool" where
  "expired cutoff l \<longleftrightarrow>
     (case el_finished_at l of Some t \<Rightarrow> t < cutoff | None \<Rightarrow> False) \<and> el_status l \<noteq> RUNNING"

definition expired_ids :: "datetime \<Rightarrow> nat \<Rightarrow> db \<Rightarrow> int list" where
  "expired_ids cutoff batch d =
     take batch (sort (map (the \<circ> el_id) (filter (expired cutoff) (execution_logs d))))"

definition delete_mail_logs :: "int list \<Rightarrow> db \<Rightarrow> db" where
  "delete_mail_logs ids d = d\<lparr>mail_logs := filter (\<lambda>m. ml_execution_log_id m \<notin> set ids) (mail_logs d)\<rparr>"

definition delete_execution_logs :: "int list \<Rightarrow> db \<Rightarrow> db" where
  "delete_execution_logs ids d = d\<lparr>execution_logs := filter (\<lambda>l. the (el_id l) \<notin> set ids) (execution_logs d)\<rparr>"

text \<open>One round of the loop: the number of deleted logs, \<open>None\<close> when nothing was left.\<close>

definition cleanup_batch :: "env \<Rightarrow> datetime \<Rightarrow> nat \<Rightarrow> (world, nat option) eff" where
  "cleanup_batch E cutoff batch =
     with_session (rollback_on_error E
       (ebind (db_query E (expired_ids cutoff batch)) (\<lambda>ids.
        if ids = [] then ereturn None
        else
          ebind (db_exec E (\<lambda>d. ((), delete_mail_logs ids d))) (\<lambda>_.
          ebind (db_exec E (\<lambda>d. ((), delete_execution_logs ids d))) (\<lambda>_.
          ebind (db_commit E) (\<lambda>_. ereturn (Some (length ids))))))))"

text \<open>\<open>None\<close> when the fuel is used up.\<close>

fun cleanup_loop :: "env \<Rightarrow> datetime \<Rightarrow> nat \<Rightarrow> nat \<Rightarrow> nat \<Rightarrow> (world, nat option) eff" where
  "cleanup_loop E cutoff batch 0 deleted_count = ereturn None"
| "cleanup_loop E cutoff batch (Suc fuel) deleted_count =
     ebind (cleanup_batch E cutoff batch) (\<lambda>n.
       case n of
         None \<Rightarrow> ereturn (Some deleted_count)
       | Some k \<Rightarrow> cleanup_loop E cutoff batch fuel (deleted_count + k))"

definition cleanup_expired_logs ::
  "env \<Rightarrow> int \<Rightarrow> datetime option \<Rightarrow> int \<Rightarrow> nat \<Rightarrow> (world, nat option) eff" where
  "cleanup_expired_logs E retention_days now batch_size fuel =
     (if batch_size \<le> 0 then eraise (ValueError (str ''batch_size must be greater than zero''))
      else
        ebind (case now of Some t \<Rightarrow> ereturn t | None \<Rightarrow> utc_now E) (\<lambda>t.
        ebind (elift (timedelta_days retention_days)) (\<lambda>age.
        ebind (elift (datetime_in_range (t - age))) (\<lambda>cutoff.
        cleanup_loop E cutoff (nat (min batch_size DEFAULT_CLEANUP_BATCH_SIZE)) fuel 0))))"

subsection \<open>Deleting a set of executions with their mails\<close>

definition purge :: "int set \<Rightarrow> db \<Rightarrow> db" where
  "purge X d = d\<lparr>execution_logs := filter (\<lambda>l. the (el_id l) \<notin> X) (execution_logs d),
                 mail_logs := filter (\<lambda>m. ml_execution_log_id m \<notin> X) (mail_logs d)\<rparr>"

definition expired_set :: "datetime \<Rightarrow> db \<Rightarrow> int set" where
  "expired_set cutoff d = (the \<circ> el_id) ` {l \<in> set (execution_logs d). expired cutoff l}"

definition distinct_log_ids :: "db \<Rightarrow> bool" where
  "distinct_log_ids d \<longleftrightarrow> distinct (map (the \<circ> el_id) (execution_logs d))"

lemma purge_empty [simp]: "purge {} d = d"
  by (simp add: purge_def)

lemma purge_purge: "purge X (purge Y d) = purge (X \<union> Y) d"
  by (simp add: purge_def conj_commute)

lemma deletes_purge: "delete_execution_logs ids (delete_mail_logs ids d) = purge (set ids) d"
  by (simp add: purge_def delete_execution_logs_def delete_mail_logs_def)

lemma distinct_purge: "distinct_log_ids d \<Longrightarrow> distinct_log_ids (purge X d)"
  by (simp add: distinct_log_ids_def purge_def distinct_map_filter)

lemma expired_set_purge: "expired_set cutoff (purge X d) = expired_set cutoff d - X"
  by (auto simp: expired_set_def purge_def image_iff)

lemma finite_expired_set [simp]: "finite (expired_set cutoff d)"
  by (simp add: expired_set_def)

lemma expired_ids_subset: "set (expired_ids cutoff batch d) \<subseteq> expired_set cutoff d"
proof -
  have "set (expired_ids cutoff batch d) \<subseteq> set (sort (map (the \<circ> el_id) (filter (expired cutoff) (execution_logs d))))"
    unfolding expired_ids_def by (rule set_take_subset)
  then show ?thesis by (auto simp: expired_set_def)
qed

lemma expired_ids_Nil: "0 < batch \<Longrightarrow> expired_ids cutoff batch d = [] \<longleftrightarrow> expired_set cutoff d = {}"
proof -
  assume "0 < batch"
  then have "expired_ids cutoff batch d = []
      \<longleftrightarrow> set (sort (map (the \<circ> el_id) (filter (expired cutoff) (execution_logs d)))) = {}"
    by (simp add: expired_ids_def del: set_sort)
  then show ?thesis by (simp add: expired_set_def)
qed

lemma distinct_expired_ids: "distinct_log_ids d \<Longrightarrow> distinct (expired_ids cutoff batch d)"
  by (simp add: expired_ids_def distinct_log_ids_def distinct_map_filter)

subsection \<open>One round\<close>

lemma cleanup_batch_purges:
  "\<exists>X \<subseteq> expired_set cutoff (committed w).
     committed (snd (cleanup_batch E cutoff batch w)) = purge X (committed w)"
proof -
  define ids where "ids = expired_ids cutoff batch (committed w)"
  have "committed (snd (cleanup_batch E cutoff batch w)) \<in> {committed w, purge (set ids) (committed w)}"
    by (cases "fault E (ticks w)"; cases "fault E (Suc (ticks w))"; cases "fault E (Suc (Suc (ticks w)))";
        cases "fault E (Suc (Suc (Suc (ticks w))))"; cases "ids = []")
      (simp_all add: cleanup_batch_def committed_with_session committed_rollback_on_error eff_defs db_query_def
        db_exec_def db_commit_def ids_def deletes_purge)
  then show ?thesis
  proof (elim insertE emptyE)
    assume "committed (snd (cleanup_batch E cutoff batch w)) = committed w"
    then show ?thesis by (intro exI [of _ "{}"]) simp
  next
    assume "committed (snd (cleanup_batch E cutoff batch w)) = purge (set ids) (committed w)"
    then show ?thesis
      unfolding ids_def by (intro exI [of _ "set (expired_ids cutoff batch (committed w))"] conjI expired_ids_subset)
  qed
qed

lemma cleanup_batch_runs:
  assumes E: "no_faults E" and ids: "ids = expired_ids cutoff batch (committed w)"
  shows "ids = [] \<Longrightarrow> \<exists>w'. cleanup_batch E cutoff batch w = (Inr None, w') \<and> committed w' = committed w"
    and "ids \<noteq> [] \<Longrightarrow> \<exists>w'. cleanup_batch E cutoff batch w = (Inr (Some (length ids)), w')
           \<and> committed w' = purge (set ids) (committed w)"
  unfolding cleanup_batch_def with_session_def rollback_on_error_def eff_defs db_query_def
    db_calls_run [OF E]
  by (simp_all add: ids deletes_purge)

subsection \<open>The loop\<close>

lemma cleanup_loop_purges:
  "\<exists>X \<subseteq> expired_set cutoff (committed w).
     committed (snd (cleanup_loop E cutoff batch fuel n w)) = purge X (committed w)"
proof (induction fuel arbitrary: n w)
  case 0
  show ?case by (intro exI [of _ "{}"]) (simp add: ereturn_def)
next
  case (Suc fuel)
  obtain r w1 where b: "cleanup_batch E cutoff batch w = (r, w1)" by (cases "cleanup_batch E cutoff batch w")
  from cleanup_batch_purges [of cutoff w E batch] b obtain X where
    X: "X \<subseteq> expired_set cutoff (committed w)" "committed w1 = purge X (committed w)" by auto
  show ?case
  proof (cases "\<exists>k. r = Inr (Some k)")
    case True
    then obtain k where k: "r = Inr (Some k)" by blast
    from Suc.IH [of w1 "n + k"] obtain Y where
      Y: "Y \<subseteq> expired_set cutoff (committed w1)"
        "committed (snd (cleanup_loop E cutoff batch fuel (n + k) w1)) = purge Y (committed w1)" by blast
    have "committed (snd (cleanup_loop E cutoff batch (Suc fuel) n w)) = purge (Y \<union> X) (committed w)"
      using Y(2) by (simp add: ebind_def b k X(2) purge_purge)
    moreover have "Y \<union> X \<subseteq> expired_set cutoff (committed w)"
      using X Y(1) by (auto simp: expired_set_purge)
    ultimately show ?thesis by blast
  next
    case False
    then have "committed (snd (cleanup_loop E cutoff batch (Suc fuel) n w)) = purge X (committed w)"
      using X(2) by (auto simp: ebind_def b ereturn_def split: sum.splits option.splits)
    with X(1) show ?thesis by blast
  qed
qed

lemma cleanup_loop_exact:
  assumes "no_faults E" and "0 < batch"
  shows "distinct_log_ids (committed w) \<Longrightarrow> card (expired_set cutoff (committed w)) < fuel
    \<Longrightarrow> \<exists>w'. cleanup_loop E cutoff batch fuel n w = (Inr (Some (n + card (expired_set cutoff (committed w)))), w')
           \<and> committed w' = purge (expired_set cutoff (committed w)) (committed w)"
proof (induction fuel arbitrary: n w)
  case 0
  then show ?case by simp
next
  case (Suc fuel)
  define ids where "ids = expired_ids cutoff batch (committed w)"
  note run = cleanup_batch_runs [OF assms(1) ids_def]
  show ?case
  proof (cases "ids = []")
    case True
    then have "expired_set cutoff (committed w) = {}"
      using expired_ids_Nil [OF assms(2)] by (simp add: ids_def)
    with run(1) [OF True] show ?thesis by (auto simp: ebind_def ereturn_def)
  next
    case False
    from run(2) [OF False] obtain w1 where
      w1: "cleanup_batch E cutoff batch w = (Inr (Some (length ids)), w1)"
        "committed w1 = purge (set ids) (committed w)" by blast
    have sub: "set ids \<subseteq> expired_set cutoff (committed w)"
      unfolding ids_def by (rule expired_ids_subset)
    have len: "length ids = card (set ids)"
      using distinct_expired_ids [OF Suc.prems(1)] by (simp add: ids_def distinct_card)
    have rest: "expired_set cutoff (committed w1) = expired_set cutoff (committed w) - set ids"
      by (simp add: w1(2) expired_set_purge)
    have card: "card (set ids) + card (expired_set cutoff (committed w1)) = card (expired_set cutoff (committed w))"
      unfolding rest using sub by (simp add: card_Diff_subset card_mono)
    have "0 < card (set ids)" using False by (simp add: card_gt_0_iff)
    then have "card (expired_set cutoff (committed w1)) < fuel" using card Suc.prems(2) by linarith
    moreover have "distinct_log_ids (committed w1)" using Suc.prems(1) by (simp add: w1(2) distinct_purge)
    ultimately obtain w2 where
      w2: "cleanup_loop E cutoff batch fuel (n + length ids) w1
          = (Inr (Some (n + length ids + card (expired_set cutoff (committed w1)))), w2)"
        "committed w2 = purge (expired_set cutoff (committed w1)) (committed w1)"
      using Suc.IH by blast
    have "committed w2 = purge (expired_set cutoff (committed w)) (committed w)"
      using sub by (simp add: w2(2) rest) (simp add: w1(2) purge_purge Un_absorb2)
    then show ?thesis
      using w1(1) w2(1) card by (auto simp: ebind_def len)
  qed
qed

lemma cleanup_expired_logs_facts:
  assumes "timedelta_days retention = Inr age" and "datetime_in_range (t - age) = Inr cutoff" and "0 < batch_size"
  shows "\<exists>X \<subseteq> expired_set cutoff (committed w).
      committed (snd (cleanup_expired_logs E retention (Some t) batch_size fuel w)) = purge X (committed w)"
    and "no_faults E \<Longrightarrow> distinct_log_ids (committed w) \<Longrightarrow> length (execution_logs (committed w)) < fuel
      \<Longrightarrow> \<exists>w'. cleanup_expired_logs E retention (Some t) batch_size fuel w
              = (Inr (Some (card (expired_set cutoff (committed w)))), w')
            \<and> committed w' = purge (expired_set cutoff (committed w)) (committed w)"
proof -
  define batch where "batch = nat (min batch_size DEFAULT_CLEANUP_BATCH_SIZE)"
  have run: "cleanup_expired_logs E retention (Some t) batch_size fuel w = cleanup_loop E cutoff batch fuel 0 w"
    using assms by (simp add: cleanup_expired_logs_def batch_def)
  show "\<exists>X \<subseteq> expired_set cutoff (committed w).
      committed (snd (cleanup_expired_logs E retention (Some t) batch_size fuel w)) = purge X (committed w)"
    unfolding run by (rule cleanup_loop_purges)
  assume ok: "no_faults E" "distinct_log_ids (committed w)" "length (execution_logs (committed w)) < fuel"
  have "0 < batch" using assms(3) by (simp add: batch_def DEFAULT_CLEANUP_BATCH_SIZE_def)
  moreover have "card (expired_set cutoff (committed w)) < fuel"
  proof -
    have "card (expired_set cutoff (committed w)) \<le> card ((the \<circ> el_id) ` set (execution_logs (committed w)))"
      by (rule card_mono) (auto simp: expired_set_def)
    also have "\<dots> \<le> card (set (execution_logs (committed w)))" by (rule card_image_le) simp
    also have "\<dots> \<le> length (execution_logs (committed w))" by (rule card_length)
    finally show ?thesis using ok(3) by linarith
  qed
  ultimately show "\<exists>w'. cleanup_expired_logs E retention (Some t) batch_size fuel w
              = (Inr (Some (card (expired_set cutoff (committed w)))), w')
            \<and> committed w' = purge (expired_set cutoff (committed w)) (committed w)"
    using cleanup_loop_exact [OF ok(1) _ ok(2), of batch cutoff fuel 0] run by simp
qed

text \<open>
  C40. Retention, in every circumstance: whatever call to the database fails and whenever the loop
  stops, what the clean-up has deleted is a set of finished executions older than the retention time
  together with exactly their mails; a running execution, a recent one, or a mail of one that stays is
  never touched. With working calls it ends, deletes every expired execution and returns their number.
\<close>

theorem cleanup_expired_logs_exact:
  assumes "timedelta_days retention = Inr age" and "datetime_in_range (t - age) = Inr cutoff" and "0 < batch_size"
  shows "(\<exists>X \<subseteq> expired_set cutoff (committed w).
      committed (snd (cleanup_expired_logs E retention (Some t) batch_size fuel w)) = purge X (committed w))
    \<and> (no_faults E \<and> distinct_log_ids (committed w) \<and> length (execution_logs (committed w)) < fuel
      \<longrightarrow> (\<exists>w'. cleanup_expired_logs E retention (Some t) batch_size fuel w
              = (Inr (Some (card (expired_set cutoff (committed w)))), w')
            \<and> committed w' = purge (expired_set cutoff (committed w)) (committed w)))"
  using cleanup_expired_logs_facts [OF assms] by blast


theorem cleanup_expired_logs_exact_witness:
  "\<exists>w'. cleanup_expired_logs quiet_env 1 (Some (10 * 86400 * us_per_second)) 10 3
       (new_world (empty_db\<lparr>execution_logs := [sample_log 1 5, sample_log 2 (10 * 86400 * us_per_second)]\<rparr>))
     = (Inr (Some 1), w')
     \<and> execution_logs (committed w') = [sample_log 2 (10 * 86400 * us_per_second)]"
proof -
  define t where "t = 10 * 86400 * us_per_second"
  define d where "d = empty_db\<lparr>execution_logs := [sample_log 1 5, sample_log 2 t]\<rparr>"
  have cutoff: "timedelta_days 1 = Inr (86400 * us_per_second)"
      "datetime_in_range (t - 86400 * us_per_second) = Inr (9 * 86400 * us_per_second)"
    by (simp_all add: timedelta_days_def timedelta_us_def datetime_in_range_def t_def us_per_second_def
        datetime_min_def datetime_max_def Let_def)
  have logs: "execution_logs d = [sample_log 1 5, sample_log 2 t]" by (simp add: d_def)
  have e1: "expired (9 * 86400 * us_per_second) (sample_log 1 5)"
      "\<not> expired (9 * 86400 * us_per_second) (sample_log 2 t)"
      "el_id (sample_log 1 5) = Some 1" "el_id (sample_log 2 t) = Some 2"
    by (simp_all add: expired_def sample_log_def us_per_second_def t_def)
  have "{l \<in> set (execution_logs d). expired (9 * 86400 * us_per_second) l} = {sample_log 1 5}"
    using e1 unfolding logs by auto
  then have e: "expired_set (9 * 86400 * us_per_second) d = {1}"
    unfolding expired_set_def using e1 by simp
  have "distinct_log_ids d" using e1 by (simp add: distinct_log_ids_def logs)
  with cleanup_expired_logs_exact [OF cutoff, of 10 "new_world d" quiet_env 3]
  have "\<exists>w'. cleanup_expired_logs quiet_env 1 (Some t) 10 3 (new_world d)
        = (Inr (Some (card (expired_set (9 * 86400 * us_per_second) d))), w')
      \<and> committed w' = purge (expired_set (9 * 86400 * us_per_second) d) d"
    by (simp add: logs)
  then have "\<exists>w'. cleanup_expired_logs quiet_env 1 (Some t) 10 3 (new_world d) = (Inr (Some 1), w')
      \<and> committed w' = purge {1} d"
    unfolding e by simp
  moreover have "execution_logs (purge {1} d) = [sample_log 2 t]"
    using e1 by (simp add: purge_def logs)
  ultimately show ?thesis unfolding t_def d_def by auto
qed

end
