(* ===== verification/Worker.thy ===== *)
theory Worker
  imports Scheduler Worker_Health Log_Service Execution_Service
begin

text \<open>
  \<open>app/worker.py\<close>: the process that keeps the scheduler's jobs in line with the rules, records its
  heartbeat and clears old logs. Its state is the database as its sessions see it, the scheduler with
  the synchronizer's memory, and whether the scheduler runs. The endless loop of \<open>run_sync_loop\<close> is
  run for a number of rounds, after which the interrupt arrives in \<open>sleep_fn\<close>.
\<close>

section \<open>State\<close>

record 's worker_state =
  wk_world :: world
  wk_jobs :: "'s \<times> known_crons"

definition on_db :: "(world, 'a) eff \<Rightarrow> ('s worker_state, 'a) eff" where
  "on_db m st = (case m (wk_world st) of (r, w') \<Rightarrow> (r, st\<lparr>wk_world := w'\<rparr>))"

definition on_jobs :: "('s \<times> known_crons, 'a) eff \<Rightarrow> ('s worker_state, 'a) eff" where
  "on_jobs m st = (case m (wk_jobs st) of (r, j') \<Rightarrow> (r, st\<lparr>wk_jobs := j'\<rparr>))"

record rule_sync_result =
  rs_ok :: bool
  rs_error :: pystr

text \<open>What the loop is given: the scheduler and its control, the order of sets, the surroundings of
  the database, the clean-up, the identity and the times.\<close>

record ('s, 'tr) worker_env =
  we_scheduler :: "('s, 'tr) job_scheduler"
  we_start :: "('s, unit) eff"
  we_shutdown :: "('s, unit) eff"
  we_set_order :: "int list \<Rightarrow> int list"
  we_misfire_grace_seconds :: int
  we_env :: env
  we_cleanup :: "(world, nat option) eff"
  we_cleanup_interval :: "real option"
  we_worker_id :: pystr
  we_monotonic :: "nat \<Rightarrow> real"

section \<open>Operations\<close>

text \<open>The job of a rule: one session, and an execution in progress is skipped.\<close>

definition execute_rule_callback :: "('t, 'n, 'c, 'k) service_env \<Rightarrow> int \<Rightarrow> real \<Rightarrow> int \<Rightarrow> (world, unit) eff" where
  "execute_rule_callback S max_attempts retry_delay_seconds rule_id =
     with_session
       (ecatch
          (ebind (execute_rule_by_id S rule_id SCHEDULED max_attempts retry_delay_seconds) (\<lambda>_. ereturn ()))
          (\<lambda>exc. case exc of RuleExecutionInProgressError m \<Rightarrow> ereturn () | _ \<Rightarrow> eraise exc))"

definition read_alert_rules :: "env \<Rightarrow> (world, alert_rule list) eff" where
  "read_alert_rules E =
     with_session (db_query E (\<lambda>d. filter (\<lambda>r. ar_archived_at r = None) (alert_rules d)))"

definition sync_failed :: "exn \<Rightarrow> rule_sync_result" where
  "sync_failed exc = \<lparr>rs_ok = False, rs_error = public_error_summary exc WORKER_SYNC_FAILURE\<rparr>"

definition sync_rules_once :: "('s, 'tr) worker_env \<Rightarrow> ('s worker_state, rule_sync_result) eff" where
  "sync_rules_once W =
     ecatch
       (ebind (on_db (read_alert_rules (we_env W))) (\<lambda>rules.
        ecatch
          (ebind (on_jobs (sync_schedule (we_scheduler W) (we_set_order W) (we_misfire_grace_seconds W) rules))
             (\<lambda>_. ereturn \<lparr>rs_ok = True, rs_error = []\<rparr>))
          (\<lambda>exc. ereturn (sync_failed exc))))
       (\<lambda>exc. ereturn (sync_failed exc))"

definition record_sync_heartbeat :: "('s, 'tr) worker_env \<Rightarrow> rule_sync_result \<Rightarrow> ('s worker_state, unit) eff" where
  "record_sync_heartbeat W result =
     ecatch
       (on_db (with_session
          (record_worker_sync (we_env W) (we_worker_id W) (rs_ok result) (rs_error result) None)))
       (\<lambda>_. ereturn ())"

definition record_start_heartbeat :: "('s, 'tr) worker_env \<Rightarrow> ('s worker_state, unit) eff" where
  "record_start_heartbeat W =
     ecatch (on_db (with_session (record_worker_start (we_env W) (we_worker_id W) None))) (\<lambda>_. ereturn ())"

definition cleanup_logs_once :: "('s, 'tr) worker_env \<Rightarrow> ('s worker_state, unit) eff" where
  "cleanup_logs_once W = ecatch (ebind (on_db (we_cleanup W)) (\<lambda>_. ereturn ())) (\<lambda>_. ereturn ())"

text \<open>\<open>None\<close> is an infinite interval.\<close>

definition next_cleanup :: "('s, 'tr) worker_env \<Rightarrow> real \<Rightarrow> real option" where
  "next_cleanup W now =
     (case we_cleanup_interval W of
        None \<Rightarrow> None
      | Some interval \<Rightarrow> if interval = 0 then None else Some (now + interval))"

definition cleanup_due :: "real option \<Rightarrow> real \<Rightarrow> bool" where
  "cleanup_due next_cleanup_at now = (case next_cleanup_at of None \<Rightarrow> False | Some t \<Rightarrow> t \<le> now)"

definition sync_and_record :: "('s, 'tr) worker_env \<Rightarrow> ('s worker_state, unit) eff" where
  "sync_and_record W = ebind (sync_rules_once W) (record_sync_heartbeat W)"

text \<open>The rounds: \<open>k\<close> numbers the readings of the monotonic clock.\<close>

fun sync_rounds :: "('s, 'tr) worker_env \<Rightarrow> nat \<Rightarrow> nat \<Rightarrow> real option \<Rightarrow> ('s worker_state, unit) eff" where
  "sync_rounds W 0 k next_cleanup_at = ereturn ()"
| "sync_rounds W (Suc rounds) k next_cleanup_at =
     (let now = we_monotonic W k
      in ebind (if cleanup_due next_cleanup_at now then cleanup_logs_once W else ereturn ()) (\<lambda>_.
         ebind (sync_and_record W) (\<lambda>_.
         sync_rounds W rounds (Suc k)
           (if cleanup_due next_cleanup_at now then next_cleanup W now else next_cleanup_at))))"

definition run_sync_loop :: "('s, 'tr) worker_env \<Rightarrow> nat \<Rightarrow> ('s worker_state, unit) eff" where
  "run_sync_loop W rounds =
     ebind (cleanup_logs_once W) (\<lambda>_.
     ebind (sync_and_record W) (\<lambda>_.
     ebind (on_jobs (on_scheduler (we_start W))) (\<lambda>_.
     ebind (sync_rounds W rounds 1 (next_cleanup W (we_monotonic W 0))) (\<lambda>_.
     on_jobs (on_scheduler (we_shutdown W))))))"

text \<open>\<open>main()\<close> after the settings are read: a scheduler without jobs, a synchronizer, the loop.\<close>

definition worker_main :: "('s, 'tr) worker_env \<Rightarrow> nat \<Rightarrow> ('s worker_state, unit) eff" where
  "worker_main W rounds =
     ebind (record_start_heartbeat W) (\<lambda>_.
     ebind (on_jobs (on_scheduler (\<lambda>s. build_scheduler (we_scheduler W) s (we_misfire_grace_seconds W) []))) (\<lambda>_.
     ebind (on_jobs (on_scheduler (init_synchronizer (we_scheduler W)))) (\<lambda>known.
     ebind (on_jobs (put_known known)) (\<lambda>_.
     run_sync_loop W rounds))))"

section \<open>Nothing stops the loop\<close>

lemma sync_rules_once_returns: "\<exists>result st'. sync_rules_once W st = (Inr result, st')"
  by (force simp: sync_rules_once_def ecatch_def ereturn_def split: sum.splits prod.splits)

lemma record_sync_heartbeat_returns: "\<exists>st'. record_sync_heartbeat W result st = (Inr (), st')"
  by (force simp: record_sync_heartbeat_def ecatch_def ereturn_def split: sum.splits prod.splits)

lemma cleanup_logs_once_returns: "\<exists>st'. cleanup_logs_once W st = (Inr (), st')"
  by (force simp: cleanup_logs_once_def ecatch_def ereturn_def split: sum.splits prod.splits)

lemma sync_and_record_returns: "\<exists>st'. sync_and_record W st = (Inr (), st')"
  using sync_rules_once_returns [of W st] record_sync_heartbeat_returns [of W]
  by (fastforce simp: sync_and_record_def ebind_def)

lemma ebind_unit_returns:
  assumes "\<And>st. \<exists>st'. m st = (Inr (), st')" and "\<And>st. \<exists>st'. f st = (Inr (), st')"
  shows "\<exists>st'. ebind m (\<lambda>_. f) st = (Inr (), st')"
proof -
  obtain st1 where "m st = (Inr (), st1)" using assms(1) by blast
  then show ?thesis using assms(2) [of st1] by (simp add: ebind_def)
qed

lemma sync_rounds_return: "\<exists>st'. sync_rounds W rounds k next_at st = (Inr (), st')"
proof (induction rounds arbitrary: k next_at st)
  case 0
  then show ?case by simp
next
  case (Suc rounds)
  show ?case
    unfolding sync_rounds.simps Let_def
    by (intro ebind_unit_returns sync_and_record_returns Suc.IH)
      (simp add: cleanup_logs_once_returns)
qed

section \<open>What holds of the jobs throughout\<close>

text \<open>An invariant of the scheduler and the synchronizer's memory.\<close>

definition keeps_jobs_inv :: "('s \<times> known_crons \<Rightarrow> bool) \<Rightarrow> ('s worker_state, 'a) eff \<Rightarrow> bool" where
  "keeps_jobs_inv I m \<longleftrightarrow> (\<forall>st. I (wk_jobs st) \<longrightarrow> I (wk_jobs (snd (m st))))"

lemma keeps_jobs_on_db: "keeps_jobs_inv I (on_db m)"
  by (simp add: keeps_jobs_inv_def on_db_def split: prod.splits)

lemma keeps_jobs_on_jobs: "(\<And>j. I j \<Longrightarrow> I (snd (m j))) \<Longrightarrow> keeps_jobs_inv I (on_jobs m)"
  by (simp add: keeps_jobs_inv_def on_jobs_def split: prod.splits) (metis snd_conv)

lemma keeps_jobs_ereturn: "keeps_jobs_inv I (ereturn x)"
  by (simp add: keeps_jobs_inv_def ereturn_def)

lemma keeps_jobs_ebind:
  assumes "keeps_jobs_inv I m" and "\<And>x. keeps_jobs_inv I (f x)"
  shows "keeps_jobs_inv I (ebind m f)"
  unfolding keeps_jobs_inv_def
proof (intro allI impI)
  fix st :: "'a worker_state"
  assume "I (wk_jobs st)"
  moreover obtain r st1 where m: "m st = (r, st1)" by (cases "m st")
  ultimately have "I (wk_jobs st1)" using assms(1) by (auto simp: keeps_jobs_inv_def dest!: spec [of _ st])
  then show "I (wk_jobs (snd (ebind m f st)))"
    using assms(2) by (cases r) (simp_all add: ebind_def m keeps_jobs_inv_def)
qed

lemma keeps_jobs_ecatch:
  assumes "keeps_jobs_inv I m" and "\<And>exc. keeps_jobs_inv I (h exc)"
  shows "keeps_jobs_inv I (ecatch m h)"
  unfolding keeps_jobs_inv_def
proof (intro allI impI)
  fix st :: "'a worker_state"
  assume "I (wk_jobs st)"
  moreover obtain r st1 where m: "m st = (r, st1)" by (cases "m st")
  ultimately have "I (wk_jobs st1)" using assms(1) by (auto simp: keeps_jobs_inv_def dest!: spec [of _ st])
  then show "I (wk_jobs (snd (ecatch m h st)))"
    using assms(2) by (cases r) (simp_all add: ecatch_def m keeps_jobs_inv_def)
qed

lemmas keeps_jobs_intros = keeps_jobs_on_db keeps_jobs_ereturn keeps_jobs_ebind keeps_jobs_ecatch

definition all_tracked :: "('s, 'tr) job_scheduler \<Rightarrow> ('s \<Rightarrow> pystr \<Rightarrow> 'tr option) \<Rightarrow> 's \<times> known_crons \<Rightarrow> bool" where
  "all_tracked S jobs j \<longleftrightarrow> (\<forall>i. tracked (schedule_view S jobs j i))"

lemma sync_schedule_keeps_tracked:
  assumes "job_table S jobs" and "enumerates_sets set_order" and "all_tracked S jobs j"
  shows "all_tracked S jobs (snd (sync_schedule S set_order grace rules j))"
proof (cases "valid_scheduled_rules S rules")
  case (Inl exc)
  then show ?thesis using assms(3) by (simp add: sync_schedule_def ebind_def elift_def)
next
  case (Inr valid)
  obtain r j' where run: "sync_schedule S set_order grace rules j = (r, j')"
    by (cases "sync_schedule S set_order grace rules j")
  have "tracked (schedule_view S jobs j i)" for i using assms(3) by (simp add: all_tracked_def)
  from sync_schedule_facts(5) [OF assms(1,2) Inr this run] show ?thesis
    by (simp add: run all_tracked_def)
qed

lemma sync_rounds_keep:
  assumes "keeps_jobs_inv I (sync_and_record W)"
  shows "keeps_jobs_inv I (sync_rounds W rounds k next_at)"
proof (induction rounds arbitrary: k next_at)
  case (Suc rounds)
  have "keeps_jobs_inv I (cleanup_logs_once W)"
    unfolding cleanup_logs_once_def by (intro keeps_jobs_intros)
  then show ?case
    unfolding sync_rounds.simps Let_def
    by (intro keeps_jobs_ebind assms Suc.IH) (simp_all add: keeps_jobs_ereturn)
qed (simp add: keeps_jobs_ereturn)

lemma sync_and_record_keeps:
  assumes "job_table (we_scheduler W) jobs" and "enumerates_sets (we_set_order W)"
  shows "keeps_jobs_inv (all_tracked (we_scheduler W) jobs) (sync_and_record W)"
  unfolding sync_and_record_def sync_rules_once_def record_sync_heartbeat_def
  by (intro keeps_jobs_intros keeps_jobs_on_jobs sync_schedule_keeps_tracked [OF assms])


section \<open>A good round repairs everything\<close>

lemma read_alert_rules_runs:
  "no_faults E \<Longrightarrow> \<exists>w'. read_alert_rules E w
     = (Inr (filter (\<lambda>r. ar_archived_at r = None) (alert_rules (committed w))), w')
     \<and> committed w' = committed w \<and> ticks w' = Suc (ticks w)"
  by (simp add: read_alert_rules_def with_session_def db_query_def db_calls_run)

lemma sync_rules_once_good:
  assumes E: "no_faults (we_env W)" and table: "job_table (we_scheduler W) jobs"
    and order: "enumerates_sets (we_set_order W)" and ok: "reliable_scheduler (we_scheduler W) jobs"
    and tracks: "all_tracked (we_scheduler W) jobs (wk_jobs st)"
  defines "rules \<equiv> filter (\<lambda>r. ar_archived_at r = None) (alert_rules (committed (wk_world st)))"
  shows "\<exists>st'. sync_rules_once W st = (Inr \<lparr>rs_ok = True, rs_error = []\<rparr>, st')
    \<and> committed (wk_world st') = committed (wk_world st) \<and> ticks (wk_world st') = Suc (ticks (wk_world st))
    \<and> (\<forall>i. schedule_view (we_scheduler W) jobs (wk_jobs st') i
            = (wanted_schedule (we_scheduler W) rules i, wanted_schedule (we_scheduler W) rules i))"
proof -
  obtain w1 where w1: "read_alert_rules (we_env W) (wk_world st) = (Inr rules, w1)"
      "committed w1 = committed (wk_world st)" "ticks w1 = Suc (ticks (wk_world st))"
    using read_alert_rules_runs [OF E] by (auto simp: rules_def)
  obtain valid where valid: "valid_scheduled_rules (we_scheduler W) rules = Inr valid"
    using valid_scheduled_rules_total [OF ok] by blast
  obtain j' where run: "sync_schedule (we_scheduler W) (we_set_order W) (we_misfire_grace_seconds W) rules (wk_jobs st)
      = (Inr (), j')"
    using sync_schedule_returns [OF table ok] by blast
  have "tracked (schedule_view (we_scheduler W) jobs (wk_jobs st) i)" for i
    using tracks by (simp add: all_tracked_def)
  from sync_schedule_facts(4) [OF table order valid this run refl] have
    "\<forall>i. schedule_view (we_scheduler W) jobs j' i
       = (wanted_schedule (we_scheduler W) rules i, wanted_schedule (we_scheduler W) rules i)" by blast
  then show ?thesis
    by (intro exI [of _ "st\<lparr>wk_world := w1, wk_jobs := j'\<rparr>"])
      (simp add: sync_rules_once_def eff_defs on_db_def on_jobs_def w1 run)
qed

lemma sync_and_record_good:
  assumes E: "no_faults (we_env W)" and table: "job_table (we_scheduler W) jobs"
    and order: "enumerates_sets (we_set_order W)" and ok: "reliable_scheduler (we_scheduler W) jobs"
    and tracks: "all_tracked (we_scheduler W) jobs (wk_jobs st)"
  defines "rules \<equiv> filter (\<lambda>r. ar_archived_at r = None) (alert_rules (committed (wk_world st)))"
  shows "\<exists>st' h. sync_and_record W st = (Inr (), st')
    \<and> (\<forall>i. schedule_view (we_scheduler W) jobs (wk_jobs st') i
            = (wanted_schedule (we_scheduler W) rules i, wanted_schedule (we_scheduler W) rules i))
    \<and> heartbeat_of (committed (wk_world st')) = Some h \<and> hb_worker_id h = we_worker_id W
    \<and> hb_last_sync_ok h \<and> hb_last_seen_at h = clock (we_env W) (Suc (ticks (wk_world st)))"
proof -
  obtain st1 where st1: "sync_rules_once W st = (Inr \<lparr>rs_ok = True, rs_error = []\<rparr>, st1)"
      "ticks (wk_world st1) = Suc (ticks (wk_world st))"
      "\<forall>i. schedule_view (we_scheduler W) jobs (wk_jobs st1) i
            = (wanted_schedule (we_scheduler W) rules i, wanted_schedule (we_scheduler W) rules i)"
    using sync_rules_once_good [OF E table order ok tracks] unfolding rules_def by blast
  obtain w2 where w2: "record_worker_sync (we_env W) (we_worker_id W) True [] None (open_session (wk_world st1)) = (Inr (), w2)"
    using record_worker_sync_runs [OF E] by blast
  from record_worker_sync_returns [OF w2] obtain h where h: "heartbeat_of (committed w2) = Some h"
      "hb_worker_id h = we_worker_id W" "hb_last_sync_ok h"
      "hb_last_seen_at h = clock (we_env W) (Suc (ticks (wk_world st)))"
    by (auto simp: st1(2))
  show ?thesis
    using st1 h
    by (intro exI [of _ "st1\<lparr>wk_world := open_session w2\<rparr>"] exI [of _ h])
      (simp add: sync_and_record_def record_sync_heartbeat_def ebind_def ecatch_def on_db_def with_session_def w2)
qed

lemma worker_loop_facts:
  assumes table: "job_table (we_scheduler W) jobs" and order: "enumerates_sets (we_set_order W)"
    and start: "\<And>s. \<exists>s'. we_start W s = (Inr (), s') \<and> jobs s' = jobs s"
    and shutdown: "\<And>s. \<exists>s'. we_shutdown W s = (Inr (), s') \<and> jobs s' = jobs s"
    and tracks: "all_tracked (we_scheduler W) jobs (wk_jobs st)"
  shows "\<exists>st'. run_sync_loop W rounds st = (Inr (), st') \<and> all_tracked (we_scheduler W) jobs (wk_jobs st')"
    and "no_faults (we_env W) \<Longrightarrow> reliable_scheduler (we_scheduler W) jobs \<Longrightarrow>
      \<exists>st' h. sync_and_record W st = (Inr (), st')
        \<and> (\<forall>i. schedule_view (we_scheduler W) jobs (wk_jobs st') i
             = (let rules = filter (\<lambda>r. ar_archived_at r = None) (alert_rules (committed (wk_world st)))
                in (wanted_schedule (we_scheduler W) rules i, wanted_schedule (we_scheduler W) rules i)))
        \<and> heartbeat_of (committed (wk_world st')) = Some h
        \<and> (\<forall>now timeout. now - clock (we_env W) (Suc (ticks (wk_world st))) \<le> timeout * us_per_second
             \<longrightarrow> heartbeat_verdict timeout now h = readiness True ''ready'' ''ready'')"
proof -
  let ?I = "all_tracked (we_scheduler W) jobs"
  have control: "keeps_jobs_inv ?I (on_jobs (on_scheduler m))" "\<exists>st'. on_jobs (on_scheduler m) st = (Inr (), st')"
    if m: "\<And>s. \<exists>s'. m s = (Inr (), s') \<and> jobs s' = jobs s" for m st
  proof -
    have step: "\<exists>s'. on_scheduler m j = (Inr (), (s', snd j)) \<and> jobs s' = jobs (fst j)" for j
      using m [of "fst j"] by (cases j) (auto simp: on_scheduler_def)
    show "keeps_jobs_inv ?I (on_jobs (on_scheduler m))"
    proof (rule keeps_jobs_on_jobs)
      fix j assume "?I j"
      moreover obtain s' where "on_scheduler m j = (Inr (), (s', snd j))" "jobs s' = jobs (fst j)"
        using step by blast
      ultimately show "?I (snd (on_scheduler m j))"
        by (cases j) (simp add: all_tracked_def schedule_view_def)
    qed
    show "\<exists>st'. on_jobs (on_scheduler m) st = (Inr (), st')"
      using step [of "wk_jobs st"] by (auto simp: on_jobs_def)
  qed
  have "keeps_jobs_inv ?I (run_sync_loop W rounds)"
    unfolding run_sync_loop_def cleanup_logs_once_def
    by (intro keeps_jobs_intros sync_and_record_keeps [OF table order] sync_rounds_keep
        control(1) [OF start] control(1) [OF shutdown])
  moreover have "\<exists>st'. run_sync_loop W rounds st = (Inr (), st')"
    unfolding run_sync_loop_def
    by (intro ebind_unit_returns cleanup_logs_once_returns sync_and_record_returns sync_rounds_return
        control(2) [OF start] control(2) [OF shutdown])
  ultimately show "\<exists>st'. run_sync_loop W rounds st = (Inr (), st') \<and> ?I (wk_jobs st')"
    using tracks unfolding keeps_jobs_inv_def by (metis snd_conv)
  assume good: "no_faults (we_env W)" "reliable_scheduler (we_scheduler W) jobs"
  show "\<exists>st' h. sync_and_record W st = (Inr (), st')
        \<and> (\<forall>i. schedule_view (we_scheduler W) jobs (wk_jobs st') i
             = (let rules = filter (\<lambda>r. ar_archived_at r = None) (alert_rules (committed (wk_world st)))
                in (wanted_schedule (we_scheduler W) rules i, wanted_schedule (we_scheduler W) rules i)))
        \<and> heartbeat_of (committed (wk_world st')) = Some h
        \<and> (\<forall>now timeout. now - clock (we_env W) (Suc (ticks (wk_world st))) \<le> timeout * us_per_second
             \<longrightarrow> heartbeat_verdict timeout now h = readiness True ''ready'' ''ready'')"
    using sync_and_record_good [OF good(1) table order good(2) tracks]
    unfolding Let_def heartbeat_verdict_def by fastforce
qed

text \<open>
  C33. The worker survives and repairs itself. Whatever calls to the database, the scheduler or the
  clean-up fail in whatever round, the loop goes on until it is interrupted and then shuts the
  scheduler down, and the synchronizer's memory of the jobs stays true. And from any such state one
  round in which the calls work leaves every rule of the database with exactly the job it should have,
  and a heartbeat that makes the service ready for the length of the timeout.
\<close>

theorem worker_survives_and_repairs:
  assumes "job_table (we_scheduler W) jobs" and "enumerates_sets (we_set_order W)"
    and "\<And>s. \<exists>s'. we_start W s = (Inr (), s') \<and> jobs s' = jobs s"
    and "\<And>s. \<exists>s'. we_shutdown W s = (Inr (), s') \<and> jobs s' = jobs s"
    and "all_tracked (we_scheduler W) jobs (wk_jobs st)"
  shows "(\<exists>st'. run_sync_loop W rounds st = (Inr (), st') \<and> all_tracked (we_scheduler W) jobs (wk_jobs st'))
    \<and> (no_faults (we_env W) \<and> reliable_scheduler (we_scheduler W) jobs \<longrightarrow>
      (\<exists>st' h. sync_and_record W st = (Inr (), st')
        \<and> (\<forall>i. schedule_view (we_scheduler W) jobs (wk_jobs st') i
             = (let rules = filter (\<lambda>r. ar_archived_at r = None) (alert_rules (committed (wk_world st)))
                in (wanted_schedule (we_scheduler W) rules i, wanted_schedule (we_scheduler W) rules i)))
        \<and> heartbeat_of (committed (wk_world st')) = Some h
        \<and> (\<forall>now timeout. now - clock (we_env W) (Suc (ticks (wk_world st))) \<le> timeout * us_per_second
             \<longrightarrow> heartbeat_verdict timeout now h = readiness True ''ready'' ''ready'')))"
  using worker_loop_facts [OF assms] by blast


definition sample_worker :: "((pystr \<Rightarrow> pystr option), pystr) worker_env" where
  "sample_worker = \<lparr>we_scheduler = map_scheduler, we_start = ereturn (), we_shutdown = ereturn (),
     we_set_order = remdups, we_misfire_grace_seconds = 300, we_env = quiet_env, we_cleanup = ereturn None,
     we_cleanup_interval = None, we_worker_id = [], we_monotonic = real\<rparr>"

lemma map_scheduler_reliable: "reliable_scheduler map_scheduler (\<lambda>s. s)"
  by (auto simp: reliable_scheduler_def map_scheduler_def ereturn_def)

theorem worker_survives_and_repairs_witness:
  "\<exists>st' h. sync_and_record sample_worker
       \<lparr>wk_world = new_world (empty_db\<lparr>alert_rules := [cron_rule 7 (str ''0 9 * * *'')]\<rparr>), wk_jobs = (Map.empty, [])\<rparr>
       = (Inr (), st')
     \<and> map_option (\<lambda>t. t) (fst (wk_jobs st') (job_id 7)) = Some (str ''0 9 * * *'')
     \<and> heartbeat_of (committed (wk_world st')) = Some h \<and> rr_ready (heartbeat_verdict 60 0 h)"
proof -
  define st :: "(pystr \<Rightarrow> pystr option) worker_state" where
    "st = \<lparr>wk_world = new_world (empty_db\<lparr>alert_rules := [cron_rule 7 (str ''0 9 * * *'')]\<rparr>), wk_jobs = (Map.empty, [])\<rparr>"
  have W: "we_scheduler sample_worker = map_scheduler" "we_env sample_worker = quiet_env"
      "we_start sample_worker = ereturn ()" "we_shutdown sample_worker = ereturn ()"
      "we_set_order sample_worker = remdups"
    by (simp_all add: sample_worker_def)
  have tracks: "all_tracked (we_scheduler sample_worker) (\<lambda>s. s) (wk_jobs st)"
    by (simp add: all_tracked_def tracked_def schedule_view_def st_def)
  have table: "job_table (we_scheduler sample_worker) (\<lambda>s. s)" by (simp add: W map_scheduler_table)
  have order: "enumerates_sets (we_set_order sample_worker)" by (simp add: W enumerates_sets_def)
  have wanted: "wanted_schedule map_scheduler [cron_rule 7 (str ''0 9 * * *'')] 7 = Some (str ''0 9 * * *'')"
    by (simp add: wanted_schedule_def schedulable_def cron_rule_def map_scheduler_def)
  have rules: "filter (\<lambda>r. ar_archived_at r = None) (alert_rules (committed (wk_world st))) = [cron_rule 7 (str ''0 9 * * *'')]"
    by (simp add: st_def cron_rule_def)
  obtain st' h where good: "sync_and_record sample_worker st = (Inr (), st')"
      "\<forall>i. schedule_view map_scheduler (\<lambda>s. s) (wk_jobs st') i
         = (wanted_schedule map_scheduler [cron_rule 7 (str ''0 9 * * *'')] i,
            wanted_schedule map_scheduler [cron_rule 7 (str ''0 9 * * *'')] i)"
      "heartbeat_of (committed (wk_world st')) = Some h"
      "\<forall>now timeout. now - clock quiet_env (Suc (ticks (wk_world st))) \<le> timeout * us_per_second
         \<longrightarrow> heartbeat_verdict timeout now h = readiness True ''ready'' ''ready''"
    using worker_survives_and_repairs [OF table order _ _ tracks, THEN conjunct2]
    unfolding W rules Let_def by (auto simp: map_scheduler_reliable)
  have "fst (schedule_view map_scheduler (\<lambda>s. s) (wk_jobs st') 7) = Some (str ''0 9 * * *'')"
    using good(2) wanted by simp
  moreover have "trigger_str map_scheduler = (\<lambda>t. t)" by (simp add: map_scheduler_def)
  ultimately have "map_option (\<lambda>t. t) (fst (wk_jobs st') (job_id 7)) = Some (str ''0 9 * * *'')"
    by (simp add: schedule_view_def split: prod.splits)
  moreover have "heartbeat_verdict 60 0 h = readiness True ''ready'' ''ready''"
    using good(4) by (simp add: quiet_env_def us_per_second_def)
  ultimately show ?thesis using good(1,3) unfolding st_def by (auto simp: readiness_def)
qed

end
