(* ===== verification/Rule_Forms.thy ===== *)
theory Rule_Forms
  imports Execution_Service Py_Int
begin

text \<open>
  The forms of \<open>app/routes.py\<close>: bounded integers, the submitted rule form and its validation, the
  forms a stored rule is shown with, and the replies of a route. The libraries are parameters: the
  cron parser, the order the database returns rows in, and the digits of other scripts.
\<close>

section \<open>Replies\<close>

type_synonym form = "(pystr \<times> pystr) list"

text \<open>What a template is rendered with, as far as the routes choose it; \<open>pc_form\<close> is also the \<open>sql_form\<close>.\<close>

record page_context =
  pc_error :: pystr
  pc_notice :: pystr
  pc_form :: form
  pc_smtp_form :: form
  pc_action :: pystr
  pc_heading :: pystr
  pc_rules :: "alert_rule list"
  pc_data_sources :: "sql_data_source list"
  pc_smtp_configs :: "smtp_config list"

definition blank_page :: page_context where
  "blank_page = \<lparr>pc_error = [], pc_notice = [], pc_form = [], pc_smtp_form = [], pc_action = [], pc_heading = [],
     pc_rules = [], pc_data_sources = [], pc_smtp_configs = []\<rparr>"

datatype reply =
    Page nat pystr page_context
  | Redirect pystr
  | JsonMessage nat bool pystr
  | JsonRows pystr "pystr list" "row list"
  | NotFound pystr

record route_lib =
  rl_from_crontab :: "pystr \<Rightarrow> unit res"
  rl_decimals :: "nat \<Rightarrow> nat option"
  rl_is_digit :: "nat \<Rightarrow> bool"
  rl_repr :: "pystr \<Rightarrow> pystr"
  rl_recent_rules :: "alert_rule list \<Rightarrow> alert_rule list"
  rl_sources_by_name :: "sql_data_source list \<Rightarrow> sql_data_source list"
  rl_recent_sources :: "sql_data_source list \<Rightarrow> sql_data_source list"
  rl_recent_smtp :: "smtp_config list \<Rightarrow> smtp_config list"
  rl_rules_by_name :: "alert_rule list \<Rightarrow> alert_rule list"

definition field :: "form \<Rightarrow> string \<Rightarrow> pystr" where
  "field form name = (case map_of form (str name) of Some v \<Rightarrow> v | None \<Rightarrow> [])"

definition set_field :: "string \<Rightarrow> pystr \<Rightarrow> form \<Rightarrow> form" where
  "set_field name v form = AList.update (str name) v form"

definition is_checked :: "pystr option \<Rightarrow> bool" where
  "is_checked v = (case v of Some s \<Rightarrow> s \<in> set [str ''on'', str ''true'', str ''1''] | None \<Rightarrow> False)"

definition checkbox :: "bool \<Rightarrow> pystr" where
  "checkbox b = (if b then str ''on'' else [])"

section \<open>Bounded integers\<close>

definition LABEL_QUERY_TIMEOUT :: pystr where "LABEL_QUERY_TIMEOUT = [0x67E5, 0x8BE2, 0x8D85, 0x65F6]"

definition LABEL_MAX_ROWS :: pystr where "LABEL_MAX_ROWS = [0x6700, 0x5927, 0x884C, 0x6570]"

definition LABEL_PORT :: pystr where "LABEL_PORT = [0x7AEF, 0x53E3]"

definition LABEL_CONNECT_TIMEOUT :: pystr where "LABEL_CONNECT_TIMEOUT = [0x8FDE, 0x63A5, 0x8D85, 0x65F6]"

definition LABEL_SMTP_TIMEOUT :: pystr where "LABEL_SMTP_TIMEOUT = [0x0053, 0x004D, 0x0054, 0x0050, 0x0020, 0x8D85, 0x65F6]"

definition not_an_integer :: "pystr \<Rightarrow> pystr" where
  "not_an_integer label = label @ [0x5FC5, 0x987B, 0x662F, 0x6574, 0x6570]"

definition validate_bounded_int :: "int \<Rightarrow> pystr \<Rightarrow> int \<Rightarrow> int \<Rightarrow> pystr option" where
  "validate_bounded_int i label minimum maximum =
     (if \<not> (minimum \<le> i \<and> i \<le> maximum)
      then Some (label @ [0x5FC5, 0x987B, 0x5728, 0x0020] @ int_str minimum @ [0x0020, 0x81F3, 0x0020] @ int_str maximum @ [0x0020, 0x4E4B, 0x95F4])
      else None)"

text \<open>The parsed number, or the error message.\<close>

definition parse_bounded_int :: "route_lib \<Rightarrow> pystr \<Rightarrow> pystr \<Rightarrow> int \<Rightarrow> int \<Rightarrow> pystr + int" where
  "parse_bounded_int R text label minimum maximum =
     (case py_int (rl_decimals R) text of
        None \<Rightarrow> Inl (not_an_integer label)
      | Some i \<Rightarrow>
          (case validate_bounded_int i label minimum maximum of Some e \<Rightarrow> Inl e | None \<Rightarrow> Inr i))"

definition parse_two :: "pystr + int \<Rightarrow> pystr + int \<Rightarrow> pystr + (int \<times> int)" where
  "parse_two a b = (case a of Inl e \<Rightarrow> Inl e | Inr x \<Rightarrow> (case b of Inl e \<Rightarrow> Inl e | Inr y \<Rightarrow> Inr (x, y)))"

definition parse_rule_limits :: "route_lib \<Rightarrow> pystr \<Rightarrow> pystr \<Rightarrow> pystr + (int \<times> int)" where
  "parse_rule_limits R query_timeout_seconds max_rows =
     parse_two (parse_bounded_int R query_timeout_seconds LABEL_QUERY_TIMEOUT 1 600)
       (parse_bounded_int R max_rows LABEL_MAX_ROWS 1 5000)"

definition first_error :: "pystr option \<Rightarrow> pystr option \<Rightarrow> pystr option" where
  "first_error a b = (case a of Some e \<Rightarrow> Some e | None \<Rightarrow> b)"

definition validate_sql_connection_values :: "int \<Rightarrow> int \<Rightarrow> pystr option" where
  "validate_sql_connection_values port connect_timeout_seconds =
     first_error (validate_bounded_int port LABEL_PORT 1 65535)
       (validate_bounded_int connect_timeout_seconds LABEL_CONNECT_TIMEOUT 1 600)"

definition parse_sql_connection_values :: "route_lib \<Rightarrow> pystr \<Rightarrow> pystr \<Rightarrow> pystr + (int \<times> int)" where
  "parse_sql_connection_values R port connect_timeout_seconds =
     parse_two (parse_bounded_int R port LABEL_PORT 1 65535)
       (parse_bounded_int R connect_timeout_seconds LABEL_CONNECT_TIMEOUT 1 600)"

definition validate_smtp_values :: "int \<Rightarrow> int \<Rightarrow> pystr option" where
  "validate_smtp_values port timeout_seconds =
     first_error (validate_bounded_int port LABEL_PORT 1 65535)
       (validate_bounded_int timeout_seconds LABEL_SMTP_TIMEOUT 1 600)"

definition parse_smtp_values :: "route_lib \<Rightarrow> pystr \<Rightarrow> pystr \<Rightarrow> pystr + (int \<times> int)" where
  "parse_smtp_values R port timeout_seconds =
     parse_two (parse_bounded_int R port LABEL_PORT 1 65535)
       (parse_bounded_int R timeout_seconds LABEL_SMTP_TIMEOUT 1 600)"

lemma parse_bounded_int_Inr:
  "parse_bounded_int R text label lo hi = Inr i \<longleftrightarrow> py_int (rl_decimals R) text = Some i \<and> lo \<le> i \<and> i \<le> hi"
  by (auto simp: parse_bounded_int_def validate_bounded_int_def split: option.splits if_splits)

lemma parse_two_Inr: "parse_two a b = Inr (x, y) \<longleftrightarrow> a = Inr x \<and> b = Inr y"
  by (auto simp: parse_two_def split: sum.splits)

lemma parse_rule_limits_Inr:
  "parse_rule_limits R a b = Inr (t, m) \<Longrightarrow> 1 \<le> t \<and> t \<le> 600 \<and> 1 \<le> m \<and> m \<le> 5000"
  by (simp add: parse_rule_limits_def parse_two_Inr parse_bounded_int_Inr)

lemma parse_values_bounds:
  "parse_sql_connection_values R a b = Inr (p, t) \<Longrightarrow> 1 \<le> p \<and> p \<le> 65535 \<and> 1 \<le> t \<and> t \<le> 600"
  "parse_smtp_values R a b = Inr (p, t) \<Longrightarrow> 1 \<le> p \<and> p \<le> 65535 \<and> 1 \<le> t \<and> t \<le> 600"
  by (simp_all add: parse_sql_connection_values_def parse_smtp_values_def parse_two_Inr parse_bounded_int_Inr)

text \<open>The number a form shows is read back.\<close>

lemma parse_bounded_int_str:
  "lo \<le> i \<Longrightarrow> i \<le> hi \<Longrightarrow> \<bar>i\<bar> < 10 ^ 30 \<Longrightarrow> parse_bounded_int R (int_str i) label lo hi = Inr i"
  unfolding parse_bounded_int_Inr using py_int_small by simp

section \<open>The rule form\<close>

definition has_recipient_text :: "pystr \<Rightarrow> bool" where
  "has_recipient_text v = list_ex (\<lambda>r. strip r \<noteq> []) (split_on (\<lambda>c. c = 44 \<or> c = 59) v)"

text \<open>What the browser submits; an unchecked box submits nothing. The hours are converted by the
  framework.\<close>

record rule_submission =
  su_name :: pystr
  su_data_source_id :: pystr
  su_sql_text :: pystr
  su_cron_expression :: pystr
  su_recipients :: pystr
  su_cc_recipients :: pystr
  su_subject_template :: pystr
  su_body_template :: pystr
  su_send_mode :: pystr
  su_query_timeout_seconds :: pystr
  su_max_rows :: pystr
  su_enabled :: "pystr option"
  su_dynamic_recipient_field :: pystr
  su_dynamic_cc_field :: pystr
  su_suppress_duplicates :: "pystr option"
  su_suppression_key_field :: pystr
  su_suppression_window_hours :: int

definition submitted_rule_form :: "rule_submission \<Rightarrow> form" where
  "submitted_rule_form s =
     [(str ''name'', su_name s), (str ''data_source_id'', su_data_source_id s),
      (str ''sql_text'', su_sql_text s), (str ''cron_expression'', su_cron_expression s),
      (str ''recipients'', su_recipients s), (str ''cc_recipients'', su_cc_recipients s),
      (str ''subject_template'', su_subject_template s), (str ''body_template'', su_body_template s),
      (str ''send_mode'', su_send_mode s), (str ''query_timeout_seconds'', su_query_timeout_seconds s),
      (str ''max_rows'', su_max_rows s), (str ''enabled'', checkbox (is_checked (su_enabled s))),
      (str ''dynamic_recipient_field'', strip (su_dynamic_recipient_field s)),
      (str ''dynamic_cc_field'', strip (su_dynamic_cc_field s)),
      (str ''suppress_duplicates'', checkbox (is_checked (su_suppress_duplicates s))),
      (str ''suppression_key_field'', strip (su_suppression_key_field s)),
      (str ''suppression_window_hours'', int_str (su_suppression_window_hours s))]"

definition rule_to_form :: "alert_rule \<Rightarrow> form" where
  "rule_to_form r =
     [(str ''name'', ar_name r), (str ''data_source_id'', int_str (ar_data_source_id r)),
      (str ''sql_text'', ar_sql_text r), (str ''cron_expression'', ar_cron_expression r),
      (str ''recipients'', ar_recipients r), (str ''cc_recipients'', ar_cc_recipients r),
      (str ''subject_template'', ar_subject_template r), (str ''body_template'', ar_body_template r),
      (str ''send_mode'', send_mode_value (ar_send_mode r)),
      (str ''query_timeout_seconds'', int_str (ar_query_timeout_seconds r)),
      (str ''max_rows'', int_str (ar_max_rows r)), (str ''enabled'', checkbox (ar_enabled r)),
      (str ''dynamic_recipient_field'', ar_dynamic_recipient_field r),
      (str ''dynamic_cc_field'', ar_dynamic_cc_field r),
      (str ''suppress_duplicates'', checkbox (ar_suppress_duplicates r)),
      (str ''suppression_key_field'', ar_suppression_key_field r),
      (str ''suppression_window_hours'', int_str (ar_suppression_window_hours r))]"

definition rule_to_copy_form :: "alert_rule \<Rightarrow> form" where
  "rule_to_copy_form r = set_field ''enabled'' (str ''on'') (set_field ''name'' (ar_name r @ [0x0020, 0x526F, 0x672C]) (rule_to_form r))"

definition send_mode_of_value :: "pystr \<Rightarrow> send_mode option" where
  "send_mode_of_value v = find (\<lambda>m. send_mode_value m = v) send_modes"

lemma send_mode_of_value_value [simp]: "send_mode_of_value (send_mode_value m) = Some m"
  by (cases m) (simp_all add: send_mode_of_value_def send_modes_def)

definition invalid_send_mode :: "route_lib \<Rightarrow> pystr \<Rightarrow> pystr" where
  "invalid_send_mode R v = rl_repr R v @ str '' is not a valid SendMode''"

section \<open>Validation\<close>

definition MSG_FORM :: pystr where "MSG_FORM = [0x8868, 0x5355, 0x6570, 0x636E, 0x65E0, 0x6548]"

definition MSG_DYNAMIC :: pystr where "MSG_DYNAMIC = [0x52A8, 0x6001, 0x6536, 0x4EF6, 0x4EBA, 0x5B57, 0x6BB5, 0x4EC5, 0x652F, 0x6301, 0x6BCF, 0x884C, 0x4E00, 0x5C01, 0x6A21, 0x5F0F]"

definition MSG_RECIPIENTS :: pystr where "MSG_RECIPIENTS = [0x8BF7, 0x586B, 0x5199, 0x6536, 0x4EF6, 0x4EBA, 0x6216, 0x52A8, 0x6001, 0x6536, 0x4EF6, 0x4EBA, 0x5B57, 0x6BB5]"

definition MSG_CRON :: pystr where "MSG_CRON = [0x0043, 0x0072, 0x006F, 0x006E, 0x0020, 0x8868, 0x8FBE, 0x5F0F, 0x65E0, 0x6548]"

definition MSG_SOURCE :: pystr where "MSG_SOURCE = [0x8BF7, 0x9009, 0x62E9, 0x6709, 0x6548, 0x7684, 0x6570, 0x636E, 0x6E90]"

definition MSG_KEY :: pystr where "MSG_KEY = [0x542F, 0x7528, 0x91CD, 0x590D, 0x6291, 0x5236, 0x65F6, 0x5FC5, 0x987B, 0x586B, 0x5199, 0x53BB, 0x91CD, 0x5B57, 0x6BB5]"

definition MSG_WINDOW :: pystr where "MSG_WINDOW = [0x91CD, 0x590D, 0x6291, 0x5236, 0x7A97, 0x53E3, 0x5FC5, 0x987B, 0x662F, 0x6B63, 0x6574, 0x6570]"

text \<open>The statement and the send mode: the message of a refusal, or the mode.\<close>

definition check_statement :: "route_lib \<Rightarrow> ('t, 'n) sqlglot \<Rightarrow> form \<Rightarrow> (pystr + send_mode) res" where
  "check_statement R G form =
     (case validate_select_only_sql G (field form ''sql_text'') of
        Inl (SqlValidationError m) \<Rightarrow> Inr (Inl (if m = [] then MSG_FORM else m))
      | Inl (ValueError m) \<Rightarrow> Inr (Inl (if m = [] then MSG_FORM else m))
      | Inl exc \<Rightarrow> Inl exc
      | Inr _ \<Rightarrow>
          (case send_mode_of_value (field form ''send_mode'') of
             None \<Rightarrow> Inr (Inl (invalid_send_mode R (field form ''send_mode'')))
           | Some m \<Rightarrow> Inr (Inr m)))"

definition check_suppression :: "route_lib \<Rightarrow> form \<Rightarrow> pystr option" where
  "check_suppression R form =
     (if field form ''suppress_duplicates'' \<noteq> [] then
        if strip (field form ''suppression_key_field'') = [] then Some MSG_KEY
        else
          let hours = (case py_int (rl_decimals R) (field form ''suppression_window_hours'') of
                         Some h \<Rightarrow> h | None \<Rightarrow> 0)
          in if hours \<le> 0 then Some MSG_WINDOW else None
      else None)"

text \<open>\<open>session.get\<close> of a row by a number the client sent: the number is bound to the statement, so one
  beyond 64 bits raises before the query is run.\<close>

definition db_query_by :: "env \<Rightarrow> int \<Rightarrow> (db \<Rightarrow> 'a) \<Rightarrow> (world, 'a) eff" where
  "db_query_by E i f = ebind (elift (sqlite_int i)) (\<lambda>_. db_query E f)"

lemma db_query_by_Inr:
  "db_query_by E i f w = (Inr x, w') \<longleftrightarrow>
     fits_int64 i \<and> fault E (ticks w) = None \<and> x = f (working w) \<and> w' = tick w"
  by (auto simp: db_query_by_def ebind_Inr db_query_Inr elift_def)

lemma db_query_by_fits: "fits_int64 i \<Longrightarrow> db_query_by E i f = db_query E f"
  by (rule ext) (simp add: db_query_by_def sqlite_int_def ebind_def elift_def)

lemma same_db_query_by: "preserves same_db (db_query_by E i f)"
  unfolding db_query_by_def by (intro same_db_intros)

text \<open>
  \<open>_validate_rule_form\<close>: the message of the refusal, or the data source and the mode; with the form
  as the validation left it. Building the page of a refusal reads the data sources.
\<close>

definition validate_rule_form ::
  "env \<Rightarrow> route_lib \<Rightarrow> ('t, 'n) sqlglot \<Rightarrow> form \<Rightarrow> (world, (pystr + (int \<times> send_mode)) \<times> form) eff" where
  "validate_rule_form E R G form =
     (case parse_rule_limits R (field form ''query_timeout_seconds'') (field form ''max_rows'') of
        Inl e \<Rightarrow> ereturn (Inl e, form)
      | Inr (timeout, rows) \<Rightarrow>
          let form = set_field ''max_rows'' (int_str rows)
                       (set_field ''query_timeout_seconds'' (int_str timeout) form)
          in ebind (elift (check_statement R G form)) (\<lambda>checked.
             case checked of
               Inl e \<Rightarrow> ereturn (Inl e, form)
             | Inr mode \<Rightarrow>
                 if strip (field form ''dynamic_recipient_field'') \<noteq> [] \<and> mode \<noteq> PER_ROW
                 then ereturn (Inl MSG_DYNAMIC, form)
                 else if \<not> has_recipient_text (field form ''recipients'')
                         \<and> strip (field form ''dynamic_recipient_field'') = []
                 then ereturn (Inl MSG_RECIPIENTS, form)
                 else (case rl_from_crontab R (field form ''cron_expression'') of
                   Inl (ValueError m) \<Rightarrow> ereturn (Inl MSG_CRON, form)
                 | Inl exc \<Rightarrow> eraise exc
                 | Inr _ \<Rightarrow>
                     (case py_int (rl_decimals R) (field form ''data_source_id'') of
                        None \<Rightarrow> ereturn (Inl MSG_SOURCE, form)
                      | Some source_id \<Rightarrow>
                          ebind (db_query_by E source_id (\<lambda>d. db_get ds_id source_id (data_sources d))) (\<lambda>source.
                            if source = None then ereturn (Inl MSG_SOURCE, form)
                            else (case check_suppression R form of
                                    Some e \<Rightarrow> ereturn (Inl e, form)
                                  | None \<Rightarrow> ereturn (Inr (source_id, mode), form)))))))"

section \<open>Well-formed rules\<close>

text \<open>What the checks of the form and of the import promise about a rule.\<close>

definition rule_valid :: "route_lib \<Rightarrow> ('t, 'n) sqlglot \<Rightarrow> alert_rule \<Rightarrow> bool" where
  "rule_valid R G r \<longleftrightarrow>
     1 \<le> ar_query_timeout_seconds r \<and> ar_query_timeout_seconds r \<le> 600
     \<and> 1 \<le> ar_max_rows r \<and> ar_max_rows r \<le> 5000
     \<and> validate_select_only_sql G (ar_sql_text r) = Inr ()
     \<and> rl_from_crontab R (ar_cron_expression r) = Inr ()
     \<and> (ar_dynamic_recipient_field r = [] \<or> ar_send_mode r = PER_ROW)
     \<and> (has_recipient_text (ar_recipients r) \<or> ar_dynamic_recipient_field r \<noteq> [])
     \<and> (\<not> ar_suppress_duplicates r \<or> ar_suppression_key_field r \<noteq> [] \<and> 0 < ar_suppression_window_hours r)"

text \<open>What the routes promise the executor about a stored rule: the database took its window too.\<close>

definition rule_wf :: "route_lib \<Rightarrow> ('t, 'n) sqlglot \<Rightarrow> alert_rule \<Rightarrow> bool" where
  "rule_wf R G r \<longleftrightarrow> rule_valid R G r \<and> fits_int64 (ar_suppression_window_hours r)"

text \<open>A row refers to a data source that exists.\<close>

definition has_source :: "sql_data_source list \<Rightarrow> alert_rule \<Rightarrow> bool" where
  "has_source sources r \<longleftrightarrow> db_get ds_id (ar_data_source_id r) sources \<noteq> None"

end
