(* ===== verification/Json.thy ===== *)
theory Json
  imports Py_Int
begin

text \<open>
  JSON values as \<open>json.loads\<close> builds them, and the conversions the import of rules applies to them:
  \<open>int()\<close>, \<open>str()\<close>, \<open>bool()\<close> and the comparison with 1. A float is a rational, an infinity or NaN
  (\<open>json.loads\<close> accepts \<open>Infinity\<close> and \<open>NaN\<close>), with the text \<open>str()\<close> gives it.
\<close>

datatype json_number = Finite rat | Infinite | Not_A_Number

datatype json =
    JNull
  | JBool bool
  | JInt int
  | JFloat json_number pystr
  | JStr pystr
  | JList "json list"
  | JObj "(pystr \<times> json) list"

text \<open>The library: the text of a value, the value of a text (None is \<open>JSONDecodeError\<close>; another
  exception, such as \<open>RecursionError\<close>, propagates), the \<open>repr\<close> of a container, and \<open>isoformat\<close>.\<close>

record json_lib =
  jl_dumps :: "json \<Rightarrow> pystr"
  jl_loads :: "pystr \<Rightarrow> json option res"
  jl_repr :: "json \<Rightarrow> pystr"
  jl_isoformat :: "datetime \<Rightarrow> pystr"

definition type_error :: exn where
  "type_error = OtherError (str ''TypeError'') []"

definition truncate_rat :: "rat \<Rightarrow> int" where
  "truncate_rat q = (if 0 \<le> q then \<lfloor>q\<rfloor> else - \<lfloor>- q\<rfloor>)"

definition json_int :: "(nat \<Rightarrow> nat option) \<Rightarrow> json \<Rightarrow> int res" where
  "json_int decimals v =
     (case v of
        JInt i \<Rightarrow> Inr i
      | JBool b \<Rightarrow> Inr (if b then 1 else 0)
      | JFloat (Finite q) t \<Rightarrow> Inr (truncate_rat q)
      | JFloat Infinite t \<Rightarrow> Inl (OverflowError (str ''cannot convert float infinity to integer''))
      | JFloat Not_A_Number t \<Rightarrow> Inl (ValueError (str ''cannot convert float NaN to integer''))
      | JStr s \<Rightarrow> (case py_int decimals s of Some i \<Rightarrow> Inr i | None \<Rightarrow> Inl (ValueError []))
      | _ \<Rightarrow> Inl type_error)"

definition json_str :: "json_lib \<Rightarrow> json \<Rightarrow> pystr" where
  "json_str L v =
     (case v of
        JStr s \<Rightarrow> s
      | JInt i \<Rightarrow> int_str i
      | JBool b \<Rightarrow> (if b then str ''True'' else str ''False'')
      | JNull \<Rightarrow> str ''None''
      | JFloat q t \<Rightarrow> t
      | _ \<Rightarrow> jl_repr L v)"

definition json_truth :: "json \<Rightarrow> bool" where
  "json_truth v =
     (case v of
        JNull \<Rightarrow> False
      | JBool b \<Rightarrow> b
      | JInt i \<Rightarrow> i \<noteq> 0
      | JFloat (Finite q) t \<Rightarrow> q \<noteq> 0
      | JFloat _ t \<Rightarrow> True
      | JStr s \<Rightarrow> s \<noteq> []
      | JList xs \<Rightarrow> xs \<noteq> []
      | JObj m \<Rightarrow> m \<noteq> [])"

text \<open>\<open>value == 1\<close>: \<open>True\<close> and \<open>1.0\<close> are equal to 1.\<close>

definition json_is_one :: "json \<Rightarrow> bool" where
  "json_is_one v =
     (case v of JInt i \<Rightarrow> i = 1 | JBool b \<Rightarrow> b | JFloat (Finite q) t \<Rightarrow> q = 1 | _ \<Rightarrow> False)"

text \<open>\<open>dict.get(key, fallback)\<close>; the list of an object has one entry per key.\<close>

definition jget :: "(pystr \<times> json) list \<Rightarrow> string \<Rightarrow> json \<Rightarrow> json" where
  "jget obj key fallback = (case map_of obj (str key) of Some v \<Rightarrow> v | None \<Rightarrow> fallback)"

end
