(* ===== verification/Rule_Routes.thy ===== *)
theory Rule_Routes
  imports Rule_Forms Json
begin

text \<open>
  The rule routes of \<open>app/routes.py\<close>: creating, changing, archiving and running a rule, its history,
  and the checks of a statement before it is saved. A route runs in its own session. The signed-in
  administrator is an argument, as the session check of \<open>Auth\<close> gives it.
\<close>

section \<open>Pages\<close>

definition rules_page_context ::
  "env \<Rightarrow> route_lib \<Rightarrow> pystr \<Rightarrow> pystr \<Rightarrow> (world, page_context) eff" where
  "rules_page_context E R imported error_text =
     ebind (db_query E (\<lambda>d. rl_recent_rules R (filter (\<lambda>r. ar_archived_at r = None) (alert_rules d)))) (\<lambda>rules.
       ereturn (blank_page\<lparr>pc_rules := rules, pc_error := error_text,
         pc_notice := (if imported \<noteq> [] \<and> list_all (\<lambda>c. (48 \<le> c \<and> c \<le> 57) \<or> (128 \<le> c \<and> rl_is_digit R c)) imported
                       then [0x6210, 0x529F, 0x5BFC, 0x5165, 0x0020] @ imported @ [0x0020, 0x6761, 0x89C4, 0x5219] else [])\<rparr>))"

definition rule_form_page ::
  "env \<Rightarrow> route_lib \<Rightarrow> nat \<Rightarrow> pystr \<Rightarrow> form \<Rightarrow> pystr \<Rightarrow> pystr \<Rightarrow> (world, reply) eff" where
  "rule_form_page E R status error_text form action heading =
     ebind (db_query E (\<lambda>d. rl_sources_by_name R (data_sources d))) (\<lambda>sources.
       ereturn (Page status (str ''rule_form.html'')
         (blank_page\<lparr>pc_error := error_text, pc_form := form, pc_action := action, pc_heading := heading,
            pc_data_sources := sources\<rparr>)))"

definition HEADING_NEW :: pystr where "HEADING_NEW = [0x65B0, 0x5EFA, 0x89C4, 0x5219]"

definition HEADING_EDIT :: pystr where "HEADING_EDIT = [0x7F16, 0x8F91, 0x89C4, 0x5219]"

definition HEADING_COPY :: pystr where "HEADING_COPY = [0x590D, 0x5236, 0x89C4, 0x5219]"

definition RULE_MISSING :: pystr where "RULE_MISSING = [0x89C4, 0x5219, 0x4E0D, 0x5B58, 0x5728]"

definition get_active_rule :: "env \<Rightarrow> int \<Rightarrow> (world, alert_rule option) eff" where
  "get_active_rule E rule_id =
     ebind (db_query_by E rule_id (\<lambda>d. db_get ar_id rule_id (alert_rules d))) (\<lambda>found.
       ereturn (case found of Some r \<Rightarrow> if ar_archived_at r = None then Some r else None | None \<Rightarrow> None))"

text \<open>\<open>_get_active_rule_or_404\<close>: the reply of the rest, or 404.\<close>

definition with_active_rule ::
  "env \<Rightarrow> int \<Rightarrow> (alert_rule \<Rightarrow> (world, reply) eff) \<Rightarrow> (world, reply) eff" where
  "with_active_rule E rule_id body =
     ebind (get_active_rule E rule_id) (\<lambda>found.
       case found of None \<Rightarrow> ereturn (NotFound RULE_MISSING) | Some rule \<Rightarrow> body rule)"

definition rules_page :: "env \<Rightarrow> route_lib \<Rightarrow> pystr \<Rightarrow> (world, reply) eff" where
  "rules_page E R imported =
     ebind (rules_page_context E R imported []) (\<lambda>c. ereturn (Page 200 (str ''rules.html'') c))"

definition new_rule_page :: "env \<Rightarrow> route_lib \<Rightarrow> (world, reply) eff" where
  "new_rule_page E R = rule_form_page E R 200 [] [] (str ''/rules'') HEADING_NEW"

definition edit_rule_page :: "env \<Rightarrow> route_lib \<Rightarrow> int \<Rightarrow> (world, reply) eff" where
  "edit_rule_page E R rule_id = with_active_rule E rule_id (\<lambda>rule.
     rule_form_page E R 200 [] (rule_to_form rule) (str ''/rules/'' @ int_str rule_id) HEADING_EDIT)"

definition copy_rule_page :: "env \<Rightarrow> route_lib \<Rightarrow> int \<Rightarrow> (world, reply) eff" where
  "copy_rule_page E R rule_id = with_active_rule E rule_id (\<lambda>rule.
     rule_form_page E R 200 [] (rule_to_copy_form rule) (str ''/rules'') HEADING_COPY)"

section \<open>Creating a rule\<close>

definition py_int_res :: "route_lib \<Rightarrow> pystr \<Rightarrow> int res" where
  "py_int_res R text = (case py_int (rl_decimals R) text of Some i \<Rightarrow> Inr i | None \<Rightarrow> Inl (ValueError []))"

text \<open>The row a submission makes, once validated.\<close>

definition rule_of_submission ::
  "rule_submission \<Rightarrow> int \<Rightarrow> send_mode \<Rightarrow> int \<Rightarrow> int \<Rightarrow> datetime \<Rightarrow> datetime \<Rightarrow> alert_rule" where
  "rule_of_submission s source_id mode timeout rows created updated =
     \<lparr>ar_id = None, ar_name = su_name s, ar_data_source_id = source_id, ar_sql_text = su_sql_text s,
      ar_cron_expression = su_cron_expression s, ar_recipients = su_recipients s,
      ar_cc_recipients = su_cc_recipients s, ar_subject_template = su_subject_template s,
      ar_body_template = su_body_template s, ar_send_mode = mode, ar_query_timeout_seconds = timeout,
      ar_max_rows = rows, ar_enabled = is_checked (su_enabled s), ar_notes = [],
      ar_dynamic_recipient_field = strip (su_dynamic_recipient_field s),
      ar_dynamic_cc_field = strip (su_dynamic_cc_field s),
      ar_suppress_duplicates = is_checked (su_suppress_duplicates s),
      ar_suppression_key_field = strip (su_suppression_key_field s),
      ar_suppression_window_hours = su_suppression_window_hours s,
      ar_created_at = created, ar_archived_at = None, ar_updated_at = updated\<rparr>"

definition insert_rule :: "env \<Rightarrow> alert_rule \<Rightarrow> db \<Rightarrow> db" where
  "insert_rule E r d =
     d\<lparr>alert_rules := alert_rules d @ [r\<lparr>ar_id := Some (assign_id E (map ar_id (alert_rules d)))\<rparr>]\<rparr>"

text \<open>The statement that inserts a rule; of its numbers only the hours are not bounded by the form.\<close>

definition add_rule :: "env \<Rightarrow> alert_rule \<Rightarrow> (world, unit) eff" where
  "add_rule E r =
     ebind (elift (sqlite_int (ar_suppression_window_hours r))) (\<lambda>_.
     db_exec E (\<lambda>d. ((), insert_rule E r d)))"

definition create_rule ::
  "env \<Rightarrow> route_lib \<Rightarrow> ('t, 'n) sqlglot \<Rightarrow> rule_submission \<Rightarrow> (world, reply) eff" where
  "create_rule E R G s = with_session
     (ebind (validate_rule_form E R G (submitted_rule_form s)) (\<lambda>(result, form).
      case result of
        Inl e \<Rightarrow> rule_form_page E R 400 e form (str ''/rules'') HEADING_NEW
      | Inr (source_id, mode) \<Rightarrow>
          ebind (elift (py_int_res R (field form ''query_timeout_seconds''))) (\<lambda>timeout.
          ebind (elift (py_int_res R (field form ''max_rows''))) (\<lambda>rows.
          ebind (utc_now E) (\<lambda>created.
          ebind (utc_now E) (\<lambda>updated.
          ebind (add_rule E (rule_of_submission s source_id mode timeout rows created updated)) (\<lambda>_.
          ebind (db_commit E) (\<lambda>_.
          ereturn (Redirect (str ''/rules''))))))))))"

section \<open>Changing a rule\<close>

definition rule_snapshot :: "json_lib \<Rightarrow> alert_rule \<Rightarrow> json" where
  "rule_snapshot L r = JObj
     [(str ''id'', case ar_id r of Some i \<Rightarrow> JInt i | None \<Rightarrow> JNull), (str ''name'', JStr (ar_name r)),
      (str ''data_source_id'', JInt (ar_data_source_id r)), (str ''sql_text'', JStr (ar_sql_text r)),
      (str ''cron_expression'', JStr (ar_cron_expression r)), (str ''recipients'', JStr (ar_recipients r)),
      (str ''cc_recipients'', JStr (ar_cc_recipients r)), (str ''subject_template'', JStr (ar_subject_template r)),
      (str ''body_template'', JStr (ar_body_template r)), (str ''send_mode'', JStr (send_mode_value (ar_send_mode r))),
      (str ''query_timeout_seconds'', JInt (ar_query_timeout_seconds r)), (str ''max_rows'', JInt (ar_max_rows r)),
      (str ''enabled'', JBool (ar_enabled r)), (str ''notes'', JStr (ar_notes r)),
      (str ''dynamic_recipient_field'', JStr (ar_dynamic_recipient_field r)),
      (str ''dynamic_cc_field'', JStr (ar_dynamic_cc_field r)),
      (str ''suppress_duplicates'', JBool (ar_suppress_duplicates r)),
      (str ''suppression_key_field'', JStr (ar_suppression_key_field r)),
      (str ''suppression_window_hours'', JInt (ar_suppression_window_hours r)),
      (str ''created_at'', JStr (jl_isoformat L (ar_created_at r))),
      (str ''updated_at'', JStr (jl_isoformat L (ar_updated_at r)))]"

definition versions_of :: "int \<Rightarrow> db \<Rightarrow> alert_rule_version list" where
  "versions_of rule_id d = filter (\<lambda>v. rv_rule_id v = rule_id) (rule_versions d)"

definition next_rule_version_number :: "int \<Rightarrow> db \<Rightarrow> int" where
  "next_rule_version_number rule_id d =
     (case versions_of rule_id d of [] \<Rightarrow> 1 | vs \<Rightarrow> Max (set (map rv_version_number vs)) + 1)"

definition create_rule_version ::
  "env \<Rightarrow> json_lib \<Rightarrow> alert_rule \<Rightarrow> pystr \<Rightarrow> (world, alert_rule_version) eff" where
  "create_rule_version E L rule username =
     ebind (db_query E (next_rule_version_number (the (ar_id rule)))) (\<lambda>number.
     ebind (utc_now E) (\<lambda>now.
     ereturn \<lparr>rv_id = None, rv_rule_id = the (ar_id rule), rv_version_number = number, rv_changed_by = username,
              rv_snapshot_json = jl_dumps L (rule_snapshot L rule), rv_changed_at = now\<rparr>))"

definition insert_version :: "env \<Rightarrow> alert_rule_version \<Rightarrow> db \<Rightarrow> db" where
  "insert_version E v d =
     d\<lparr>rule_versions := rule_versions d @ [v\<lparr>rv_id := Some (assign_id E (map rv_id (rule_versions d)))\<rparr>]\<rparr>"

definition replace_rule :: "int \<Rightarrow> (alert_rule \<Rightarrow> alert_rule) \<Rightarrow> db \<Rightarrow> db" where
  "replace_rule rule_id f d = d\<lparr>alert_rules := update_first (\<lambda>r. ar_id r = Some rule_id) f (alert_rules d)\<rparr>"

text \<open>The attributes \<open>update_rule\<close> assigns; id, notes, creation and archiving stay.\<close>

definition apply_submission ::
  "rule_submission \<Rightarrow> int \<Rightarrow> send_mode \<Rightarrow> int \<Rightarrow> int \<Rightarrow> datetime \<Rightarrow> alert_rule \<Rightarrow> alert_rule" where
  "apply_submission s source_id mode timeout rows now r =
     r\<lparr>ar_name := su_name s, ar_data_source_id := source_id, ar_sql_text := su_sql_text s,
       ar_cron_expression := su_cron_expression s, ar_recipients := su_recipients s,
       ar_cc_recipients := su_cc_recipients s, ar_subject_template := su_subject_template s,
       ar_body_template := su_body_template s, ar_send_mode := mode, ar_query_timeout_seconds := timeout,
       ar_max_rows := rows, ar_enabled := is_checked (su_enabled s),
       ar_dynamic_recipient_field := strip (su_dynamic_recipient_field s),
       ar_dynamic_cc_field := strip (su_dynamic_cc_field s),
       ar_suppress_duplicates := is_checked (su_suppress_duplicates s),
       ar_suppression_key_field := strip (su_suppression_key_field s),
       ar_suppression_window_hours := su_suppression_window_hours s, ar_updated_at := now\<rparr>"

definition update_rule ::
  "env \<Rightarrow> route_lib \<Rightarrow> ('t, 'n) sqlglot \<Rightarrow> json_lib \<Rightarrow> pystr \<Rightarrow> int \<Rightarrow> rule_submission \<Rightarrow> (world, reply) eff" where
  "update_rule E R G L username rule_id s = with_session (with_active_rule E rule_id (\<lambda>rule.
     ebind (validate_rule_form E R G (submitted_rule_form s)) (\<lambda>(result, form).
     case result of
       Inl e \<Rightarrow> rule_form_page E R 400 e form (str ''/rules/'' @ int_str rule_id) HEADING_EDIT
     | Inr (source_id, mode) \<Rightarrow>
         ebind (create_rule_version E L rule username) (\<lambda>version.
         ebind (elift (py_int_res R (field form ''query_timeout_seconds''))) (\<lambda>timeout.
         ebind (elift (py_int_res R (field form ''max_rows''))) (\<lambda>rows.
         ebind (utc_now E) (\<lambda>now.
         ebind (db_exec E (\<lambda>d. ((), insert_version E version d))) (\<lambda>_.
         ebind (elift (sqlite_int (su_suppression_window_hours s))) (\<lambda>_.
         ebind (db_exec E (\<lambda>d. ((), replace_rule rule_id (apply_submission s source_id mode timeout rows now) d))) (\<lambda>_.
         ebind (db_commit E) (\<lambda>_.
         ereturn (Redirect (str ''/rules'')))))))))))))"

definition archive_rule :: "env \<Rightarrow> int \<Rightarrow> (world, reply) eff" where
  "archive_rule E rule_id = with_session (with_active_rule E rule_id (\<lambda>rule.
     ebind (utc_now E) (\<lambda>now.
     ebind (db_exec E (\<lambda>d. ((), replace_rule rule_id
       (\<lambda>r. r\<lparr>ar_enabled := False, ar_archived_at := Some now, ar_updated_at := now\<rparr>) d))) (\<lambda>_.
     ebind (db_commit E) (\<lambda>_. ereturn (Redirect (str ''/rules'')))))))"

section \<open>History\<close>

definition UNREADABLE_SNAPSHOT :: json where
  "UNREADABLE_SNAPSHOT = JObj [(str ''name'', JStr [0x5FEB, 0x7167, 0x65E0, 0x6CD5, 0x89E3, 0x6790]), (str ''sql_text'', JStr [])]"

definition version_snapshot :: "json_lib \<Rightarrow> alert_rule_version \<Rightarrow> json res" where
  "version_snapshot L v =
     (case jl_loads L (rv_snapshot_json v) of
        Inl exc \<Rightarrow> Inl exc
      | Inr None \<Rightarrow> Inr UNREADABLE_SNAPSHOT
      | Inr (Some (JObj m)) \<Rightarrow> Inr (JObj m)
      | Inr (Some _) \<Rightarrow> Inr UNREADABLE_SNAPSHOT)"

fun all_snapshots :: "json_lib \<Rightarrow> alert_rule_version list \<Rightarrow> (alert_rule_version \<times> json) list res" where
  "all_snapshots L [] = Inr []"
| "all_snapshots L (v # vs) =
     (case version_snapshot L v of
        Inl exc \<Rightarrow> Inl exc
      | Inr j \<Rightarrow> map_sum id ((#) (v, j)) (all_snapshots L vs))"

text \<open>The rows of the history page, newest first; the version numbers of a rule are distinct.\<close>

definition rule_versions_page ::
  "env \<Rightarrow> json_lib \<Rightarrow> int \<Rightarrow> (world, pystr + (alert_rule \<times> (alert_rule_version \<times> json) list)) eff" where
  "rule_versions_page E L rule_id =
     ebind (get_active_rule E rule_id) (\<lambda>found.
       case found of
         None \<Rightarrow> ereturn (Inl RULE_MISSING)
       | Some rule \<Rightarrow>
           ebind (db_query E (\<lambda>d. rev (sort_key rv_version_number (versions_of rule_id d)))) (\<lambda>versions.
           ebind (elift (all_snapshots L versions)) (\<lambda>rows. ereturn (Inr (rule, rows)))))"

section \<open>Running and checking\<close>

definition RULE_RUNNING :: pystr where "RULE_RUNNING = [0x89C4, 0x5219, 0x6B63, 0x5728, 0x6267, 0x884C, 0xFF0C, 0x8BF7, 0x7A0D, 0x540E, 0x91CD, 0x8BD5]"

text \<open>\<open>except RuleExecutionInProgressError\<close>: any other exception propagates.\<close>

definition run_rule ::
  "('t, 'n, 'c, 'k) service_env \<Rightarrow> route_lib \<Rightarrow> int \<Rightarrow> real \<Rightarrow> int \<Rightarrow> (world, reply) eff" where
  "run_rule S R max_attempts retry_delay_seconds rule_id =
     with_session (with_active_rule (surroundings S) rule_id (\<lambda>rule.
       ecatch
         (ebind (execute_rule_by_id S rule_id MANUAL max_attempts retry_delay_seconds) (\<lambda>_.
            ereturn (Redirect (str ''/logs''))))
         (\<lambda>exc. case exc of
            RuleExecutionInProgressError m \<Rightarrow>
              ebind (rules_page_context (surroundings S) R [] RULE_RUNNING) (\<lambda>c.
                ereturn (Page 409 (str ''rules.html'') c))
          | _ \<Rightarrow> eraise exc)))"

definition MSG_CHOOSE_SOURCE :: pystr where "MSG_CHOOSE_SOURCE = [0x8BF7, 0x5148, 0x9009, 0x62E9, 0x6570, 0x636E, 0x6E90]"

definition SQL_SYNTAX_FAILURE :: pystr where
  "SQL_SYNTAX_FAILURE = [0x0053, 0x0051, 0x004C, 0x0020, 0x0053, 0x0065, 0x0072, 0x0076, 0x0065, 0x0072, 0x0020, 0x8BED, 0x6CD5, 0x68C0, 0x6D4B, 0x5931, 0x8D25, 0xFF0C, 0x8BF7, 0x68C0, 0x67E5, 0x670D, 0x52A1, 0x5668, 0x8FDE, 0x63A5, 0x548C, 0x67E5, 0x8BE2, 0x8BED, 0x53E5]"

definition SQL_PREVIEW_FAILURE :: pystr where
  "SQL_PREVIEW_FAILURE = [0x0053, 0x0051, 0x004C, 0x0020, 0x67E5, 0x8BE2, 0x9884, 0x89C8, 0x5931, 0x8D25, 0xFF0C, 0x8BF7, 0x68C0, 0x67E5, 0x6570, 0x636E, 0x6E90, 0x8FDE, 0x63A5, 0x548C, 0x67E5, 0x8BE2, 0x8BED, 0x53E5]"

definition MSG_SYNTAX_OK :: pystr where "MSG_SYNTAX_OK = [0x0053, 0x0051, 0x004C, 0x0020, 0x0053, 0x0065, 0x0072, 0x0076, 0x0065, 0x0072, 0x0020, 0x8BED, 0x6CD5, 0x68C0, 0x6D4B, 0x901A, 0x8FC7]"

definition json_error :: "pystr \<Rightarrow> reply" where
  "json_error message = JsonMessage 400 False message"

text \<open>What both checks do first: a data source, an acceptable statement, connection values in range.\<close>

definition checked_source ::
  "('t, 'n, 'c, 'k) service_env \<Rightarrow> route_lib \<Rightarrow> pystr \<Rightarrow> pystr \<Rightarrow> (sql_data_source \<Rightarrow> (world, reply) eff)
     \<Rightarrow> (world, reply) eff" where
  "checked_source S R data_source_id sql_text body =
     (if data_source_id = [] then ereturn (json_error MSG_CHOOSE_SOURCE)
      else case validate_select_only_sql (sqlglot_lib S) sql_text of
        Inl (SqlValidationError m) \<Rightarrow> ereturn (json_error m)
      | Inl exc \<Rightarrow> eraise exc
      | Inr _ \<Rightarrow>
          (case py_int (rl_decimals R) data_source_id of
             None \<Rightarrow> ereturn (json_error MSG_SOURCE)
           | Some source_id \<Rightarrow>
               ebind (db_query_by (surroundings S) source_id (\<lambda>d. db_get ds_id source_id (data_sources d))) (\<lambda>found.
                 case found of
                   None \<Rightarrow> ereturn (json_error MSG_SOURCE)
                 | Some source \<Rightarrow>
                     (case validate_sql_connection_values (ds_port source) (ds_connect_timeout_seconds source) of
                        Some e \<Rightarrow> ereturn (json_error e)
                      | None \<Rightarrow> body source))))"

definition validate_rule_sql ::
  "('t, 'n, 'c, 'k) service_env \<Rightarrow> route_lib \<Rightarrow> pystr \<Rightarrow> pystr \<Rightarrow> (world, reply) eff" where
  "validate_rule_sql S R data_source_id sql_text =
     checked_source S R data_source_id sql_text (\<lambda>source.
       ecatch
         (ebind (elift (build_sql_client S source)) (\<lambda>p.
          ebind (validate_syntax (sqlglot_lib S) (odbc_driver_lib S) p sql_text (ds_connect_timeout_seconds source)) (\<lambda>_.
          ereturn (JsonMessage 200 True MSG_SYNTAX_OK))))
         (\<lambda>exc. ereturn (json_error (public_error_summary exc SQL_SYNTAX_FAILURE))))"

definition preview_message :: "row list \<Rightarrow> pystr" where
  "preview_message rows =
     (if rows \<noteq> [] then [0x67E5, 0x8BE2, 0x6210, 0x529F, 0xFF0C, 0x8FD4, 0x56DE, 0x0020] @ int_str (int (length rows)) @ [0x0020, 0x884C, 0x9884, 0x89C8, 0x7ED3, 0x679C]
      else [0x67E5, 0x8BE2, 0x6210, 0x529F, 0xFF0C, 0x6682, 0x65E0, 0x7ED3, 0x679C])"

definition preview_rule_sql ::
  "('t, 'n, 'c, 'k) service_env \<Rightarrow> route_lib \<Rightarrow> pystr \<Rightarrow> pystr \<Rightarrow> pystr \<Rightarrow> (world, reply) eff" where
  "preview_rule_sql S R data_source_id sql_text query_timeout_seconds =
     (case parse_bounded_int R query_timeout_seconds LABEL_QUERY_TIMEOUT 1 600 of
        Inl e \<Rightarrow> ereturn (json_error e)
      | Inr timeout \<Rightarrow>
          checked_source S R data_source_id sql_text (\<lambda>source.
            ebind
              (ecatch
                 (ebind (elift (build_sql_client S source)) (\<lambda>p.
                  ebind (query (sqlglot_lib S) (odbc_driver_lib S) p sql_text timeout 5) (\<lambda>rows.
                  ereturn (Inr rows))))
                 (\<lambda>exc. ereturn (Inl (json_error (public_error_summary exc SQL_PREVIEW_FAILURE)))))
              (\<lambda>answer. case answer of
                 Inl r \<Rightarrow> ereturn r
               | Inr rows \<Rightarrow>
                   ereturn (JsonRows (preview_message rows) (case rows of [] \<Rightarrow> [] | r # _ \<Rightarrow> map fst r) rows))))"

end
