(* ===== verification/Transactions.thy ===== *)
theory Transactions
  imports Store
begin

text \<open>
  A small calculus for units of work on the database. \<open>transacts X P m Q\<close> says of \<open>m\<close>, started with a
  committed database and a working copy related by \<open>P\<close>: a return of \<open>x\<close> leaves them related by
  \<open>Q x\<close>, and an exception leaves a committed database satisfying \<open>X\<close>. The \<open>run\<close> rules execute a
  route symbolically, call by call, from a known committed database \<open>d0\<close> and working copy \<open>d\<close>; only
  a commit changes the committed database.
\<close>

definition transacts ::
  "(db \<Rightarrow> bool) \<Rightarrow> (db \<Rightarrow> db \<Rightarrow> bool) \<Rightarrow> (world, 'a) eff \<Rightarrow> ('a \<Rightarrow> db \<Rightarrow> db \<Rightarrow> bool) \<Rightarrow> bool" where
  "transacts X P m Q \<longleftrightarrow>
     (\<forall>w. P (committed w) (working w) \<longrightarrow>
        (case m w of
           (Inr x, w') \<Rightarrow> Q x (committed w') (working w')
         | (Inl exc, w') \<Rightarrow> X (committed w')))"

lemma transactsI:
  assumes "\<And>w x w'. P (committed w) (working w) \<Longrightarrow> m w = (Inr x, w') \<Longrightarrow> Q x (committed w') (working w')"
    and "\<And>w exc w'. P (committed w) (working w) \<Longrightarrow> m w = (Inl exc, w') \<Longrightarrow> X (committed w')"
  shows "transacts X P m Q"
  unfolding transacts_def using assms by (auto split: prod.splits sum.splits)

lemma transactsD:
  assumes "transacts X P m Q" and "P (committed w) (working w)"
  shows "m w = (Inr x, w') \<Longrightarrow> Q x (committed w') (working w')"
    and "m w = (Inl exc, w') \<Longrightarrow> X (committed w')"
  using assms by (force simp: transacts_def)+

lemma transacts_bind:
  assumes m: "transacts X P m B" and f: "\<And>x. transacts X (B x) (f x) Q"
  shows "transacts X P (ebind m f) Q"
proof (rule transactsI)
  fix w x w'
  assume P: "P (committed w) (working w)" and "ebind m f w = (Inr x, w')"
  then obtain y w1 where "m w = (Inr y, w1)" "f y w1 = (Inr x, w')" by (auto simp: ebind_Inr)
  with transactsD(1) [OF m P] transactsD(1) [OF f] show "Q x (committed w') (working w')" by blast
next
  fix w exc w'
  assume P: "P (committed w) (working w)" and "ebind m f w = (Inl exc, w')"
  with transactsD [OF m P] transactsD(2) [OF f] show "X (committed w')"
    by (auto simp: ebind_Inl)
qed

lemma transacts_rollback_on_error:
  assumes "transacts X P m Q"
  shows "transacts X P (rollback_on_error E m) Q"
proof (rule transactsI)
  fix w x w'
  assume P: "P (committed w) (working w)" and "rollback_on_error E m w = (Inr x, w')"
  then have "m w = (Inr x, w')"
    by (auto simp: rollback_on_error_def eff_defs db_rollback_def split: sum.splits prod.splits option.splits)
  then show "Q x (committed w') (working w')" by (rule transactsD(1) [OF assms P])
next
  fix w exc w'
  assume P: "P (committed w) (working w)" and "rollback_on_error E m w = (Inl exc, w')"
  then obtain e1 w1 where "m w = (Inl e1, w1)" "committed w' = committed w1"
    by (auto simp: rollback_on_error_def eff_defs db_rollback_def split: sum.splits prod.splits option.splits)
  with transactsD(2) [OF assms P] show "X (committed w')" by metis
qed

section \<open>Symbolic execution\<close>

text \<open>The route has not committed: an exception leaves \<open>d0\<close>.\<close>

definition runs :: "db \<Rightarrow> db \<Rightarrow> (world, 'a) eff \<Rightarrow> ('a \<Rightarrow> db \<Rightarrow> bool) \<Rightarrow> bool" where
  "runs d0 d m Q \<longleftrightarrow> transacts (\<lambda>c. c = d0) (\<lambda>c d'. c = d0 \<and> d' = d) m (\<lambda>x c _. Q x c)"

lemma run_bind:
  assumes m: "transacts (\<lambda>c. c = d0) (\<lambda>c d'. c = d0 \<and> d' = d) m (\<lambda>x c d'. c = d0 \<and> d' = d1 x \<and> B x)"
    and f: "\<And>x. B x \<Longrightarrow> runs d0 (d1 x) (f x) Q"
  shows "runs d0 d (ebind m f) Q"
  unfolding runs_def
proof (rule transacts_bind [OF m])
  fix x
  show "transacts (\<lambda>c. c = d0) (\<lambda>c d'. c = d0 \<and> d' = d1 x \<and> B x) (f x) (\<lambda>x c _. Q x c)"
    using f [of x] unfolding runs_def transacts_def by (cases "B x") simp_all
qed

lemma ebind_ebind [simp]: "ebind (ebind m f) g = ebind m (\<lambda>x. ebind (f x) g)"
  by (rule ext) (simp add: ebind_def split: sum.splits prod.splits)

lemma ebind_return [simp]: "ebind (ereturn x) f = f x"
  by (rule ext) simp

lemma run_return: "Q x d0 \<Longrightarrow> runs d0 d (ereturn x) Q"
  unfolding runs_def by (rule transactsI) simp_all

lemma run_raise: "runs d0 d (eraise exc) Q"
  unfolding runs_def by (rule transactsI) simp_all

lemma run_exec: "runs d0 (snd (f d)) (k (fst (f d))) Q \<Longrightarrow> runs d0 d (ebind (db_exec E f) k) Q"
  by (rule run_bind [where B = "\<lambda>x. x = fst (f d)" and ?d1.0 = "\<lambda>_. snd (f d)"], rule transactsI)
    (auto simp: db_exec_def case_prod_beta split: option.splits)

lemma run_query: "runs d0 d (k (f d)) Q \<Longrightarrow> runs d0 d (ebind (db_query E f) k) Q"
  unfolding db_query_def by (rule run_exec) simp

lemma run_now: "(\<And>t. runs d0 d (k t) Q) \<Longrightarrow> runs d0 d (ebind (utc_now E) k) Q"
  by (rule run_bind [where B = "\<lambda>_. True" and ?d1.0 = "\<lambda>_. d"], rule transactsI) (auto simp: utc_now_def)

lemma run_lift: "(\<And>x. r = Inr x \<Longrightarrow> runs d0 d (k x) Q) \<Longrightarrow> runs d0 d (ebind (elift r) k) Q"
  by (rule run_bind [where B = "\<lambda>x. r = Inr x" and ?d1.0 = "\<lambda>_. d"], rule transactsI) auto

lemma run_same:
  assumes "preserves same_db m" and "\<And>x w w'. committed w = d0 \<Longrightarrow> working w = d \<Longrightarrow> m w = (Inr x, w') \<Longrightarrow> B x"
    and "\<And>x. B x \<Longrightarrow> runs d0 d (k x) Q"
  shows "runs d0 d (ebind m k) Q"
  by (rule run_bind [where B = B and ?d1.0 = "\<lambda>_. d", OF _ assms(3)], rule transactsI)
    (use assms(2) preserves_sameD [OF assms(1)] in blast)+

text \<open>The last call of a unit of work makes the working copy durable.\<close>

lemma run_commit: "Q x d \<Longrightarrow> runs d0 d (ebind (db_commit E) (\<lambda>_. ereturn x)) Q"
  unfolding runs_def by (rule transactsI) (auto simp: ebind_def db_commit_def split: option.splits)

lemma run_rollback_on_error: "runs d0 d m Q \<Longrightarrow> runs d0 d (rollback_on_error E m) Q"
  unfolding runs_def by (rule transacts_rollback_on_error)

text \<open>A route in its own session: an exception leaves the committed database as it was.\<close>

lemma with_session_runs:
  assumes "runs (committed w) (committed w) m Q"
  shows "case fst (with_session m w) of
      Inr x \<Rightarrow> Q x (committed (snd (with_session m w)))
    | Inl exc \<Rightarrow> committed (snd (with_session m w)) = committed w"
proof -
  obtain r w1 where run: "m (open_session w) = (r, w1)" by (cases "m (open_session w)")
  have start: "committed (open_session w) = committed w \<and> working (open_session w) = committed w" by simp
  show ?thesis
  proof (cases r)
    case (Inl exc)
    have "committed w1 = committed w"
      by (rule transactsD(2) [OF assms [unfolded runs_def] start run [unfolded Inl]])
    with run Inl show ?thesis by (simp add: with_session_def)
  next
    case (Inr x)
    have "Q x (committed w1)"
      by (rule transactsD(1) [OF assms [unfolded runs_def] start run [unfolded Inr]])
    with run Inr show ?thesis by (simp add: with_session_def)
  qed
qed

end
