(* ===== verification/Rule_Store.thy ===== *)
theory Rule_Store
  imports Rule_Routes Transactions
begin

text \<open>
  What the rule routes guarantee of the stored rules: the validation of a form is sound and complete
  for the well-formedness of the rule it becomes, every route keeps the invariant of the
  configuration whatever call fails, and a change never loses the rule it replaces.
\<close>

section \<open>Fields of a form\<close>

lemma field_set_field [simp]: "field (set_field n v form) m = (if m = n then v else field form m)"
  by (simp add: field_def set_field_def dict_simps)

lemma field_submitted [simp]:
  "field (submitted_rule_form s) ''name'' = su_name s"
  "field (submitted_rule_form s) ''data_source_id'' = su_data_source_id s"
  "field (submitted_rule_form s) ''sql_text'' = su_sql_text s"
  "field (submitted_rule_form s) ''cron_expression'' = su_cron_expression s"
  "field (submitted_rule_form s) ''recipients'' = su_recipients s"
  "field (submitted_rule_form s) ''send_mode'' = su_send_mode s"
  "field (submitted_rule_form s) ''query_timeout_seconds'' = su_query_timeout_seconds s"
  "field (submitted_rule_form s) ''max_rows'' = su_max_rows s"
  "field (submitted_rule_form s) ''dynamic_recipient_field'' = strip (su_dynamic_recipient_field s)"
  "field (submitted_rule_form s) ''suppress_duplicates'' = checkbox (is_checked (su_suppress_duplicates s))"
  "field (submitted_rule_form s) ''suppression_key_field'' = strip (su_suppression_key_field s)"
  "field (submitted_rule_form s) ''suppression_window_hours'' = int_str (su_suppression_window_hours s)"
  by (simp_all add: field_def submitted_rule_form_def)

section \<open>Validation is sound and complete\<close>

text \<open>The submission is acceptable to a database; hours beyond 10^30 are not considered.\<close>

definition submission_ok ::
  "route_lib \<Rightarrow> ('t, 'n) sqlglot \<Rightarrow> sql_data_source list \<Rightarrow> rule_submission \<Rightarrow> int \<Rightarrow> send_mode \<Rightarrow> int \<Rightarrow> int \<Rightarrow> bool" where
  "submission_ok R G sources s source_id mode timeout rows \<longleftrightarrow>
     py_int (rl_decimals R) (su_query_timeout_seconds s) = Some timeout \<and> 1 \<le> timeout \<and> timeout \<le> 600
     \<and> py_int (rl_decimals R) (su_max_rows s) = Some rows \<and> 1 \<le> rows \<and> rows \<le> 5000
     \<and> validate_select_only_sql G (su_sql_text s) = Inr () \<and> send_mode_of_value (su_send_mode s) = Some mode
     \<and> (strip (su_dynamic_recipient_field s) = [] \<or> mode = PER_ROW)
     \<and> (has_recipient_text (su_recipients s) \<or> strip (su_dynamic_recipient_field s) \<noteq> [])
     \<and> rl_from_crontab R (su_cron_expression s) = Inr ()
     \<and> py_int (rl_decimals R) (su_data_source_id s) = Some source_id \<and> fits_int64 source_id
     \<and> db_get ds_id source_id sources \<noteq> None
     \<and> (is_checked (su_suppress_duplicates s) \<longrightarrow>
          strip (su_suppression_key_field s) \<noteq> [] \<and> 0 < su_suppression_window_hours s)"

definition limits_form :: "rule_submission \<Rightarrow> int \<Rightarrow> int \<Rightarrow> form" where
  "limits_form s timeout rows =
     set_field ''max_rows'' (int_str rows)
       (set_field ''query_timeout_seconds'' (int_str timeout) (submitted_rule_form s))"

lemma field_limits_form [simp]:
  "field (limits_form s t m) n = (if n = ''max_rows'' then int_str m
     else if n = ''query_timeout_seconds'' then int_str t else field (submitted_rule_form s) n)"
  by (simp add: limits_form_def)

lemma check_statement_Inr:
  "check_statement R G form = Inr (Inr mode) \<longleftrightarrow>
     validate_select_only_sql G (field form ''sql_text'') = Inr ()
     \<and> send_mode_of_value (field form ''send_mode'') = Some mode"
  by (auto simp: check_statement_def split: sum.splits option.splits exn.splits)

lemma checkbox_Nil [simp]: "checkbox b = [] \<longleftrightarrow> \<not> b"
  by (simp add: checkbox_def)

lemma check_suppression_None:
  assumes "\<bar>su_suppression_window_hours s\<bar> < 10 ^ 30"
  shows "check_suppression R (limits_form s t m) = None \<longleftrightarrow>
     (is_checked (su_suppress_duplicates s) \<longrightarrow>
        strip (su_suppression_key_field s) \<noteq> [] \<and> 0 < su_suppression_window_hours s)"
  using assms by (auto simp: check_suppression_def py_int_small Let_def)

text \<open>The steps of the validation after the limits, as one decision on the database.\<close>

lemma validate_rule_form_accepts:
  assumes hours: "\<bar>su_suppression_window_hours s\<bar> < 10 ^ 30"
    and run: "validate_rule_form E R G (submitted_rule_form s) w = (Inr (Inr (source_id, mode), form), w')"
  obtains timeout rows where "submission_ok R G (data_sources (working w)) s source_id mode timeout rows"
    "form = limits_form s timeout rows" "committed w' = committed w" "working w' = working w"
proof -
  obtain timeout rows where limits: "parse_rule_limits R (su_query_timeout_seconds s) (su_max_rows s) = Inr (timeout, rows)"
    using run by (auto simp: validate_rule_form_def split: sum.splits)
  let ?form = "limits_form s timeout rows"
  obtain checked where checked: "check_statement R G ?form = Inr checked"
    using run limits
    by (cases "check_statement R G ?form") (auto simp: validate_rule_form_def limits_form_def Let_def)
  obtain m where m: "checked = Inr m"
    using run limits checked
    by (cases checked) (auto simp: validate_rule_form_def limits_form_def [symmetric] Let_def)
  note start = validate_rule_form_def [of E R G "submitted_rule_form s"] limits_form_def [of s timeout rows, symmetric]
  have dynamic: "strip (su_dynamic_recipient_field s) = [] \<or> m = PER_ROW"
    using run limits checked m by (auto simp: start Let_def split: if_splits)
  have recipients: "has_recipient_text (su_recipients s) \<or> strip (su_dynamic_recipient_field s) \<noteq> []"
    using run limits checked m dynamic by (auto simp: start Let_def split: if_splits)
  have cron: "rl_from_crontab R (su_cron_expression s) = Inr ()"
  proof (cases "rl_from_crontab R (su_cron_expression s)")
    case (Inl exc)
    then show ?thesis
      using run limits checked m dynamic recipients
      by (cases exc) (auto simp: start Let_def)
  qed simp
  obtain i where i: "py_int (rl_decimals R) (su_data_source_id s) = Some i"
    using run limits checked m dynamic recipients cron
    by (cases "py_int (rl_decimals R) (su_data_source_id s)") (auto simp: start Let_def)
  have rest: "validate_rule_form E R G (submitted_rule_form s) =
      ebind (db_query_by E i (\<lambda>d. db_get ds_id i (data_sources d))) (\<lambda>source.
        if source = None then ereturn (Inl MSG_SOURCE, ?form)
        else (case check_suppression R ?form of
                Some e \<Rightarrow> ereturn (Inl e, ?form)
              | None \<Rightarrow> ereturn (Inr (i, m), ?form)))"
    using limits checked m dynamic recipients cron i unfolding limits_form_def
    by (auto simp: validate_rule_form_def Let_def intro!: ext)
  have found: "fits_int64 i" "db_get ds_id i (data_sources (working w)) \<noteq> None" "check_suppression R ?form = None"
      "source_id = i" "mode = m" "form = ?form" "w' = tick w"
    using run unfolding rest by (auto simp: ebind_Inr db_query_by_Inr split: if_splits option.splits)
  show thesis
  proof (rule that)
    show "submission_ok R G (data_sources (working w)) s source_id mode timeout rows"
      using limits checked m dynamic recipients cron i found hours
      by (auto simp: submission_ok_def parse_rule_limits_def parse_two_Inr parse_bounded_int_Inr check_statement_Inr
          check_suppression_None)
  qed (use found in simp_all)
qed

lemma validate_rule_form_complete:
  assumes hours: "\<bar>su_suppression_window_hours s\<bar> < 10 ^ 30" and E: "fault E (ticks w) = None"
    and ok: "submission_ok R G (data_sources (working w)) s source_id mode timeout rows"
  shows "validate_rule_form E R G (submitted_rule_form s) w
      = (Inr (Inr (source_id, mode), limits_form s timeout rows), tick w)"
proof -
  have "parse_rule_limits R (su_query_timeout_seconds s) (su_max_rows s) = Inr (timeout, rows)"
    using ok by (simp add: submission_ok_def parse_rule_limits_def parse_two_Inr parse_bounded_int_Inr)
  moreover have "check_statement R G (limits_form s timeout rows) = Inr (Inr mode)"
    using ok by (simp add: check_statement_Inr submission_ok_def)
  moreover have "check_suppression R (limits_form s timeout rows) = None"
    using ok check_suppression_None [OF hours] by (simp add: submission_ok_def)
  ultimately show ?thesis
    using ok E
    by (auto simp: validate_rule_form_def limits_form_def [symmetric] Let_def submission_ok_def ebind_def
        elift_def ereturn_def db_query_by_fits db_query_def db_exec_def)
qed

lemma limits_form_ints:
  assumes "submission_ok R G sources s source_id mode timeout rows"
  shows "py_int_res R (int_str timeout) = Inr timeout" and "py_int_res R (int_str rows) = Inr rows"
  using assms by (simp_all add: py_int_res_def submission_ok_def py_int_small)

lemma submission_rule_wf:
  assumes "submission_ok R G sources s source_id mode timeout rows"
    and "fits_int64 (su_suppression_window_hours s)"
  shows "rule_wf R G (rule_of_submission s source_id mode timeout rows created updated)"
    and "rule_wf R G (apply_submission s source_id mode timeout rows now r)"
    and "has_source sources (rule_of_submission s source_id mode timeout rows created updated)"
    and "has_source sources (apply_submission s source_id mode timeout rows now r)"
  using assms
  by (auto simp: rule_wf_def rule_valid_def submission_ok_def rule_of_submission_def apply_submission_def has_source_def)


section \<open>Outcomes of the routes\<close>

lemma same_db_rule_form_page: "preserves same_db (rule_form_page E R status e form action heading)"
  unfolding rule_form_page_def by (intro same_db_intros)

lemma same_db_get_active_rule: "preserves same_db (get_active_rule E rule_id)"
  unfolding get_active_rule_def by (intro same_db_intros same_db_query_by)

lemma same_db_validate_rule_form: "preserves same_db (validate_rule_form E R G form)"
  unfolding validate_rule_form_def Let_def
  by (intro same_db_intros same_db_query_by | simp split: sum.split option.split exn.split | intro conjI allI impI)+

lemma get_active_rule_Inr:
  "get_active_rule E rule_id w = (Inr found, w') \<Longrightarrow>
     found = (case db_get ar_id rule_id (alert_rules (working w)) of
                Some r \<Rightarrow> if ar_archived_at r = None then Some r else None | None \<Rightarrow> None)
     \<and> w' = tick w"
  by (auto simp: get_active_rule_def ebind_Inr db_query_by_Inr)

text \<open>The accepted submission, as the routes go on with it.\<close>

definition accepted ::
  "route_lib \<Rightarrow> ('t, 'n) sqlglot \<Rightarrow> sql_data_source list \<Rightarrow> rule_submission \<Rightarrow> (pystr + (int \<times> send_mode)) \<times> form \<Rightarrow> bool" where
  "accepted R G sources s outcome \<longleftrightarrow>
     (\<forall>source_id mode. fst outcome = Inr (source_id, mode) \<longrightarrow>
        (\<exists>timeout rows. submission_ok R G sources s source_id mode timeout rows
           \<and> snd outcome = limits_form s timeout rows))"

definition hours_small :: "rule_submission \<Rightarrow> bool" where
  "hours_small s \<longleftrightarrow> \<bar>su_suppression_window_hours s\<bar> < 10 ^ 30"

lemma run_validate:
  assumes "hours_small s"
    and "\<And>x. accepted R G (data_sources d) s x \<Longrightarrow> runs d0 d (k x) Q"
  shows "runs d0 d (ebind (validate_rule_form E R G (submitted_rule_form s)) k) Q"
proof (rule run_same [where B = "accepted R G (data_sources d) s", OF same_db_validate_rule_form _ assms(2)])
  fix x w w'
  assume "working w = d" and run: "validate_rule_form E R G (submitted_rule_form s) w = (Inr x, w')"
  show "accepted R G (data_sources d) s x"
    unfolding accepted_def
  proof (intro allI impI)
    fix source_id mode
    assume "fst x = Inr (source_id, mode)"
    with run have "validate_rule_form E R G (submitted_rule_form s) w = (Inr (Inr (source_id, mode), snd x), w')"
      by (cases x) simp
    from validate_rule_form_accepts [OF _ this] assms(1) \<open>working w = d\<close>
    show "\<exists>timeout rows. submission_ok R G (data_sources d) s source_id mode timeout rows
        \<and> snd x = limits_form s timeout rows"
      unfolding hours_small_def by metis
  qed
qed

text \<open>
  How the reply of a route that saves tells whether it did: a redirect exactly when the committed
  database is a changed one.
\<close>

definition saved :: "db \<Rightarrow> (db \<Rightarrow> bool) \<Rightarrow> reply \<Rightarrow> db \<Rightarrow> bool" where
  "saved d0 C x c \<longleftrightarrow> (case x of Redirect url \<Rightarrow> C c | _ \<Rightarrow> c = d0)"

lemma saved_simps [simp]:
  "saved d0 C (Redirect url) c \<longleftrightarrow> C c" "saved d0 C (Page n t x) c \<longleftrightarrow> c = d0"
  "saved d0 C (NotFound m) c \<longleftrightarrow> c = d0" "saved d0 C (JsonMessage n b m) c \<longleftrightarrow> c = d0"
  by (simp_all add: saved_def)

lemma run_rule_form_page: "runs d0 d (rule_form_page E R status e form action heading) (saved d0 C)"
  unfolding rule_form_page_def by (intro run_query run_return) simp

lemma run_active_rule:
  assumes "\<And>rule. db_get ar_id rule_id (alert_rules d) = Some rule \<Longrightarrow> ar_archived_at rule = None
      \<Longrightarrow> runs d0 d (body rule) (saved d0 C)"
  shows "runs d0 d (with_active_rule E rule_id body) (saved d0 C)"
  unfolding with_active_rule_def
proof (rule run_same [OF same_db_get_active_rule])
  fix found w w'
  assume "working w = d" and "get_active_rule E rule_id w = (Inr found, w')"
  from get_active_rule_Inr [OF this(2)] this(1)
  show "found = (case db_get ar_id rule_id (alert_rules d) of
      Some r \<Rightarrow> if ar_archived_at r = None then Some r else None | None \<Rightarrow> None)" by simp
next
  fix found
  assume "found = (case db_get ar_id rule_id (alert_rules d) of
      Some r \<Rightarrow> if ar_archived_at r = None then Some r else None | None \<Rightarrow> None)"
  then show "runs d0 d (case found of None \<Rightarrow> ereturn (NotFound RULE_MISSING) | Some rule \<Rightarrow> body rule) (saved d0 C)"
    using assms by (auto intro: run_return split: option.splits if_splits)
qed

lemma run_query_by:
  "(fits_int64 i \<Longrightarrow> runs d0 d (k (f d)) Q) \<Longrightarrow> runs d0 d (ebind (db_query_by E i f) k) Q"
  unfolding db_query_by_def by (auto intro!: run_lift run_query)

lemma run_add_rule:
  "(fits_int64 (ar_suppression_window_hours r) \<Longrightarrow> runs d0 (insert_rule E r d) (k ()) Q)
     \<Longrightarrow> runs d0 d (ebind (add_rule E r) k) Q"
  unfolding add_rule_def by (auto intro!: run_lift run_exec)

text \<open>What creating, changing and archiving a rule may do to the database.\<close>

definition rule_created ::
  "env \<Rightarrow> route_lib \<Rightarrow> ('t, 'n) sqlglot \<Rightarrow> rule_submission \<Rightarrow> db \<Rightarrow> db \<Rightarrow> bool" where
  "rule_created E R G s d d' \<longleftrightarrow>
     (\<exists>source_id mode timeout rows created updated.
        submission_ok R G (data_sources d) s source_id mode timeout rows
        \<and> fits_int64 (su_suppression_window_hours s)
        \<and> d' = insert_rule E (rule_of_submission s source_id mode timeout rows created updated) d)"

text \<open>The same for the whole request: any other reply, or an exception, has changed nothing.\<close>

definition settles :: "db \<Rightarrow> (db \<Rightarrow> bool) \<Rightarrow> reply res \<times> world \<Rightarrow> bool" where
  "settles d0 C run \<longleftrightarrow>
     (case fst run of Inr x \<Rightarrow> saved d0 C x (committed (snd run)) | Inl exc \<Rightarrow> committed (snd run) = d0)"

lemma with_session_settles:
  assumes "runs (committed w) (committed w) m (saved (committed w) C)"
  shows "settles (committed w) C (with_session m w)"
  using with_session_runs [OF assms] by (simp add: settles_def)

lemma rule_createdI:
  "submission_ok R G (data_sources d) s source_id mode timeout rows \<Longrightarrow>
     fits_int64 (su_suppression_window_hours s) \<Longrightarrow>
     rule_created E R G s d (insert_rule E (rule_of_submission s source_id mode timeout rows created updated) d)"
  unfolding rule_created_def by blast

lemma create_rule_settles:
  assumes "hours_small s"
  shows "settles (committed w) (rule_created E R G s (committed w)) (create_rule E R G s w)"
  unfolding create_rule_def
proof (rule with_session_settles, rule run_validate [OF assms], goal_cases)
  case (1 x)
  show ?case
  proof (cases "fst x")
    case (Inl e)
    then show ?thesis by (cases x) (simp add: run_rule_form_page)
  next
    case (Inr y)
    obtain source_id mode where y: "y = (source_id, mode)" by (cases y)
    with 1 Inr obtain timeout rows
      where ok: "submission_ok R G (data_sources (committed w)) s source_id mode timeout rows"
        and form: "snd x = limits_form s timeout rows"
      unfolding accepted_def by blast
    have x: "x = (Inr (source_id, mode), limits_form s timeout rows)"
      using Inr y form by (cases x) simp
    show ?thesis
      unfolding x using ok
      by (auto simp: limits_form_ints [OF ok] rule_of_submission_def
          intro!: run_lift run_now run_add_rule run_commit rule_createdI [unfolded rule_of_submission_def])
  qed
qed


text \<open>A change puts the replaced rule into the history and then changes it.\<close>

definition rule_version_of :: "env \<Rightarrow> json_lib \<Rightarrow> pystr \<Rightarrow> int \<Rightarrow> alert_rule \<Rightarrow> datetime \<Rightarrow> db \<Rightarrow> alert_rule_version" where
  "rule_version_of E L username rule_id rule now d =
     \<lparr>rv_id = None, rv_rule_id = rule_id, rv_version_number = next_rule_version_number rule_id d,
      rv_changed_by = username, rv_snapshot_json = jl_dumps L (rule_snapshot L rule), rv_changed_at = now\<rparr>"

definition rule_changed ::
  "env \<Rightarrow> route_lib \<Rightarrow> ('t, 'n) sqlglot \<Rightarrow> json_lib \<Rightarrow> pystr \<Rightarrow> int \<Rightarrow> rule_submission \<Rightarrow> db \<Rightarrow> db \<Rightarrow> bool" where
  "rule_changed E R G L username rule_id s d d' \<longleftrightarrow>
     (\<exists>rule source_id mode timeout rows changed now.
        db_get ar_id rule_id (alert_rules d) = Some rule \<and> ar_archived_at rule = None
        \<and> submission_ok R G (data_sources d) s source_id mode timeout rows
        \<and> fits_int64 (su_suppression_window_hours s)
        \<and> d' = replace_rule rule_id (apply_submission s source_id mode timeout rows now)
                 (insert_version E (rule_version_of E L username rule_id rule changed d) d))"

lemma rule_changedI:
  "db_get ar_id rule_id (alert_rules d) = Some rule \<Longrightarrow> ar_archived_at rule = None
     \<Longrightarrow> submission_ok R G (data_sources d) s source_id mode timeout rows
     \<Longrightarrow> fits_int64 (su_suppression_window_hours s)
     \<Longrightarrow> rule_changed E R G L username rule_id s d
           (replace_rule rule_id (apply_submission s source_id mode timeout rows now)
             (insert_version E (rule_version_of E L username rule_id rule changed d) d))"
  unfolding rule_changed_def by blast

lemma create_rule_version_Inr:
  assumes "db_get ar_id rule_id (alert_rules d) = Some rule" and "working w = d"
    and "create_rule_version E L rule username w = (Inr v, w')"
  shows "\<exists>now. v = rule_version_of E L username rule_id rule now d"
  using assms db_get_Some [OF assms(1)]
  by (auto simp: create_rule_version_def rule_version_of_def ebind_Inr db_query_Inr utc_now_def)

lemma run_create_rule_version:
  assumes "db_get ar_id rule_id (alert_rules d) = Some rule"
    and "\<And>now. runs d0 d (k (rule_version_of E L username rule_id rule now d)) Q"
  shows "runs d0 d (ebind (create_rule_version E L rule username) k) Q"
proof (rule run_same)
  show "preserves same_db (create_rule_version E L rule username)"
    unfolding create_rule_version_def by (intro same_db_intros)
  show "\<exists>now. v = rule_version_of E L username rule_id rule now d"
    if "working w = d" and "create_rule_version E L rule username w = (Inr v, w')" for v w w'
    by (rule create_rule_version_Inr [OF assms(1) that])
  show "runs d0 d (k v) Q" if "\<exists>now. v = rule_version_of E L username rule_id rule now d" for v
    using that assms(2) by blast
qed

lemma update_rule_settles:
  assumes "hours_small s"
  shows "settles (committed w) (rule_changed E R G L username rule_id s (committed w))
    (update_rule E R G L username rule_id s w)"
  unfolding update_rule_def
proof (rule with_session_settles, rule run_active_rule, rule run_validate [OF assms], goal_cases)
  case (1 rule x)
  show ?case
  proof (cases "fst x")
    case (Inl e)
    then show ?thesis by (cases x) (simp add: run_rule_form_page)
  next
    case (Inr y)
    obtain source_id mode where y: "y = (source_id, mode)" by (cases y)
    with 1 Inr obtain timeout rows
      where ok: "submission_ok R G (data_sources (committed w)) s source_id mode timeout rows"
        and form: "snd x = limits_form s timeout rows"
      unfolding accepted_def by blast
    have x: "x = (Inr (source_id, mode), limits_form s timeout rows)"
      using Inr y form by (cases x) simp
    show ?thesis
      unfolding x using ok 1(1,2)
      by (auto simp: limits_form_ints [OF ok]
          intro!: run_create_rule_version [OF 1(1)] run_lift run_now run_exec run_commit rule_changedI)
  qed
qed

definition rule_archived :: "int \<Rightarrow> db \<Rightarrow> db \<Rightarrow> bool" where
  "rule_archived rule_id d d' \<longleftrightarrow>
     (\<exists>now. d' = replace_rule rule_id
        (\<lambda>r. r\<lparr>ar_enabled := False, ar_archived_at := Some now, ar_updated_at := now\<rparr>) d)"

lemma archive_rule_settles:
  "settles (committed w) (rule_archived rule_id (committed w)) (archive_rule E rule_id w)"
  unfolding archive_rule_def
  by (rule with_session_settles, rule run_active_rule)
    (auto simp: rule_archived_def intro!: run_now run_exec run_commit)

end
