(* ===== verification/Rule_Exchange.thy ===== *)
theory Rule_Exchange
  imports Rule_Store Crypto
begin

text \<open>
  The exchange of rules as a JSON file (\<open>app/routes.py\<close>): the export of the active rules, and the
  import, which checks the whole file before it stores any rule. The order of the data source query
  is the order of the table; names are unique there.
\<close>

section \<open>Export\<close>

definition exported_rule :: "(int option \<times> pystr) list \<Rightarrow> alert_rule \<Rightarrow> json" where
  "exported_rule names r = JObj
     [(str ''name'', JStr (ar_name r)),
      (str ''data_source_name'', JStr (case map_of names (Some (ar_data_source_id r)) of Some n \<Rightarrow> n | None \<Rightarrow> [])),
      (str ''sql_text'', JStr (ar_sql_text r)), (str ''cron_expression'', JStr (ar_cron_expression r)),
      (str ''recipients'', JStr (ar_recipients r)), (str ''cc_recipients'', JStr (ar_cc_recipients r)),
      (str ''subject_template'', JStr (ar_subject_template r)),
      (str ''body_template'', JStr (ar_body_template r)),
      (str ''send_mode'', JStr (send_mode_value (ar_send_mode r))),
      (str ''query_timeout_seconds'', JInt (ar_query_timeout_seconds r)),
      (str ''max_rows'', JInt (ar_max_rows r)), (str ''enabled'', JBool (ar_enabled r)),
      (str ''notes'', JStr (ar_notes r)),
      (str ''dynamic_recipient_field'', JStr (ar_dynamic_recipient_field r)),
      (str ''dynamic_cc_field'', JStr (ar_dynamic_cc_field r)),
      (str ''suppress_duplicates'', JBool (ar_suppress_duplicates r)),
      (str ''suppression_key_field'', JStr (ar_suppression_key_field r)),
      (str ''suppression_window_hours'', JInt (ar_suppression_window_hours r))]"

definition active_rules :: "db \<Rightarrow> alert_rule list" where
  "active_rules d = filter (\<lambda>r. ar_archived_at r = None) (alert_rules d)"

definition rule_export_payload :: "env \<Rightarrow> route_lib \<Rightarrow> json_lib \<Rightarrow> (world, json) eff" where
  "rule_export_payload E R L =
     ebind (db_query E (\<lambda>d. rl_recent_rules R (active_rules d))) (\<lambda>rules.
     ebind (db_query E (\<lambda>d. dict_of_pairs (map (\<lambda>s. (ds_id s, ds_name s)) (data_sources d)))) (\<lambda>names.
     ebind (utc_now E) (\<lambda>now.
     ereturn (JObj [(str ''version'', JInt 1), (str ''exported_at'', JStr (jl_isoformat L now)),
                    (str ''rules'', JList (map (exported_rule names) rules))]))))"

definition export_rules_json :: "env \<Rightarrow> route_lib \<Rightarrow> json_lib \<Rightarrow> (world, pystr) eff" where
  "export_rules_json E R L =
     with_session (ebind (rule_export_payload E R L) (\<lambda>payload. ereturn (jl_dumps L payload)))"

section \<open>Import\<close>

definition MAX_IMPORTED_RULES :: int where "MAX_IMPORTED_RULES = 500"

definition MAX_RULE_IMPORT_BYTES :: nat where "MAX_RULE_IMPORT_BYTES = 1024 * 1024"

definition rule_prefix :: "int \<Rightarrow> pystr" where
  "rule_prefix index = [0x7B2C, 0x0020] @ int_str index @ [0x0020, 0x6761, 0x89C4, 0x5219]"

definition import_error :: "int \<Rightarrow> pystr \<Rightarrow> 'a res" where
  "import_error index m = Inl (ValueError (rule_prefix index @ m))"

definition required_import_text ::
  "json_lib \<Rightarrow> (pystr \<times> json) list \<Rightarrow> string \<Rightarrow> int \<Rightarrow> pystr \<Rightarrow> pystr res" where
  "required_import_text L rule_data fld index label =
     (let v = strip (json_str L (jget rule_data fld (JStr [])))
      in if v = [] then import_error index ([0x7F3A, 0x5C11] @ label) else Inr v)"

definition optional_import_text :: "json_lib \<Rightarrow> (pystr \<times> json) list \<Rightarrow> string \<Rightarrow> pystr" where
  "optional_import_text L rule_data fld = json_str L (jget rule_data fld (JStr []))"

text \<open>\<open>except (TypeError, ValueError)\<close> around \<open>int(value)\<close>; an \<open>OverflowError\<close> propagates.\<close>

definition import_int :: "route_lib \<Rightarrow> json \<Rightarrow> int \<Rightarrow> pystr \<Rightarrow> int res" where
  "import_int R v index message =
     (case json_int (rl_decimals R) v of
        Inr i \<Rightarrow> Inr i
      | Inl (ValueError m) \<Rightarrow> import_error index message
      | Inl exc \<Rightarrow> if exc = type_error then import_error index message else Inl exc)"

definition positive_import_int ::
  "route_lib \<Rightarrow> (pystr \<times> json) list \<Rightarrow> string \<Rightarrow> int \<Rightarrow> pystr \<Rightarrow> int \<Rightarrow> int res" where
  "positive_import_int R rule_data fld index label dflt =
     (case import_int R (jget rule_data fld (JInt dflt)) index (label @ [0x5FC5, 0x987B, 0x662F, 0x6B63, 0x6574, 0x6570]) of
        Inl exc \<Rightarrow> Inl exc
      | Inr parsed \<Rightarrow> if parsed \<le> 0 then import_error index (label @ [0x5FC5, 0x987B, 0x662F, 0x6B63, 0x6574, 0x6570]) else Inr parsed)"

definition bounded_import_int ::
  "route_lib \<Rightarrow> (pystr \<times> json) list \<Rightarrow> string \<Rightarrow> int \<Rightarrow> pystr \<Rightarrow> int \<Rightarrow> int \<Rightarrow> int res" where
  "bounded_import_int R rule_data fld index label dflt maximum =
     (case import_int R (jget rule_data fld (JInt dflt)) index (label @ [0x5FC5, 0x987B, 0x662F, 0x6574, 0x6570]) of
        Inl exc \<Rightarrow> Inl exc
      | Inr parsed \<Rightarrow>
          (case validate_bounded_int parsed label 1 maximum of
             Some e \<Rightarrow> import_error index e
           | None \<Rightarrow> Inr parsed))"

definition rbind :: "'a res \<Rightarrow> ('a \<Rightarrow> 'b res) \<Rightarrow> 'b res" where
  "rbind r f = (case r of Inl exc \<Rightarrow> Inl exc | Inr x \<Rightarrow> f x)"

text \<open>\<open>except SomeError as exc: raise ValueError(...)\<close>\<close>

definition import_sql :: "('t, 'n) sqlglot \<Rightarrow> int \<Rightarrow> pystr \<Rightarrow> unit res" where
  "import_sql G index sql =
     (case validate_select_only_sql G sql of
        Inl (SqlValidationError m) \<Rightarrow> import_error index ([0x0020, 0x0053, 0x0051, 0x004C, 0x0020, 0x65E0, 0x6548, 0xFF1A] @ m)
      | r \<Rightarrow> r)"

definition import_cron :: "route_lib \<Rightarrow> int \<Rightarrow> pystr \<Rightarrow> unit res" where
  "import_cron R index cron =
     (case rl_from_crontab R cron of
        Inl (ValueError m) \<Rightarrow> import_error index ([0x0020, 0x0043, 0x0072, 0x006F, 0x006E, 0x0020, 0x8868, 0x8FBE, 0x5F0F, 0x65E0, 0x6548])
      | r \<Rightarrow> r)"

definition import_send_mode :: "int \<Rightarrow> pystr \<Rightarrow> send_mode res" where
  "import_send_mode index v =
     (case send_mode_of_value (if v = [] then send_mode_value SUMMARY else v) of
        None \<Rightarrow> import_error index ([0x53D1, 0x9001, 0x65B9, 0x5F0F, 0x65E0, 0x6548])
      | Some m \<Rightarrow> Inr m)"

text \<open>
  The checks of one rule up to the construction of the row; the row takes the two times of its
  creation as arguments.
\<close>

definition imported_rule ::
  "route_lib \<Rightarrow> ('t, 'n) sqlglot \<Rightarrow> json_lib \<Rightarrow> (pystr \<times> sql_data_source) list \<Rightarrow> int \<Rightarrow> json
     \<Rightarrow> (datetime \<Rightarrow> datetime \<Rightarrow> alert_rule) res" where
  "imported_rule R G L sources_by_name index j =
     (case j of
        JObj rule_data \<Rightarrow>
          rbind (required_import_text L rule_data ''name'' index ([0x89C4, 0x5219, 0x540D, 0x79F0])) (\<lambda>nam.
          rbind (required_import_text L rule_data ''data_source_name'' index ([0x6570, 0x636E, 0x6E90, 0x540D, 0x79F0])) (\<lambda>data_source_name.
          case map_of sources_by_name data_source_name of
            None \<Rightarrow> import_error index ([0x7684, 0x6570, 0x636E, 0x6E90, 0x4E0D, 0x5B58, 0x5728])
          | Some data_source \<Rightarrow>
          rbind (required_import_text L rule_data ''sql_text'' index ([0x0053, 0x0051, 0x004C, 0x0020, 0x67E5, 0x8BE2])) (\<lambda>sql_text.
          rbind (import_sql G index sql_text) (\<lambda>_.
          rbind (required_import_text L rule_data ''cron_expression'' index ([0x0043, 0x0072, 0x006F, 0x006E, 0x0020, 0x8868, 0x8FBE, 0x5F0F])) (\<lambda>cron_expression.
          rbind (import_cron R index cron_expression) (\<lambda>_.
          rbind (import_send_mode index (optional_import_text L rule_data ''send_mode'')) (\<lambda>send_mode.
          let dynamic_recipient_field = strip (optional_import_text L rule_data ''dynamic_recipient_field'');
              recipients = strip (optional_import_text L rule_data ''recipients'')
          in if dynamic_recipient_field \<noteq> [] \<and> send_mode \<noteq> PER_ROW
             then import_error index ([0x52A8, 0x6001, 0x6536, 0x4EF6, 0x4EBA, 0x5B57, 0x6BB5, 0x4EC5, 0x652F, 0x6301, 0x6BCF, 0x884C, 0x4E00, 0x5C01, 0x6A21, 0x5F0F])
             else if \<not> has_recipient_text recipients \<and> dynamic_recipient_field = []
             then import_error index ([0x7F3A, 0x5C11, 0x6536, 0x4EF6, 0x4EBA, 0x6216, 0x52A8, 0x6001, 0x6536, 0x4EF6, 0x4EBA, 0x5B57, 0x6BB5])
             else
          rbind (bounded_import_int R rule_data ''query_timeout_seconds'' index ([0x67E5, 0x8BE2, 0x8D85, 0x65F6, 0x65F6, 0x95F4]) 30 600) (\<lambda>timeout.
          rbind (bounded_import_int R rule_data ''max_rows'' index ([0x6700, 0x5927, 0x8FD4, 0x56DE, 0x884C, 0x6570]) 500 5000) (\<lambda>rows.
          rbind (positive_import_int R rule_data ''suppression_window_hours'' index ([0x91CD, 0x590D, 0x6291, 0x5236, 0x7A97, 0x53E3]) 24) (\<lambda>hours.
          Inr (\<lambda>created updated.
            \<lparr>ar_id = None, ar_name = nam, ar_data_source_id = the (ds_id data_source), ar_sql_text = sql_text,
             ar_cron_expression = cron_expression, ar_recipients = recipients,
             ar_cc_recipients = optional_import_text L rule_data ''cc_recipients'',
             ar_subject_template = optional_import_text L rule_data ''subject_template'',
             ar_body_template = optional_import_text L rule_data ''body_template'',
             ar_send_mode = send_mode, ar_query_timeout_seconds = timeout, ar_max_rows = rows,
             ar_enabled = json_truth (jget rule_data ''enabled'' (JBool True)),
             ar_notes = optional_import_text L rule_data ''notes'',
             ar_dynamic_recipient_field = dynamic_recipient_field,
             ar_dynamic_cc_field = strip (optional_import_text L rule_data ''dynamic_cc_field''),
             ar_suppress_duplicates = json_truth (jget rule_data ''suppress_duplicates'' (JBool False)),
             ar_suppression_key_field = strip (optional_import_text L rule_data ''suppression_key_field''),
             ar_suppression_window_hours = hours, ar_created_at = created, ar_archived_at = None,
             ar_updated_at = updated\<rparr>)))))))))))
      | _ \<Rightarrow> import_error index ([0x683C, 0x5F0F, 0x65E0, 0x6548]))"

definition check_imported_suppression :: "int \<Rightarrow> alert_rule \<Rightarrow> unit res" where
  "check_imported_suppression index r =
     (if ar_suppress_duplicates r \<and> ar_suppression_key_field r = []
      then import_error index ([0x542F, 0x7528, 0x91CD, 0x590D, 0x6291, 0x5236, 0x65F6, 0x5FC5, 0x987B, 0x586B, 0x5199, 0x53BB, 0x91CD, 0x5B57, 0x6BB5]) else Inr ())"

fun build_rules_from ::
  "env \<Rightarrow> route_lib \<Rightarrow> ('t, 'n) sqlglot \<Rightarrow> json_lib \<Rightarrow> (pystr \<times> sql_data_source) list \<Rightarrow> int \<Rightarrow> json list
     \<Rightarrow> (world, alert_rule list) eff" where
  "build_rules_from E R G L sources_by_name index [] = ereturn []"
| "build_rules_from E R G L sources_by_name index (j # js) =
     ebind (elift (imported_rule R G L sources_by_name index j)) (\<lambda>row.
     ebind (utc_now E) (\<lambda>created.
     ebind (utc_now E) (\<lambda>updated.
     ebind (elift (check_imported_suppression index (row created updated))) (\<lambda>_.
     ebind (build_rules_from E R G L sources_by_name (index + 1) js) (\<lambda>rules.
     ereturn (row created updated # rules))))))"

definition build_imported_rules ::
  "env \<Rightarrow> route_lib \<Rightarrow> ('t, 'n) sqlglot \<Rightarrow> json_lib \<Rightarrow> json \<Rightarrow> (world, alert_rule list) eff" where
  "build_imported_rules E R G L payload =
     (case payload of
        JObj m \<Rightarrow>
          if \<not> json_is_one (jget m ''version'' JNull)
          then eraise (ValueError ([0x5BFC, 0x5165, 0x6587, 0x4EF6, 0x683C, 0x5F0F, 0x65E0, 0x6548, 0xFF1A, 0x4EC5, 0x652F, 0x6301, 0x0020, 0x0076, 0x0065, 0x0072, 0x0073, 0x0069, 0x006F, 0x006E, 0x0020, 0x0031]))
          else (case jget m ''rules'' JNull of
            JList rules_data \<Rightarrow>
              if MAX_IMPORTED_RULES < int (length rules_data)
              then eraise (ValueError ([0x5BFC, 0x5165, 0x89C4, 0x5219, 0x6570, 0x91CF, 0x4E0D, 0x80FD, 0x8D85, 0x8FC7, 0x0020] @ int_str MAX_IMPORTED_RULES @ [0x0020, 0x6761]))
              else
                ebind (db_query E (\<lambda>d. dict_of_pairs (map (\<lambda>s. (ds_name s, s)) (data_sources d)))) (\<lambda>sources_by_name.
                build_rules_from E R G L sources_by_name 1 rules_data)
          | _ \<Rightarrow> eraise (ValueError ([0x5BFC, 0x5165, 0x6587, 0x4EF6, 0x683C, 0x5F0F, 0x65E0, 0x6548, 0xFF1A, 0x0072, 0x0075, 0x006C, 0x0065, 0x0073, 0x0020, 0x5FC5, 0x987B, 0x662F, 0x5217, 0x8868])))
      | _ \<Rightarrow> eraise (ValueError ([0x5BFC, 0x5165, 0x6587, 0x4EF6, 0x683C, 0x5F0F, 0x65E0, 0x6548, 0xFF1A, 0x4EC5, 0x652F, 0x6301, 0x0020, 0x0076, 0x0065, 0x0072, 0x0073, 0x0069, 0x006F, 0x006E, 0x0020, 0x0031])))"

definition MSG_JSON :: pystr where "MSG_JSON = [0x5BFC, 0x5165, 0x6587, 0x4EF6, 0x5FC5, 0x987B, 0x662F, 0x6709, 0x6548, 0x7684, 0x0020, 0x004A, 0x0053, 0x004F, 0x004E]"

definition MSG_FILE_SIZE :: pystr where "MSG_FILE_SIZE = [0x5BFC, 0x5165, 0x6587, 0x4EF6, 0x4E0D, 0x80FD, 0x8D85, 0x8FC7, 0x0020, 0x0031, 0x0020, 0x004D, 0x0069, 0x0042]"

text \<open>The file's text; None is \<open>UnicodeDecodeError\<close> or \<open>JSONDecodeError\<close>.\<close>

definition load_payload :: "json_lib \<Rightarrow> nat list \<Rightarrow> json option res" where
  "load_payload L content =
     (case utf8_decode content of None \<Rightarrow> Inr None | Some text \<Rightarrow> jl_loads L text)"

definition rules_error_page :: "env \<Rightarrow> route_lib \<Rightarrow> pystr \<Rightarrow> pystr \<Rightarrow> (world, reply) eff" where
  "rules_error_page E R imported message =
     ebind (rules_page_context E R imported message) (\<lambda>c. ereturn (Page 400 (str ''rules.html'') c))"

text \<open>\<open>except ValueError\<close> catches its subclasses too.\<close>

definition value_error_message :: "exn \<Rightarrow> pystr option" where
  "value_error_message exc =
     (case exc of ValueError m \<Rightarrow> Some m | SqlValidationError m \<Rightarrow> Some m | TemplateRenderError m \<Rightarrow> Some m
      | _ \<Rightarrow> None)"

text \<open>Reading and checking the file: the rules, or the message of the page.\<close>

definition checked_import ::
  "env \<Rightarrow> route_lib \<Rightarrow> ('t, 'n) sqlglot \<Rightarrow> json_lib \<Rightarrow> nat list \<Rightarrow> (world, pystr + alert_rule list) eff" where
  "checked_import E R G L file =
     ecatch
       (let content = take (MAX_RULE_IMPORT_BYTES + 1) file
        in if MAX_RULE_IMPORT_BYTES < length content then eraise (ValueError MSG_FILE_SIZE)
           else ebind (elift (load_payload L content)) (\<lambda>loaded.
             case loaded of
               None \<Rightarrow> ereturn (Inl MSG_JSON)
             | Some payload \<Rightarrow> ebind (build_imported_rules E R G L payload) (\<lambda>rules. ereturn (Inr rules))))
       (\<lambda>exc. case value_error_message exc of Some m \<Rightarrow> ereturn (Inl m) | None \<Rightarrow> eraise exc)"

definition import_rules_json ::
  "env \<Rightarrow> route_lib \<Rightarrow> ('t, 'n) sqlglot \<Rightarrow> json_lib \<Rightarrow> pystr \<Rightarrow> nat list \<Rightarrow> (world, reply) eff" where
  "import_rules_json E R G L imported file = with_session
     (ebind (checked_import E R G L file) (\<lambda>checked.
      case checked of
        Inl m \<Rightarrow> rules_error_page E R imported m
      | Inr rules \<Rightarrow>
          ebind (efor rules (add_rule E)) (\<lambda>_.
          ebind (db_commit E) (\<lambda>_.
          ereturn (Redirect (str ''/rules?imported='' @ int_str (int (length rules))))))))"


section \<open>What the import accepts\<close>

lemma rbind_Inr: "rbind r f = Inr y \<longleftrightarrow> (\<exists>x. r = Inr x \<and> f x = Inr y)"
  by (auto simp: rbind_def split: sum.splits)

lemma rbind_simps [simp]: "rbind (Inr x) f = f x" "rbind (Inl exc) f = Inl exc"
  by (simp_all add: rbind_def)

lemma import_error_not_Inr [simp]: "import_error index m \<noteq> Inr x"
  by (simp add: import_error_def)

lemma bounded_import_int_Inr:
  "bounded_import_int R rule_data fld index label dflt maximum = Inr i \<Longrightarrow> 1 \<le> i \<and> i \<le> maximum"
  by (auto simp: bounded_import_int_def validate_bounded_int_def split: sum.splits option.splits if_splits)

lemma positive_import_int_Inr:
  "positive_import_int R rule_data fld index label dflt = Inr i \<Longrightarrow> 0 < i"
  by (auto simp: positive_import_int_def split: sum.splits if_splits)

lemma import_sql_Inr [simp]: "import_sql G index sql = Inr u \<longleftrightarrow> validate_select_only_sql G sql = Inr ()"
  by (auto simp: import_sql_def split: sum.splits exn.splits)

lemma import_cron_Inr [simp]: "import_cron R index cron = Inr u \<longleftrightarrow> rl_from_crontab R cron = Inr ()"
  by (auto simp: import_cron_def split: sum.splits exn.splits)

definition source_of_table :: "sql_data_source list \<Rightarrow> alert_rule \<Rightarrow> bool" where
  "source_of_table sources r \<longleftrightarrow> (\<exists>s \<in> set sources. ar_data_source_id r = the (ds_id s))"

lemma source_named:
  "map_of names n = Some s \<Longrightarrow> \<exists>n' s'. map_of names n' = Some s' \<and> the (ds_id s) = the (ds_id s')"
  by blast

lemma imported_rule_valid:
  assumes "imported_rule R G L names index j = Inr row"
    and "check_imported_suppression index (row created updated) = Inr ()"
  shows "rule_valid R G (row created updated)"
    and "\<exists>n s. map_of names n = Some s \<and> ar_data_source_id (row created updated) = the (ds_id s)"
proof -
  obtain m where j: "j = JObj m"
    using assms(1) by (cases j) (simp_all add: imported_rule_def)
  show "rule_valid R G (row created updated)"
    using assms unfolding j imported_rule_def
    by (auto simp: rbind_Inr Let_def rule_valid_def check_imported_suppression_def
        dest: bounded_import_int_Inr positive_import_int_Inr split: option.splits if_splits)
  show "\<exists>n s. map_of names n = Some s \<and> ar_data_source_id (row created updated) = the (ds_id s)"
    using assms(1) unfolding j imported_rule_def
    by (auto simp: rbind_Inr Let_def intro: source_named split: option.splits if_splits)
qed

lemma build_rules_from_valid:
  "build_rules_from E R G L names index js w = (Inr rules, w') \<Longrightarrow> r \<in> set rules
     \<Longrightarrow> rule_valid R G r \<and> (\<exists>n s. map_of names n = Some s \<and> ar_data_source_id r = the (ds_id s))"
proof (induction js arbitrary: index w rules w')
  case Nil
  then show ?case by simp
next
  case (Cons j js)
  then obtain row created updated rest w1 w2 where row: "imported_rule R G L names index j = Inr row"
      "check_imported_suppression index (row created updated) = Inr ()"
    and rest: "build_rules_from E R G L names (index + 1) js w1 = (Inr rest, w2)"
    and rules: "rules = row created updated # rest"
    by (auto simp: ebind_Inr)
  with Cons.IH [OF rest] imported_rule_valid [OF row] Cons.prems(2) show ?case
    by (metis set_ConsD)
qed

lemma names_of_sources:
  "map_of (dict_of_pairs (map (\<lambda>s. (ds_name s, s)) sources)) n = Some s \<Longrightarrow> s \<in> set sources \<and> ds_name s = n"
  by (auto simp: dict_of_pairs_def map_of_fold_update dest!: map_of_SomeD)

lemma build_imported_rules_valid:
  assumes "build_imported_rules E R G L payload w = (Inr rules, w')" and "r \<in> set rules"
  shows "rule_valid R G r \<and> source_of_table (data_sources (working w)) r"
proof -
  obtain js where "build_rules_from E R G L
      (dict_of_pairs (map (\<lambda>s. (ds_name s, s)) (data_sources (working w)))) 1 js (tick w) = (Inr rules, w')"
    using assms(1)
    by (auto simp: build_imported_rules_def ebind_Inr db_query_Inr split: json.splits if_splits)
  from build_rules_from_valid [OF this assms(2)] show ?thesis
    using names_of_sources unfolding source_of_table_def by metis
qed

lemma same_db_build_rules_from: "preserves same_db (build_rules_from E R G L names index js)"
  by (induction js arbitrary: index) (auto intro!: same_db_intros)

lemma same_db_build_imported_rules: "preserves same_db (build_imported_rules E R G L payload)"
  unfolding build_imported_rules_def
  by (auto intro!: same_db_intros same_db_build_rules_from split: json.split)

lemma same_db_checked_import: "preserves same_db (checked_import E R G L file)"
  unfolding checked_import_def Let_def
  by (auto intro!: same_db_intros same_db_build_imported_rules split: option.split)

lemma checked_import_valid:
  assumes "checked_import E R G L file w = (Inr (Inr rules), w')" and "r \<in> set rules"
  shows "rule_valid R G r \<and> source_of_table (data_sources (working w)) r"
proof -
  obtain payload w1 where "build_imported_rules E R G L payload w = (Inr rules, w1)"
    using assms(1)
    by (auto simp: checked_import_def Let_def ecatch_Inr ebind_Inr split: option.splits if_splits)
  from build_imported_rules_valid [OF this assms(2)] show ?thesis .
qed

section \<open>Outcome\<close>

lemma run_insert_rules:
  "((\<forall>r \<in> set rules. fits_int64 (ar_suppression_window_hours r)) \<Longrightarrow> runs d0 (fold (insert_rule E) rules d) (k ()) Q)
     \<Longrightarrow> runs d0 d (ebind (efor rules (add_rule E)) k) Q"
proof (induction rules arbitrary: d)
  case Nil
  then show ?case by simp
next
  case (Cons r rules)
  then show ?case by (auto intro!: run_add_rule)
qed

definition rules_imported ::
  "env \<Rightarrow> route_lib \<Rightarrow> ('t, 'n) sqlglot \<Rightarrow> db \<Rightarrow> db \<Rightarrow> bool" where
  "rules_imported E R G d d' \<longleftrightarrow>
     (\<exists>rules. (\<forall>r \<in> set rules. rule_wf R G r \<and> source_of_table (data_sources d) r)
        \<and> d' = fold (insert_rule E) rules d)"

lemma rules_importedI:
  "(\<forall>r \<in> set rules. rule_wf R G r \<and> source_of_table (data_sources d) r)
     \<Longrightarrow> rules_imported E R G d (fold (insert_rule E) rules d)"
  unfolding rules_imported_def by blast

lemma run_rules_error_page: "runs d0 d (rules_error_page E R imported m) (saved d0 C)"
  unfolding rules_error_page_def rules_page_context_def
  by (auto intro!: run_query run_return)

lemma import_rules_json_settles:
  "settles (committed w) (rules_imported E R G (committed w)) (import_rules_json E R G L imported file w)"
  unfolding import_rules_json_def
proof (rule with_session_settles, rule run_same [OF same_db_checked_import])
  fix x w1 w2
  assume "working w1 = committed w" and "checked_import E R G L file w1 = (Inr x, w2)"
  with checked_import_valid show "\<forall>rules. x = Inr rules \<longrightarrow>
      (\<forall>r \<in> set rules. rule_valid R G r \<and> source_of_table (data_sources (committed w)) r)" by metis
next
  fix x :: "pystr + alert_rule list"
  assume "\<forall>rules. x = Inr rules \<longrightarrow>
      (\<forall>r \<in> set rules. rule_valid R G r \<and> source_of_table (data_sources (committed w)) r)"
  then show "runs (committed w) (committed w)
      (case x of
        Inl m \<Rightarrow> rules_error_page E R imported m
      | Inr rules \<Rightarrow>
          ebind (efor rules (add_rule E)) (\<lambda>_.
          ebind (db_commit E) (\<lambda>_.
          ereturn (Redirect (str ''/rules?imported='' @ int_str (int (length rules)))))))
      (saved (committed w) (rules_imported E R G (committed w)))"
    by (cases x) (auto simp: rule_wf_def intro!: run_rules_error_page run_insert_rules run_commit rules_importedI)
qed

end
