(* ===== verification/Rule_Roundtrip.thy ===== *)
theory Rule_Roundtrip
  imports Rule_Exchange "HOL-Library.Multiset"
begin

text \<open>
  The round trip of the exchange: the rules one installation exports are, imported by another with
  data sources of the same names, the same rules. What the import trims must be trimmed already, and
  the import accepts at most 500 rules and 1 MiB.
\<close>

section \<open>Tables of data sources\<close>

definition sources_ok :: "sql_data_source list \<Rightarrow> bool" where
  "sources_ok sources \<longleftrightarrow>
     distinct (map ds_id sources) \<and> distinct (map ds_name sources) \<and> list_all (\<lambda>s. ds_id s \<noteq> None) sources"

definition source_name :: "db \<Rightarrow> int \<Rightarrow> pystr option" where
  "source_name d i = map_option ds_name (db_get ds_id i (data_sources d))"

lemma map_of_find: "map_of (map (\<lambda>x. (k x, v x)) xs) y = map_option v (find (\<lambda>x. k x = y) xs)"
  by (induction xs) auto

lemma map_of_rev_distinct: "distinct (map fst ps) \<Longrightarrow> map_of (rev ps) k = map_of ps k"
proof (cases "map_of ps k")
  case None
  then have "map_of (rev ps) k = None" unfolding map_of_eq_None_iff by simp
  with None show ?thesis by simp
next
  case (Some v)
  assume "distinct (map fst ps)"
  with Some show ?thesis by (simp add: map_of_eq_Some_iff rev_map [symmetric])
qed

lemma map_of_dict_distinct:
  "distinct (map k xs) \<Longrightarrow> map_of (dict_of_pairs (map (\<lambda>x. (k x, v x)) xs)) y = map_option v (find (\<lambda>x. k x = y) xs)"
  by (simp add: dict_of_pairs_def map_of_fold_update map_of_rev_distinct comp_def map_of_find)

lemma names_of_ids:
  "sources_ok (data_sources d) \<Longrightarrow>
     map_of (dict_of_pairs (map (\<lambda>s. (ds_id s, ds_name s)) (data_sources d))) (Some i) = source_name d i"
  by (simp add: sources_ok_def map_of_dict_distinct source_name_def db_get_def)

lemma find_distinct:
  "distinct (map k xs) \<Longrightarrow> x \<in> set xs \<Longrightarrow> find (\<lambda>y. k y = k x) xs = Some x"
  by (induction xs) (auto simp: image_iff)

lemma source_by_name:
  assumes "sources_ok (data_sources d)" and "n \<in> ds_name ` set (data_sources d)"
  obtains s where "map_of (dict_of_pairs (map (\<lambda>s. (ds_name s, s)) (data_sources d))) n = Some s"
    and "source_name d (the (ds_id s)) = Some n"
proof -
  obtain s where s: "s \<in> set (data_sources d)" "ds_name s = n" using assms(2) by blast
  have k: "distinct (map ds_name (data_sources d))" "distinct (map ds_id (data_sources d))" "ds_id s \<noteq> None"
    using assms(1) s(1) by (auto simp: sources_ok_def list_all_iff)
  show thesis
  proof (rule that)
    show "map_of (dict_of_pairs (map (\<lambda>s. (ds_name s, s)) (data_sources d))) n = Some s"
      using find_distinct [OF k(1) s(1)] s(2) by (simp add: map_of_dict_distinct [OF k(1), where v = id, simplified])
    show "source_name d (the (ds_id s)) = Some n"
      using find_distinct [OF k(2) s(1)] s(2) k(3) by (auto simp: source_name_def db_get_def)
  qed
qed

section \<open>One rule\<close>

text \<open>A rule the import takes as it is.\<close>

definition importable :: "route_lib \<Rightarrow> ('t, 'n) sqlglot \<Rightarrow> alert_rule \<Rightarrow> bool" where
  "importable R G r \<longleftrightarrow>
     rule_wf R G r \<and> 0 < ar_suppression_window_hours r
     \<and> ar_name r \<noteq> [] \<and> ar_sql_text r \<noteq> [] \<and> ar_cron_expression r \<noteq> []
     \<and> list_all (\<lambda>t. strip t = t) [ar_name r, ar_sql_text r, ar_cron_expression r, ar_recipients r,
         ar_dynamic_recipient_field r, ar_dynamic_cc_field r, ar_suppression_key_field r]"

definition imported_as :: "alert_rule \<Rightarrow> int \<Rightarrow> datetime \<Rightarrow> datetime \<Rightarrow> alert_rule" where
  "imported_as r source_id created updated =
     r\<lparr>ar_id := None, ar_data_source_id := source_id, ar_created_at := created, ar_archived_at := None,
       ar_updated_at := updated\<rparr>"

lemma send_mode_value_not_Nil [simp]: "send_mode_value m \<noteq> []"
  by (cases m) simp_all

lemma imported_rule_exported:
  assumes r: "importable R G r" and n: "map_of names (Some (ar_data_source_id r)) = Some n"
    and trim: "strip n = n" "n \<noteq> []" and s: "map_of targets n = Some s"
  shows "imported_rule R G L targets index (exported_rule names r) = Inr (imported_as r (the (ds_id s)))"
proof -
  note texts = required_import_text_def optional_import_text_def jget_def json_str_def
  have [simp]: "import_send_mode index (send_mode_value (ar_send_mode r)) = Inr (ar_send_mode r)"
    by (simp add: import_send_mode_def)
  have [simp]: "import_sql G index (ar_sql_text r) = Inr ()" "import_cron R index (ar_cron_expression r) = Inr ()"
    using r by (simp_all add: importable_def rule_wf_def rule_valid_def)
  show ?thesis
    using r n trim s
    by (auto simp: imported_rule_def exported_rule_def texts importable_def rule_wf_def rule_valid_def imported_as_def
        bounded_import_int_def positive_import_int_def import_int_def json_int_def validate_bounded_int_def
        json_truth_def Let_def fun_eq_iff)
qed

section \<open>The whole file\<close>

text \<open>The rule of the target: the same content, and a data source of the same name.\<close>

definition same_rule :: "db \<Rightarrow> db \<Rightarrow> alert_rule \<Rightarrow> alert_rule \<Rightarrow> bool" where
  "same_rule d d' r r' \<longleftrightarrow>
     r' = imported_as r (ar_data_source_id r') (ar_created_at r') (ar_updated_at r')
     \<and> source_name d' (ar_data_source_id r') = source_name d (ar_data_source_id r)"

lemma same_rule_imported_as:
  "source_name d' i = source_name d (ar_data_source_id r) \<Longrightarrow> same_rule d d' r (imported_as r i c u)"
  by (simp add: same_rule_def imported_as_def)

definition portable :: "route_lib \<Rightarrow> ('t, 'n) sqlglot \<Rightarrow> db \<Rightarrow> db \<Rightarrow> alert_rule \<Rightarrow> bool" where
  "portable R G d d' r \<longleftrightarrow> importable R G r \<and>
     (case source_name d (ar_data_source_id r) of
        Some n \<Rightarrow> strip n = n \<and> n \<noteq> [] \<and> n \<in> ds_name ` set (data_sources d')
      | None \<Rightarrow> False)"

lemma build_rules_exported:
  assumes d: "sources_ok (data_sources d)" and d': "sources_ok (data_sources d')"
    and "\<forall>r \<in> set rs. portable R G d d' r"
  shows "\<exists>rules w'. build_rules_from E R G L (dict_of_pairs (map (\<lambda>s. (ds_name s, s)) (data_sources d'))) index
      (map (exported_rule (dict_of_pairs (map (\<lambda>s. (ds_id s, ds_name s)) (data_sources d)))) rs) w = (Inr rules, w')
    \<and> list_all2 (same_rule d d') rs rules"
  using assms(3)
proof (induction rs arbitrary: index w)
  case Nil
  then show ?case by simp
next
  case (Cons r rs)
  let ?names = "dict_of_pairs (map (\<lambda>s. (ds_id s, ds_name s)) (data_sources d))"
  let ?targets = "dict_of_pairs (map (\<lambda>s. (ds_name s, s)) (data_sources d'))"
  obtain n where n: "importable R G r" "source_name d (ar_data_source_id r) = Some n"
      "strip n = n" "n \<noteq> []" "n \<in> ds_name ` set (data_sources d')"
    using Cons.prems by (auto simp: portable_def split: option.splits)
  obtain s where s: "map_of ?targets n = Some s" "source_name d' (the (ds_id s)) = Some n"
    using source_by_name [OF d' n(5)] .
  have row: "imported_rule R G L ?targets index (exported_rule ?names r) = Inr (imported_as r (the (ds_id s)))"
    by (rule imported_rule_exported [OF n(1) _ n(3,4) s(1)]) (simp add: names_of_ids [OF d] n(2))
  have key: "check_imported_suppression index (imported_as r i c u) = Inr ()" for i c u
    using n(1) by (auto simp: check_imported_suppression_def imported_as_def importable_def rule_wf_def rule_valid_def)
  let ?w = "tick (tick w)"
  obtain rules w' where rest: "build_rules_from E R G L ?targets (index + 1) (map (exported_rule ?names) rs) ?w
      = (Inr rules, w')" "list_all2 (same_rule d d') rs rules"
    using Cons.IH [of "index + 1" ?w] Cons.prems by auto
  have now: "ebind (utc_now E) k w = k (clock E (ticks w)) (tick w)" for k :: "datetime \<Rightarrow> (world, alert_rule list) eff" and w
    by (simp add: ebind_def utc_now_def)
  have same: "same_rule d d' r (imported_as r (the (ds_id s)) c u)" for c u
    by (rule same_rule_imported_as) (simp add: n(2) s(2))
  show ?case
    using rest same by (auto simp: row key now ebind_def [of "build_rules_from E R G L ?targets (index + 1) (map (exported_rule ?names) rs)"])
qed


lemma list_all2_in_second: "list_all2 P xs ys \<Longrightarrow> y \<in> set ys \<Longrightarrow> \<exists>x \<in> set xs. P x y"
  by (induction rule: list_all2_induct) auto

lemma length_recent: "mset (rl_recent_rules R rs) = mset rs \<Longrightarrow> length (rl_recent_rules R rs) = length rs"
  by (metis size_mset)

lemma import_rules_json_run:
  assumes E: "no_faults E" and upload: "load_payload L file = Inr (Some payload)" "length file \<le> MAX_RULE_IMPORT_BYTES"
    and build: "build_imported_rules E R G L payload (open_session w) = (Inr rules, w1)"
    and fits: "\<forall>r \<in> set rules. fits_int64 (ar_suppression_window_hours r)"
  shows "fst (import_rules_json E R G L imported file w) = Inr (Redirect (str ''/rules?imported='' @ int_str (int (length rules))))"
    and "committed (snd (import_rules_json E R G L imported file w)) = fold (insert_rule E) rules (committed w)"
proof -
  have same: "committed w1 = committed w" "working w1 = committed w"
    using preserves_sameD [OF same_db_build_imported_rules build] by simp_all
  have checked: "checked_import E R G L file (open_session w) = (Inr (Inr rules), w1)"
    using upload build by (simp add: checked_import_def Let_def ecatch_def ebind_def elift_def ereturn_def)
  have inserts: "\<exists>w2. efor rules (add_rule E) w = (Inr (), w2)
      \<and> working w2 = fold (insert_rule E) rules (working w) \<and> committed w2 = committed w" for w
    using fits
  proof (induction rules arbitrary: w)
    case Nil
    then show ?case by simp
  next
    case (Cons r rules)
    from Cons.IH [of "tick (w\<lparr>working := insert_rule E r (working w)\<rparr>)"] Cons.prems show ?case
      by (auto simp: add_rule_def sqlite_int_def elift_def ebind_def db_calls_run [OF E])
  qed
  obtain w2 where w2: "efor rules (add_rule E) w1 = (Inr (), w2)"
      "working w2 = fold (insert_rule E) rules (committed w)"
    using inserts [of w1] same by auto
  show "fst (import_rules_json E R G L imported file w) = Inr (Redirect (str ''/rules?imported='' @ int_str (int (length rules))))"
    "committed (snd (import_rules_json E R G L imported file w)) = fold (insert_rule E) rules (committed w)"
    using w2 by (simp_all add: import_rules_json_def with_session_def checked ebind_def ereturn_def db_calls_run [OF E])
qed

definition payload_of :: "db \<Rightarrow> pystr \<Rightarrow> alert_rule list \<Rightarrow> (pystr \<times> json) list" where
  "payload_of d moment rules =
     [(str ''version'', JInt 1), (str ''exported_at'', JStr moment),
      (str ''rules'', JList (map (exported_rule (dict_of_pairs (map (\<lambda>s. (ds_id s, ds_name s)) (data_sources d)))) rules))]"

lemma jget_payload_of:
  "jget (payload_of d moment rules) ''version'' j = JInt 1"
  "jget (payload_of d moment rules) ''rules'' j =
     JList (map (exported_rule (dict_of_pairs (map (\<lambda>s. (ds_id s, ds_name s)) (data_sources d)))) rules)"
  by (simp_all add: jget_def payload_of_def)

lemma build_payload_of:
  assumes "length rules \<le> 500"
  shows "build_imported_rules E R G L (JObj (payload_of d moment rules)) =
    ebind (db_query E (\<lambda>d. dict_of_pairs (map (\<lambda>s. (ds_name s, s)) (data_sources d)))) (\<lambda>sources_by_name.
      build_rules_from E R G L sources_by_name 1
        (map (exported_rule (dict_of_pairs (map (\<lambda>s. (ds_id s, ds_name s)) (data_sources d)))) rules))"
proof -
  have "\<not> MAX_IMPORTED_RULES < int (length rules)"
    using assms by (simp add: MAX_IMPORTED_RULES_def)
  then show ?thesis by (simp add: build_imported_rules_def jget_payload_of json_is_one_def)
qed

lemma exported_payload:
  assumes "rule_export_payload E R L w = (Inr payload, w')"
  shows "\<exists>moment. payload = JObj (payload_of (working w) moment (rl_recent_rules R (active_rules (working w))))"
  using assms by (auto simp: rule_export_payload_def ebind_Inr db_query_Inr payload_of_def)

text \<open>
  C17. Moving rules between installations: the file one installation exports, imported by another that
  has data sources of the same names, is accepted and appends exactly the exported rules, each with
  its whole content and the data source of the same name, only with new identifiers and times. It
  holds of rules whose texts carry no outer blanks, at most 500 of them, in a file of at most 1 MiB.
\<close>

theorem export_import_roundtrip:
  assumes E: "no_faults E" and order: "mset (rl_recent_rules R (active_rules (committed w))) = mset (active_rules (committed w))"
    and tables: "sources_ok (data_sources (committed w))" "sources_ok (data_sources (committed v))"
    and rules: "\<forall>r \<in> set (active_rules (committed w)). portable R G (committed w) (committed v) r"
    and count: "length (active_rules (committed w)) \<le> 500"
    and export: "rule_export_payload E' R L (open_session w) = (Inr payload, w')"
    and upload: "load_payload L file = Inr (Some payload)" "length file \<le> MAX_RULE_IMPORT_BYTES"
  shows "\<exists>copies.
      fst (import_rules_json E R G L imported file v) = Inr (Redirect (str ''/rules?imported='' @ int_str (int (length copies))))
      \<and> committed (snd (import_rules_json E R G L imported file v)) = fold (insert_rule E) copies (committed v)
      \<and> list_all2 (same_rule (committed w) (committed v)) (rl_recent_rules R (active_rules (committed w))) copies"
proof -
  let ?rs = "rl_recent_rules R (active_rules (committed w))"
  have rs: "set ?rs = set (active_rules (committed w))" "length ?rs \<le> 500"
    using mset_eq_setD [OF order] length_recent [OF order] count by auto
  obtain moment where payload: "payload = JObj (payload_of (committed w) moment ?rs)"
    using exported_payload [OF export] by auto
  obtain copies w1 where build: "build_rules_from E R G L
      (dict_of_pairs (map (\<lambda>s. (ds_name s, s)) (data_sources (committed v)))) 1
      (map (exported_rule (dict_of_pairs (map (\<lambda>s. (ds_id s, ds_name s)) (data_sources (committed w))))) ?rs)
      (tick (open_session v)) = (Inr copies, w1)"
    and same: "list_all2 (same_rule (committed w) (committed v)) ?rs copies"
    using build_rules_exported [OF tables, where rs = ?rs and R = R and G = G and E = E and L = L and index = 1
        and w = "tick (open_session v)"] rules rs(1) by blast
  have names: "db_query E (\<lambda>d. dict_of_pairs (map (\<lambda>s. (ds_name s, s)) (data_sources d))) (open_session v)
      = (Inr (dict_of_pairs (map (\<lambda>s. (ds_name s, s)) (data_sources (committed v)))), tick (open_session v))"
    using E by (simp add: db_query_Inr)
  have "build_imported_rules E R G L payload (open_session v) = (Inr copies, w1)"
    unfolding payload build_payload_of [OF rs(2)] using build by (simp add: ebind_def names)
  moreover have "fits_int64 (ar_suppression_window_hours c)" if c: "c \<in> set copies" for c
  proof -
    obtain r where r: "r \<in> set ?rs" "same_rule (committed w) (committed v) r c"
      using list_all2_in_second [OF same c] by blast
    have "ar_suppression_window_hours (imported_as r i a b) = ar_suppression_window_hours r" for i a b
      by (simp add: imported_as_def)
    with r(2) have "ar_suppression_window_hours c = ar_suppression_window_hours r"
      unfolding same_rule_def by metis
    with rules rs(1) r(1) show ?thesis
      by (auto simp: portable_def importable_def rule_wf_def)
  qed
  ultimately show ?thesis using import_rules_json_run [OF E upload] same by blast
qed


section \<open>A concrete move\<close>

definition table_source :: "int \<Rightarrow> pystr \<Rightarrow> sql_data_source" where
  "table_source i n = \<lparr>ds_id = Some i, ds_name = n, ds_host = [], ds_port = 1433, ds_database = [],
     ds_username = [], ds_encrypted_password = [], ds_enabled = True, ds_connect_timeout_seconds = 10,
     ds_odbc_driver = [], ds_server_override = [], ds_encrypt = [], ds_trust_server_certificate = [],
     ds_extra_params = [], ds_created_at = 0, ds_updated_at = 0\<rparr>"

definition office_db :: db where
  "office_db = empty_db\<lparr>data_sources := [table_source 1 (str ''erp'')], alert_rules := [sample_rule]\<rparr>"

definition plant_db :: db where
  "plant_db = empty_db\<lparr>data_sources := [table_source 4 (str ''mes''), table_source 9 (str ''erp'')]\<rparr>"

definition sample_routes :: route_lib where
  "sample_routes = \<lparr>rl_from_crontab = (\<lambda>_. Inr ()), rl_decimals = (\<lambda>_. None), rl_is_digit = (\<lambda>_. False),
     rl_repr = id, rl_recent_rules = id, rl_sources_by_name = id, rl_recent_sources = id,
     rl_recent_smtp = id, rl_rules_by_name = id\<rparr>"

definition office_payload :: json where
  "office_payload = JObj [(str ''version'', JInt 1), (str ''exported_at'', JStr []),
     (str ''rules'', JList [exported_rule [(Some 1, str ''erp'')] sample_rule])]"

definition sample_json :: json_lib where
  "sample_json = \<lparr>jl_dumps = (\<lambda>_. []), jl_loads = (\<lambda>_. Inr (Some office_payload)), jl_repr = (\<lambda>_. []),
     jl_isoformat = (\<lambda>_. [])\<rparr>"

lemma sample_rule_importable: "importable sample_routes sample_sqlglot sample_rule"
  using sample_valid
  by (simp add: importable_def rule_wf_def rule_valid_def fits_int64_def sample_rule_def sample_routes_def validate_select_only_sql_def
      has_recipient_text_def strip_def lstrip_def rstrip_def is_space_def str_def)

lemma office_portable:
  "\<forall>r \<in> set (active_rules office_db). portable sample_routes sample_sqlglot office_db plant_db r"
  using sample_rule_importable
  by (simp add: active_rules_def office_db_def plant_db_def empty_db_def portable_def source_name_def db_get_def
      table_source_def strip_def lstrip_def rstrip_def is_space_def str_def) (simp add: sample_rule_def)

theorem export_import_roundtrip_witness:
  "\<exists>copies.
     fst (import_rules_json quiet_env sample_routes sample_sqlglot sample_json [] [123, 125] (new_world plant_db))
       = Inr (Redirect (str ''/rules?imported='' @ int_str (int (length copies))))
     \<and> list_all2 (same_rule office_db plant_db) [sample_rule] copies"
proof -
  have active: "active_rules office_db = [sample_rule]"
    by (simp add: active_rules_def office_db_def sample_rule_def)
  have export: "rule_export_payload quiet_env sample_routes sample_json (open_session (new_world office_db))
      = (Inr office_payload, tick (tick (tick (open_session (new_world office_db)))))"
    using active
    by (simp add: rule_export_payload_def ebind_def db_query_def db_calls_run utc_now_def office_payload_def
        sample_routes_def sample_json_def ereturn_def)
      (simp add: office_db_def table_source_def dict_of_pairs_def tick_def open_session_def new_world_def)
  have load: "load_payload sample_json [123, 125] = Inr (Some office_payload)"
    by (simp add: load_payload_def sample_json_def utf8_decode.simps decode_char_def)
  have tables: "sources_ok (data_sources office_db)" "sources_ok (data_sources plant_db)"
    by (simp_all add: sources_ok_def office_db_def plant_db_def table_source_def str_def)
  have "\<exists>copies.
      fst (import_rules_json quiet_env sample_routes sample_sqlglot sample_json [] [123, 125] (new_world plant_db))
        = Inr (Redirect (str ''/rules?imported='' @ int_str (int (length copies))))
      \<and> committed (snd (import_rules_json quiet_env sample_routes sample_sqlglot sample_json [] [123, 125] (new_world plant_db)))
        = fold (insert_rule quiet_env) copies (committed (new_world plant_db))
      \<and> list_all2 (same_rule (committed (new_world office_db)) (committed (new_world plant_db)))
          (rl_recent_rules sample_routes (active_rules (committed (new_world office_db)))) copies"
    by (rule export_import_roundtrip [OF no_faults_quiet_env _ _ _ _ _ export load])
      (use tables office_portable active in \<open>simp_all add: sample_routes_def MAX_RULE_IMPORT_BYTES_def\<close>)
  then show ?thesis using active by (auto simp: sample_routes_def)
qed

end
