(* ===== verification/Settings_Routes.thy ===== *)
theory Settings_Routes
  imports Rule_Store Auth
begin

text \<open>
  The settings routes of \<open>app/routes.py\<close>: data sources, mail servers and the administrator's
  password, and the account command of \<open>app/admin_cli.py\<close>. Requests run one after the other here;
  the unique indexes of the database, which only a concurrent request could hit, are not modelled.
\<close>

section \<open>The settings page\<close>

definition settings_context ::
  "env \<Rightarrow> route_lib \<Rightarrow> pystr \<Rightarrow> pystr \<Rightarrow> form \<Rightarrow> form \<Rightarrow> (world, page_context) eff" where
  "settings_context E R error notice sql_form smtp_form =
     ebind (db_query E (\<lambda>d. rl_recent_sources R (data_sources d))) (\<lambda>sources.
     ebind (db_query E (\<lambda>d. rl_recent_smtp R (smtp_configs d))) (\<lambda>configs.
     ereturn (blank_page\<lparr>pc_error := error, pc_notice := notice, pc_form := sql_form,
       pc_smtp_form := smtp_form, pc_data_sources := sources, pc_smtp_configs := configs\<rparr>)))"

definition settings_reply ::
  "env \<Rightarrow> route_lib \<Rightarrow> nat \<Rightarrow> pystr \<Rightarrow> pystr \<Rightarrow> form \<Rightarrow> form \<Rightarrow> (world, reply) eff" where
  "settings_reply E R status error notice sql_form smtp_form =
     ebind (settings_context E R error notice sql_form smtp_form) (\<lambda>c.
       ereturn (Page status (str ''settings.html'') c))"

definition settings_error :: "env \<Rightarrow> route_lib \<Rightarrow> pystr \<Rightarrow> (world, reply) eff" where
  "settings_error E R error = settings_reply E R 400 error [] [] []"

definition settings_page :: "env \<Rightarrow> route_lib \<Rightarrow> pystr option \<Rightarrow> (world, reply) eff" where
  "settings_page E R changed =
     with_session (settings_reply E R 200 [] (if changed = Some (str ''1'') then [0x7BA1, 0x7406, 0x5458, 0x5BC6, 0x7801, 0x5DF2, 0x66F4, 0x65B0] else []) [] [])"

definition to_settings :: reply where "to_settings = Redirect (str ''/settings'')"

section \<open>Data sources\<close>

record source_submission =
  sb_name :: pystr
  sb_host :: pystr
  sb_port :: pystr
  sb_database :: pystr
  sb_username :: pystr
  sb_password :: pystr
  sb_enabled :: "pystr option"
  sb_connect_timeout_seconds :: pystr
  sb_odbc_driver :: pystr
  sb_server_override :: pystr
  sb_encrypt :: pystr
  sb_trust_server_certificate :: "pystr option"
  sb_extra_params :: pystr

definition data_source_to_form :: "sql_data_source \<Rightarrow> form" where
  "data_source_to_form ds =
     [(str ''name'', ds_name ds), (str ''host'', ds_host ds), (str ''port'', int_str (ds_port ds)),
      (str ''database'', ds_database ds), (str ''username'', ds_username ds), (str ''password'', []),
      (str ''enabled'', checkbox (ds_enabled ds)),
      (str ''connect_timeout_seconds'', int_str (ds_connect_timeout_seconds ds)),
      (str ''odbc_driver'', ds_odbc_driver ds), (str ''server_override'', ds_server_override ds),
      (str ''encrypt'', ds_encrypt ds), (str ''trust_server_certificate'', ds_trust_server_certificate ds),
      (str ''extra_params'', ds_extra_params ds)]"

definition submitted_data_source_form :: "source_submission \<Rightarrow> pystr \<Rightarrow> form" where
  "submitted_data_source_form s trust =
     [(str ''name'', sb_name s), (str ''host'', sb_host s), (str ''port'', sb_port s),
      (str ''database'', sb_database s), (str ''username'', sb_username s), (str ''password'', []),
      (str ''enabled'', checkbox (is_checked (sb_enabled s))),
      (str ''connect_timeout_seconds'', sb_connect_timeout_seconds s),
      (str ''odbc_driver'', sb_odbc_driver s), (str ''server_override'', sb_server_override s),
      (str ''encrypt'', sb_encrypt s), (str ''trust_server_certificate'', trust),
      (str ''extra_params'', sb_extra_params s)]"

text \<open>\<open>_cipher().encrypt(value)\<close>, with a nonce of its own.\<close>

definition encrypt_secret :: "('t, 'n, 'c, 'k) service_env \<Rightarrow> pystr \<Rightarrow> (world, pystr) eff" where
  "encrypt_secret S v w =
     ((case from_key_material (fernet S) (secret_key S) of
         Inl exc \<Rightarrow> Inl exc
       | Inr key \<Rightarrow> encrypt (fernet S) key (ticks w) v), w)"

definition MSG_NAME_TAKEN :: pystr where "MSG_NAME_TAKEN = [0x6570, 0x636E, 0x6E90, 0x540D, 0x79F0, 0x5DF2, 0x5B58, 0x5728]"

definition SOURCE_MISSING :: pystr where "SOURCE_MISSING = [0x6570, 0x636E, 0x6E90, 0x4E0D, 0x5B58, 0x5728]"

definition source_of_submission ::
  "source_submission \<Rightarrow> int \<Rightarrow> int \<Rightarrow> pystr \<Rightarrow> datetime \<Rightarrow> datetime \<Rightarrow> sql_data_source" where
  "source_of_submission s port timeout encrypted created updated =
     \<lparr>ds_id = None, ds_name = sb_name s, ds_host = sb_host s, ds_port = port, ds_database = sb_database s,
      ds_username = sb_username s, ds_encrypted_password = encrypted, ds_enabled = is_checked (sb_enabled s),
      ds_connect_timeout_seconds = timeout, ds_odbc_driver = sb_odbc_driver s,
      ds_server_override = sb_server_override s, ds_encrypt = sb_encrypt s,
      ds_trust_server_certificate =
        (case sb_trust_server_certificate s of Some t \<Rightarrow> t | None \<Rightarrow> str ''no''),
      ds_extra_params = sb_extra_params s, ds_created_at = created, ds_updated_at = updated\<rparr>"

definition insert_source :: "env \<Rightarrow> sql_data_source \<Rightarrow> db \<Rightarrow> db" where
  "insert_source E s d =
     d\<lparr>data_sources := data_sources d @ [s\<lparr>ds_id := Some (assign_id E (map ds_id (data_sources d)))\<rparr>]\<rparr>"

definition source_named_query :: "env \<Rightarrow> pystr \<Rightarrow> (world, sql_data_source option) eff" where
  "source_named_query E n = db_query E (\<lambda>d. find (\<lambda>s. ds_name s = n) (data_sources d))"

definition create_sql_server_settings ::
  "('t, 'n, 'c, 'k) service_env \<Rightarrow> route_lib \<Rightarrow> source_submission \<Rightarrow> (world, reply) eff" where
  "create_sql_server_settings S R s = with_session
     (let E = surroundings S;
          trust = (case sb_trust_server_certificate s of Some t \<Rightarrow> t | None \<Rightarrow> str ''no'')
      in case parse_sql_connection_values R (sb_port s) (sb_connect_timeout_seconds s) of
        Inl e \<Rightarrow> settings_reply E R 400 e [] (submitted_data_source_form s trust) []
      | Inr (port, timeout) \<Rightarrow>
          ebind (source_named_query E (sb_name s)) (\<lambda>existing.
          if existing \<noteq> None then settings_error E R MSG_NAME_TAKEN
          else
            ebind (encrypt_secret S (sb_password s)) (\<lambda>encrypted.
            ebind (utc_now E) (\<lambda>created.
            ebind (utc_now E) (\<lambda>updated.
            ebind (db_exec E (\<lambda>d. ((), insert_source E (source_of_submission s port timeout encrypted created updated) d))) (\<lambda>_.
            ebind (db_commit E) (\<lambda>_. ereturn to_settings)))))))"

text \<open>\<open>session.get(SqlDataSource, source_id)\<close>, or 404.\<close>

definition with_source :: "env \<Rightarrow> int \<Rightarrow> (sql_data_source \<Rightarrow> (world, reply) eff) \<Rightarrow> (world, reply) eff" where
  "with_source E source_id body =
     ebind (db_query_by E source_id (\<lambda>d. db_get ds_id source_id (data_sources d))) (\<lambda>found.
       case found of None \<Rightarrow> ereturn (NotFound SOURCE_MISSING) | Some ds \<Rightarrow> body ds)"

definition source_form_page :: "nat \<Rightarrow> pystr \<Rightarrow> form \<Rightarrow> int \<Rightarrow> reply" where
  "source_form_page status error form source_id =
     Page status (str ''sql_server_form.html'')
       (blank_page\<lparr>pc_error := error, pc_form := form, pc_action := str ''/settings/sql-server/'' @ int_str source_id\<rparr>)"

definition edit_sql_server_settings_page :: "env \<Rightarrow> int \<Rightarrow> (world, reply) eff" where
  "edit_sql_server_settings_page E source_id = with_session (with_source E source_id (\<lambda>ds.
     ereturn (source_form_page 200 [] (data_source_to_form ds) source_id)))"

text \<open>The attributes the update assigns, the password only when one was submitted.\<close>

definition apply_source_submission ::
  "source_submission \<Rightarrow> pystr \<Rightarrow> int \<Rightarrow> int \<Rightarrow> pystr option \<Rightarrow> datetime \<Rightarrow> sql_data_source \<Rightarrow> sql_data_source" where
  "apply_source_submission s trust port timeout encrypted now ds =
     ds\<lparr>ds_name := sb_name s, ds_host := sb_host s, ds_port := port, ds_database := sb_database s,
        ds_username := sb_username s,
        ds_encrypted_password := (case encrypted of Some p \<Rightarrow> p | None \<Rightarrow> ds_encrypted_password ds),
        ds_enabled := is_checked (sb_enabled s), ds_connect_timeout_seconds := timeout,
        ds_odbc_driver := sb_odbc_driver s, ds_server_override := sb_server_override s,
        ds_encrypt := sb_encrypt s, ds_trust_server_certificate := trust,
        ds_extra_params := sb_extra_params s, ds_updated_at := now\<rparr>"

definition replace_source :: "int \<Rightarrow> (sql_data_source \<Rightarrow> sql_data_source) \<Rightarrow> db \<Rightarrow> db" where
  "replace_source source_id f d =
     d\<lparr>data_sources := update_first (\<lambda>s. ds_id s = Some source_id) f (data_sources d)\<rparr>"

definition encrypt_if_given :: "('t, 'n, 'c, 'k) service_env \<Rightarrow> pystr \<Rightarrow> (world, pystr option) eff" where
  "encrypt_if_given S password =
     (if password \<noteq> [] then ebind (encrypt_secret S password) (\<lambda>p. ereturn (Some p)) else ereturn None)"

definition update_sql_server_settings ::
  "('t, 'n, 'c, 'k) service_env \<Rightarrow> route_lib \<Rightarrow> int \<Rightarrow> source_submission \<Rightarrow> (world, reply) eff" where
  "update_sql_server_settings S R source_id s = with_session (with_source (surroundings S) source_id (\<lambda>ds.
     let E = surroundings S;
         trust = (case sb_trust_server_certificate s of Some t \<Rightarrow> t | None \<Rightarrow> ds_trust_server_certificate ds);
         form = submitted_data_source_form s trust
     in case parse_sql_connection_values R (sb_port s) (sb_connect_timeout_seconds s) of
       Inl e \<Rightarrow> ereturn (source_form_page 400 e form source_id)
     | Inr (port, timeout) \<Rightarrow>
         ebind (source_named_query E (sb_name s)) (\<lambda>existing.
         if existing \<noteq> None \<and> ds_id (the existing) \<noteq> ds_id ds
         then ereturn (source_form_page 400 MSG_NAME_TAKEN form source_id)
         else
           ebind (encrypt_if_given S (sb_password s)) (\<lambda>encrypted.
           ebind (utc_now E) (\<lambda>now.
           ebind (db_exec E (\<lambda>d. ((), replace_source source_id
             (apply_source_submission s trust port timeout encrypted now) d))) (\<lambda>_.
           ebind (db_commit E) (\<lambda>_. ereturn to_settings)))))))"

definition delete_source :: "int \<Rightarrow> db \<Rightarrow> db" where
  "delete_source source_id d = d\<lparr>data_sources := filter (\<lambda>s. ds_id s \<noteq> Some source_id) (data_sources d)\<rparr>"

definition delete_sql_server_settings :: "env \<Rightarrow> route_lib \<Rightarrow> int \<Rightarrow> (world, reply) eff" where
  "delete_sql_server_settings E R source_id = with_session (with_source E source_id (\<lambda>ds.
     ebind (db_query E (\<lambda>d. rl_rules_by_name R (filter (\<lambda>r. ar_data_source_id r = source_id) (alert_rules d)))) (\<lambda>rules.
     if rules \<noteq> [] then
       settings_error E R ([0x6570, 0x636E, 0x6E90, 0x6B63, 0x5728, 0x88AB, 0x89C4, 0x5219, 0x5F15, 0x7528, 0xFF1A] @ join ([0x3001]) (map ar_name rules))
     else
       ebind (db_exec E (\<lambda>d. ((), delete_source source_id d))) (\<lambda>_.
       ebind (db_commit E) (\<lambda>_. ereturn to_settings)))))"

definition SQL_CONNECTION_FAILURE :: pystr where
  "SQL_CONNECTION_FAILURE = [0x0053, 0x0051, 0x004C, 0x0020, 0x0053, 0x0065, 0x0072, 0x0076, 0x0065, 0x0072, 0x0020, 0x8FDE, 0x63A5, 0x5931, 0x8D25, 0xFF0C, 0x8BF7, 0x68C0, 0x67E5, 0x670D, 0x52A1, 0x5668, 0x3001, 0x7AEF, 0x53E3, 0x3001, 0x8BC1, 0x4E66, 0x548C, 0x8D26, 0x53F7, 0x914D, 0x7F6E]"

definition test_sql_server_settings ::
  "('t, 'n, 'c, 'k) service_env \<Rightarrow> route_lib \<Rightarrow> int \<Rightarrow> (world, reply) eff" where
  "test_sql_server_settings S R source_id = with_session (with_source (surroundings S) source_id (\<lambda>ds.
     let E = surroundings S
     in case validate_sql_connection_values (ds_port ds) (ds_connect_timeout_seconds ds) of
       Some e \<Rightarrow> settings_error E R e
     | None \<Rightarrow>
         ebind
           (ecatch
              (ebind (elift (build_sql_client S ds)) (\<lambda>p.
               ebind (query (sqlglot_lib S) (odbc_driver_lib S) p (str ''select 1 as ok'')
                        (ds_connect_timeout_seconds ds) 1) (\<lambda>_.
               ereturn True)))
              (\<lambda>exc. ereturn False))
           (\<lambda>connected.
              if connected then settings_reply E R 200 [] ([0x6570, 0x636E, 0x6E90, 0x0020] @ ds_name ds @ [0x0020, 0x8FDE, 0x63A5, 0x6210, 0x529F]) [] []
              else settings_error E R SQL_CONNECTION_FAILURE)))"


section \<open>Mail servers\<close>

record smtp_submission =
  mb_host :: pystr
  mb_port :: pystr
  mb_username :: pystr
  mb_password :: pystr
  mb_sender :: pystr
  mb_use_tls :: "pystr option"
  mb_use_ssl :: "pystr option"
  mb_enabled :: "pystr option"
  mb_timeout_seconds :: pystr

definition smtp_config_to_form :: "smtp_config \<Rightarrow> form" where
  "smtp_config_to_form c =
     [(str ''host'', sc_host c), (str ''port'', int_str (sc_port c)), (str ''username'', sc_username c),
      (str ''password'', []), (str ''sender'', sc_sender c), (str ''use_tls'', checkbox (sc_use_tls c)),
      (str ''use_ssl'', checkbox (sc_use_ssl c)), (str ''enabled'', checkbox (sc_enabled c)),
      (str ''timeout_seconds'', int_str (sc_timeout_seconds c))]"

definition submitted_smtp_form :: "smtp_submission \<Rightarrow> form" where
  "submitted_smtp_form s =
     [(str ''host'', mb_host s), (str ''port'', mb_port s), (str ''username'', mb_username s),
      (str ''password'', []), (str ''sender'', mb_sender s),
      (str ''use_tls'', checkbox (is_checked (mb_use_tls s))),
      (str ''use_ssl'', checkbox (is_checked (mb_use_ssl s))),
      (str ''enabled'', checkbox (is_checked (mb_enabled s))), (str ''timeout_seconds'', mb_timeout_seconds s)]"

definition MSG_TLS_SSL :: pystr where "MSG_TLS_SSL = [0x0054, 0x004C, 0x0053, 0x0020, 0x548C, 0x0020, 0x0053, 0x0053, 0x004C, 0x0020, 0x4E0D, 0x80FD, 0x540C, 0x65F6, 0x542F, 0x7528]"

definition SMTP_MISSING :: pystr where "SMTP_MISSING = [0x0053, 0x004D, 0x0054, 0x0050, 0x0020, 0x914D, 0x7F6E, 0x4E0D, 0x5B58, 0x5728]"

definition check_smtp_submission :: "route_lib \<Rightarrow> smtp_submission \<Rightarrow> pystr + (int \<times> int)" where
  "check_smtp_submission R s =
     (case parse_smtp_values R (mb_port s) (mb_timeout_seconds s) of
        Inl e \<Rightarrow> Inl e
      | Inr values \<Rightarrow>
          if is_checked (mb_use_tls s) \<and> is_checked (mb_use_ssl s) then Inl MSG_TLS_SSL else Inr values)"

text \<open>The \<open>update ... where enabled\<close> statement, sparing the row to keep.\<close>

definition disable_other_smtp_configs :: "int option \<Rightarrow> db \<Rightarrow> db" where
  "disable_other_smtp_configs keep_id d =
     d\<lparr>smtp_configs := map (\<lambda>c.
         if sc_enabled c \<and> (keep_id = None \<or> sc_id c \<noteq> keep_id) then c\<lparr>sc_enabled := False\<rparr> else c)
       (smtp_configs d)\<rparr>"

definition smtp_of_submission :: "smtp_submission \<Rightarrow> int \<Rightarrow> int \<Rightarrow> pystr \<Rightarrow> datetime \<Rightarrow> smtp_config" where
  "smtp_of_submission s port timeout encrypted updated =
     \<lparr>sc_id = None, sc_host = mb_host s, sc_port = port, sc_username = mb_username s,
      sc_encrypted_password = encrypted, sc_sender = mb_sender s, sc_use_tls = is_checked (mb_use_tls s),
      sc_use_ssl = is_checked (mb_use_ssl s), sc_timeout_seconds = timeout,
      sc_enabled = is_checked (mb_enabled s), sc_updated_at = updated\<rparr>"

definition insert_smtp :: "env \<Rightarrow> smtp_config \<Rightarrow> db \<Rightarrow> db" where
  "insert_smtp E c d =
     d\<lparr>smtp_configs := smtp_configs d @ [c\<lparr>sc_id := Some (assign_id E (map sc_id (smtp_configs d)))\<rparr>]\<rparr>"

definition disable_if :: "env \<Rightarrow> bool \<Rightarrow> int option \<Rightarrow> (world, unit) eff" where
  "disable_if E b keep_id =
     (if b then db_exec E (\<lambda>d. ((), disable_other_smtp_configs keep_id d)) else ereturn ())"

definition create_smtp_settings ::
  "('t, 'n, 'c, 'k) service_env \<Rightarrow> route_lib \<Rightarrow> smtp_submission \<Rightarrow> (world, reply) eff" where
  "create_smtp_settings S R s = with_session
     (let E = surroundings S
      in case check_smtp_submission R s of
        Inl e \<Rightarrow> settings_reply E R 400 e [] [] (submitted_smtp_form s)
      | Inr (port, timeout) \<Rightarrow>
          ebind (encrypt_secret S (mb_password s)) (\<lambda>encrypted.
          ebind (utc_now E) (\<lambda>updated.
          rollback_on_error E
            (ebind (disable_if E (is_checked (mb_enabled s)) None) (\<lambda>_.
             ebind (db_exec E (\<lambda>d. ((), insert_smtp E (smtp_of_submission s port timeout encrypted updated) d))) (\<lambda>_.
             ebind (db_commit E) (\<lambda>_. ereturn to_settings)))))))"

definition with_smtp :: "env \<Rightarrow> int \<Rightarrow> (smtp_config \<Rightarrow> (world, reply) eff) \<Rightarrow> (world, reply) eff" where
  "with_smtp E config_id body =
     ebind (db_query_by E config_id (\<lambda>d. db_get sc_id config_id (smtp_configs d))) (\<lambda>found.
       case found of None \<Rightarrow> ereturn (NotFound SMTP_MISSING) | Some c \<Rightarrow> body c)"

definition smtp_form_page :: "nat \<Rightarrow> pystr \<Rightarrow> form \<Rightarrow> int \<Rightarrow> reply" where
  "smtp_form_page status error form config_id =
     Page status (str ''smtp_form.html'')
       (blank_page\<lparr>pc_error := error, pc_form := form, pc_action := str ''/settings/smtp/'' @ int_str config_id\<rparr>)"

definition edit_smtp_settings_page :: "env \<Rightarrow> int \<Rightarrow> (world, reply) eff" where
  "edit_smtp_settings_page E config_id = with_session (with_smtp E config_id (\<lambda>c.
     ereturn (smtp_form_page 200 [] (smtp_config_to_form c) config_id)))"

definition apply_smtp_submission ::
  "smtp_submission \<Rightarrow> int \<Rightarrow> int \<Rightarrow> pystr option \<Rightarrow> datetime \<Rightarrow> smtp_config \<Rightarrow> smtp_config" where
  "apply_smtp_submission s port timeout encrypted now c =
     c\<lparr>sc_host := mb_host s, sc_port := port, sc_username := mb_username s,
       sc_encrypted_password := (case encrypted of Some p \<Rightarrow> p | None \<Rightarrow> sc_encrypted_password c),
       sc_sender := mb_sender s, sc_use_tls := is_checked (mb_use_tls s),
       sc_use_ssl := is_checked (mb_use_ssl s), sc_enabled := is_checked (mb_enabled s),
       sc_timeout_seconds := timeout, sc_updated_at := now\<rparr>"

definition replace_smtp :: "int \<Rightarrow> (smtp_config \<Rightarrow> smtp_config) \<Rightarrow> db \<Rightarrow> db" where
  "replace_smtp config_id f d =
     d\<lparr>smtp_configs := update_first (\<lambda>c. sc_id c = Some config_id) f (smtp_configs d)\<rparr>"

definition update_smtp_settings ::
  "('t, 'n, 'c, 'k) service_env \<Rightarrow> route_lib \<Rightarrow> int \<Rightarrow> smtp_submission \<Rightarrow> (world, reply) eff" where
  "update_smtp_settings S R config_id s = with_session (with_smtp (surroundings S) config_id (\<lambda>c.
     let E = surroundings S
     in case check_smtp_submission R s of
       Inl e \<Rightarrow> ereturn (smtp_form_page 400 e (submitted_smtp_form s) config_id)
     | Inr (port, timeout) \<Rightarrow>
         rollback_on_error E
           (ebind (disable_if E (is_checked (mb_enabled s)) (sc_id c)) (\<lambda>_.
            ebind (encrypt_if_given S (mb_password s)) (\<lambda>encrypted.
            ebind (utc_now E) (\<lambda>now.
            ebind (db_exec E (\<lambda>d. ((), replace_smtp config_id
              (apply_smtp_submission s port timeout encrypted now) d))) (\<lambda>_.
            ebind (db_commit E) (\<lambda>_. ereturn to_settings))))))))"

definition delete_smtp :: "int \<Rightarrow> db \<Rightarrow> db" where
  "delete_smtp config_id d = d\<lparr>smtp_configs := filter (\<lambda>c. sc_id c \<noteq> Some config_id) (smtp_configs d)\<rparr>"

definition delete_smtp_settings :: "env \<Rightarrow> int \<Rightarrow> (world, reply) eff" where
  "delete_smtp_settings E config_id = with_session (with_smtp E config_id (\<lambda>c.
     ebind (db_exec E (\<lambda>d. ((), delete_smtp config_id d))) (\<lambda>_.
     ebind (db_commit E) (\<lambda>_. ereturn to_settings))))"

definition SMTP_TEST_FAILURE :: pystr where
  "SMTP_TEST_FAILURE = [0x0053, 0x004D, 0x0054, 0x0050, 0x0020, 0x6D4B, 0x8BD5, 0x53D1, 0x9001, 0x5931, 0x8D25, 0xFF0C, 0x8BF7, 0x68C0, 0x67E5, 0x670D, 0x52A1, 0x5668, 0x3001, 0x7AEF, 0x53E3, 0x3001, 0x52A0, 0x5BC6, 0x65B9, 0x5F0F, 0x548C, 0x8D26, 0x53F7, 0x914D, 0x7F6E]"

definition test_mail :: "smtp_config \<Rightarrow> email_message" where
  "test_mail c = \<lparr>recipients = [sc_sender c], cc_recipients = [], subject = [0x0053, 0x0051, 0x004C, 0x0020, 0x9884, 0x8B66, 0x7CFB, 0x7EDF, 0x0020, 0x0053, 0x004D, 0x0054, 0x0050, 0x0020, 0x6D4B, 0x8BD5],
     html_body = str ''<p>'' @ [0x0053, 0x004D, 0x0054, 0x0050, 0x0020, 0x914D, 0x7F6E, 0x5DF2, 0x53EF, 0x7528, 0x3002] @ str ''</p>''\<rparr>"

definition test_smtp_settings ::
  "('t, 'n, 'c, 'k) service_env \<Rightarrow> route_lib \<Rightarrow> int \<Rightarrow> (world, reply) eff" where
  "test_smtp_settings S R config_id = with_session (with_smtp (surroundings S) config_id (\<lambda>c.
     let E = surroundings S
     in case validate_smtp_values (sc_port c) (sc_timeout_seconds c) of
       Some e \<Rightarrow> settings_error E R e
     | None \<Rightarrow>
         ebind
           (ecatch
              (ebind (elift (build_smtp_mailer S c)) (\<lambda>mailer.
               ebind (mailer (test_mail c)) (\<lambda>result. ereturn (success result))))
              (\<lambda>exc. ereturn False))
           (\<lambda>ok.
              if ok then settings_reply E R 200 [] ([0x0053, 0x004D, 0x0054, 0x0050, 0x0020, 0x6D4B, 0x8BD5, 0x90AE, 0x4EF6, 0x53D1, 0x9001, 0x6210, 0x529F]) [] []
              else settings_error E R SMTP_TEST_FAILURE)))"

section \<open>The administrator's password\<close>

text \<open>bcrypt, as the password functions take it.\<close>

record bcrypt_lib =
  hashpw :: "nat list \<Rightarrow> pystr res"
  checkpw :: "nat list \<Rightarrow> nat list \<Rightarrow> bool res"

definition PASSWORD_MIN_LENGTH :: nat where "PASSWORD_MIN_LENGTH = 12"

definition ACCOUNT_MISSING :: pystr where "ACCOUNT_MISSING = [0x7BA1, 0x7406, 0x5458, 0x8D26, 0x53F7, 0x4E0D, 0x5B58, 0x5728]"

text \<open>The chain of checks: an empty error is acceptance.\<close>

definition password_change_error ::
  "bcrypt_lib \<Rightarrow> pystr \<Rightarrow> pystr \<Rightarrow> pystr \<Rightarrow> pystr \<Rightarrow> pystr res" where
  "password_change_error B password_hash current_password new_password confirm_password =
     (if current_password = [] \<or> new_password = [] \<or> confirm_password = []
      then Inr ([0x8BF7, 0x586B, 0x5199, 0x5B8C, 0x6574, 0x7684, 0x5BC6, 0x7801, 0x4FE1, 0x606F])
      else case verify_password (checkpw B) current_password password_hash of
        Inl exc \<Rightarrow> Inl exc
      | Inr False \<Rightarrow> Inr ([0x5F53, 0x524D, 0x5BC6, 0x7801, 0x4E0D, 0x6B63, 0x786E])
      | Inr True \<Rightarrow>
          if length new_password < PASSWORD_MIN_LENGTH
          then Inr ([0x65B0, 0x5BC6, 0x7801, 0x957F, 0x5EA6, 0x81F3, 0x5C11, 0x0020] @ int_str (int PASSWORD_MIN_LENGTH) @ [0x0020, 0x4F4D])
          else if new_password = current_password then Inr ([0x65B0, 0x5BC6, 0x7801, 0x4E0D, 0x80FD, 0x4E0E, 0x5F53, 0x524D, 0x5BC6, 0x7801, 0x76F8, 0x540C])
          else if new_password \<noteq> confirm_password then Inr ([0x4E24, 0x6B21, 0x8F93, 0x5165, 0x7684, 0x65B0, 0x5BC6, 0x7801, 0x4E0D, 0x4E00, 0x81F4])
          else Inr [])"

definition replace_user :: "int \<Rightarrow> (admin_user \<Rightarrow> admin_user) \<Rightarrow> db \<Rightarrow> db" where
  "replace_user uid f d = d\<lparr>admin_users := update_first (\<lambda>u. au_id u = Some uid) f (admin_users d)\<rparr>"

definition new_password_hash :: "pystr \<Rightarrow> admin_user \<Rightarrow> admin_user" where
  "new_password_hash h u = u\<lparr>au_password_hash := h, au_session_version := au_session_version u + 1\<rparr>"

text \<open>The reply with the browser's session; \<open>uid\<close> is the signed-in administrator.\<close>

definition change_admin_password ::
  "env \<Rightarrow> route_lib \<Rightarrow> bcrypt_lib \<Rightarrow> int \<Rightarrow> pystr \<Rightarrow> pystr \<Rightarrow> pystr \<Rightarrow> web_session
     \<Rightarrow> (world, reply \<times> web_session) eff" where
  "change_admin_password E R B uid current_password new_password confirm_password session = with_session
     (ebind (db_query E (\<lambda>d. db_get au_id uid (admin_users d))) (\<lambda>found.
      case found of
        None \<Rightarrow> ereturn (NotFound ACCOUNT_MISSING, session)
      | Some user \<Rightarrow>
          ebind (elift (password_change_error B (au_password_hash user) current_password new_password confirm_password)) (\<lambda>error.
          if error \<noteq> [] then ebind (settings_error E R error) (\<lambda>r. ereturn (r, session))
          else
            ebind (elift (hash_password (hashpw B) new_password)) (\<lambda>h.
            ebind (db_exec E (\<lambda>d. ((), replace_user uid (new_password_hash h) d))) (\<lambda>_.
            ebind (db_commit E) (\<lambda>_.
            ereturn (Redirect (str ''/settings?tab=security&changed=1''),
                     AList.update ADMIN_SESSION_VERSION_SESSION_KEY (SInt (au_session_version user + 1)) session)))))))"

text \<open>The account command; a new account starts at session version 1.\<close>

definition new_admin :: "pystr \<Rightarrow> pystr \<Rightarrow> datetime \<Rightarrow> admin_user" where
  "new_admin username h created =
     \<lparr>au_id = None, au_username = username, au_password_hash = h, au_session_version = 1, au_created_at = created\<rparr>"

definition insert_user :: "env \<Rightarrow> admin_user \<Rightarrow> db \<Rightarrow> db" where
  "insert_user E u d =
     d\<lparr>admin_users := admin_users d @ [u\<lparr>au_id := Some (assign_id E (map au_id (admin_users d)))\<rparr>]\<rparr>"

definition upsert_admin_user ::
  "env \<Rightarrow> bcrypt_lib \<Rightarrow> pystr \<Rightarrow> pystr \<Rightarrow> (world, unit) eff" where
  "upsert_admin_user E B username password = with_session
     (ebind (db_query E (\<lambda>d. find (\<lambda>u. au_username u = username) (admin_users d))) (\<lambda>found.
      ebind (elift (hash_password (hashpw B) password)) (\<lambda>h.
      ebind
        (case found of
           None \<Rightarrow> ebind (utc_now E) (\<lambda>created. db_exec E (\<lambda>d. ((), insert_user E (new_admin username h created) d)))
         | Some user \<Rightarrow> db_exec E (\<lambda>d. ((), replace_user (the (au_id user)) (new_password_hash h) d))) (\<lambda>_.
      db_commit E))))"

end
