(* ===== verification/Settings_Store.thy ===== *)
theory Settings_Store
  imports Settings_Routes
begin

text \<open>
  What each settings route may do to the database: the change it makes when it redirects, and that
  nothing else changes the committed database.
\<close>

section \<open>Pages\<close>

lemma run_settings_reply: "runs d0 d (settings_reply E R status error notice f g) (saved d0 C)"
  unfolding settings_reply_def settings_context_def by (auto intro!: run_query run_return)

lemma run_settings_error: "runs d0 d (settings_error E R error) (saved d0 C)"
  unfolding settings_error_def by (rule run_settings_reply)

lemma run_saved_page: "saved d0 C x d0 \<Longrightarrow> runs d0 d (ereturn x) (saved d0 C)"
  by (rule run_return)

lemma saved_form_pages [simp]:
  "saved d0 C (source_form_page n e f i) c \<longleftrightarrow> c = d0" "saved d0 C (smtp_form_page n e f i) c \<longleftrightarrow> c = d0"
  "saved d0 C to_settings c \<longleftrightarrow> C c"
  by (simp_all add: source_form_page_def smtp_form_page_def to_settings_def)

lemma same_db_encrypt_secret: "preserves same_db (encrypt_secret S v)"
  by (simp add: preserves_def same_db_def encrypt_secret_def)

lemma same_db_encrypt_if_given: "preserves same_db (encrypt_if_given S v)"
  unfolding encrypt_if_given_def by (auto intro!: same_db_intros same_db_encrypt_secret)

lemma run_encrypt: "(\<And>p. runs d0 d (k p) Q) \<Longrightarrow> runs d0 d (ebind (encrypt_secret S v) k) Q"
  by (rule run_same [OF same_db_encrypt_secret, where B = "\<lambda>_. True"]) auto

lemma encrypt_if_given_Inr:
  "encrypt_if_given S v w = (Inr p, w') \<Longrightarrow> (p = None) = (v = [])"
  by (auto simp: encrypt_if_given_def ebind_Inr split: if_splits)

lemma run_encrypt_if_given:
  "(\<And>p. (p = None) = (v = []) \<Longrightarrow> runs d0 d (k p) Q) \<Longrightarrow> runs d0 d (ebind (encrypt_if_given S v) k) Q"
  by (rule run_same [OF same_db_encrypt_if_given, where B = "\<lambda>p. (p = None) = (v = [])"])
    (auto dest: encrypt_if_given_Inr)

section \<open>Data sources\<close>

definition source_created ::
  "env \<Rightarrow> route_lib \<Rightarrow> source_submission \<Rightarrow> db \<Rightarrow> db \<Rightarrow> bool" where
  "source_created E R s d d' \<longleftrightarrow>
     (\<exists>port timeout encrypted created updated.
        parse_sql_connection_values R (sb_port s) (sb_connect_timeout_seconds s) = Inr (port, timeout)
        \<and> find (\<lambda>t. ds_name t = sb_name s) (data_sources d) = None
        \<and> d' = insert_source E (source_of_submission s port timeout encrypted created updated) d)"

definition source_updated :: "route_lib \<Rightarrow> int \<Rightarrow> source_submission \<Rightarrow> db \<Rightarrow> db \<Rightarrow> bool" where
  "source_updated R source_id s d d' \<longleftrightarrow>
     (\<exists>port timeout trust encrypted now.
        db_get ds_id source_id (data_sources d) \<noteq> None
        \<and> parse_sql_connection_values R (sb_port s) (sb_connect_timeout_seconds s) = Inr (port, timeout)
        \<and> (\<forall>t. find (\<lambda>t. ds_name t = sb_name s) (data_sources d) = Some t \<longrightarrow> ds_id t = Some source_id)
        \<and> (encrypted = None) = (sb_password s = [])
        \<and> d' = replace_source source_id (apply_source_submission s trust port timeout encrypted now) d)"

definition source_deleted :: "route_lib \<Rightarrow> int \<Rightarrow> db \<Rightarrow> db \<Rightarrow> bool" where
  "source_deleted R source_id d d' \<longleftrightarrow>
     rl_rules_by_name R (filter (\<lambda>r. ar_data_source_id r = source_id) (alert_rules d)) = []
     \<and> d' = delete_source source_id d"

lemma create_sql_server_settings_settles:
  "settles (committed w) (source_created (surroundings S) R s (committed w)) (create_sql_server_settings S R s w)"
proof (cases "parse_sql_connection_values R (sb_port s) (sb_connect_timeout_seconds s)")
  case (Inl e)
  show ?thesis
    unfolding create_sql_server_settings_def Let_def Inl
    by (rule with_session_settles) (simp add: run_settings_reply)
next
  case (Inr pair)
  obtain port timeout where v: "pair = (port, timeout)" by (cases pair)
  have C: "find (\<lambda>t. ds_name t = sb_name s) (data_sources (committed w)) = None \<Longrightarrow>
      source_created (surroundings S) R s (committed w)
        (insert_source (surroundings S) (source_of_submission s port timeout p created updated) (committed w))"
    for p created updated
    using Inr v unfolding source_created_def by blast
  show ?thesis
    unfolding create_sql_server_settings_def Let_def Inr v source_named_query_def
    by (rule with_session_settles)
      (auto intro!: run_query run_settings_error run_encrypt run_now run_exec run_commit C)
qed

lemma run_with_source:
  assumes "\<And>ds. db_get ds_id source_id (data_sources d) = Some ds \<Longrightarrow> ds_id ds = Some source_id
      \<Longrightarrow> runs d0 d (body ds) (saved d0 C)"
  shows "runs d0 d (with_source E source_id body) (saved d0 C)"
  unfolding with_source_def
  using assms db_get_Some by (fastforce intro!: run_query_by run_return split: option.split)

lemma update_sql_server_settings_settles:
  "settles (committed w) (source_updated R source_id s (committed w)) (update_sql_server_settings S R source_id s w)"
proof (cases "parse_sql_connection_values R (sb_port s) (sb_connect_timeout_seconds s)")
  case (Inl e)
  show ?thesis
    unfolding update_sql_server_settings_def Let_def Inl
    by (rule with_session_settles, rule run_with_source) (auto intro!: run_return)
next
  case (Inr pair)
  obtain port timeout where v: "pair = (port, timeout)" by (cases pair)
  have C: "db_get ds_id source_id (data_sources (committed w)) \<noteq> None \<Longrightarrow>
      (\<And>t. find (\<lambda>t. ds_name t = sb_name s) (data_sources (committed w)) = Some t \<Longrightarrow> ds_id t = Some source_id) \<Longrightarrow>
      (p = None) = (sb_password s = []) \<Longrightarrow>
      source_updated R source_id s (committed w)
        (replace_source source_id (apply_source_submission s trust port timeout p now) (committed w))"
    for p now trust
    using Inr v unfolding source_updated_def by blast
  show ?thesis
    unfolding update_sql_server_settings_def Let_def Inr v source_named_query_def
    by (rule with_session_settles, rule run_with_source)
      (auto intro!: run_query run_return run_encrypt_if_given run_now run_exec run_commit C)
qed

lemma delete_sql_server_settings_settles:
  "settles (committed w) (source_deleted R source_id (committed w)) (delete_sql_server_settings E R source_id w)"
  unfolding delete_sql_server_settings_def
  by (rule with_session_settles, rule run_with_source)
    (auto simp: source_deleted_def intro!: run_query run_settings_error run_exec run_commit)

section \<open>Mail servers\<close>

definition disable_when :: "bool \<Rightarrow> int option \<Rightarrow> db \<Rightarrow> db" where
  "disable_when b keep_id d = (if b then disable_other_smtp_configs keep_id d else d)"

definition smtp_created :: "env \<Rightarrow> route_lib \<Rightarrow> smtp_submission \<Rightarrow> db \<Rightarrow> db \<Rightarrow> bool" where
  "smtp_created E R s d d' \<longleftrightarrow>
     (\<exists>port timeout encrypted updated.
        check_smtp_submission R s = Inr (port, timeout)
        \<and> d' = insert_smtp E (smtp_of_submission s port timeout encrypted updated)
                 (disable_when (is_checked (mb_enabled s)) None d))"

definition smtp_updated :: "route_lib \<Rightarrow> int \<Rightarrow> smtp_submission \<Rightarrow> db \<Rightarrow> db \<Rightarrow> bool" where
  "smtp_updated R config_id s d d' \<longleftrightarrow>
     (\<exists>port timeout encrypted now.
        check_smtp_submission R s = Inr (port, timeout)
        \<and> (encrypted = None) = (mb_password s = [])
        \<and> d' = replace_smtp config_id (apply_smtp_submission s port timeout encrypted now)
                 (disable_when (is_checked (mb_enabled s)) (Some config_id) d))"

definition smtp_deleted :: "int \<Rightarrow> db \<Rightarrow> db \<Rightarrow> bool" where
  "smtp_deleted config_id d d' \<longleftrightarrow> d' = delete_smtp config_id d"

lemma run_disable_if:
  "runs d0 (disable_when b keep_id d) (k ()) Q \<Longrightarrow> runs d0 d (ebind (disable_if E b keep_id) k) Q"
  by (cases b) (auto simp: disable_if_def disable_when_def intro!: run_exec)

lemma create_smtp_settings_settles:
  "settles (committed w) (smtp_created (surroundings S) R s (committed w)) (create_smtp_settings S R s w)"
proof (cases "check_smtp_submission R s")
  case (Inl e)
  show ?thesis
    unfolding create_smtp_settings_def Let_def Inl
    by (rule with_session_settles) (simp add: run_settings_reply)
next
  case (Inr pair)
  obtain port timeout where v: "pair = (port, timeout)" by (cases pair)
  have C: "smtp_created (surroundings S) R s (committed w)
      (insert_smtp (surroundings S) (smtp_of_submission s port timeout p updated)
         (disable_when (is_checked (mb_enabled s)) None (committed w)))"
    for p updated
    using Inr v unfolding smtp_created_def by blast
  show ?thesis
    unfolding create_smtp_settings_def Let_def Inr v
    by (rule with_session_settles)
      (auto intro!: run_encrypt run_now run_rollback_on_error run_disable_if run_exec run_commit C)
qed

lemma run_with_smtp:
  assumes "\<And>c. db_get sc_id config_id (smtp_configs d) = Some c \<Longrightarrow> sc_id c = Some config_id
      \<Longrightarrow> runs d0 d (body c) (saved d0 C)"
  shows "runs d0 d (with_smtp E config_id body) (saved d0 C)"
  unfolding with_smtp_def
  using assms db_get_Some by (fastforce intro!: run_query_by run_return split: option.split)

lemma update_smtp_settings_settles:
  "settles (committed w) (smtp_updated R config_id s (committed w)) (update_smtp_settings S R config_id s w)"
proof (cases "check_smtp_submission R s")
  case (Inl e)
  show ?thesis
    unfolding update_smtp_settings_def Let_def Inl
    by (rule with_session_settles, rule run_with_smtp) (auto intro!: run_return)
next
  case (Inr pair)
  obtain port timeout where v: "pair = (port, timeout)" by (cases pair)
  have C: "(p = None) = (mb_password s = []) \<Longrightarrow> smtp_updated R config_id s (committed w)
      (replace_smtp config_id (apply_smtp_submission s port timeout p now)
         (disable_when (is_checked (mb_enabled s)) (Some config_id) (committed w)))"
    for p now
    using Inr v unfolding smtp_updated_def by blast
  show ?thesis
    unfolding update_smtp_settings_def Let_def Inr v
    by (rule with_session_settles, rule run_with_smtp)
      (auto intro!: run_encrypt_if_given run_now run_rollback_on_error run_disable_if run_exec run_commit C)
qed

lemma delete_smtp_settings_settles:
  "settles (committed w) (smtp_deleted config_id (committed w)) (delete_smtp_settings E config_id w)"
  unfolding delete_smtp_settings_def
  by (rule with_session_settles, rule run_with_smtp)
    (auto simp: smtp_deleted_def intro!: run_exec run_commit)

end
