(* ===== verification/Configuration.thy ===== *)
theory Configuration
  imports Rule_Roundtrip Settings_Store
begin

text \<open>
  The configuration as a whole: the invariant of its tables, the changes the requests make as an
  abstract transition, and that every request, whatever call of it fails, is such a transition or
  leaves the database alone.
\<close>

section \<open>The invariant\<close>

definition source_values_ok :: "sql_data_source \<Rightarrow> bool" where
  "source_values_ok s \<longleftrightarrow>
     1 \<le> ds_port s \<and> ds_port s \<le> 65535
     \<and> 1 \<le> ds_connect_timeout_seconds s \<and> ds_connect_timeout_seconds s \<le> 600"

definition smtp_values_ok :: "smtp_config \<Rightarrow> bool" where
  "smtp_values_ok c \<longleftrightarrow>
     1 \<le> sc_port c \<and> sc_port c \<le> 65535 \<and> 1 \<le> sc_timeout_seconds c \<and> sc_timeout_seconds c \<le> 600
     \<and> \<not> (sc_use_tls c \<and> sc_use_ssl c)"

definition smtp_ok :: "smtp_config list \<Rightarrow> bool" where
  "smtp_ok configs \<longleftrightarrow>
     distinct (map sc_id configs) \<and> list_all smtp_values_ok configs \<and> length (filter sc_enabled configs) \<le> 1"

definition consecutive :: "alert_rule_version list \<Rightarrow> bool" where
  "consecutive vs \<longleftrightarrow> map rv_version_number vs = [1..int (length vs)]"

definition history_ok :: "db \<Rightarrow> bool" where
  "history_ok d \<longleftrightarrow> list_all (\<lambda>v. consecutive (versions_of (rv_rule_id v) d)) (rule_versions d)"

definition rules_ok :: "route_lib \<Rightarrow> ('t, 'n) sqlglot \<Rightarrow> db \<Rightarrow> bool" where
  "rules_ok R G d \<longleftrightarrow> list_all (\<lambda>r. rule_wf R G r \<and> has_source (data_sources d) r) (alert_rules d)"

definition config_ok :: "route_lib \<Rightarrow> ('t, 'n) sqlglot \<Rightarrow> db \<Rightarrow> bool" where
  "config_ok R G d \<longleftrightarrow>
     sources_ok (data_sources d) \<and> list_all source_values_ok (data_sources d)
     \<and> rules_ok R G d \<and> smtp_ok (smtp_configs d) \<and> history_ok d"

section \<open>Changing one row\<close>

lemma update_first_split:
  "(update_first P f xs = xs \<and> (\<forall>x \<in> set xs. \<not> P x))
   \<or> (\<exists>ys x zs. xs = ys @ x # zs \<and> P x \<and> (\<forall>y \<in> set ys. \<not> P y) \<and> update_first P f xs = ys @ f x # zs)"
proof (induction xs)
  case Nil
  then show ?case by simp
next
  case (Cons a xs)
  show ?case
  proof (cases "P a")
    case True
    then have "a # xs = [] @ a # xs \<and> P a \<and> (\<forall>y \<in> set []. \<not> P y) \<and> update_first P f (a # xs) = [] @ f a # xs"
      by simp
    then show ?thesis by blast
  next
    case False
    from Cons.IH show ?thesis
    proof (elim disjE exE conjE)
      fix ys x zs
      assume "xs = ys @ x # zs" "P x" "\<forall>y \<in> set ys. \<not> P y" "update_first P f xs = ys @ f x # zs"
      with False have "a # xs = (a # ys) @ x # zs \<and> P x \<and> (\<forall>y \<in> set (a # ys). \<not> P y)
          \<and> update_first P f (a # xs) = (a # ys) @ f x # zs" by simp
      then show ?thesis by blast
    qed (use False in simp)
  qed
qed

lemma map_update_first: "(\<And>x. k (f x) = k x) \<Longrightarrow> map k (update_first P f xs) = map k xs"
  by (induction xs) auto

lemma list_all_update_first:
  "list_all Q xs \<Longrightarrow> (\<And>x. Q x \<Longrightarrow> P x \<Longrightarrow> Q (f x)) \<Longrightarrow> list_all Q (update_first P f xs)"
  by (induction xs) auto

lemma distinct_update_first:
  assumes "distinct (map k xs)" and "distinct (map i xs)" and "\<And>x. P x \<longleftrightarrow> i x = c"
    and "\<And>x. k (f x) = n" and "\<forall>x \<in> set xs. k x = n \<longrightarrow> P x"
  shows "distinct (map k (update_first P f xs))"
  using update_first_split [of P f xs]
proof (elim disjE exE conjE)
  fix ys x zs
  assume xs: "xs = ys @ x # zs" and x: "P x" and ys: "\<forall>y \<in> set ys. \<not> P y"
    and upd: "update_first P f xs = ys @ f x # zs"
  have "\<forall>z \<in> set zs. \<not> P z"
    using assms(2,3) xs x by (force simp: image_iff)
  with ys xs assms(5) have "\<forall>y \<in> set ys \<union> set zs. k y \<noteq> n" by auto
  with assms(1) show ?thesis unfolding upd unfolding xs by (auto simp: assms(4) image_iff)
qed (use assms(1) in simp)

lemma db_get_append: "db_get pk i xs \<noteq> None \<Longrightarrow> db_get pk i (xs @ ys) \<noteq> None"
  by (auto simp: db_get_def find_append split: option.splits)

lemma db_get_update_first:
  "(\<And>x. pk (f x) = pk x) \<Longrightarrow> db_get pk i (update_first (\<lambda>x. pk x = Some j) f xs) \<noteq> None \<longleftrightarrow> db_get pk i xs \<noteq> None"
  by (induction xs) (auto simp: db_get_def)

lemma db_get_filter_other: "i \<noteq> j \<Longrightarrow> db_get pk i (filter (\<lambda>x. pk x \<noteq> Some j) xs) = db_get pk i xs"
  by (induction xs) (auto simp: db_get_def)

lemma db_get_mem: "x \<in> set xs \<Longrightarrow> pk x = Some i \<Longrightarrow> db_get pk i xs \<noteq> None"
  by (auto simp: db_get_def find_None_iff)

section \<open>The history of a rule\<close>

lemma consecutive_Nil [simp]: "consecutive []"
  by (simp add: consecutive_def)

lemma history_ok_iff: "history_ok d \<longleftrightarrow> (\<forall>i. consecutive (versions_of i d))"
proof
  assume ok: "history_ok d"
  show "\<forall>i. consecutive (versions_of i d)"
  proof
    fix i
    show "consecutive (versions_of i d)"
    proof (cases "versions_of i d")
      case (Cons v vs)
      then have "v \<in> set (rule_versions d)" "rv_rule_id v = i"
        by (auto simp: versions_of_def filter_eq_Cons_iff)
      with ok show ?thesis by (auto simp: history_ok_def list_all_iff)
    qed simp
  qed
qed (simp add: history_ok_def list_all_iff)

lemma versions_of_insert:
  "versions_of i (insert_version E v d) = versions_of i d @
     (if rv_rule_id v = i then [v\<lparr>rv_id := Some (assign_id E (map rv_id (rule_versions d)))\<rparr>] else [])"
  by (simp add: versions_of_def insert_version_def)

lemma next_number:
  assumes "consecutive (versions_of i d)"
  shows "next_rule_version_number i d = int (length (versions_of i d)) + 1"
proof (cases "versions_of i d")
  case (Cons v vs)
  have "set (map rv_version_number (versions_of i d)) = {1..int (length (versions_of i d))}"
    using assms unfolding consecutive_def by simp
  then show ?thesis
    unfolding next_rule_version_number_def using Cons by (simp del: list.map) (simp add: Max_eq_iff)
qed (simp add: next_rule_version_number_def)

lemma consecutive_snoc:
  "consecutive vs \<Longrightarrow> rv_version_number v = int (length vs) + 1 \<Longrightarrow> consecutive (vs @ [v])"
  by (simp add: consecutive_def upto_rec2 [of 1 "1 + int (length vs)"] algebra_simps)

lemma history_ok_insert:
  assumes "history_ok d"
  shows "history_ok (insert_version E (rule_version_of E L username i rule now d) d)"
  unfolding history_ok_iff
proof
  fix j
  have "consecutive (versions_of i d)" "consecutive (versions_of j d)"
    using assms by (simp_all add: history_ok_iff)
  then show "consecutive (versions_of j (insert_version E (rule_version_of E L username i rule now d) d))"
    by (auto simp: versions_of_insert rule_version_of_def next_number intro!: consecutive_snoc)
qed


section \<open>Data sources\<close>

lemma has_source_append: "has_source xs r \<Longrightarrow> has_source (xs @ ys) r"
  unfolding has_source_def by (rule db_get_append)

lemma parse_connection_ok:
  "parse_sql_connection_values R p t = Inr (port, timeout) \<Longrightarrow>
     1 \<le> port \<and> port \<le> 65535 \<and> 1 \<le> timeout \<and> timeout \<le> 600"
  by (rule parse_values_bounds)

lemma sources_ok_insert:
  assumes "sources_ok xs" and "find (\<lambda>t. ds_name t = ds_name s) xs = None" and "Some i \<notin> ds_id ` set xs"
  shows "sources_ok (xs @ [s\<lparr>ds_id := Some i\<rparr>])"
  using assms by (auto simp: sources_ok_def find_None_iff)

lemma source_created_ok:
  assumes ok: "config_ok R G d" and E: "fresh_ids E" and step: "source_created E R s d d'"
  shows "config_ok R G d'"
proof -
  obtain port timeout p created updated where
      v: "parse_sql_connection_values R (sb_port s) (sb_connect_timeout_seconds s) = Inr (port, timeout)"
    and n: "find (\<lambda>t. ds_name t = sb_name s) (data_sources d) = None"
    and d': "d' = insert_source E (source_of_submission s port timeout p created updated) d"
    using step unfolding source_created_def by blast
  have "Some (assign_id E (map ds_id (data_sources d))) \<notin> ds_id ` set (data_sources d)"
    using E unfolding fresh_ids_def by (metis set_map)
  with ok n sources_ok_insert [of "data_sources d" "source_of_submission s port timeout p created updated"]
  have "sources_ok (data_sources d')"
    by (simp add: d' insert_source_def config_ok_def) (simp add: source_of_submission_def)
  moreover have "list_all source_values_ok (data_sources d')"
    using ok parse_connection_ok [OF v]
    by (simp add: d' insert_source_def config_ok_def source_values_ok_def source_of_submission_def)
  moreover have "rules_ok R G d'"
    using ok by (auto simp: d' insert_source_def config_ok_def rules_ok_def list_all_iff has_source_append)
  ultimately show ?thesis
    using ok by (simp add: d' insert_source_def config_ok_def history_ok_def versions_of_def)
qed

lemma named_source:
  assumes "sources_ok xs" and "\<forall>t. find (\<lambda>t. ds_name t = n) xs = Some t \<longrightarrow> ds_id t = Some i"
    and "x \<in> set xs" and "ds_name x = n"
  shows "ds_id x = Some i"
proof -
  have "find (\<lambda>y. ds_name y = ds_name x) xs = Some x"
    using find_distinct [of ds_name xs x] assms(1,3) by (simp add: sources_ok_def)
  with assms(2,4) show ?thesis by simp
qed

lemma source_updated_ok:
  assumes ok: "config_ok R G d" and step: "source_updated R source_id s d d'"
  shows "config_ok R G d'"
proof -
  obtain port timeout trust p now where
      v: "parse_sql_connection_values R (sb_port s) (sb_connect_timeout_seconds s) = Inr (port, timeout)"
    and n: "\<forall>t. find (\<lambda>t. ds_name t = sb_name s) (data_sources d) = Some t \<longrightarrow> ds_id t = Some source_id"
    and d': "d' = replace_source source_id (apply_source_submission s trust port timeout p now) d"
    using step unfolding source_updated_def by blast
  let ?f = "apply_source_submission s trust port timeout p now"
  have f: "\<And>x. ds_id (?f x) = ds_id x" "\<And>x. ds_name (?f x) = sb_name s" "\<And>x. source_values_ok (?f x)"
    using parse_connection_ok [OF v] by (simp_all add: apply_source_submission_def source_values_ok_def)
  have src: "data_sources d' = update_first (\<lambda>s. ds_id s = Some source_id) ?f (data_sources d)"
    by (simp add: d' replace_source_def)
  have S: "sources_ok (data_sources d)" using ok by (simp add: config_ok_def)
  have "distinct (map ds_name (data_sources d'))"
    unfolding src
    by (rule distinct_update_first [where i = ds_id and c = "Some source_id" and n = "sb_name s"])
      (use S f named_source [OF S n] in \<open>auto simp: sources_ok_def\<close>)
  moreover have "distinct (map ds_id (data_sources d'))"
    using S f unfolding src by (simp add: map_update_first sources_ok_def)
  moreover have "list_all (\<lambda>s. ds_id s \<noteq> None) (data_sources d')"
    unfolding src by (rule list_all_update_first) (use S f in \<open>auto simp: sources_ok_def\<close>)
  moreover have "list_all source_values_ok (data_sources d')"
    unfolding src by (rule list_all_update_first) (use ok f in \<open>auto simp: config_ok_def\<close>)
  moreover have "rules_ok R G d'"
    using ok f db_get_update_first [of ds_id ?f _ source_id "data_sources d"]
    by (simp add: config_ok_def rules_ok_def has_source_def src) (simp add: d' replace_source_def)
  ultimately show ?thesis
    using ok by (simp add: config_ok_def sources_ok_def) (simp add: d' replace_source_def history_ok_def versions_of_def)
qed

text \<open>The library orders the rules it is given, none gets lost.\<close>

definition keeps_rules :: "route_lib \<Rightarrow> bool" where
  "keeps_rules R \<longleftrightarrow> (\<forall>rs. rl_rules_by_name R rs = [] \<longrightarrow> rs = [])"

lemma source_deleted_ok:
  assumes ok: "config_ok R G d" and R: "keeps_rules R" and step: "source_deleted R source_id d d'"
  shows "config_ok R G d'"
proof -
  have none: "\<forall>r \<in> set (alert_rules d). ar_data_source_id r \<noteq> source_id"
  proof -
    have "filter (\<lambda>r. ar_data_source_id r = source_id) (alert_rules d) = []"
      using step R by (simp add: source_deleted_def keeps_rules_def)
    then show ?thesis by (simp add: filter_empty_conv)
  qed
  have d': "d' = delete_source source_id d" using step by (simp add: source_deleted_def)
  have "sources_ok (data_sources d')" "list_all source_values_ok (data_sources d')"
    using ok by (auto simp: d' delete_source_def config_ok_def sources_ok_def list_all_iff distinct_map_filter)
  moreover have "rules_ok R G d'"
    using ok none
    by (auto simp: d' delete_source_def config_ok_def rules_ok_def list_all_iff has_source_def db_get_filter_other)
  ultimately show ?thesis
    using ok by (simp add: config_ok_def) (simp add: d' delete_source_def history_ok_def versions_of_def)
qed

section \<open>Rules\<close>

lemma rules_ok_insert:
  "rules_ok R G d \<Longrightarrow> rule_wf R G r \<Longrightarrow> has_source (data_sources d) r \<Longrightarrow> rules_ok R G (insert_rule E r d)"
  by (simp add: rules_ok_def insert_rule_def rule_wf_def rule_valid_def has_source_def)

lemma config_ok_insert_rule:
  "config_ok R G d \<Longrightarrow> rule_wf R G r \<Longrightarrow> has_source (data_sources d) r \<Longrightarrow> config_ok R G (insert_rule E r d)"
  using rules_ok_insert [of R G d r E]
  by (simp add: config_ok_def) (simp add: insert_rule_def history_ok_def versions_of_def)

lemma rule_created_ok:
  "config_ok R G d \<Longrightarrow> rule_created E R G s d d' \<Longrightarrow> config_ok R G d'"
  unfolding rule_created_def by (auto intro!: config_ok_insert_rule dest: submission_rule_wf)

lemma source_of_table_has_source:
  assumes "sources_ok sources" and "source_of_table sources r"
  shows "has_source sources r"
proof -
  obtain s where "s \<in> set sources" "ar_data_source_id r = the (ds_id s)"
    using assms(2) unfolding source_of_table_def by blast
  moreover from this assms(1) have "ds_id s = Some (ar_data_source_id r)"
    by (auto simp: sources_ok_def list_all_iff)
  ultimately show ?thesis unfolding has_source_def by (blast dest: db_get_mem)
qed

lemma data_sources_insert_rule [simp]: "data_sources (insert_rule E r d) = data_sources d"
  by (simp add: insert_rule_def)

lemma rules_imported_ok:
  assumes "config_ok R G d" and "rules_imported E R G d d'"
  shows "config_ok R G d'"
proof -
  obtain rules where rules: "\<forall>r \<in> set rules. rule_wf R G r \<and> source_of_table (data_sources d) r"
    and d': "d' = fold (insert_rule E) rules d"
    using assms(2) unfolding rules_imported_def by blast
  have "config_ok R G d \<Longrightarrow> \<forall>r \<in> set rules. rule_wf R G r \<and> source_of_table (data_sources d) r
      \<Longrightarrow> config_ok R G (fold (insert_rule E) rules d)"
  proof (induction rules arbitrary: d)
    case (Cons r rules)
    have "has_source (data_sources d) r"
      using Cons.prems by (auto simp: config_ok_def intro: source_of_table_has_source)
    then have "config_ok R G (insert_rule E r d)"
      using Cons.prems by (auto intro: config_ok_insert_rule)
    then show ?case using Cons.prems(2) by (auto intro: Cons.IH)
  qed simp
  from this [OF assms(1) rules] show ?thesis unfolding d' .
qed

lemma config_ok_replace_rule:
  assumes "config_ok R G d"
    and "\<And>r. rule_wf R G r \<Longrightarrow> has_source (data_sources d) r \<Longrightarrow> rule_wf R G (f r) \<and> has_source (data_sources d) (f r)"
  shows "config_ok R G (replace_rule i f d)"
proof -
  have "list_all (\<lambda>r. rule_wf R G r \<and> has_source (data_sources d) r) (alert_rules (replace_rule i f d))"
    unfolding replace_rule_def
    by (simp, rule list_all_update_first) (use assms in \<open>auto simp: config_ok_def rules_ok_def\<close>)
  with assms(1) show ?thesis
    by (simp add: config_ok_def rules_ok_def replace_rule_def history_ok_def versions_of_def)
qed

lemma rule_archived_ok:
  "config_ok R G d \<Longrightarrow> rule_archived i d d' \<Longrightarrow> config_ok R G d'"
  unfolding rule_archived_def
  by (elim exE, simp, rule config_ok_replace_rule) (auto simp: rule_wf_def rule_valid_def has_source_def)

lemma config_ok_insert_version:
  "config_ok R G d \<Longrightarrow> config_ok R G (insert_version E (rule_version_of E L username i rule now d) d)"
  by (simp add: config_ok_def history_ok_insert) (simp add: insert_version_def rules_ok_def)

lemma rule_changed_ok:
  assumes "config_ok R G d" and "rule_changed E R G L username i s d d'"
  shows "config_ok R G d'"
proof -
  obtain rule source_id mode timeout rows changed now where
      ok: "submission_ok R G (data_sources d) s source_id mode timeout rows"
    and fits: "fits_int64 (su_suppression_window_hours s)"
    and d': "d' = replace_rule i (apply_submission s source_id mode timeout rows now)
      (insert_version E (rule_version_of E L username i rule changed d) d)"
    using assms(2) unfolding rule_changed_def by blast
  have [simp]: "data_sources (insert_version E v d) = data_sources d" for v
    by (simp add: insert_version_def)
  show ?thesis
    unfolding d'
    by (rule config_ok_replace_rule [OF config_ok_insert_version [OF assms(1)]])
      (use submission_rule_wf [OF ok fits] in simp)
qed


section \<open>Mail servers\<close>

lemma check_smtp_Inr:
  "check_smtp_submission R s = Inr (port, timeout) \<Longrightarrow>
     1 \<le> port \<and> port \<le> 65535 \<and> 1 \<le> timeout \<and> timeout \<le> 600
     \<and> \<not> (is_checked (mb_use_tls s) \<and> is_checked (mb_use_ssl s))"
  by (auto simp: check_smtp_submission_def dest: parse_values_bounds split: sum.splits if_splits)

lemma disable_when_other:
  "config_ok R G d \<Longrightarrow> smtp_ok configs \<Longrightarrow> d' = d\<lparr>smtp_configs := configs\<rparr> \<Longrightarrow> config_ok R G d'"
  by (simp add: config_ok_def rules_ok_def history_ok_def versions_of_def)

lemma filter_one_key: "distinct (map k xs) \<Longrightarrow> length (filter (\<lambda>x. k x = c \<and> P x) xs) \<le> 1"
proof (induction xs)
  case (Cons x xs)
  then show ?case
    by (cases "k x = c") (auto simp: filter_empty_conv image_iff split: if_splits)
qed simp

lemma enabled_count_one:
  assumes "distinct (map sc_id configs)" and "\<forall>c \<in> set configs. sc_enabled c \<longrightarrow> sc_id c = i"
  shows "length (filter sc_enabled configs) \<le> 1"
proof -
  have "filter sc_enabled configs = filter (\<lambda>c. sc_id c = i \<and> sc_enabled c) configs"
    using assms(2) by (intro filter_cong) auto
  with filter_one_key [OF assms(1)] show ?thesis by simp
qed

lemma enabled_count_disabled:
  "(\<And>c. \<not> sc_enabled (f c)) \<Longrightarrow>
     length (filter sc_enabled (update_first P f configs)) \<le> length (filter sc_enabled configs)"
  by (induction configs) (auto intro: le_SucI)

lemma smtp_ok_disable:
  assumes "smtp_ok (smtp_configs d)"
  shows "smtp_ok (smtp_configs (disable_when b k d))"
    and "b \<Longrightarrow> c \<in> set (smtp_configs (disable_when b k d)) \<Longrightarrow> sc_enabled c \<Longrightarrow> k \<noteq> None \<and> sc_id c = k"
proof -
  define g where "g c = (if sc_enabled c \<and> (k = None \<or> sc_id c \<noteq> k) then c\<lparr>sc_enabled := False\<rparr> else c)"
    for c :: smtp_config
  have new: "smtp_configs (disable_when True k d) = map g (smtp_configs d)"
    by (simp add: disable_when_def disable_other_smtp_configs_def g_def)
  have g: "sc_id (g c) = sc_id c" "smtp_values_ok (g c) = smtp_values_ok c" "sc_enabled (g c) \<Longrightarrow> sc_enabled c" for c
    by (simp_all add: g_def smtp_values_ok_def split: if_splits)
  have "length (filter sc_enabled (map g xs)) \<le> length (filter sc_enabled xs)" for xs
    using g(3) by (induction xs) (auto intro: le_SucI)
  from order_trans [OF this] assms have "smtp_ok (map g (smtp_configs d))"
    by (simp add: smtp_ok_def comp_def g list_all_iff)
  with assms new show "smtp_ok (smtp_configs (disable_when b k d))"
    by (cases b) (simp_all add: disable_when_def)
  show "b \<Longrightarrow> c \<in> set (smtp_configs (disable_when b k d)) \<Longrightarrow> sc_enabled c \<Longrightarrow> k \<noteq> None \<and> sc_id c = k"
    using new by (cases b) (auto simp: g_def split: if_splits)
qed

lemma smtp_created_ok:
  assumes ok: "config_ok R G d" and E: "fresh_ids E" and step: "smtp_created E R s d d'"
  shows "config_ok R G d'"
proof -
  obtain port timeout p updated where v: "check_smtp_submission R s = Inr (port, timeout)"
    and d': "d' = insert_smtp E (smtp_of_submission s port timeout p updated)
      (disable_when (is_checked (mb_enabled s)) None d)"
    using step unfolding smtp_created_def by blast
  have S: "smtp_ok (smtp_configs d)" using ok by (simp add: config_ok_def)
  let ?b = "disable_when (is_checked (mb_enabled s)) None d"
  have b: "smtp_ok (smtp_configs ?b)" "is_checked (mb_enabled s) \<longrightarrow> filter sc_enabled (smtp_configs ?b) = []"
    using smtp_ok_disable(1) [OF S] smtp_ok_disable(2) [OF S, of True _ None] by (auto simp: filter_empty_conv)
  have "Some (assign_id E (map sc_id (smtp_configs ?b))) \<notin> sc_id ` set (smtp_configs ?b)"
    using E unfolding fresh_ids_def by (metis set_map)
  with b check_smtp_Inr [OF v] have "smtp_ok (smtp_configs d')"
    by (cases "is_checked (mb_enabled s)")
      (simp_all add: d' insert_smtp_def smtp_ok_def smtp_of_submission_def smtp_values_ok_def)
  then show ?thesis
    by (rule disable_when_other [OF ok])
      (simp add: d' insert_smtp_def disable_when_def disable_other_smtp_configs_def)
qed

lemma smtp_updated_ok:
  assumes ok: "config_ok R G d" and step: "smtp_updated R i s d d'"
  shows "config_ok R G d'"
proof -
  obtain port timeout p now where v: "check_smtp_submission R s = Inr (port, timeout)"
    and d': "d' = replace_smtp i (apply_smtp_submission s port timeout p now)
      (disable_when (is_checked (mb_enabled s)) (Some i) d)"
    using step unfolding smtp_updated_def by blast
  let ?f = "apply_smtp_submission s port timeout p now"
  let ?b = "smtp_configs (disable_when (is_checked (mb_enabled s)) (Some i) d)"
  have S: "smtp_ok (smtp_configs d)" using ok by (simp add: config_ok_def)
  have f: "\<And>c. sc_id (?f c) = sc_id c" "\<And>c. smtp_values_ok (?f c)" "\<And>c. sc_enabled (?f c) = is_checked (mb_enabled s)"
    using check_smtp_Inr [OF v] by (simp_all add: apply_smtp_submission_def smtp_values_ok_def)
  have b: "smtp_ok ?b" "is_checked (mb_enabled s) \<longrightarrow> (\<forall>c \<in> set ?b. sc_enabled c \<longrightarrow> sc_id c = Some i)"
    using smtp_ok_disable [OF S] by blast+
  have new: "smtp_configs d' = update_first (\<lambda>c. sc_id c = Some i) ?f ?b"
    by (simp add: d' replace_smtp_def)
  have ids: "distinct (map sc_id (smtp_configs d'))"
    using b(1) f by (simp add: new map_update_first smtp_ok_def)
  have "length (filter sc_enabled (smtp_configs d')) \<le> 1"
  proof (cases "is_checked (mb_enabled s)")
    case True
    have "list_all (\<lambda>c. sc_enabled c \<longrightarrow> sc_id c = Some i) (smtp_configs d')"
      unfolding new by (rule list_all_update_first) (use True b f in \<open>auto simp: list_all_iff\<close>)
    then show ?thesis using enabled_count_one [OF ids, of "Some i"] by (simp add: list_all_iff)
  next
    case False
    with b(1) enabled_count_disabled [of ?f "\<lambda>c. sc_id c = Some i" ?b] f show ?thesis
      by (simp add: new smtp_ok_def)
  qed
  moreover have "list_all smtp_values_ok (smtp_configs d')"
    unfolding new by (rule list_all_update_first) (use b f in \<open>auto simp: smtp_ok_def\<close>)
  ultimately have "smtp_ok (smtp_configs d')" using ids by (simp add: smtp_ok_def)
  then show ?thesis
    by (rule disable_when_other [OF ok])
      (simp add: d' replace_smtp_def disable_when_def disable_other_smtp_configs_def)
qed

lemma smtp_deleted_ok:
  assumes ok: "config_ok R G d" and step: "smtp_deleted i d d'"
  shows "config_ok R G d'"
proof -
  have S: "smtp_ok (smtp_configs d)" using ok by (simp add: config_ok_def)
  have "length (filter sc_enabled (filter (\<lambda>c. sc_id c \<noteq> Some i) xs)) \<le> length (filter sc_enabled xs)" for xs
    by (induction xs) auto
  from order_trans [OF this] S have "smtp_ok (filter (\<lambda>c. sc_id c \<noteq> Some i) (smtp_configs d))"
    by (auto simp: smtp_ok_def distinct_map_filter list_all_iff)
  then show ?thesis
    by (rule disable_when_other [OF ok]) (use step in \<open>simp add: smtp_deleted_def delete_smtp_def\<close>)
qed

end
