(* ===== verification/Configuration_Steps.thy ===== *)
theory Configuration_Steps
  imports Configuration
begin

text \<open>
  The requests that change the configuration, one after the other, as a step relation on the world:
  each is an abstract transition of the database or leaves it alone, so what the transitions keep
  holds in every configuration the application can reach.
\<close>

section \<open>Requests\<close>

datatype config_request =
    CreateRule rule_submission
  | UpdateRule pystr int rule_submission
  | ArchiveRule int
  | ImportRules pystr "nat list"
  | CreateSource source_submission
  | UpdateSource int source_submission
  | DeleteSource int
  | CreateSmtp smtp_submission
  | UpdateSmtp int smtp_submission
  | DeleteSmtp int

fun serve ::
  "('t, 'n, 'c, 'k) service_env \<Rightarrow> route_lib \<Rightarrow> json_lib \<Rightarrow> config_request \<Rightarrow> (world, reply) eff" where
  "serve S R L (CreateRule s) = create_rule (surroundings S) R (sqlglot_lib S) s"
| "serve S R L (UpdateRule username i s) = update_rule (surroundings S) R (sqlglot_lib S) L username i s"
| "serve S R L (ArchiveRule i) = archive_rule (surroundings S) i"
| "serve S R L (ImportRules imported content) =
     import_rules_json (surroundings S) R (sqlglot_lib S) L imported content"
| "serve S R L (CreateSource s) = create_sql_server_settings S R s"
| "serve S R L (UpdateSource i s) = update_sql_server_settings S R i s"
| "serve S R L (DeleteSource i) = delete_sql_server_settings (surroundings S) R i"
| "serve S R L (CreateSmtp s) = create_smtp_settings S R s"
| "serve S R L (UpdateSmtp i s) = update_smtp_settings S R i s"
| "serve S R L (DeleteSmtp i) = delete_smtp_settings (surroundings S) i"

text \<open>The abstract specification: which changed databases a request may leave.\<close>

fun config_effect ::
  "('t, 'n, 'c, 'k) service_env \<Rightarrow> route_lib \<Rightarrow> json_lib \<Rightarrow> config_request \<Rightarrow> db \<Rightarrow> db \<Rightarrow> bool" where
  "config_effect S R L (CreateRule s) = rule_created (surroundings S) R (sqlglot_lib S) s"
| "config_effect S R L (UpdateRule username i s) = rule_changed (surroundings S) R (sqlglot_lib S) L username i s"
| "config_effect S R L (ArchiveRule i) = rule_archived i"
| "config_effect S R L (ImportRules imported content) = rules_imported (surroundings S) R (sqlglot_lib S)"
| "config_effect S R L (CreateSource s) = source_created (surroundings S) R s"
| "config_effect S R L (UpdateSource i s) = source_updated R i s"
| "config_effect S R L (DeleteSource i) = source_deleted R i"
| "config_effect S R L (CreateSmtp s) = smtp_created (surroundings S) R s"
| "config_effect S R L (UpdateSmtp i s) = smtp_updated R i s"
| "config_effect S R L (DeleteSmtp i) = smtp_deleted i"

text \<open>Hours beyond 10^30, which no database stores, are not considered.\<close>

fun request_ok :: "config_request \<Rightarrow> bool" where
  "request_ok (CreateRule s) = hours_small s"
| "request_ok (UpdateRule username i s) = hours_small s"
| "request_ok req = True"

lemma serve_settles:
  "request_ok req \<Longrightarrow> settles (committed w) (config_effect S R L req (committed w)) (serve S R L req w)"
  by (cases req)
    (simp_all add: create_rule_settles update_rule_settles archive_rule_settles import_rules_json_settles
      create_sql_server_settings_settles update_sql_server_settings_settles delete_sql_server_settings_settles
      create_smtp_settings_settles update_smtp_settings_settles delete_smtp_settings_settles)

lemma settles_cases:
  assumes "settles d0 C (r, w')"
  shows "committed w' = d0 \<or> C (committed w')"
  using assms by (auto simp: settles_def saved_def split: sum.splits reply.splits)

section \<open>Reachable configurations\<close>

inductive config_step ::
  "('t, 'n, 'c, 'k) service_env \<Rightarrow> route_lib \<Rightarrow> json_lib \<Rightarrow> world \<Rightarrow> world \<Rightarrow> bool"
  for S R L where
  served: "request_ok req \<Longrightarrow> serve S R L req w = (r, w') \<Longrightarrow> config_step S R L w w'"

inductive_cases config_stepE: "config_step S R L w w'"

lemma config_step_effect:
  assumes "config_step S R L w w'"
  shows "committed w' = committed w \<or> (\<exists>req. config_effect S R L req (committed w) (committed w'))"
  using assms
proof (rule config_stepE)
  fix req r
  assume ok: "request_ok req" and run: "serve S R L req w = (r, w')"
  from serve_settles [OF ok, of w S R L] settles_cases show ?thesis unfolding run by blast
qed

lemma config_effect_ok:
  assumes "config_ok R (sqlglot_lib S) d" and "fresh_ids (surroundings S)" and "keeps_rules R"
    and "config_effect S R L req d d'"
  shows "config_ok R (sqlglot_lib S) d'"
  using assms
  by (cases req)
    (auto intro: rule_created_ok rule_changed_ok rule_archived_ok rules_imported_ok source_created_ok
      source_updated_ok source_deleted_ok smtp_created_ok smtp_updated_ok smtp_deleted_ok)

lemma config_step_ok:
  assumes "fresh_ids (surroundings S)" and "keeps_rules R" and "config_ok R (sqlglot_lib S) (committed w)"
    and "config_step S R L w w'"
  shows "config_ok R (sqlglot_lib S) (committed w')"
  using config_step_effect [OF assms(4)] config_effect_ok assms(1-3) by metis

lemma config_steps_ok:
  assumes "fresh_ids (surroundings S)" and "keeps_rules R" and "config_ok R (sqlglot_lib S) (committed w)"
    and "(config_step S R L)\<^sup>*\<^sup>* w w'"
  shows "config_ok R (sqlglot_lib S) (committed w')"
  using assms(4,3) by (induction rule: rtranclp_induct) (blast intro: config_step_ok [OF assms(1,2)])+

lemma config_ok_empty: "config_ok R G empty_db"
  by (simp add: config_ok_def sources_ok_def rules_ok_def smtp_ok_def history_ok_def empty_db_def)

text \<open>What is only added to: the rules of the table, archived ones included, and their history.\<close>

definition grows :: "db \<Rightarrow> db \<Rightarrow> bool" where
  "grows d d' \<longleftrightarrow> prefix (rule_versions d) (rule_versions d')
     \<and> prefix (map ar_id (alert_rules d)) (map ar_id (alert_rules d'))"

lemma grows_trans: "grows d d' \<Longrightarrow> grows d' d'' \<Longrightarrow> grows d d''"
  unfolding grows_def by (meson prefix_order.trans)

lemma grows_refl: "grows d d"
  by (simp add: grows_def)

lemma grows_insert_rule: "grows d (insert_rule E r d)"
  by (simp add: grows_def insert_rule_def)

lemma grows_fold_insert: "grows d (fold (insert_rule E) rules d)"
proof (induction rules arbitrary: d)
  case (Cons r rules)
  from grows_trans [OF grows_insert_rule Cons.IH] show ?case by simp
qed (simp add: grows_def)

lemma grows_replace_rule: "(\<And>r. ar_id (f r) = ar_id r) \<Longrightarrow> grows d (replace_rule i f d)"
  by (simp add: grows_def replace_rule_def map_update_first)

lemma grows_effect: "config_effect S R L req d d' \<Longrightarrow> grows d d'"
proof (cases req)
  case (UpdateRule username i s)
  assume "config_effect S R L req d d'"
  then obtain v f where "d' = replace_rule i f (insert_version (surroundings S) v d)" "\<And>r. ar_id (f r) = ar_id r"
    unfolding UpdateRule by (auto simp: rule_changed_def apply_submission_def)
  moreover have "grows d (insert_version (surroundings S) v d)"
    by (simp add: grows_def insert_version_def)
  ultimately show ?thesis using grows_trans grows_replace_rule by metis
next
  case (CreateRule s)
  then show "config_effect S R L req d d' \<Longrightarrow> ?thesis" by (auto simp: rule_created_def grows_insert_rule)
next
  case (ImportRules imported content)
  then show "config_effect S R L req d d' \<Longrightarrow> ?thesis" by (auto simp: rules_imported_def grows_fold_insert)
next
  case (ArchiveRule i)
  then show "config_effect S R L req d d' \<Longrightarrow> ?thesis" by (auto simp: rule_archived_def grows_replace_rule)
qed (auto simp: source_created_def source_updated_def source_deleted_def smtp_created_def smtp_updated_def
    smtp_deleted_def disable_when_def grows_def insert_source_def replace_source_def delete_source_def
    insert_smtp_def replace_smtp_def delete_smtp_def disable_other_smtp_configs_def)

lemma grows_steps:
  assumes "(config_step S R L)\<^sup>*\<^sup>* w w'"
  shows "grows (committed w) (committed w')"
  using assms
proof (induction rule: rtranclp_induct)
  case (step w1 w2)
  from config_step_effect [OF step(2)] have "grows (committed w1) (committed w2)"
    using grows_effect grows_refl by metis
  with step(3) show ?case by (rule grows_trans)
qed (simp add: grows_def)

end
