(* ===== verification/Configuration_Theorems.thy ===== *)
theory Configuration_Theorems
  imports Configuration_Steps
begin

text \<open>
  The properties of the configuration: the requests refine the abstract transitions, the invariant
  holds in every reachable configuration, a change of a rule is kept in its history for good, the
  executor finds the clients of every rule, and a new password ends the other sessions.
\<close>

section \<open>Concrete requests\<close>

definition sample_submission :: rule_submission where
  "sample_submission = \<lparr>su_name = str ''r'', su_data_source_id = int_str 1, su_sql_text = str ''SELECT 1'',
     su_cron_expression = str ''* * * * *'', su_recipients = str ''a@x'', su_cc_recipients = [],
     su_subject_template = str ''s'', su_body_template = str ''b'', su_send_mode = str ''summary'',
     su_query_timeout_seconds = int_str 30, su_max_rows = int_str 500, su_enabled = Some (str ''on''),
     su_dynamic_recipient_field = [], su_dynamic_cc_field = [], su_suppress_duplicates = None,
     su_suppression_key_field = [], su_suppression_window_hours = 24\<rparr>"

definition sample_smtp_submission :: smtp_submission where
  "sample_smtp_submission = \<lparr>mb_host = str ''mail'', mb_port = int_str 587, mb_username = [], mb_password = [],
     mb_sender = str ''a@x'', mb_use_tls = Some (str ''on''), mb_use_ssl = None, mb_enabled = Some (str ''on''),
     mb_timeout_seconds = int_str 10\<rparr>"

definition sample_source_submission :: source_submission where
  "sample_source_submission = \<lparr>sb_name = str ''erp'', sb_host = str ''db'', sb_port = int_str 1433, sb_database = [],
     sb_username = [], sb_password = [], sb_enabled = Some (str ''on''),
     sb_connect_timeout_seconds = int_str 10, sb_odbc_driver = [], sb_server_override = [], sb_encrypt = str ''yes'',
     sb_trust_server_certificate = None, sb_extra_params = []\<rparr>"

text \<open>A library environment, and three requests in a row.\<close>

definition desk :: "(nat, nat, unit, unit) service_env" where
  "desk = \<lparr>surroundings = quiet_env, sqlglot_lib = sample_sqlglot,
     odbc_driver_lib = \<lparr>pyodbc_import = None, run_batch = (\<lambda>_ _ _. eraise (OtherError [] [])),
                        connection_exit = ereturn ()\<rparr>,
     odbc_available = True,
     smtp_library = \<lparr>smtp_ssl_connect = (\<lambda>_ _ _. ereturn ()), smtp_connect = (\<lambda>_ _ _. ereturn ()),
        smtp_starttls = (\<lambda>_. ereturn ()), smtp_login = (\<lambda>_ _ _. ereturn ()),
        smtp_transport = \<lparr>header_value = (\<lambda>_ v. Inr v), mime_string = (\<lambda>m. Inr (mime_html m)),
          client_factory = ereturn (), client_sendmail = (\<lambda>_ _ _ _. ereturn []),
          client_quit = (\<lambda>_. None), client_close = (\<lambda>_. None)\<rparr>\<rparr>,
     jinja_lib = (\<lambda>_ t _. Inr t), fernet = unary_fernet, secret_key = [], rule_execution_lease_seconds = 7200\<rparr>"

definition desk_serve :: "config_request \<Rightarrow> world \<Rightarrow> world" where
  "desk_serve req w = snd (serve desk sample_routes sample_json req w)"

definition desk_world :: world where
  "desk_world = desk_serve (CreateRule sample_submission)
     (desk_serve (CreateSmtp sample_smtp_submission)
       (desk_serve (CreateSource sample_source_submission) (new_world empty_db)))"

lemma desk_surroundings [simp]: "surroundings desk = quiet_env" "sqlglot_lib desk = sample_sqlglot"
  by (simp_all add: desk_def)

lemma quiet_fresh_ids: "fresh_ids quiet_env"
  unfolding fresh_ids_def
proof
  fix ids :: "int option list"
  let ?m = "Max (insert 0 (the ` (set ids - {None})))"
  have "i \<le> ?m" if "Some i \<in> set ids" for i
  proof (rule Max_ge)
    show "i \<in> insert 0 (the ` (set ids - {None}))"
      using that by (force intro: image_eqI [where x = "Some i"])
  qed simp
  then show "Some (assign_id quiet_env ids) \<notin> set ids"
    by (fastforce simp: quiet_env_def)
qed

lemma sample_keeps_rules: "keeps_rules sample_routes"
  by (simp add: keeps_rules_def sample_routes_def)

lemma desk_step:
  "request_ok req \<Longrightarrow> config_step desk sample_routes sample_json w (desk_serve req w)"
  unfolding desk_serve_def by (rule served [of req _ _ _ _ "fst (serve desk sample_routes sample_json req w)"]) simp_all

lemma desk_steps:
  "(config_step desk sample_routes sample_json)\<^sup>*\<^sup>* v w \<Longrightarrow> request_ok req
     \<Longrightarrow> (config_step desk sample_routes sample_json)\<^sup>*\<^sup>* v (desk_serve req w)"
  by (erule rtranclp.rtrancl_into_rtrancl) (rule desk_step)

lemma desk_reaches:
  "(config_step desk sample_routes sample_json)\<^sup>*\<^sup>* (new_world empty_db) desk_world"
  unfolding desk_world_def
  by (intro desk_steps rtranclp.rtrancl_refl) (simp_all add: hours_small_def sample_submission_def)

text \<open>The three requests are accepted one after the other.\<close>

lemmas serve_eval = with_session_def ebind_def ereturn_def elift_def utc_now_def db_query_def
  db_calls_run [OF no_faults_quiet_env]

definition desk1 :: world where
  "desk1 = desk_serve (CreateSource sample_source_submission) (new_world empty_db)"

definition desk2 :: world where
  "desk2 = desk_serve (CreateSmtp sample_smtp_submission) desk1"

lemma encrypt_empty: "encrypt_secret desk [] w = (Inr [], w)"
  by (simp add: encrypt_secret_def desk_def unary_fernet_def from_key_material_def encode_res_def encrypt_def decode_res_def)

lemma desk_source_accepted:
  "fst (create_sql_server_settings desk sample_routes sample_source_submission (new_world empty_db)) = Inr to_settings"
  by (simp add: create_sql_server_settings_def serve_eval parse_sql_connection_values_def parse_two_Inr
    parse_bounded_int_str parse_two_def sample_source_submission_def source_named_query_def encrypt_empty empty_db_def Let_def)

lemma desk_smtp_accepted:
  "fst (create_smtp_settings desk sample_routes sample_smtp_submission w) = Inr to_settings"
  by (simp add: create_smtp_settings_def serve_eval check_smtp_submission_def parse_smtp_values_def parse_two_Inr
    parse_bounded_int_str parse_two_def sample_smtp_submission_def encrypt_empty Let_def
    rollback_on_error_def ecatch_def is_checked_def disable_if_def)

lemma desk1_sources:
  "\<exists>s. data_sources (committed desk1) = [s] \<and> ds_id s = Some 1 \<and> ds_enabled s"
  "alert_rules (committed desk1) = []"
proof -
  have "source_created quiet_env sample_routes sample_source_submission empty_db (committed desk1)"
    using create_sql_server_settings_settles [of "new_world empty_db" desk sample_routes sample_source_submission]
      desk_source_accepted by (simp add: settles_def desk1_def desk_serve_def)
  then show "\<exists>s. data_sources (committed desk1) = [s] \<and> ds_id s = Some 1 \<and> ds_enabled s"
      "alert_rules (committed desk1) = []"
    by (auto simp: source_created_def insert_source_def empty_db_def quiet_env_def source_of_submission_def
        sample_source_submission_def is_checked_def)
qed

lemma desk2_tables:
  "data_sources (committed desk2) = data_sources (committed desk1)"
  "\<exists>c \<in> set (smtp_configs (committed desk2)). sc_enabled c"
  "alert_rules (committed desk2) = []"
proof -
  have "smtp_created quiet_env sample_routes sample_smtp_submission (committed desk1) (committed desk2)"
    using create_smtp_settings_settles [of desk1 desk sample_routes sample_smtp_submission]
      desk_smtp_accepted by (simp add: settles_def desk2_def desk_serve_def)
  then show "data_sources (committed desk2) = data_sources (committed desk1)"
      "\<exists>c \<in> set (smtp_configs (committed desk2)). sc_enabled c"
      "alert_rules (committed desk2) = []"
    using desk1_sources(2)
    by (auto simp: smtp_created_def insert_smtp_def disable_when_def disable_other_smtp_configs_def
        smtp_of_submission_def sample_smtp_submission_def is_checked_def)
qed

lemma sample_submission_acceptable:
  assumes "db_get ds_id 1 sources \<noteq> None"
  shows "submission_ok sample_routes sample_sqlglot sources sample_submission 1 SUMMARY 30 500"
  using sample_valid assms
  by (simp add: submission_ok_def sample_submission_def py_int_small fits_int64_def validate_select_only_sql_def
      sample_routes_def send_mode_of_value_def send_modes_def is_checked_def)
    (simp add: has_recipient_text_def strip_def lstrip_def rstrip_def is_space_def str_def)

lemma create_rule_accepts:
  assumes E: "no_faults E" and hours: "hours_small s"
    and ok: "submission_ok R G (data_sources (committed w)) s source_id mode timeout rows"
    and fits: "fits_int64 (su_suppression_window_hours s)"
  shows "fst (create_rule E R G s w) = Inr (Redirect (str ''/rules''))"
proof -
  have "validate_rule_form E R G (submitted_rule_form s) (open_session w)
      = (Inr (Inr (source_id, mode), limits_form s timeout rows), tick (open_session w))"
    by (rule validate_rule_form_complete) (use E hours ok in \<open>simp_all add: hours_small_def\<close>)
  then show ?thesis
    using fits
    by (simp add: create_rule_def with_session_def ebind_def limits_form_ints [OF ok] elift_def utc_now_def
        add_rule_def rule_of_submission_def sqlite_int_def db_calls_run [OF E] ereturn_def)
qed

lemma update_rule_accepts:
  assumes E: "no_faults E" and hours: "hours_small s"
    and fits: "fits_int64 (su_suppression_window_hours s)" "fits_int64 i"
    and rule: "db_get ar_id i (alert_rules (committed w)) = Some rule" "ar_archived_at rule = None"
    and ok: "submission_ok R G (data_sources (committed w)) s source_id mode timeout rows"
  shows "fst (update_rule E R G L username i s w) = Inr (Redirect (str ''/rules''))"
proof -
  let ?w = "tick (open_session w)"
  have find: "get_active_rule E i (open_session w) = (Inr (Some rule), ?w)"
    using rule E fits by (simp add: get_active_rule_def db_query_by_fits ebind_def db_query_def db_calls_run ereturn_def tick_def)
  have "validate_rule_form E R G (submitted_rule_form s) ?w = (Inr (Inr (source_id, mode), limits_form s timeout rows), tick ?w)"
    by (rule validate_rule_form_complete) (use E hours ok in \<open>simp_all add: hours_small_def\<close>)
  then show ?thesis
    using fits
    by (simp add: update_rule_def sqlite_int_def with_active_rule_def with_session_def ebind_def find limits_form_ints [OF ok] elift_def
        create_rule_version_def utc_now_def db_query_def db_calls_run [OF E] ereturn_def)
qed

lemma desk_world_steps: "desk_world = desk_serve (CreateRule sample_submission) desk2"
  by (simp add: desk_world_def desk1_def desk2_def)

lemma desk2_acceptable:
  "submission_ok sample_routes sample_sqlglot (data_sources (committed desk2)) sample_submission 1 SUMMARY 30 500"
  by (rule sample_submission_acceptable) (use desk1_sources(1) desk2_tables(1) in \<open>auto simp: db_get_def\<close>)

lemma sample_hours: "hours_small sample_submission" "fits_int64 (su_suppression_window_hours sample_submission)"
  by (simp_all add: hours_small_def fits_int64_def sample_submission_def)

lemma desk_world_tables:
  "data_sources (committed desk_world) = data_sources (committed desk2)"
  "smtp_configs (committed desk_world) = smtp_configs (committed desk2)"
  "\<exists>rule. alert_rules (committed desk_world) = [rule] \<and> ar_id rule = Some 1 \<and> ar_archived_at rule = None"
proof -
  have "fst (create_rule quiet_env sample_routes sample_sqlglot sample_submission desk2) = Inr (Redirect (str ''/rules''))"
    by (rule create_rule_accepts [OF no_faults_quiet_env sample_hours(1) desk2_acceptable sample_hours(2)])
  with create_rule_settles [OF sample_hours(1), of desk2 quiet_env sample_routes sample_sqlglot]
  have "rule_created quiet_env sample_routes sample_sqlglot sample_submission (committed desk2) (committed desk_world)"
    by (simp add: settles_def desk_world_steps desk_serve_def)
  then show "data_sources (committed desk_world) = data_sources (committed desk2)"
    "smtp_configs (committed desk_world) = smtp_configs (committed desk2)"
    "\<exists>rule. alert_rules (committed desk_world) = [rule] \<and> ar_id rule = Some 1 \<and> ar_archived_at rule = None"
    using desk2_tables(3)
    by (auto simp: rule_created_def insert_rule_def rule_of_submission_def quiet_env_def)
qed

lemma desk_world_rule:
  "\<exists>i rule. db_get ar_id i (alert_rules (committed desk_world)) = Some rule \<and> ar_archived_at rule = None
     \<and> fits_int64 i"
  using desk_world_tables(3) by (intro exI [of _ 1]) (auto simp: db_get_def fits_int64_def)

section \<open>Refinement and invariant\<close>

text \<open>
  C12. Whatever call of a request fails and however often, the request either redirects and has made
  exactly a change its specification allows, or it answers anything else or raises, and the stored
  configuration is what it was: creating, changing, archiving and importing rules, and creating,
  changing and deleting data sources and mail servers.
\<close>

theorem requests_refine_specification:
  assumes "request_ok req"
  shows "settles (committed w) (config_effect S R L req (committed w)) (serve S R L req w)"
  using assms by (rule serve_settles)

theorem requests_refine_specification_witness:
  "settles (committed desk_world)
     (config_effect desk sample_routes sample_json (UpdateRule (str ''admin'') 1 sample_submission) (committed desk_world))
     (serve desk sample_routes sample_json (UpdateRule (str ''admin'') 1 sample_submission) desk_world)"
  by (rule requests_refine_specification) (simp add: hours_small_def sample_submission_def)

text \<open>
  C11. Every configuration the requests can lead to from an empty database is well formed: each stored
  rule, archived or not, is one the validation accepts and refers to a data source that exists, ports
  and timeouts are in range, at most one mail server is enabled and none uses TLS and SSL together,
  names and identifiers of data sources are unique, and the versions of a rule count 1, 2, 3, ...
\<close>

theorem configuration_invariant:
  assumes "fresh_ids (surroundings S)" and "keeps_rules R"
    and "(config_step S R L)\<^sup>*\<^sup>* (new_world empty_db) w"
  shows "config_ok R (sqlglot_lib S) (committed w)"
  by (rule config_steps_ok [OF assms(1,2) _ assms(3)]) (simp add: config_ok_empty)

theorem configuration_invariant_witness: "config_ok sample_routes sample_sqlglot (committed desk_world)"
  using configuration_invariant [OF _ sample_keeps_rules desk_reaches] quiet_fresh_ids by simp

section \<open>The clients of a rule\<close>

lemma config_ok_clients:
  assumes ok: "config_ok R G (working v)" and quiet: "fault E (ticks v) = None"
  shows "\<forall>rule \<in> set (alert_rules (working v)). \<exists>ds \<in> set (data_sources (working v)).
      ds_id ds = Some (ar_data_source_id rule)
      \<and> (ds_enabled ds \<longrightarrow> fst (get_enabled_data_source E rule v) = Inr ds)"
    and "c \<in> set (smtp_configs (working v)) \<Longrightarrow> sc_enabled c \<Longrightarrow> fst (get_enabled_smtp_config E v) = Inr c"
proof -
  show "\<forall>rule \<in> set (alert_rules (working v)). \<exists>ds \<in> set (data_sources (working v)).
      ds_id ds = Some (ar_data_source_id rule)
      \<and> (ds_enabled ds \<longrightarrow> fst (get_enabled_data_source E rule v) = Inr ds)"
  proof
    fix rule
    assume "rule \<in> set (alert_rules (working v))"
    with ok obtain ds where ds: "db_get ds_id (ar_data_source_id rule) (data_sources (working v)) = Some ds"
      by (auto simp: config_ok_def rules_ok_def list_all_iff has_source_def)
    have query: "db_query E (\<lambda>d. db_get ds_id (ar_data_source_id rule) (data_sources d)) v = (Inr (Some ds), tick v)"
      using quiet ds by (simp add: db_query_Inr)
    show "\<exists>ds \<in> set (data_sources (working v)). ds_id ds = Some (ar_data_source_id rule)
        \<and> (ds_enabled ds \<longrightarrow> fst (get_enabled_data_source E rule v) = Inr ds)"
      using db_get_Some [OF ds] query
      by (intro bexI [of _ ds]) (simp_all add: get_enabled_data_source_def ebind_def ereturn_def)
  qed
next
  assume c: "c \<in> set (smtp_configs (working v))" "sc_enabled c"
  have "length (filter sc_enabled (smtp_configs (working v))) \<le> 1"
    using ok by (simp add: config_ok_def smtp_ok_def)
  moreover have "c \<in> set (filter sc_enabled (smtp_configs (working v)))" using c by simp
  ultimately have one: "filter sc_enabled (smtp_configs (working v)) = [c]"
    by (cases "filter sc_enabled (smtp_configs (working v))") auto
  have "db_query E (\<lambda>d. take 2 (filter sc_enabled (smtp_configs d))) v = (Inr [c], tick v)"
    using quiet one by (simp add: db_query_Inr)
  then show "fst (get_enabled_smtp_config E v) = Inr c"
    by (simp add: get_enabled_smtp_config_def ebind_def ereturn_def)
qed

text \<open>
  C15. In every reachable configuration the executor finds what a rule needs: the rule's data source
  exists and is returned when it is enabled, and an enabled mail server is the one returned, never a
  conflict, whichever requests came before.
\<close>

theorem reachable_rules_have_clients:
  assumes "fresh_ids (surroundings S)" and "keeps_rules R"
    and "(config_step S R L)\<^sup>*\<^sup>* (new_world empty_db) w"
    and "working v = committed w" and "fault E (ticks v) = None"
  shows "(\<forall>rule \<in> set (alert_rules (committed w)). \<exists>ds \<in> set (data_sources (committed w)).
      ds_id ds = Some (ar_data_source_id rule)
      \<and> (ds_enabled ds \<longrightarrow> fst (get_enabled_data_source E rule v) = Inr ds))
    \<and> (\<forall>c \<in> set (smtp_configs (committed w)). sc_enabled c \<longrightarrow> fst (get_enabled_smtp_config E v) = Inr c)"
proof -
  have "config_ok R (sqlglot_lib S) (committed w)"
    by (rule config_steps_ok [OF assms(1,2) _ assms(3)]) (simp add: config_ok_empty)
  then show ?thesis
    using config_ok_clients [of R "sqlglot_lib S" v E] assms(4,5) by auto
qed

theorem reachable_rules_have_clients_witness:
  "\<exists>rule ds c. rule \<in> set (alert_rules (committed desk_world))
    \<and> fst (get_enabled_data_source quiet_env rule (open_session desk_world)) = Inr ds
    \<and> fst (get_enabled_smtp_config quiet_env (open_session desk_world)) = Inr c"
proof -
  have clients: "(\<forall>rule \<in> set (alert_rules (committed desk_world)). \<exists>ds \<in> set (data_sources (committed desk_world)).
      ds_id ds = Some (ar_data_source_id rule)
      \<and> (ds_enabled ds \<longrightarrow> fst (get_enabled_data_source quiet_env rule (open_session desk_world)) = Inr ds))
    \<and> (\<forall>c \<in> set (smtp_configs (committed desk_world)).
        sc_enabled c \<longrightarrow> fst (get_enabled_smtp_config quiet_env (open_session desk_world)) = Inr c)"
    by (rule reachable_rules_have_clients [OF _ sample_keeps_rules desk_reaches])
      (simp_all add: quiet_fresh_ids no_faultsD [OF no_faults_quiet_env])
  obtain rule where "rule \<in> set (alert_rules (committed desk_world))" using desk_world_tables(3) by auto
  with clients desk_world_tables(1,2) desk1_sources(1) desk2_tables(1,2) show ?thesis by fastforce
qed

section \<open>The history of a rule\<close>

text \<open>
  C14. A rule is never changed without a trace: when a change is accepted, one version is appended to
  the rule's history in the same transaction, with the next number, the administrator's name and a
  snapshot of the rule as it was before; every other rule and its history stay as they are. When the
  change is refused or any call fails, nothing at all has changed.
\<close>

theorem rule_changes_are_kept:
  assumes "hours_small s" and "config_ok R G (committed w)"
  shows "case update_rule E R G L username i s w of
      (Inr (Redirect url), w') \<Rightarrow>
        (\<exists>rule v. db_get ar_id i (alert_rules (committed w)) = Some rule
          \<and> versions_of i (committed w') = versions_of i (committed w) @ [v]
          \<and> rv_snapshot_json v = jl_dumps L (rule_snapshot L rule) \<and> rv_changed_by v = username
          \<and> rv_version_number v = int (length (versions_of i (committed w))) + 1
          \<and> (\<forall>j. j \<noteq> i \<longrightarrow> versions_of j (committed w') = versions_of j (committed w)
               \<and> db_get ar_id j (alert_rules (committed w')) = db_get ar_id j (alert_rules (committed w))))
    | (_, w') \<Rightarrow> committed w' = committed w"
proof -
  obtain r w' where run: "update_rule E R G L username i s w = (r, w')"
    by (cases "update_rule E R G L username i s w")
  have settled: "settles (committed w) (rule_changed E R G L username i s (committed w)) (r, w')"
    using update_rule_settles [OF assms(1), of w E R G L username i] run by simp
  show ?thesis
  proof (cases "\<exists>url. r = Inr (Redirect url)")
    case False
    with settled run show ?thesis
      by (auto simp: settles_def saved_def split: sum.splits reply.splits)
  next
    case True
    then have "rule_changed E R G L username i s (committed w) (committed w')"
      using settled by (auto simp: settles_def)
    then obtain rule source_id mode timeout rows changed now where
        rule: "db_get ar_id i (alert_rules (committed w)) = Some rule"
      and w': "committed w' = replace_rule i (apply_submission s source_id mode timeout rows now)
        (insert_version E (rule_version_of E L username i rule changed (committed w)) (committed w))"
      unfolding rule_changed_def by blast
    have other: "db_get ar_id j (update_first (\<lambda>r. ar_id r = Some i) f rs) = db_get ar_id j rs"
      if "j \<noteq> i" and "\<And>r. ar_id (f r) = ar_id r" for j f and rs :: "alert_rule list"
      unfolding db_get_def by (rule find_update_other) (use that in auto)
    have numbers: "consecutive (versions_of i (committed w))"
      using assms(2) by (simp add: config_ok_def history_ok_iff)
    have versions: "versions_of j (committed w') =
        versions_of j (insert_version E (rule_version_of E L username i rule changed (committed w)) (committed w))" for j
      by (simp add: w' replace_rule_def versions_of_def)
    have rules: "alert_rules (committed w') = update_first (\<lambda>r. ar_id r = Some i)
        (apply_submission s source_id mode timeout rows now) (alert_rules (committed w))"
      by (simp add: w' replace_rule_def insert_version_def)
    show ?thesis
      using True rule other
      by (auto simp: run versions versions_of_insert rules rule_version_of_def next_number [OF numbers]
          apply_submission_def)
  qed
qed

theorem rule_changes_are_kept_witness:
  "\<exists>i url w' rule v.
     update_rule quiet_env sample_routes sample_sqlglot sample_json (str ''admin'') i sample_submission desk_world
       = (Inr (Redirect url), w')
     \<and> db_get ar_id i (alert_rules (committed desk_world)) = Some rule
     \<and> versions_of i (committed w') = versions_of i (committed desk_world) @ [v]
     \<and> rv_snapshot_json v = jl_dumps sample_json (rule_snapshot sample_json rule) \<and> rv_changed_by v = str ''admin''"
proof -
  let ?update = "update_rule quiet_env sample_routes sample_sqlglot sample_json (str ''admin'')"
  obtain i rule where rule: "db_get ar_id i (alert_rules (committed desk_world)) = Some rule" "ar_archived_at rule = None"
    and i: "fits_int64 i"
    using desk_world_rule by blast
  have "config_ok sample_routes sample_sqlglot (committed desk_world)"
    using config_steps_ok [OF _ sample_keeps_rules _ desk_reaches] quiet_fresh_ids
      config_ok_empty [of sample_routes sample_sqlglot] by simp
  note kept = rule_changes_are_kept [OF sample_hours(1) this, where E = quiet_env and L = sample_json and i = i
      and username = "str ''admin''"]
  have ok: "submission_ok sample_routes sample_sqlglot (data_sources (committed desk_world)) sample_submission 1 SUMMARY 30 500"
    using desk2_acceptable desk_world_tables(1) by simp
  obtain w' where run: "?update i sample_submission desk_world = (Inr (Redirect (str ''/rules'')), w')"
    using update_rule_accepts [OF no_faults_quiet_env sample_hours i rule ok, where L = sample_json and username = "str ''admin''"]
    by (cases "?update i sample_submission desk_world") simp
  show ?thesis
    using kept unfolding run prod.case sum.case reply.case
    by (intro exI [of _ i] exI [of _ "str ''/rules''"] exI [of _ w'] exI [of _ rule]) (auto simp: run rule(1))
qed

text \<open>
  Nothing is ever forgotten: whatever requests follow, each rule of the table keeps its place
  (archiving included) and each recorded version stays, unaltered and in order.
\<close>

theorem rules_and_history_only_grow:
  assumes "(config_step S R L)\<^sup>*\<^sup>* w w'"
  shows "prefix (rule_versions (committed w)) (rule_versions (committed w'))
    \<and> prefix (map ar_id (alert_rules (committed w))) (map ar_id (alert_rules (committed w')))"
  using grows_steps [OF assms] by (simp add: grows_def)

theorem rules_and_history_only_grow_witness:
  "prefix (rule_versions empty_db) (rule_versions (committed desk_world))
    \<and> prefix (map ar_id (alert_rules empty_db)) (map ar_id (alert_rules (committed desk_world)))"
  using rules_and_history_only_grow [OF desk_reaches] by simp

section \<open>The validation of a rule\<close>

text \<open>
  C13. The validation is neither too strict nor too lax: when no call fails, a submitted rule is stored,
  and the browser sent on to the list of rules, exactly when the rule has readable limits in range, one
  harmless query, a send mode that exists and admits its dynamic recipient, somebody to write to, a
  schedule the scheduler accepts, a data source that exists, a key and a positive window if it
  suppresses duplicates, and a window SQLite can hold. Storing it is one new row with a fresh
  identifier behind the others, with what was submitted; otherwise nothing changes.
\<close>

theorem create_rule_accepts_exactly:
  assumes "no_faults E" and "hours_small s" and "create_rule E R G s w = (r, w')"
  shows "if fits_int64 (su_suppression_window_hours s)
       \<and> (\<exists>source_id mode timeout rows. submission_ok R G (data_sources (committed w)) s source_id mode timeout rows)
     then r = Inr (Redirect (str ''/rules''))
       \<and> (\<exists>source_id mode timeout rows created updated.
            submission_ok R G (data_sources (committed w)) s source_id mode timeout rows
            \<and> committed w' = (committed w)\<lparr>alert_rules := alert_rules (committed w) @
                [(rule_of_submission s source_id mode timeout rows created updated)
                   \<lparr>ar_id := Some (assign_id E (map ar_id (alert_rules (committed w))))\<rparr>]\<rparr>)
     else r \<noteq> Inr (Redirect (str ''/rules'')) \<and> committed w' = committed w"
proof -
  have settled: "settles (committed w) (rule_created E R G s (committed w)) (r, w')"
    using create_rule_settles [OF assms(2), of w E R G] assms(3) by simp
  show ?thesis
  proof (cases "fits_int64 (su_suppression_window_hours s)
       \<and> (\<exists>source_id mode timeout rows. submission_ok R G (data_sources (committed w)) s source_id mode timeout rows)")
    case True
    then have r: "r = Inr (Redirect (str ''/rules''))"
      using create_rule_accepts [OF assms(1,2)] assms(3) by force
    with settled have "rule_created E R G s (committed w) (committed w')"
      by (simp add: settles_def)
    with True r show ?thesis unfolding rule_created_def insert_rule_def by auto
  next
    case False
    then have none: "\<not> rule_created E R G s (committed w) d" for d
      unfolding rule_created_def by blast
    with settled have "committed w' = committed w"
      by (auto simp: settles_def saved_def split: sum.splits reply.splits)
    moreover have "r \<noteq> Inr (Redirect (str ''/rules''))"
      using settled none by (auto simp: settles_def)
    ultimately show ?thesis using False by auto
  qed
qed

theorem create_rule_accepts_exactly_witness:
  "\<exists>w' rule. create_rule quiet_env sample_routes sample_sqlglot sample_submission (new_world office_db)
       = (Inr (Redirect (str ''/rules'')), w')
     \<and> alert_rules (committed w') = alert_rules office_db @ [rule] \<and> ar_name rule = str ''r''"
proof -
  obtain r w' where run: "create_rule quiet_env sample_routes sample_sqlglot sample_submission (new_world office_db) = (r, w')"
    by (cases "create_rule quiet_env sample_routes sample_sqlglot sample_submission (new_world office_db)")
  have "submission_ok sample_routes sample_sqlglot (data_sources (committed (new_world office_db)))
      sample_submission 1 SUMMARY 30 500"
    by (rule sample_submission_acceptable) (simp add: office_db_def db_get_def table_source_def)
  then have ok: "fits_int64 (su_suppression_window_hours sample_submission)
      \<and> (\<exists>source_id mode timeout rows. submission_ok sample_routes sample_sqlglot
           (data_sources (committed (new_world office_db))) sample_submission source_id mode timeout rows)"
    using sample_hours(2) by blast
  from create_rule_accepts_exactly [OF no_faults_quiet_env sample_hours(1) run, unfolded if_P [OF ok]]
  have "r = Inr (Redirect (str ''/rules''))
    \<and> (\<exists>source_id mode timeout rows created updated.
         committed w' = (committed (new_world office_db))\<lparr>alert_rules := alert_rules (committed (new_world office_db)) @
           [(rule_of_submission sample_submission source_id mode timeout rows created updated)
              \<lparr>ar_id := Some (assign_id quiet_env (map ar_id (alert_rules (committed (new_world office_db)))))\<rparr>]\<rparr>)"
    by blast
  with run show ?thesis
    by (auto simp: rule_of_submission_def sample_submission_def)
qed

end
