(* ===== verification/Password_Change.thy ===== *)
theory Password_Change
  imports Settings_Store Rule_Roundtrip
begin

text \<open>
  The administrator's password: when a change is accepted, and what it does to the account and to
  the sessions that are open in other browsers; and the same of the account command.
\<close>

section \<open>The checks\<close>

lemma password_change_error_Nil:
  "password_change_error B password_hash current_password new_password confirm_password = Inr []
     \<longleftrightarrow> current_password \<noteq> [] \<and> new_password \<noteq> []
         \<and> verify_password (checkpw B) current_password password_hash = Inr True
         \<and> PASSWORD_MIN_LENGTH \<le> length new_password \<and> new_password \<noteq> current_password
         \<and> new_password = confirm_password"
  by (auto simp: password_change_error_def split: sum.splits bool.splits)

section \<open>The outcome\<close>

definition password_changed ::
  "bcrypt_lib \<Rightarrow> int \<Rightarrow> pystr \<Rightarrow> pystr \<Rightarrow> pystr \<Rightarrow> db \<Rightarrow> admin_user \<Rightarrow> db \<Rightarrow> bool" where
  "password_changed B uid current_password new_password confirm_password d user d' \<longleftrightarrow>
     db_get au_id uid (admin_users d) = Some user
     \<and> password_change_error B (au_password_hash user) current_password new_password confirm_password = Inr []
     \<and> (\<exists>h. hash_password (hashpw B) new_password = Inr h \<and> d' = replace_user uid (new_password_hash h) d)"

definition password_outcome ::
  "bcrypt_lib \<Rightarrow> int \<Rightarrow> pystr \<Rightarrow> pystr \<Rightarrow> pystr \<Rightarrow> web_session \<Rightarrow> db \<Rightarrow> reply \<times> web_session \<Rightarrow> db \<Rightarrow> bool" where
  "password_outcome B uid cur new conf session d x d' \<longleftrightarrow>
     (case x of
        (Redirect url, session') \<Rightarrow>
          (\<exists>user. password_changed B uid cur new conf d user d'
             \<and> session' = AList.update ADMIN_SESSION_VERSION_SESSION_KEY (SInt (au_session_version user + 1)) session)
      | (_, session') \<Rightarrow> session' = session \<and> d' = d)"

lemma settings_error_page: "settings_error E R error w = (Inr r, w') \<Longrightarrow> \<exists>c. r = Page 400 (str ''settings.html'') c"
  by (auto simp: settings_error_def settings_reply_def ebind_Inr)

lemma same_db_settings_error: "preserves same_db (settings_error E R error)"
  unfolding settings_error_def settings_reply_def settings_context_def by (auto intro!: same_db_intros)

lemma change_admin_password_runs:
  "case fst (change_admin_password E R B uid cur new conf session w) of
     Inr x \<Rightarrow> password_outcome B uid cur new conf session (committed w) x
       (committed (snd (change_admin_password E R B uid cur new conf session w)))
   | Inl exc \<Rightarrow> committed (snd (change_admin_password E R B uid cur new conf session w)) = committed w"
  unfolding change_admin_password_def
proof (rule with_session_runs, rule run_query)
  let ?found = "db_get au_id uid (admin_users (committed w))"
  let ?Q = "password_outcome B uid cur new conf session (committed w)"
  show "runs (committed w) (committed w)
      (case ?found of
        None \<Rightarrow> ereturn (NotFound ACCOUNT_MISSING, session)
      | Some user \<Rightarrow>
          ebind (elift (password_change_error B (au_password_hash user) cur new conf)) (\<lambda>error.
          if error \<noteq> [] then ebind (settings_error E R error) (\<lambda>r. ereturn (r, session))
          else
            ebind (elift (hash_password (hashpw B) new)) (\<lambda>h.
            ebind (db_exec E (\<lambda>d. ((), replace_user uid (new_password_hash h) d))) (\<lambda>_.
            ebind (db_commit E) (\<lambda>_.
            ereturn (Redirect (str ''/settings?tab=security&changed=1''),
                     AList.update ADMIN_SESSION_VERSION_SESSION_KEY (SInt (au_session_version user + 1)) session))))))
      ?Q"
  proof (cases ?found)
    case None
    then show ?thesis by (auto simp: password_outcome_def intro!: run_return)
  next
    case (Some user)
    have page: "runs (committed w) (committed w) (ebind (settings_error E R error) (\<lambda>r. ereturn (r, session))) ?Q" for error
      by (rule run_same [OF same_db_settings_error,
            where B = "\<lambda>r. \<exists>c. r = Page 400 (str ''settings.html'') c"])
        (auto simp: password_outcome_def dest: settings_error_page intro!: run_return)
    show ?thesis
      using Some
      by (auto simp: password_outcome_def [where x = "(Redirect _, _)"] password_changed_def
          intro!: run_lift run_exec run_commit page)
  qed
qed

lemma new_password_hash_simps [simp]:
  "au_id (new_password_hash h u) = au_id u" "au_password_hash (new_password_hash h u) = h"
  "au_session_version (new_password_hash h u) = au_session_version u + 1"
  by (simp_all add: new_password_hash_def)

lemma replaced_user:
  "db_get au_id uid (admin_users d) = Some user \<Longrightarrow>
     db_get au_id uid (admin_users (replace_user uid (new_password_hash h) d)) = Some (new_password_hash h user)"
  by (simp add: db_get_def replace_user_def find_update_first)

text \<open>A session of an older version is refused, at any time and under any limits.\<close>

lemma old_session_refused:
  assumes "get_user uid = Inr (Some user)" and "session_integer s ADMIN_USER_ID_SESSION_KEY = Some uid"
    and "session_integer s ADMIN_SESSION_VERSION_SESSION_KEY \<noteq> Some (au_session_version user)"
  shows "require_admin st get_user t s = (Inl http_401, [])"
proof -
  have "validate_admin_session s user a b None t = (False, [])" for a b
    using assms(2,3) by (auto simp: validate_admin_session_def invalidate_admin_session_def Let_def)
  then show ?thesis using assms(1,2) by (simp add: require_admin_def)
qed



section \<open>The account command\<close>

text \<open>A new account, or the new password and version of the account of that name.\<close>

definition account_saved :: "env \<Rightarrow> bcrypt_lib \<Rightarrow> pystr \<Rightarrow> pystr \<Rightarrow> db \<Rightarrow> db \<Rightarrow> bool" where
  "account_saved E B username password d d' \<longleftrightarrow>
     (\<exists>h. hash_password (hashpw B) password = Inr h \<and>
        (case find (\<lambda>u. au_username u = username) (admin_users d) of
           None \<Rightarrow> \<exists>created. d' = insert_user E (new_admin username h created) d
         | Some user \<Rightarrow> d' = replace_user (the (au_id user)) (new_password_hash h) d))"

lemma run_last_commit: "Q () d \<Longrightarrow> runs d0 d (db_commit E) Q"
  unfolding runs_def by (rule transactsI) (auto simp: db_commit_def split: option.splits)

lemma upsert_admin_user_runs:
  "case fst (upsert_admin_user E B username password w) of
     Inr u \<Rightarrow> account_saved E B username password (committed w)
       (committed (snd (upsert_admin_user E B username password w)))
   | Inl exc \<Rightarrow> committed (snd (upsert_admin_user E B username password w)) = committed w"
  unfolding upsert_admin_user_def
  by (rule with_session_runs,
      auto simp: account_saved_def intro!: run_query run_lift run_now run_exec run_last_commit split: option.split,
      blast)

section \<open>A concrete change\<close>

definition plain_bcrypt :: bcrypt_lib where
  "plain_bcrypt = \<lparr>hashpw = (\<lambda>b. Inr b), checkpw = (\<lambda>p h. Inr (p = h))\<rparr>"

definition account_db :: db where
  "account_db = empty_db\<lparr>admin_users := [\<lparr>au_id = Some 1, au_username = str ''admin'',
     au_password_hash = replicate 12 97, au_session_version = 3, au_created_at = 0\<rparr>]\<rparr>"

lemma utf8_encode_replicate: "c < 128 \<Longrightarrow> utf8_encode (replicate n c) = Some (replicate n c)"
  by (induction n) (simp_all add: utf8_char_def)

text \<open>When no call fails, an acceptable change is made.\<close>

lemma change_admin_password_accepts:
  assumes E: "no_faults E" and user: "db_get au_id uid (admin_users (committed w)) = Some user"
    and ok: "password_change_error B (au_password_hash user) cur new conf = Inr []"
    and h: "hash_password (hashpw B) new = Inr h"
  shows "\<exists>session' w'. change_admin_password E R B uid cur new conf session w
    = (Inr (Redirect (str ''/settings?tab=security&changed=1''), session'), w')"
  using user ok h
  by (simp add: change_admin_password_def with_session_def ebind_def db_query_def db_calls_run [OF E] elift_def
      ereturn_def)


end
