(* ===== verification/Db_Migration.thy ===== *)
theory Db_Migration
  imports Prelude "HOL-Library.List_Lexorder"
begin

text \<open>
  The schema of the SQLite file and its migration (\<open>src/app/db.py\<close>): the tables with their columns and
  rows, the SQL statements the migration executes, one definition each, the migration itself, and
  \<open>init_db\<close> with its transaction. Any statement may fail, as the argument \<open>F\<close> says by the number of
  the statement. \<open>SQLModel.metadata.create_all\<close> is an argument with its law (\<open>metadata\<close>). Names of
  tables and columns are compared exactly; all versions of the program write them in lower case.
\<close>

section \<open>Values, tables and indexes\<close>

datatype sql_value = VNull | VInt int | VText pystr

text \<open>The order of SQLite: nulls, numbers, texts (by code points).\<close>

instantiation sql_value :: linorder
begin

fun less_eq_sql_value :: "sql_value \<Rightarrow> sql_value \<Rightarrow> bool" where
  "less_eq_sql_value VNull v = True"
| "less_eq_sql_value (VInt i) (VInt j) = (i \<le> j)"
| "less_eq_sql_value (VInt i) (VText t) = True"
| "less_eq_sql_value (VText s) (VText t) = (s \<le> t)"
| "less_eq_sql_value u v = False"

definition less_sql_value :: "sql_value \<Rightarrow> sql_value \<Rightarrow> bool" where
  "less_sql_value u v \<longleftrightarrow> u \<le> v \<and> u \<noteq> v"

instance
proof
  fix u v w :: sql_value
  show antisym: "u \<le> v \<Longrightarrow> v \<le> u \<Longrightarrow> u = v" by (cases u; cases v) auto
  show "u < v \<longleftrightarrow> u \<le> v \<and> \<not> v \<le> u"
    using antisym by (cases u; cases v) (auto simp: less_sql_value_def)
  show "u \<le> u" by (cases u) auto
  show "u \<le> v \<Longrightarrow> v \<le> w \<Longrightarrow> u \<le> w" by (cases u; cases v; cases w) auto
  show "u \<le> v \<or> v \<le> u" by (cases u; cases v) auto
qed

end

type_synonym sql_row = "(pystr \<times> sql_value) list"

record sqlite_table =
  tb_columns :: "pystr list"
  tb_rows :: "sql_row list"

record sqlite_index =
  ix_name :: pystr
  ix_table :: pystr
  ix_columns :: "pystr list"
  ix_unique :: bool
  ix_where :: "(pystr \<times> sql_value) option"

record sqlite_schema =
  sd_tables :: "(pystr \<times> sqlite_table) list"
  sd_indexes :: "sqlite_index list"

definition cell_of :: "string \<Rightarrow> sql_row \<Rightarrow> sql_value" where
  "cell_of c r = (case map_of r (str c) of Some v \<Rightarrow> v | None \<Rightarrow> VNull)"

definition table_names :: "sqlite_schema \<Rightarrow> pystr set" where
  "table_names d = fst ` set (sd_tables d)"

definition columns_of :: "pystr \<Rightarrow> sqlite_schema \<Rightarrow> pystr set" where
  "columns_of t d = (case map_of (sd_tables d) t of Some tb \<Rightarrow> set (tb_columns tb) | None \<Rightarrow> {})"

definition operational_error :: "string \<Rightarrow> exn" where
  "operational_error m = OtherError (str ''OperationalError'') (str m)"

definition integrity_error :: exn where
  "integrity_error = OtherError (str ''IntegrityError'') (str ''UNIQUE constraint failed'')"

section \<open>The statements\<close>

text \<open>\<open>ALTER TABLE t ADD COLUMN c ... DEFAULT v\<close>: the rows of the table read \<open>v\<close>.\<close>

definition with_column :: "pystr \<times> sql_value \<Rightarrow> sqlite_table \<Rightarrow> sqlite_table" where
  "with_column cv tb =
     tb\<lparr>tb_columns := tb_columns tb @ [fst cv], tb_rows := map (\<lambda>r. r @ [cv]) (tb_rows tb)\<rparr>"

definition alter_add_column :: "pystr \<Rightarrow> pystr \<times> sql_value \<Rightarrow> sqlite_schema \<Rightarrow> sqlite_schema res" where
  "alter_add_column t cv d =
     (case map_of (sd_tables d) t of
        None \<Rightarrow> Inl (operational_error ''no such table'')
      | Some tb \<Rightarrow>
          if fst cv \<in> set (tb_columns tb) then Inl (operational_error ''duplicate column name'')
          else Inr (d\<lparr>sd_tables := AList.update t (with_column cv tb) (sd_tables d)\<rparr>))"

text \<open>A statement on the rows of one table that reads the columns \<open>cs\<close>.\<close>

definition change_rows ::
  "pystr \<Rightarrow> string list \<Rightarrow> (sql_row list \<Rightarrow> sql_row list) \<Rightarrow> sqlite_schema \<Rightarrow> sqlite_schema res" where
  "change_rows t cs f d =
     (case map_of (sd_tables d) t of
        None \<Rightarrow> Inl (operational_error ''no such table'')
      | Some tb \<Rightarrow>
          if \<not> set (map str cs) \<subseteq> set (tb_columns tb) then Inl (operational_error ''no such column'')
          else Inr (d\<lparr>sd_tables := AList.update t (tb\<lparr>tb_rows := f (tb_rows tb)\<rparr>) (sd_tables d)\<rparr>))"

text \<open>\<open>CREATE [UNIQUE] INDEX IF NOT EXISTS\<close>; in a unique index null values never collide.\<close>

definition index_key :: "sqlite_index \<Rightarrow> sql_row \<Rightarrow> sql_value list" where
  "index_key ix r = map (\<lambda>c. case map_of r c of Some v \<Rightarrow> v | None \<Rightarrow> VNull) (ix_columns ix)"

definition index_covers :: "sqlite_index \<Rightarrow> sql_row \<Rightarrow> bool" where
  "index_covers ix r = (case ix_where ix of None \<Rightarrow> True | Some (c, v) \<Rightarrow> map_of r c = Some v)"

definition unique_holds :: "sqlite_index \<Rightarrow> sql_row list \<Rightarrow> bool" where
  "unique_holds ix rows \<longleftrightarrow>
     distinct (filter (\<lambda>k. VNull \<notin> set k) (map (index_key ix) (filter (index_covers ix) rows)))"

definition create_index_if_not_exists :: "sqlite_index \<Rightarrow> sqlite_schema \<Rightarrow> sqlite_schema res" where
  "create_index_if_not_exists ix d =
     (case map_of (sd_tables d) (ix_table ix) of
        None \<Rightarrow> Inl (operational_error ''no such table'')
      | Some tb \<Rightarrow>
          if ix_name ix \<in> ix_name ` set (sd_indexes d) then Inr d
          else if \<not> set (ix_columns ix) \<subseteq> set (tb_columns tb) then Inl (operational_error ''no such column'')
          else if ix_unique ix \<and> \<not> unique_holds ix (tb_rows tb) then Inl integrity_error
          else Inr (d\<lparr>sd_indexes := sd_indexes d @ [ix]\<rparr>))"

text \<open>The SMTP update: of the enabled rows only the one latest by \<open>updated_at\<close>, then \<open>id\<close>, stays
  enabled; a comparison with null is not true.\<close>

definition smtp_enabled :: "sql_row \<Rightarrow> bool" where
  "smtp_enabled r \<longleftrightarrow> cell_of ''enabled'' r = VInt 1"

definition smtp_order :: "sql_row \<Rightarrow> sql_value list" where
  "smtp_order r = [cell_of ''updated_at'' r, cell_of ''id'' r]"

definition latest_row :: "sql_row \<Rightarrow> sql_row list \<Rightarrow> sql_row" where
  "latest_row r rs = fold (\<lambda>r best. if smtp_order best < smtp_order r then r else best) rs r"

definition latest_enabled_id :: "sql_row list \<Rightarrow> sql_value" where
  "latest_enabled_id rows =
     (case filter smtp_enabled rows of [] \<Rightarrow> VNull | r # rs \<Rightarrow> cell_of ''id'' (latest_row r rs))"

definition sql_differ :: "sql_value \<Rightarrow> sql_value \<Rightarrow> bool" where
  "sql_differ u v \<longleftrightarrow> u \<noteq> VNull \<and> v \<noteq> VNull \<and> u \<noteq> v"

definition keep_latest_enabled :: "sql_row list \<Rightarrow> sql_row list" where
  "keep_latest_enabled rows =
     (let keep = latest_enabled_id rows
      in map (\<lambda>r. if smtp_enabled r \<and> sql_differ (cell_of ''id'' r) keep
                  then AList.update (str ''enabled'') (VInt 0) r else r) rows)"

text \<open>The suppression delete: per rule and key the row with the greatest id stays.\<close>

definition suppression_group :: "sql_row \<Rightarrow> sql_value list" where
  "suppression_group r = [cell_of ''rule_id'' r, cell_of ''suppression_key'' r]"

definition max_id_of :: "sql_row list \<Rightarrow> sql_value list \<Rightarrow> sql_value" where
  "max_id_of rows g = fold (\<lambda>r m. max (cell_of ''id'' r) m) (filter (\<lambda>r. suppression_group r = g) rows) VNull"

definition sql_not_in :: "sql_value \<Rightarrow> sql_value set \<Rightarrow> bool" where
  "sql_not_in v vs \<longleftrightarrow> vs = {} \<or> (v \<noteq> VNull \<and> VNull \<notin> vs \<and> v \<notin> vs)"

definition keep_last_of_group :: "sql_row list \<Rightarrow> sql_row list" where
  "keep_last_of_group rows =
     (let kept = (\<lambda>r. max_id_of rows (suppression_group r)) ` set rows
      in filter (\<lambda>r. \<not> sql_not_in (cell_of ''id'' r) kept) rows)"

section \<open>The connection\<close>

record sqlite_conn =
  cn_committed :: sqlite_schema
  cn_working :: sqlite_schema
  cn_stmts :: nat

type_synonym stmt_faults = "nat \<Rightarrow> exn option"

definition open_conn :: "sqlite_schema \<Rightarrow> sqlite_conn" where
  "open_conn d = \<lparr>cn_committed = d, cn_working = d, cn_stmts = 0\<rparr>"

definition sql_statement ::
  "stmt_faults \<Rightarrow> (sqlite_schema \<Rightarrow> ('a \<times> sqlite_schema) res) \<Rightarrow> (sqlite_conn, 'a) eff" where
  "sql_statement F f w =
     (let w' = w\<lparr>cn_stmts := Suc (cn_stmts w)\<rparr>
      in case F (cn_stmts w) of
           Some exc \<Rightarrow> (Inl exc, w')
         | None \<Rightarrow> (case f (cn_working w) of
                      Inl exc \<Rightarrow> (Inl exc, w')
                    | Inr (x, d) \<Rightarrow> (Inr x, w'\<lparr>cn_working := d\<rparr>)))"

definition sql_query :: "stmt_faults \<Rightarrow> (sqlite_schema \<Rightarrow> 'a) \<Rightarrow> (sqlite_conn, 'a) eff" where
  "sql_query F g = sql_statement F (\<lambda>d. Inr (g d, d))"

definition sql_update :: "stmt_faults \<Rightarrow> (sqlite_schema \<Rightarrow> sqlite_schema res) \<Rightarrow> (sqlite_conn, unit) eff" where
  "sql_update F f = sql_statement F (\<lambda>d. map_sum id (\<lambda>d'. ((), d')) (f d))"

definition sql_commit :: "stmt_faults \<Rightarrow> (sqlite_conn, unit) eff" where
  "sql_commit F w =
     (case F (cn_stmts w) of
        Some exc \<Rightarrow> (Inl exc, w\<lparr>cn_stmts := Suc (cn_stmts w)\<rparr>)
      | None \<Rightarrow> (Inr (), w\<lparr>cn_committed := cn_working w, cn_stmts := Suc (cn_stmts w)\<rparr>))"

definition sql_rollback :: "stmt_faults \<Rightarrow> (sqlite_conn, unit) eff" where
  "sql_rollback F w =
     (case F (cn_stmts w) of
        Some exc \<Rightarrow> (Inl exc, w\<lparr>cn_stmts := Suc (cn_stmts w)\<rparr>)
      | None \<Rightarrow> (Inr (), w\<lparr>cn_working := cn_committed w, cn_stmts := Suc (cn_stmts w)\<rparr>))"

definition sql_when :: "bool \<Rightarrow> (sqlite_conn, unit) eff \<Rightarrow> (sqlite_conn, unit) eff" where
  "sql_when b m = (if b then m else ereturn ())"

section \<open>The migration\<close>

definition data_source_columns :: "(pystr \<times> sql_value) list" where
  "data_source_columns =
     [(str ''odbc_driver'', VText (str ''ODBC Driver 18 for SQL Server'')), (str ''server_override'', VText []),
      (str ''encrypt'', VText (str ''yes'')), (str ''trust_server_certificate'', VText (str ''no'')),
      (str ''extra_params'', VText [])]"

definition rule_columns :: "(pystr \<times> sql_value) list" where
  "rule_columns =
     [(str ''dynamic_recipient_field'', VText []), (str ''dynamic_cc_field'', VText []),
      (str ''suppress_duplicates'', VInt 0), (str ''suppression_key_field'', VText []),
      (str ''suppression_window_hours'', VInt 24), (str ''archived_at'', VNull)]"

definition heartbeat_columns :: "pystr set" where
  "heartbeat_columns = str ` {''id'', ''worker_id'', ''started_at'', ''last_seen_at'', ''last_sync_ok'', ''last_error''}"

definition LOG_INDEX_STATEMENTS :: "sqlite_index list" where
  "LOG_INDEX_STATEMENTS =
     map (\<lambda>(t, c). \<lparr>ix_name = str (''ix_'' @ t @ ''_'' @ c), ix_table = str t, ix_columns = [str c],
                    ix_unique = False, ix_where = None\<rparr>)
       [(''executionlog'', ''started_at''), (''executionlog'', ''status''), (''executionlog'', ''rule_id''),
        (''maillog'', ''sent_at''), (''maillog'', ''status''), (''maillog'', ''execution_log_id'')]"

definition SMTP_SINGLE_ENABLED_INDEX :: sqlite_index where
  "SMTP_SINGLE_ENABLED_INDEX =
     \<lparr>ix_name = str ''uq_smtpconfig_single_enabled'', ix_table = str ''smtpconfig'',
      ix_columns = [str ''enabled''], ix_unique = True, ix_where = Some (str ''enabled'', VInt 1)\<rparr>"

definition SUPPRESSION_INDEX :: sqlite_index where
  "SUPPRESSION_INDEX =
     \<lparr>ix_name = str ''uq_alertsuppression_rule_key'', ix_table = str ''alertsuppression'',
      ix_columns = [str ''rule_id'', str ''suppression_key''], ix_unique = True, ix_where = None\<rparr>"

definition add_missing_columns ::
  "stmt_faults \<Rightarrow> pystr \<Rightarrow> (pystr \<times> sql_value) list \<Rightarrow> (sqlite_conn, unit) eff" where
  "add_missing_columns F t cvs =
     ebind (sql_query F (columns_of t)) (\<lambda>existing.
       efor (filter (\<lambda>cv. fst cv \<notin> existing) cvs) (\<lambda>cv. sql_update F (alter_add_column t cv)))"

definition heartbeat_incomplete :: "pystr set \<Rightarrow> exn" where
  "heartbeat_incomplete missing =
     RuntimeError (str ''workerheartbeat schema is incomplete: '' @ join (str '', '') (sorted_list_of_set missing))"

definition check_heartbeat_columns :: "stmt_faults \<Rightarrow> (sqlite_conn, unit) eff" where
  "check_heartbeat_columns F =
     ebind (sql_query F (columns_of (str ''workerheartbeat''))) (\<lambda>existing.
       if heartbeat_columns - existing \<noteq> {} then eraise (heartbeat_incomplete (heartbeat_columns - existing))
       else ereturn ())"

definition migrate_sqlite_schema :: "stmt_faults \<Rightarrow> (sqlite_conn, unit) eff" where
  "migrate_sqlite_schema F =
     ebind (sql_query F table_names) (\<lambda>names.
     ebind (sql_when (str ''adminuser'' \<in> names)
       (add_missing_columns F (str ''adminuser'') [(str ''session_version'', VInt 1)])) (\<lambda>_.
     ebind (sql_when (str ''sqldatasource'' \<in> names)
       (add_missing_columns F (str ''sqldatasource'') data_source_columns)) (\<lambda>_.
     ebind (sql_when (str ''alertrule'' \<in> names)
       (add_missing_columns F (str ''alertrule'') rule_columns)) (\<lambda>_.
     ebind (sql_when (str ''smtpconfig'' \<in> names)
       (ebind (sql_update F (change_rows (str ''smtpconfig'') [''enabled'', ''id'', ''updated_at''] keep_latest_enabled))
          (\<lambda>_. sql_update F (create_index_if_not_exists SMTP_SINGLE_ENABLED_INDEX)))) (\<lambda>_.
     ebind (sql_when (str ''workerheartbeat'' \<in> names) (check_heartbeat_columns F)) (\<lambda>_.
     ebind (sql_when ({str ''executionlog'', str ''maillog''} \<subseteq> names)
       (efor LOG_INDEX_STATEMENTS (\<lambda>ix. sql_update F (create_index_if_not_exists ix)))) (\<lambda>_.
     sql_when (str ''alertsuppression'' \<in> names)
       (ebind (sql_update F (change_rows (str ''alertsuppression'') [''id'', ''rule_id'', ''suppression_key''] keep_last_of_group))
          (\<lambda>_. sql_update F (create_index_if_not_exists SUPPRESSION_INDEX))))))))))"

text \<open>The engine of the process: its URL, \<open>(check_same_thread, timeout)\<close> for SQLite, one shared
  connection for a database in memory, and foreign keys switched on in every SQLite connection.\<close>

record db_engine =
  en_url :: pystr
  en_connect_args :: "(bool \<times> int) option"
  en_static_pool :: bool
  en_foreign_keys :: bool

definition create_db_engine :: "pystr \<Rightarrow> pystr option \<Rightarrow> db_engine" where
  "create_db_engine settings_database_url database_url =
     (let url = (case database_url of None \<Rightarrow> settings_database_url
                 | Some u \<Rightarrow> if u = [] then settings_database_url else u);
          sqlite = startswith url (str ''sqlite'')
      in \<lparr>en_url = url, en_connect_args = (if sqlite then Some (False, 30) else None),
          en_static_pool = (url \<in> {str ''sqlite://'', str ''sqlite:///:memory:''}), en_foreign_keys = sqlite\<rparr>)"

definition get_engine :: "pystr \<Rightarrow> db_engine option \<Rightarrow> db_engine \<times> db_engine option" where
  "get_engine settings_database_url engine =
     (case engine of
        None \<Rightarrow> (let e = create_db_engine settings_database_url None in (e, Some e))
      | Some e \<Rightarrow> (e, engine))"

lemma get_engine_once:
  "get_engine url' (snd (get_engine url engine)) = (fst (get_engine url engine), snd (get_engine url engine))"
  by (simp add: get_engine_def Let_def split: option.split)

text \<open>
  \<open>init_db\<close>. Opening the connection may fail; closing it drops what is not committed. Another dialect
  only creates the tables, in a transaction of its own.
\<close>

definition with_sqlite_connection :: "stmt_faults \<Rightarrow> (sqlite_conn, 'a) eff \<Rightarrow> (sqlite_conn, 'a) eff" where
  "with_sqlite_connection F m w =
     (case sql_query F (\<lambda>_. ()) w of
        (Inl exc, w') \<Rightarrow> (Inl exc, w')
      | (Inr _, w') \<Rightarrow>
          (case m (w'\<lparr>cn_working := cn_committed w'\<rparr>) of (r, w'') \<Rightarrow> (r, w''\<lparr>cn_working := cn_committed w''\<rparr>)))"

definition init_db ::
  "stmt_faults \<Rightarrow> (sqlite_schema \<Rightarrow> sqlite_schema res) \<Rightarrow> pystr \<Rightarrow> (sqlite_conn, unit) eff" where
  "init_db F create_all dialect =
     with_sqlite_connection F
       (if dialect = str ''sqlite'' then
          ebind (sql_query F (\<lambda>_. ())) (\<lambda>_.
          ebind
            (ecatch (ebind (sql_update F create_all) (\<lambda>_. migrate_sqlite_schema F))
               (\<lambda>exc. ebind (sql_rollback F) (\<lambda>_. eraise exc))) (\<lambda>_.
          sql_commit F))
        else ebind (sql_update F create_all) (\<lambda>_. sql_commit F))"

text \<open>\<open>ensure_schema_initialized\<close>: the flag of the module is set once \<open>init_db\<close> has returned.\<close>

definition ensure_schema_initialized ::
  "(sqlite_conn, unit) eff \<Rightarrow> (bool \<times> sqlite_conn, unit) eff" where
  "ensure_schema_initialized init s =
     (if fst s then (Inr (), s)
      else case init (snd s) of
             (Inl exc, w) \<Rightarrow> (Inl exc, (False, w))
           | (Inr _, w) \<Rightarrow> (Inr (), (True, w)))"

end
