(* ===== verification/Db_Migration_Theorems.thy ===== *)
theory Db_Migration_Theorems
  imports Db_Migration
begin

text \<open>
  What the migration does to the tables (\<open>migrate_table\<close>, one function of the table), and the
  properties of \<open>init_db\<close>: it refines this function, it is all or nothing whatever statement fails,
  and running it again changes nothing.
\<close>

section \<open>The effect of the migration on a table\<close>

definition with_missing :: "(pystr \<times> sql_value) list \<Rightarrow> sqlite_table \<Rightarrow> sqlite_table" where
  "with_missing cvs tb = fold with_column (filter (\<lambda>cv. fst cv \<notin> set (tb_columns tb)) cvs) tb"

definition migrate_table :: "pystr \<Rightarrow> sqlite_table \<Rightarrow> sqlite_table" where
  "migrate_table n tb =
     (if n = str ''adminuser'' then with_missing [(str ''session_version'', VInt 1)] tb
      else if n = str ''sqldatasource'' then with_missing data_source_columns tb
      else if n = str ''alertrule'' then with_missing rule_columns tb
      else if n = str ''smtpconfig'' then tb\<lparr>tb_rows := keep_latest_enabled (tb_rows tb)\<rparr>
      else if n = str ''alertsuppression'' then tb\<lparr>tb_rows := keep_last_of_group (tb_rows tb)\<rparr>
      else tb)"

definition add_index :: "sqlite_index \<Rightarrow> sqlite_index list \<Rightarrow> sqlite_index list" where
  "add_index ix I = (if ix_name ix \<in> ix_name ` set I then I else I @ [ix])"

definition migrate_indexes :: "pystr set \<Rightarrow> sqlite_index list \<Rightarrow> sqlite_index list" where
  "migrate_indexes names I =
     (let I = (if str ''smtpconfig'' \<in> names then add_index SMTP_SINGLE_ENABLED_INDEX I else I);
          I = (if {str ''executionlog'', str ''maillog''} \<subseteq> names then fold add_index LOG_INDEX_STATEMENTS I else I)
      in if str ''alertsuppression'' \<in> names then add_index SUPPRESSION_INDEX I else I)"

lemma with_columns_simps [simp]:
  "tb_columns (fold with_column cvs tb) = tb_columns tb @ map fst cvs"
  "tb_rows (fold with_column cvs tb) = map (\<lambda>r. r @ cvs) (tb_rows tb)"
  by (induction cvs arbitrary: tb) (simp_all add: with_column_def)

lemma add_index_keeps: "set I \<subseteq> set (add_index ix I)" "ix_name ix \<in> ix_name ` set (add_index ix I)"
  by (auto simp: add_index_def)

lemma add_index_known: "ix_name ix \<in> ix_name ` set I \<Longrightarrow> add_index ix I = I"
  by (simp add: add_index_def)

lemma fold_add_index_keeps: "set I \<subseteq> set (fold add_index ixs I)"
proof (induction ixs arbitrary: I)
  case (Cons ix ixs)
  then show ?case using add_index_keeps(1) [of I ix] by (simp add: subset_trans)
qed simp

lemma fold_add_index_names: "ix_name ` set ixs \<subseteq> ix_name ` set (fold add_index ixs I)"
proof (induction ixs arbitrary: I)
  case (Cons ix ixs)
  have "ix_name ix \<in> ix_name ` set (fold add_index ixs (add_index ix I))"
    using add_index_keeps(2) [of ix I] fold_add_index_keeps [of "add_index ix I" ixs] by blast
  with Cons show ?case by simp
qed simp

lemma fold_add_index_known: "ix_name ` set ixs \<subseteq> ix_name ` set I \<Longrightarrow> fold add_index ixs I = I"
  by (induction ixs) (simp_all add: add_index_known)

section \<open>The rows that stay\<close>

lemma mem_filter_set: "x \<in> set (filter P xs) \<longleftrightarrow> x \<in> set xs \<and> P x"
  by auto

lemma same_id_single:
  assumes "distinct (map f xs)" and "\<And>x. x \<in> set xs \<Longrightarrow> f x = k"
  shows "length xs \<le> 1"
  using assms by (cases xs; cases "tl xs") force+

text \<open>The primary keys of a table: never null and never twice.\<close>

definition keyed_rows :: "sql_row list \<Rightarrow> bool" where
  "keyed_rows rows \<longleftrightarrow> distinct (map (cell_of ''id'') rows) \<and> VNull \<notin> cell_of ''id'' ` set rows"

lemma keyed_rows_inj: "keyed_rows rows \<Longrightarrow> inj_on (cell_of ''id'') (set rows)"
  by (simp add: keyed_rows_def distinct_map)

lemma latest_row_is_latest:
  "latest_row r rs \<in> set (r # rs) \<and> (\<forall>s \<in> set (r # rs). smtp_order s \<le> smtp_order (latest_row r rs))"
proof (induction rs arbitrary: r)
  case Nil
  then show ?case by (simp add: latest_row_def)
next
  case (Cons s rs)
  define best where "best = (if smtp_order r < smtp_order s then s else r)"
  have step: "latest_row r (s # rs) = latest_row best rs"
    by (simp add: latest_row_def best_def)
  have le: "smtp_order r \<le> smtp_order best" "smtp_order s \<le> smtp_order best" "best \<in> {r, s}"
    by (auto simp: best_def)
  have "latest_row best rs \<in> set (best # rs)"
      and all: "\<forall>x \<in> set (best # rs). smtp_order x \<le> smtp_order (latest_row best rs)"
    using Cons [of best] by blast+
  moreover have "smtp_order best \<le> smtp_order (latest_row best rs)" using all by simp
  ultimately show ?case unfolding step using le by (auto intro: order_trans)
qed

definition superseded :: "sql_row list \<Rightarrow> sql_row \<Rightarrow> bool" where
  "superseded rows r \<longleftrightarrow> (\<exists>s \<in> set rows. smtp_enabled s \<and> smtp_order r < smtp_order s)"

lemma keep_latest_enabled_eq:
  assumes "keyed_rows rows"
  shows "keep_latest_enabled rows =
    map (\<lambda>r. if smtp_enabled r \<and> superseded rows r then AList.update (str ''enabled'') (VInt 0) r else r) rows"
proof -
  have "smtp_enabled r \<and> sql_differ (cell_of ''id'' r) (latest_enabled_id rows)
      \<longleftrightarrow> smtp_enabled r \<and> superseded rows r" if r: "r \<in> set rows" for r
  proof (cases "smtp_enabled r")
    case True
    with r obtain e es where es: "filter smtp_enabled rows = e # es"
      by (cases "filter smtp_enabled rows") (auto simp: filter_empty_conv)
    define l where "l = latest_row e es"
    have sets: "set (e # es) = {s \<in> set rows. smtp_enabled s}" using es by (metis set_filter)
    have l: "l \<in> set rows" "smtp_enabled l" "\<And>s. s \<in> set rows \<Longrightarrow> smtp_enabled s \<Longrightarrow> smtp_order s \<le> smtp_order l"
      using latest_row_is_latest [of e es] unfolding l_def [symmetric] sets by blast+
    have id: "latest_enabled_id rows = cell_of ''id'' l" by (simp add: latest_enabled_id_def es l_def)
    have "cell_of ''id'' r \<noteq> VNull" "cell_of ''id'' l \<noteq> VNull"
      using assms r l(1) by (force simp: keyed_rows_def image_iff)+
    then have "sql_differ (cell_of ''id'' r) (latest_enabled_id rows) \<longleftrightarrow> r \<noteq> l"
      using keyed_rows_inj [OF assms] r l(1) by (auto simp: sql_differ_def id inj_on_eq_iff)
    also have "r \<noteq> l \<longleftrightarrow> superseded rows r"
    proof
      assume "r \<noteq> l"
      with r l(1) have "cell_of ''id'' r \<noteq> cell_of ''id'' l"
        using keyed_rows_inj [OF assms] by (auto simp: inj_on_eq_iff)
      then have "smtp_order r \<noteq> smtp_order l" by (simp add: smtp_order_def)
      with l(3) [OF r True] have "smtp_order r < smtp_order l" by simp
      with l show "superseded rows r" by (auto simp: superseded_def)
    next
      assume "superseded rows r"
      then obtain s where s: "s \<in> set rows" "smtp_enabled s" "smtp_order r < smtp_order s"
        by (auto simp: superseded_def)
      with l(3) [of s] have "smtp_order r < smtp_order l" by (auto intro: less_le_trans)
      then show "r \<noteq> l" by auto
    qed
    finally show ?thesis using True by simp
  qed simp
  then show ?thesis by (auto simp: keep_latest_enabled_def Let_def)
qed

lemma cell_of_disabled [simp]:
  "cell_of ''enabled'' (AList.update (str ''enabled'') (VInt 0) r) = VInt 0"
  "cell_of ''id'' (AList.update (str ''enabled'') (VInt 0) r) = cell_of ''id'' r"
  "cell_of ''updated_at'' (AList.update (str ''enabled'') (VInt 0) r) = cell_of ''updated_at'' r"
  by (simp_all add: cell_of_def map_of_dict_update)


lemma kept_enabled_filter:
  "filter smtp_enabled (map (\<lambda>r. if smtp_enabled r \<and> P r then AList.update (str ''enabled'') (VInt 0) r else r) rows)
     = filter (\<lambda>r. smtp_enabled r \<and> \<not> P r) rows"
  by (induction rows) (auto simp: smtp_enabled_def)

lemma kept_enabled_rows:
  assumes "keyed_rows rows"
  shows "filter smtp_enabled (keep_latest_enabled rows) = filter (\<lambda>r. smtp_enabled r \<and> \<not> superseded rows r) rows"
  unfolding keep_latest_enabled_eq [OF assms] by (rule kept_enabled_filter)

lemma kept_enabled_single:
  assumes "keyed_rows rows"
  shows "length (filter smtp_enabled (keep_latest_enabled rows)) \<le> 1"
proof -
  let ?k = "filter (\<lambda>r. smtp_enabled r \<and> \<not> superseded rows r) rows"
  have same: "cell_of ''id'' r = cell_of ''id'' s" if "r \<in> set ?k" "s \<in> set ?k" for r s
  proof -
    have "\<not> smtp_order r < smtp_order s" "\<not> smtp_order s < smtp_order r"
      using that by (auto simp: superseded_def)
    then have "smtp_order r = smtp_order s" by simp
    then show ?thesis by (simp add: smtp_order_def)
  qed
  have "distinct (map (cell_of ''id'') ?k)"
    using assms by (simp add: keyed_rows_def distinct_map_filter)
  then have "length ?k \<le> 1"
  proof (rule same_id_single)
    fix r assume r: "r \<in> set ?k"
    then have "hd ?k \<in> set ?k" by (intro hd_in_set) (metis empty_iff empty_set)
    with r show "cell_of ''id'' r = cell_of ''id'' (hd ?k)" by (rule same)
  qed
  then show ?thesis by (simp only: kept_enabled_rows [OF assms])
qed

lemma kept_enabled_keyed: "keyed_rows rows \<Longrightarrow> keyed_rows (keep_latest_enabled rows)"
proof -
  assume keyed: "keyed_rows rows"
  have "map (cell_of ''id'') (keep_latest_enabled rows) = map (cell_of ''id'') rows"
    by (simp add: keep_latest_enabled_eq [OF keyed])
  moreover from this have "cell_of ''id'' ` set (keep_latest_enabled rows) = cell_of ''id'' ` set rows"
    by (metis list.set_map)
  ultimately show ?thesis using keyed unfolding keyed_rows_def by (simp only: simp_thms)
qed

lemma keep_latest_enabled_twice:
  assumes "keyed_rows rows"
  shows "keep_latest_enabled (keep_latest_enabled rows) = keep_latest_enabled rows"
proof -
  let ?k = "keep_latest_enabled rows"
  define K where "K = filter smtp_enabled ?k"
  have "length K \<le> 1" unfolding K_def by (rule kept_enabled_single [OF assms])
  then have "x = y" if "x \<in> set K" "y \<in> set K" for x y
    using that by (cases K; cases "tl K") auto
  then have "\<not> superseded ?k r" if "r \<in> set ?k" "smtp_enabled r" for r
    using that unfolding superseded_def K_def by (metis (mono_tags, lifting) mem_filter_set order_less_irrefl)
  then show ?thesis
    unfolding keep_latest_enabled_eq [OF kept_enabled_keyed [OF assms]] by (intro map_idI) auto
qed

text \<open>Per rule and key the last row.\<close>

definition outnumbered :: "sql_row list \<Rightarrow> sql_row \<Rightarrow> bool" where
  "outnumbered rows r \<longleftrightarrow>
     (\<exists>s \<in> set rows. suppression_group s = suppression_group r \<and> cell_of ''id'' r < cell_of ''id'' s)"

lemma fold_max_ids:
  "fold (\<lambda>r m. max (f r) m) rs m = (m::'b::linorder) \<or> (\<exists>r \<in> set rs. fold (\<lambda>r m. max (f r) m) rs m = f r)"
  by (induction rs arbitrary: m) (fastforce simp: max_def)+

lemma fold_max_ids_ge:
  "(m::'b::linorder) \<le> fold (\<lambda>r m. max (f r) m) rs m \<and> (\<forall>r \<in> set rs. f r \<le> fold (\<lambda>r m. max (f r) m) rs m)"
proof (induction rs arbitrary: m)
  case Nil
  then show ?case by simp
next
  case (Cons r rs)
  have "max (f r) m \<le> fold (\<lambda>r m. max (f r) m) rs (max (f r) m)"
      and "\<forall>s \<in> set rs. f s \<le> fold (\<lambda>r m. max (f r) m) rs (max (f r) m)"
    using Cons by blast+
  then show ?case by auto
qed

lemma max_id_of_group:
  assumes "keyed_rows rows" and "r \<in> set rows"
  obtains s where "s \<in> set rows" "suppression_group s = suppression_group r"
    "max_id_of rows (suppression_group r) = cell_of ''id'' s"
    "\<And>t. t \<in> set rows \<Longrightarrow> suppression_group t = suppression_group r \<Longrightarrow> cell_of ''id'' t \<le> cell_of ''id'' s"
proof -
  let ?G = "filter (\<lambda>s. suppression_group s = suppression_group r) rows"
  let ?m = "max_id_of rows (suppression_group r)"
  have m: "?m = fold (\<lambda>r m. max (cell_of ''id'' r) m) ?G VNull" by (simp add: max_id_of_def)
  have ge: "cell_of ''id'' t \<le> ?m" if "t \<in> set ?G" for t
    using fold_max_ids_ge [of VNull "cell_of ''id''" ?G] that unfolding m by blast
  have "cell_of ''id'' r \<noteq> VNull" using assms by (force simp: keyed_rows_def image_iff)
  moreover have "cell_of ''id'' r \<le> ?m" using ge assms(2) by simp
  ultimately have "?m \<noteq> VNull" by (cases "cell_of ''id'' r") auto
  then obtain s where "s \<in> set ?G" "?m = cell_of ''id'' s"
    using fold_max_ids [of "cell_of ''id''" ?G VNull] unfolding m by blast
  with ge show ?thesis by (intro that [of s]) auto
qed

lemma keep_last_of_group_eq:
  assumes keyed: "keyed_rows rows"
  shows "keep_last_of_group rows = filter (\<lambda>r. \<not> outnumbered rows r) rows"
proof -
  let ?kept = "(\<lambda>r. max_id_of rows (suppression_group r)) ` set rows"
  have no_null: "VNull \<notin> ?kept"
  proof
    assume "VNull \<in> ?kept"
    then obtain q where "q \<in> set rows" "max_id_of rows (suppression_group q) = VNull" by auto
    then obtain s where "s \<in> set rows" "cell_of ''id'' s = VNull"
      using max_id_of_group [OF keyed] by metis
    with keyed show False by (force simp: keyed_rows_def image_iff)
  qed
  have "sql_not_in (cell_of ''id'' r) ?kept \<longleftrightarrow> outnumbered rows r" if r: "r \<in> set rows" for r
  proof -
    have id: "cell_of ''id'' r \<noteq> VNull" using keyed r by (force simp: keyed_rows_def image_iff)
    obtain s where s: "s \<in> set rows" "suppression_group s = suppression_group r"
        "max_id_of rows (suppression_group r) = cell_of ''id'' s"
        "\<And>t. t \<in> set rows \<Longrightarrow> suppression_group t = suppression_group r \<Longrightarrow> cell_of ''id'' t \<le> cell_of ''id'' s"
      using max_id_of_group [OF keyed r] by blast
    have "cell_of ''id'' r \<in> ?kept \<longleftrightarrow> \<not> outnumbered rows r"
    proof
      assume "cell_of ''id'' r \<in> ?kept"
      then obtain q where q: "q \<in> set rows" "cell_of ''id'' r = max_id_of rows (suppression_group q)" by auto
      obtain u where u: "u \<in> set rows" "suppression_group u = suppression_group q"
          "max_id_of rows (suppression_group q) = cell_of ''id'' u"
          "\<And>t. t \<in> set rows \<Longrightarrow> suppression_group t = suppression_group q \<Longrightarrow> cell_of ''id'' t \<le> cell_of ''id'' u"
        using max_id_of_group [OF keyed q(1)] by blast
      have "u = r" using keyed_rows_inj [OF keyed] u(1,3) q(2) r by (auto simp: inj_on_eq_iff)
      with u show "\<not> outnumbered rows r" by (fastforce simp: outnumbered_def not_less)
    next
      assume "\<not> outnumbered rows r"
      with s(1,2) have "cell_of ''id'' s \<le> cell_of ''id'' r" by (auto simp: outnumbered_def)
      with s(4) [OF r refl] have "cell_of ''id'' r = cell_of ''id'' s" by simp
      with s(3) r show "cell_of ''id'' r \<in> ?kept" by force
    qed
    with id no_null r show ?thesis by (auto simp: sql_not_in_def)
  qed
  then show ?thesis
    unfolding keep_last_of_group_def Let_def by (intro filter_cong) auto
qed


lemma kept_groups_distinct:
  assumes "keyed_rows rows"
  shows "distinct (map suppression_group (keep_last_of_group rows))"
  unfolding keep_last_of_group_eq [OF assms]
proof -
  let ?k = "filter (\<lambda>r. \<not> outnumbered rows r) rows"
  have "distinct ?k" using assms by (auto simp: keyed_rows_def distinct_map)
  moreover have "r = s" if "r \<in> set ?k" "s \<in> set ?k" "suppression_group r = suppression_group s" for r s
  proof -
    have "\<not> cell_of ''id'' r < cell_of ''id'' s" "\<not> cell_of ''id'' s < cell_of ''id'' r"
      using that by (auto simp: outnumbered_def)
    then have "cell_of ''id'' r = cell_of ''id'' s" by simp
    with that keyed_rows_inj [OF assms] show ?thesis by (auto simp: inj_on_eq_iff)
  qed
  ultimately show "distinct (map suppression_group ?k)"
    unfolding distinct_map by (blast intro: inj_onI)
qed

lemma kept_last_keyed: "keyed_rows rows \<Longrightarrow> keyed_rows (keep_last_of_group rows)"
  by (auto simp: keep_last_of_group_eq keyed_rows_def distinct_map_filter)

lemma keep_last_of_group_twice:
  assumes "keyed_rows rows"
  shows "keep_last_of_group (keep_last_of_group rows) = keep_last_of_group rows"
  unfolding keep_last_of_group_eq [OF kept_last_keyed [OF assms]]
  unfolding keep_last_of_group_eq [OF assms]
  by (intro filter_True) (auto simp: outnumbered_def)

text \<open>So the two unique indexes can be built.\<close>

lemma smtp_index_builds:
  assumes "keyed_rows rows"
  shows "unique_holds SMTP_SINGLE_ENABLED_INDEX (keep_latest_enabled rows)"
proof -
  have "index_covers SMTP_SINGLE_ENABLED_INDEX = smtp_enabled"
    by (rule ext) (simp add: index_covers_def SMTP_SINGLE_ENABLED_INDEX_def smtp_enabled_def cell_of_def split: option.split)
  with kept_enabled_single [OF assms] show ?thesis
    unfolding unique_holds_def
    by (cases "filter smtp_enabled (keep_latest_enabled rows)"; cases "tl (filter smtp_enabled (keep_latest_enabled rows))") auto
qed

lemma suppression_index_builds:
  assumes "keyed_rows rows"
  shows "unique_holds SUPPRESSION_INDEX (keep_last_of_group rows)"
proof -
  have "index_key SUPPRESSION_INDEX = suppression_group"
    by (rule ext) (simp add: index_key_def SUPPRESSION_INDEX_def suppression_group_def cell_of_def)
  moreover have "filter (index_covers SUPPRESSION_INDEX) rs = rs" for rs
    by (simp add: index_covers_def SUPPRESSION_INDEX_def)
  ultimately show ?thesis
    using kept_groups_distinct [OF assms] by (simp add: unique_holds_def)
qed

section \<open>Runs without faults\<close>

type_synonym schema_view = "(pystr \<Rightarrow> sqlite_table option) \<times> sqlite_index list"

definition view :: "sqlite_schema \<Rightarrow> schema_view" where
  "view d = (map_of (sd_tables d), sd_indexes d)"

definition no_stmt_faults :: stmt_faults where
  "no_stmt_faults = (\<lambda>_. None)"

text \<open>On a connection that shows the tables and indexes \<open>v\<close>, \<open>m\<close> ends with \<open>r\<close> and shows \<open>v'\<close>.\<close>

definition executes :: "(sqlite_conn, 'a) eff \<Rightarrow> schema_view \<Rightarrow> 'a res \<Rightarrow> schema_view \<Rightarrow> bool" where
  "executes m v r v' \<longleftrightarrow> (\<forall>w. view (cn_working w) = v \<longrightarrow>
     (\<exists>w'. m w = (r, w') \<and> cn_committed w' = cn_committed w \<and> view (cn_working w') = v'))"

lemma executes_bind:
  assumes "executes m v (Inr x) v'" and "executes (f x) v' r v''"
  shows "executes (ebind m f) v r v''"
  unfolding executes_def
proof (intro allI impI)
  fix w :: sqlite_conn
  assume "view (cn_working w) = v"
  with assms(1) obtain u where u: "m w = (Inr x, u)" "cn_committed u = cn_committed w" "view (cn_working u) = v'"
    unfolding executes_def by blast
  with assms(2) obtain w' where "f x u = (r, w')" "cn_committed w' = cn_committed u" "view (cn_working w') = v''"
    unfolding executes_def by blast
  with u show "\<exists>w'. ebind m f w = (r, w') \<and> cn_committed w' = cn_committed w \<and> view (cn_working w') = v''"
    by (simp add: ebind_def)
qed

lemma executes_raise: "executes m v (Inl exc) v' \<Longrightarrow> executes (ebind m f) v (Inl exc) v'"
  by (fastforce simp: executes_def ebind_def)

lemma executes_return: "executes (ereturn x) v (Inr x) v"
  by (simp add: executes_def)

lemma executes_eraise: "executes (eraise exc) v (Inl exc) v"
  by (simp add: executes_def)

lemma executes_when:
  "b \<Longrightarrow> executes m v (Inr ()) v' \<Longrightarrow> executes (sql_when b m) v (Inr ()) v'"
  "\<not> b \<Longrightarrow> executes (sql_when b m) v (Inr ()) v"
  by (simp_all add: sql_when_def executes_return)

lemma executes_query:
  assumes "\<And>d. view d = v \<Longrightarrow> g d = x"
  shows "executes (sql_query no_stmt_faults g) v (Inr x) v"
  using assms by (auto simp: executes_def sql_query_def sql_statement_def no_stmt_faults_def Let_def)

lemma executes_update:
  assumes "\<And>d. view d = v \<Longrightarrow> \<exists>d'. f d = Inr d' \<and> view d' = v'"
  shows "executes (sql_update no_stmt_faults f) v (Inr ()) v'"
  unfolding executes_def
proof (intro allI impI)
  fix w :: sqlite_conn
  assume "view (cn_working w) = v"
  with assms obtain d' where "f (cn_working w) = Inr d'" "view d' = v'" by blast
  then show "\<exists>w'. sql_update no_stmt_faults f w = (Inr (), w') \<and> cn_committed w' = cn_committed w
      \<and> view (cn_working w') = v'"
    by (simp add: sql_update_def sql_statement_def no_stmt_faults_def Let_def)
qed

text \<open>The statements, on a table that has what they need.\<close>

lemma executes_add_column:
  assumes "T t = Some tb" and "fst cv \<notin> set (tb_columns tb)"
  shows "executes (sql_update no_stmt_faults (alter_add_column t cv)) (T, I) (Inr ()) (T(t \<mapsto> with_column cv tb), I)"
  by (rule executes_update) (use assms in \<open>auto simp: view_def alter_add_column_def map_of_dict_update\<close>)

lemma executes_change_rows:
  assumes "T t = Some tb" and "set (map str cs) \<subseteq> set (tb_columns tb)"
  shows "executes (sql_update no_stmt_faults (change_rows t cs f)) (T, I) (Inr ())
    (T(t \<mapsto> tb\<lparr>tb_rows := f (tb_rows tb)\<rparr>), I)"
  by (rule executes_update) (use assms in \<open>auto simp: view_def change_rows_def map_of_dict_update\<close>)

lemma executes_create_index:
  assumes "T (ix_table ix) = Some tb" and "set (ix_columns ix) \<subseteq> set (tb_columns tb)"
    and "ix_unique ix \<Longrightarrow> unique_holds ix (tb_rows tb)"
  shows "executes (sql_update no_stmt_faults (create_index_if_not_exists ix)) (T, I) (Inr ()) (T, add_index ix I)"
  by (rule executes_update) (use assms in \<open>auto simp: view_def create_index_if_not_exists_def add_index_def\<close>)

lemma executes_add_columns:
  assumes "T t = Some tb" and "distinct (map fst cvs)" and "fst ` set cvs \<inter> set (tb_columns tb) = {}"
  shows "executes (efor cvs (\<lambda>cv. sql_update no_stmt_faults (alter_add_column t cv))) (T, I) (Inr ())
    (T(t \<mapsto> fold with_column cvs tb), I)"
  using assms
proof (induction cvs arbitrary: T tb)
  case Nil
  then have "T(t \<mapsto> tb) = T" by auto
  with Nil show ?case by (simp add: executes_return)
next
  case (Cons cv cvs)
  have "executes (efor cvs (\<lambda>cv. sql_update no_stmt_faults (alter_add_column t cv))) (T(t \<mapsto> with_column cv tb), I)
      (Inr ()) (T(t \<mapsto> with_column cv tb, t \<mapsto> fold with_column cvs (with_column cv tb)), I)"
    by (rule Cons.IH) (use Cons.prems in \<open>auto simp: with_column_def\<close>)
  moreover have "executes (sql_update no_stmt_faults (alter_add_column t cv)) (T, I) (Inr ()) (T(t \<mapsto> with_column cv tb), I)"
    by (rule executes_add_column) (use Cons.prems in auto)
  ultimately show ?case
    unfolding efor.simps fold_simps fun_upd_upd by (rule executes_bind [rotated])
qed

lemma executes_add_missing:
  assumes "distinct (map fst cvs)" and "t \<in> names \<longleftrightarrow> T t \<noteq> None"
  shows "executes (sql_when (t \<in> names) (add_missing_columns no_stmt_faults t cvs)) (T, I) (Inr ())
    (T(t := map_option (with_missing cvs) (T t)), I)"
proof (cases "T t")
  case None
  then have "T(t := map_option (with_missing cvs) (T t)) = T" by auto
  with None assms(2) show ?thesis by (simp add: executes_when(2))
next
  case (Some tb)
  have "executes (sql_query no_stmt_faults (columns_of t)) (T, I) (Inr (set (tb_columns tb))) (T, I)"
    by (rule executes_query) (auto simp: view_def columns_of_def Some)
  moreover have "executes (efor (filter (\<lambda>cv. fst cv \<notin> set (tb_columns tb)) cvs)
      (\<lambda>cv. sql_update no_stmt_faults (alter_add_column t cv))) (T, I) (Inr ()) (T(t \<mapsto> with_missing cvs tb), I)"
    unfolding with_missing_def
    by (rule executes_add_columns [where T = T, OF Some]) (use assms(1) in \<open>auto simp: distinct_map_filter\<close>)
  ultimately show ?thesis
    using Some assms(2) unfolding add_missing_columns_def by (auto intro: executes_when(1) executes_bind)
qed


section \<open>Databases of earlier versions\<close>

text \<open>
  What the migration needs of the tables it finds: the columns every version wrote, and keyed rows.
\<close>

definition legacy_columns :: "pystr \<Rightarrow> pystr set" where
  "legacy_columns n =
     (if n = str ''smtpconfig'' then str ` {''id'', ''enabled'', ''updated_at''}
      else if n = str ''alertsuppression'' then str ` {''id'', ''rule_id'', ''suppression_key''}
      else if n = str ''executionlog'' then str ` {''started_at'', ''status'', ''rule_id''}
      else if n = str ''maillog'' then str ` {''sent_at'', ''status'', ''execution_log_id''}
      else {})"

definition legacy_table :: "pystr \<Rightarrow> sqlite_table \<Rightarrow> bool" where
  "legacy_table n tb \<longleftrightarrow>
     legacy_columns n \<subseteq> set (tb_columns tb)
     \<and> (n = str ''smtpconfig'' \<or> n = str ''alertsuppression'' \<longrightarrow> keyed_rows (tb_rows tb))"

definition heartbeat_complete :: "(pystr \<Rightarrow> sqlite_table option) \<Rightarrow> bool" where
  "heartbeat_complete T \<longleftrightarrow>
     (\<forall>tb. T (str ''workerheartbeat'') = Some tb \<longrightarrow> heartbeat_columns \<subseteq> set (tb_columns tb))"

definition missing_heartbeat_columns :: "(pystr \<Rightarrow> sqlite_table option) \<Rightarrow> pystr set" where
  "missing_heartbeat_columns T =
     (case T (str ''workerheartbeat'') of None \<Rightarrow> {} | Some tb \<Rightarrow> heartbeat_columns - set (tb_columns tb))"

lemma migration_columns_distinct:
  "distinct (map fst [(str ''session_version'', VInt 1)])" "distinct (map fst data_source_columns)"
  "distinct (map fst rule_columns)"
  by (simp_all add: data_source_columns_def rule_columns_def)

lemma executes_smtp_stage:
  assumes "str ''smtpconfig'' \<in> names \<longleftrightarrow> T (str ''smtpconfig'') \<noteq> None"
    and "\<And>tb. T (str ''smtpconfig'') = Some tb \<Longrightarrow> legacy_table (str ''smtpconfig'') tb"
  shows "executes (sql_when (str ''smtpconfig'' \<in> names)
       (ebind (sql_update no_stmt_faults
                 (change_rows (str ''smtpconfig'') [''enabled'', ''id'', ''updated_at''] keep_latest_enabled))
          (\<lambda>_. sql_update no_stmt_faults (create_index_if_not_exists SMTP_SINGLE_ENABLED_INDEX))))
    (T, I) (Inr ())
    (T(str ''smtpconfig'' := map_option (\<lambda>tb. tb\<lparr>tb_rows := keep_latest_enabled (tb_rows tb)\<rparr>) (T (str ''smtpconfig''))),
     if str ''smtpconfig'' \<in> names then add_index SMTP_SINGLE_ENABLED_INDEX I else I)"
proof (cases "T (str ''smtpconfig'')")
  case None
  with assms(1) show ?thesis by (simp add: executes_when(2) fun_upd_idem)
next
  case (Some tb)
  let ?tb = "tb\<lparr>tb_rows := keep_latest_enabled (tb_rows tb)\<rparr>"
  have legacy: "legacy_columns (str ''smtpconfig'') \<subseteq> set (tb_columns tb)" "keyed_rows (tb_rows tb)"
    using assms(2) [OF Some] by (simp_all add: legacy_table_def)
  have "executes (sql_update no_stmt_faults
      (change_rows (str ''smtpconfig'') [''enabled'', ''id'', ''updated_at''] keep_latest_enabled)) (T, I) (Inr ())
      (T(str ''smtpconfig'' \<mapsto> ?tb), I)"
    by (rule executes_change_rows [where T = T, OF Some]) (use legacy(1) in \<open>simp add: legacy_columns_def\<close>)
  moreover have "executes (sql_update no_stmt_faults (create_index_if_not_exists SMTP_SINGLE_ENABLED_INDEX))
      (T(str ''smtpconfig'' \<mapsto> ?tb), I) (Inr ()) (T(str ''smtpconfig'' \<mapsto> ?tb), add_index SMTP_SINGLE_ENABLED_INDEX I)"
    by (rule executes_create_index [where tb = ?tb])
      (use legacy(1) smtp_index_builds [OF legacy(2)] in \<open>simp_all add: SMTP_SINGLE_ENABLED_INDEX_def legacy_columns_def\<close>)
  ultimately show ?thesis using Some assms(1) by (simp add: executes_when(1) executes_bind)
qed

lemma executes_suppression_stage:
  assumes "str ''alertsuppression'' \<in> names \<longleftrightarrow> T (str ''alertsuppression'') \<noteq> None"
    and "\<And>tb. T (str ''alertsuppression'') = Some tb \<Longrightarrow> legacy_table (str ''alertsuppression'') tb"
  shows "executes (sql_when (str ''alertsuppression'' \<in> names)
       (ebind (sql_update no_stmt_faults
                 (change_rows (str ''alertsuppression'') [''id'', ''rule_id'', ''suppression_key''] keep_last_of_group))
          (\<lambda>_. sql_update no_stmt_faults (create_index_if_not_exists SUPPRESSION_INDEX))))
    (T, I) (Inr ())
    (T(str ''alertsuppression'' := map_option (\<lambda>tb. tb\<lparr>tb_rows := keep_last_of_group (tb_rows tb)\<rparr>) (T (str ''alertsuppression''))),
     if str ''alertsuppression'' \<in> names then add_index SUPPRESSION_INDEX I else I)"
proof (cases "T (str ''alertsuppression'')")
  case None
  with assms(1) show ?thesis by (simp add: executes_when(2) fun_upd_idem)
next
  case (Some tb)
  let ?tb = "tb\<lparr>tb_rows := keep_last_of_group (tb_rows tb)\<rparr>"
  have legacy: "legacy_columns (str ''alertsuppression'') \<subseteq> set (tb_columns tb)" "keyed_rows (tb_rows tb)"
    using assms(2) [OF Some] by (simp_all add: legacy_table_def)
  have "executes (sql_update no_stmt_faults
      (change_rows (str ''alertsuppression'') [''id'', ''rule_id'', ''suppression_key''] keep_last_of_group)) (T, I) (Inr ())
      (T(str ''alertsuppression'' \<mapsto> ?tb), I)"
    by (rule executes_change_rows [where T = T, OF Some]) (use legacy(1) in \<open>simp add: legacy_columns_def\<close>)
  moreover have "executes (sql_update no_stmt_faults (create_index_if_not_exists SUPPRESSION_INDEX))
      (T(str ''alertsuppression'' \<mapsto> ?tb), I) (Inr ()) (T(str ''alertsuppression'' \<mapsto> ?tb), add_index SUPPRESSION_INDEX I)"
    by (rule executes_create_index [where tb = ?tb])
      (use legacy(1) suppression_index_builds [OF legacy(2)] in \<open>simp_all add: SUPPRESSION_INDEX_def legacy_columns_def\<close>)
  ultimately show ?thesis using Some assms(1) by (simp add: executes_when(1) executes_bind)
qed

lemma executes_create_indexes:
  assumes "\<And>ix. ix \<in> set ixs \<Longrightarrow> \<not> ix_unique ix
      \<and> (\<exists>tb. T (ix_table ix) = Some tb \<and> set (ix_columns ix) \<subseteq> set (tb_columns tb))"
  shows "executes (efor ixs (\<lambda>ix. sql_update no_stmt_faults (create_index_if_not_exists ix))) (T, I) (Inr ())
    (T, fold add_index ixs I)"
  using assms
proof (induction ixs arbitrary: I)
  case Nil
  then show ?case by (simp add: executes_return)
next
  case (Cons ix ixs)
  obtain tb where "T (ix_table ix) = Some tb" "set (ix_columns ix) \<subseteq> set (tb_columns tb)" "\<not> ix_unique ix"
    using Cons.prems [of ix] by auto
  then have "executes (sql_update no_stmt_faults (create_index_if_not_exists ix)) (T, I) (Inr ()) (T, add_index ix I)"
    by (intro executes_create_index) auto
  moreover have "executes (efor ixs (\<lambda>ix. sql_update no_stmt_faults (create_index_if_not_exists ix)))
      (T, add_index ix I) (Inr ()) (T, fold add_index ixs (add_index ix I))"
    by (rule Cons.IH) (use Cons.prems in simp)
  ultimately show ?case by (simp add: executes_bind)
qed

lemma executes_log_index_stage:
  assumes "\<And>n. n \<in> names \<longleftrightarrow> T n \<noteq> None" and "\<And>n tb. T n = Some tb \<Longrightarrow> legacy_columns n \<subseteq> set (tb_columns tb)"
  shows "executes (sql_when ({str ''executionlog'', str ''maillog''} \<subseteq> names)
       (efor LOG_INDEX_STATEMENTS (\<lambda>ix. sql_update no_stmt_faults (create_index_if_not_exists ix)))) (T, I) (Inr ())
    (T, if {str ''executionlog'', str ''maillog''} \<subseteq> names then fold add_index LOG_INDEX_STATEMENTS I else I)"
proof (cases "{str ''executionlog'', str ''maillog''} \<subseteq> names")
  case True
  then obtain e m where T: "T (str ''executionlog'') = Some e" "T (str ''maillog'') = Some m"
    using assms(1) by auto
  have "legacy_columns (str ''executionlog'') \<subseteq> set (tb_columns e)" "legacy_columns (str ''maillog'') \<subseteq> set (tb_columns m)"
    using T assms(2) by blast+
  then have "executes (efor LOG_INDEX_STATEMENTS (\<lambda>ix. sql_update no_stmt_faults (create_index_if_not_exists ix))) (T, I)
      (Inr ()) (T, fold add_index LOG_INDEX_STATEMENTS I)"
    by (intro executes_create_indexes) (auto simp: LOG_INDEX_STATEMENTS_def T legacy_columns_def)
  with True show ?thesis by (simp add: executes_when(1))
next
  case False
  then show ?thesis unfolding if_not_P [OF False] by (rule executes_when(2))
qed

lemma executes_heartbeat_stage:
  assumes "str ''workerheartbeat'' \<in> names \<longleftrightarrow> T (str ''workerheartbeat'') \<noteq> None"
  shows "executes (sql_when (str ''workerheartbeat'' \<in> names) (check_heartbeat_columns no_stmt_faults)) (T, I)
    (if missing_heartbeat_columns T = {} then Inr () else Inl (heartbeat_incomplete (missing_heartbeat_columns T))) (T, I)"
proof (cases "T (str ''workerheartbeat'')")
  case None
  with assms show ?thesis by (simp add: executes_when(2) missing_heartbeat_columns_def)
next
  case (Some tb)
  have "executes (sql_query no_stmt_faults (columns_of (str ''workerheartbeat''))) (T, I) (Inr (set (tb_columns tb))) (T, I)"
    by (rule executes_query) (auto simp: view_def columns_of_def Some)
  then have "executes (check_heartbeat_columns no_stmt_faults) (T, I)
      (if missing_heartbeat_columns T = {} then Inr () else Inl (heartbeat_incomplete (missing_heartbeat_columns T))) (T, I)"
    unfolding check_heartbeat_columns_def
    by (rule executes_bind) (simp add: missing_heartbeat_columns_def Some executes_return executes_eraise)
  then show ?thesis using Some assms by (simp add: sql_when_def)
qed


definition migrated :: "schema_view \<Rightarrow> schema_view" where
  "migrated v = ((\<lambda>n. map_option (migrate_table n) (fst v n)), migrate_indexes (dom (fst v)) (snd v))"

lemma migrate_table_columns:
  "legacy_columns n \<subseteq> set (tb_columns tb) \<Longrightarrow> legacy_columns n \<subseteq> set (tb_columns (migrate_table n tb))"
  by (auto simp: migrate_table_def with_missing_def)

lemma migrate_table_other:
  "n \<notin> str ` {''adminuser'', ''sqldatasource'', ''alertrule'', ''smtpconfig'', ''alertsuppression''} \<Longrightarrow> migrate_table n tb = tb"
  by (simp add: migrate_table_def)

text \<open>On tables of an earlier version the migration is \<open>migrated\<close>, or it refuses the heartbeat table.\<close>

lemma executes_migration:
  assumes legacy: "\<And>n tb. T n = Some tb \<Longrightarrow> legacy_table n tb"
  shows "missing_heartbeat_columns T = {} \<Longrightarrow>
      executes (migrate_sqlite_schema no_stmt_faults) (T, I) (Inr ()) (migrated (T, I))"
    and "missing_heartbeat_columns T \<noteq> {} \<Longrightarrow> \<exists>v'.
      executes (migrate_sqlite_schema no_stmt_faults) (T, I) (Inl (heartbeat_incomplete (missing_heartbeat_columns T))) v'"
proof -
  define N where "N = dom T"
  have N: "n \<in> N \<longleftrightarrow> T n \<noteq> None" for n by (auto simp: N_def)
  define T1 where "T1 = T(str ''adminuser'' := map_option (with_missing [(str ''session_version'', VInt 1)]) (T (str ''adminuser'')))"
  define T2 where "T2 = T1(str ''sqldatasource'' := map_option (with_missing data_source_columns) (T1 (str ''sqldatasource'')))"
  define T3 where "T3 = T2(str ''alertrule'' := map_option (with_missing rule_columns) (T2 (str ''alertrule'')))"
  define T4 where "T4 = T3(str ''smtpconfig'' := map_option (\<lambda>tb. tb\<lparr>tb_rows := keep_latest_enabled (tb_rows tb)\<rparr>) (T3 (str ''smtpconfig'')))"
  define T5 where "T5 = T4(str ''alertsuppression'' := map_option (\<lambda>tb. tb\<lparr>tb_rows := keep_last_of_group (tb_rows tb)\<rparr>) (T4 (str ''alertsuppression'')))"
  define I4 where "I4 = (if str ''smtpconfig'' \<in> N then add_index SMTP_SINGLE_ENABLED_INDEX I else I)"
  define I5 where "I5 = (if {str ''executionlog'', str ''maillog''} \<subseteq> N then fold add_index LOG_INDEX_STATEMENTS I4 else I4)"
  define I6 where "I6 = (if str ''alertsuppression'' \<in> N then add_index SUPPRESSION_INDEX I5 else I5)"
  have dom1: "n \<in> N \<longleftrightarrow> T1 n \<noteq> None" for n by (simp add: T1_def N)
  have dom2: "n \<in> N \<longleftrightarrow> T2 n \<noteq> None" for n using dom1 by (simp add: T2_def)
  have dom3: "n \<in> N \<longleftrightarrow> T3 n \<noteq> None" for n using dom2 by (simp add: T3_def)
  have dom4: "n \<in> N \<longleftrightarrow> T4 n \<noteq> None" for n using dom3 by (simp add: T4_def)
  have names: "executes (sql_query no_stmt_faults table_names) (T, I) (Inr N) (T, I)"
    by (rule executes_query) (simp add: view_def table_names_def N_def dom_map_of_conv_image_fst [symmetric])
  have s1: "executes (sql_when (str ''adminuser'' \<in> N)
      (add_missing_columns no_stmt_faults (str ''adminuser'') [(str ''session_version'', VInt 1)])) (T, I) (Inr ()) (T1, I)"
    unfolding T1_def by (rule executes_add_missing [where T = T and names = N, OF migration_columns_distinct(1) N])
  have s2: "executes (sql_when (str ''sqldatasource'' \<in> N)
      (add_missing_columns no_stmt_faults (str ''sqldatasource'') data_source_columns)) (T1, I) (Inr ()) (T2, I)"
    unfolding T2_def by (rule executes_add_missing [where T = T1 and names = N, OF migration_columns_distinct(2) dom1])
  have s3: "executes (sql_when (str ''alertrule'' \<in> N)
      (add_missing_columns no_stmt_faults (str ''alertrule'') rule_columns)) (T2, I) (Inr ()) (T3, I)"
    unfolding T3_def by (rule executes_add_missing [where T = T2 and names = N, OF migration_columns_distinct(3) dom2])
  have smtp: "T3 (str ''smtpconfig'') = T (str ''smtpconfig'')" by (simp add: T3_def T2_def T1_def)
  note s4 = executes_smtp_stage [where T = T3 and names = N, OF dom3, of I, folded T4_def I4_def]
  have s4: "executes (sql_when (str ''smtpconfig'' \<in> N)
       (ebind (sql_update no_stmt_faults
                 (change_rows (str ''smtpconfig'') [''enabled'', ''id'', ''updated_at''] keep_latest_enabled))
          (\<lambda>_. sql_update no_stmt_faults (create_index_if_not_exists SMTP_SINGLE_ENABLED_INDEX)))) (T3, I) (Inr ()) (T4, I4)"
    by (rule s4) (auto simp: smtp dest: legacy)
  have beats: "missing_heartbeat_columns T4 = missing_heartbeat_columns T"
    by (simp add: missing_heartbeat_columns_def T4_def T3_def T2_def T1_def)
  note s5 = executes_heartbeat_stage [where T = T4 and names = N, OF dom4, of I4, unfolded beats]
  have columns4: "legacy_columns n \<subseteq> set (tb_columns tb)" if "T4 n = Some tb" for n tb
  proof -
    have "\<exists>tb0. T n = Some tb0 \<and> set (tb_columns tb0) \<subseteq> set (tb_columns tb)"
      using that by (auto simp: T4_def T3_def T2_def T1_def with_missing_def with_column_def split: if_splits)
    then show ?thesis using legacy by (force simp: legacy_table_def)
  qed
  have s6: "executes (sql_when ({str ''executionlog'', str ''maillog''} \<subseteq> N)
       (efor LOG_INDEX_STATEMENTS (\<lambda>ix. sql_update no_stmt_faults (create_index_if_not_exists ix)))) (T4, I4) (Inr ()) (T4, I5)"
    unfolding I5_def by (rule executes_log_index_stage [where T = T4 and names = N, OF dom4 columns4])
  have supp: "T4 (str ''alertsuppression'') = T (str ''alertsuppression'')"
    by (simp add: T4_def T3_def T2_def T1_def)
  note s7 = executes_suppression_stage [where T = T4 and names = N, OF dom4, of I5, folded T5_def I6_def]
  have s7: "executes (sql_when (str ''alertsuppression'' \<in> N)
       (ebind (sql_update no_stmt_faults
                 (change_rows (str ''alertsuppression'') [''id'', ''rule_id'', ''suppression_key''] keep_last_of_group))
          (\<lambda>_. sql_update no_stmt_faults (create_index_if_not_exists SUPPRESSION_INDEX)))) (T4, I5) (Inr ()) (T5, I6)"
    by (rule s7) (auto simp: supp dest: legacy)
  have "T5 n = map_option (migrate_table n) (T n)" for n
    by (cases "T n") (auto simp: T5_def T4_def T3_def T2_def T1_def migrate_table_def)
  moreover have "I6 = migrate_indexes N I"
    unfolding migrate_indexes_def I6_def I5_def I4_def Let_def by (rule refl)
  ultimately have final: "migrated (T, I) = (T5, I6)"
    by (simp add: migrated_def fun_eq_iff N_def)
  show "executes (migrate_sqlite_schema no_stmt_faults) (T, I) (Inr ()) (migrated (T, I))"
    if ok: "missing_heartbeat_columns T = {}"
    unfolding migrate_sqlite_schema_def final
    by (rule executes_bind [OF names] executes_bind [OF s1] executes_bind [OF s2] executes_bind [OF s3]
        executes_bind [OF s4] executes_bind [OF s5 [unfolded if_P [OF ok]]] executes_bind [OF s6] s7)+
  show "\<exists>v'. executes (migrate_sqlite_schema no_stmt_faults) (T, I)
      (Inl (heartbeat_incomplete (missing_heartbeat_columns T))) v'"
    if bad: "missing_heartbeat_columns T \<noteq> {}"
    unfolding migrate_sqlite_schema_def
    by (intro exI) (rule executes_bind [OF names] executes_bind [OF s1] executes_bind [OF s2] executes_bind [OF s3]
        executes_bind [OF s4] executes_raise [OF s5 [unfolded if_not_P [OF bad]]])+
qed


section \<open>Runs with faults\<close>

text \<open>
  A run either does what the run without faults does, or raises the fault of one of its statements;
  the committed database stays as it is.
\<close>

definition faithful :: "stmt_faults \<Rightarrow> (sqlite_conn, 'a) eff \<Rightarrow> (sqlite_conn, 'a) eff \<Rightarrow> bool" where
  "faithful F m m0 \<longleftrightarrow> (\<forall>w. cn_committed (snd (m w)) = cn_committed w \<and>
     (m w = m0 w \<or> (\<exists>n exc. F n = Some exc \<and> fst (m w) = Inl exc)))"

lemma faithful_bind:
  assumes "faithful F m m0" and "\<And>x. faithful F (f x) (f0 x)"
  shows "faithful F (ebind m f) (ebind m0 f0)"
  unfolding faithful_def
proof
  fix w
  obtain r u where m: "m w = (r, u)" by (cases "m w")
  have same: "cn_committed u = cn_committed w" "m0 w = (r, u) \<or> (\<exists>n exc. F n = Some exc \<and> r = Inl exc)"
    using assms(1) m unfolding faithful_def by (metis fst_conv snd_conv)+
  show "cn_committed (snd (ebind m f w)) = cn_committed w \<and>
      (ebind m f w = ebind m0 f0 w \<or> (\<exists>n exc. F n = Some exc \<and> fst (ebind m f w) = Inl exc))"
  proof (cases r)
    case (Inl exc)
    with m same show ?thesis by (auto simp: ebind_def)
  next
    case (Inr x)
    have "cn_committed (snd (f x u)) = cn_committed u \<and>
        (f x u = f0 x u \<or> (\<exists>n exc. F n = Some exc \<and> fst (f x u) = Inl exc))"
      using assms(2) [of x] unfolding faithful_def by blast
    with m same Inr show ?thesis by (auto simp: ebind_def)
  qed
qed

lemma faithful_statement: "faithful F (sql_statement F f) (sql_statement no_stmt_faults f)"
  by (auto simp: faithful_def sql_statement_def no_stmt_faults_def Let_def split: option.splits sum.splits)

lemma faithful_pure: "faithful F (ereturn x) (ereturn x)" "faithful F (eraise exc) (eraise exc)"
  by (simp_all add: faithful_def ereturn_def eraise_def)

lemma faithful_when: "faithful F m m0 \<Longrightarrow> faithful F (sql_when b m) (sql_when b m0)"
  by (simp add: sql_when_def faithful_pure)

lemma faithful_for: "(\<And>x. faithful F (f x) (f0 x)) \<Longrightarrow> faithful F (efor xs f) (efor xs f0)"
  by (induction xs) (simp_all add: faithful_pure faithful_bind)

lemma faithful_if: "faithful F a a0 \<Longrightarrow> faithful F b b0 \<Longrightarrow> faithful F (if c then a else b) (if c then a0 else b0)"
  by simp

lemmas faithful_intros = faithful_bind faithful_statement faithful_pure faithful_when faithful_for faithful_if

lemma faithful_migration: "faithful F (migrate_sqlite_schema F) (migrate_sqlite_schema no_stmt_faults)"
  unfolding migrate_sqlite_schema_def add_missing_columns_def check_heartbeat_columns_def sql_query_def sql_update_def
  by (intro faithful_intros)

text \<open>The tables are created and migrated in one transaction.\<close>

definition build_schema :: "stmt_faults \<Rightarrow> (sqlite_schema \<Rightarrow> sqlite_schema res) \<Rightarrow> (sqlite_conn, unit) eff" where
  "build_schema F create_all = ebind (sql_update F create_all) (\<lambda>_. migrate_sqlite_schema F)"

lemma faithful_build: "faithful F (build_schema F create_all) (build_schema no_stmt_faults create_all)"
  unfolding build_schema_def sql_update_def by (intro faithful_intros faithful_migration)

lemma sql_query_step:
  "F (cn_stmts w) = None \<Longrightarrow> sql_query F g w = (Inr (g (cn_working w)), w\<lparr>cn_stmts := Suc (cn_stmts w)\<rparr>)"
  "F (cn_stmts w) = Some exc \<Longrightarrow> sql_query F g w = (Inl exc, w\<lparr>cn_stmts := Suc (cn_stmts w)\<rparr>)"
  by (simp_all add: sql_query_def sql_statement_def Let_def)

lemma init_db_commits:
  assumes run: "init_db F create_all (str ''sqlite'') w = (r, w')"
  shows "(\<exists>exc. r = Inl exc \<and> cn_committed w' = cn_committed w)
    \<or> (r = Inr () \<and> (\<exists>u u'. build_schema no_stmt_faults create_all u = (Inr (), u')
          \<and> cn_working u = cn_committed w \<and> cn_committed w' = cn_working u'))"
proof -
  define body where "body = ebind (sql_query F (\<lambda>_. ())) (\<lambda>_.
      ebind (ecatch (build_schema F create_all) (\<lambda>exc. ebind (sql_rollback F) (\<lambda>_. eraise exc))) (\<lambda>_. sql_commit F))"
  have init: "init_db F create_all (str ''sqlite'') w = with_sqlite_connection F body w"
    by (simp add: init_db_def body_def build_schema_def)
  have "(\<exists>exc. fst (body v) = Inl exc \<and> cn_committed (snd (body v)) = cn_committed v)
    \<or> (fst (body v) = Inr () \<and> (\<exists>u u'. build_schema no_stmt_faults create_all u = (Inr (), u')
          \<and> cn_working u = cn_working v \<and> cn_committed (snd (body v)) = cn_working u'))" for v
  proof (cases "F (cn_stmts v)")
    case (Some exc)
    then show ?thesis by (simp add: body_def ebind_def sql_query_step(2))
  next
    case None
    define v' where "v' = v\<lparr>cn_stmts := Suc (cn_stmts v)\<rparr>"
    obtain b u where b: "build_schema F create_all v' = (b, u)" by (cases "build_schema F create_all v'")
    have u: "cn_committed u = cn_committed v"
      using faithful_build [of F create_all] b unfolding faithful_def v'_def
      by (metis snd_conv sqlite_conn.select_convs(1) sqlite_conn.surjective sqlite_conn.update_convs(3))
    have body: "body v = (case b of Inl exc \<Rightarrow> ebind (sql_rollback F) (\<lambda>_. eraise exc) u | Inr x \<Rightarrow> sql_commit F u)"
      unfolding body_def ebind_def [of "sql_query F (\<lambda>_. ())"] sql_query_step(1) [where F = F and w = v, OF None] v'_def [symmetric]
      by (cases b) (simp_all add: ecatch_def b ebind_def sql_rollback_def eraise_def split: option.split)
    show ?thesis
    proof (cases b)
      case (Inl exc)
      with body u show ?thesis by (auto simp: sql_rollback_def ebind_def eraise_def split: option.splits)
    next
      case (Inr x)
      have "build_schema no_stmt_faults create_all v' = (Inr (), u)"
        using faithful_build [of F create_all] b Inr unfolding faithful_def
        by (metis Inl_Inr_False fst_conv old.unit.exhaust)
      moreover have "cn_working v' = cn_working v" by (simp add: v'_def)
      ultimately show ?thesis
        using body u Inr by (cases "F (cn_stmts u)") (auto simp: sql_commit_def)
    qed
  qed
  note cases = this
  show ?thesis
  proof (cases "F (cn_stmts w)")
    case (Some exc)
    with run init show ?thesis by (auto simp: with_sqlite_connection_def sql_query_step(2))
  next
    case None
    define v where "v = w\<lparr>cn_stmts := Suc (cn_stmts w), cn_working := cn_committed w\<rparr>"
    have "r = fst (body v)" "cn_committed w' = cn_committed (snd (body v))"
      using run unfolding init with_sqlite_connection_def sql_query_step(1) [where F = F and w = w, OF None]
      by (auto simp: v_def split: prod.splits)
    moreover have "cn_committed v = cn_committed w" "cn_working v = cn_committed w" by (simp_all add: v_def)
    ultimately show ?thesis using cases [of v] by auto
  qed
qed


section \<open>Creating the tables of the models\<close>

definition model_tables :: "pystr set" where
  "model_tables = str ` {''adminuser'', ''sqldatasource'', ''smtpconfig'', ''alertrule'', ''ruleexecutionlease'',
     ''workerheartbeat'', ''alertsuppression'', ''alertruleversion'', ''executionlog'', ''maillog''}"

text \<open>\<open>create_all\<close> leaves the tables it finds alone and creates the others, empty, with the columns of
  their models; it creates nothing when all tables are there.\<close>

definition model_columns :: "pystr \<Rightarrow> pystr set" where
  "model_columns n = legacy_columns n \<union> (if n = str ''workerheartbeat'' then heartbeat_columns else {})"

locale metadata =
  fixes create_all :: "sqlite_schema \<Rightarrow> sqlite_schema res"
  assumes keeps: "create_all d = Inr d' \<Longrightarrow> map_of (sd_tables d) n = Some tb \<Longrightarrow> map_of (sd_tables d') n = Some tb"
    and creates: "create_all d = Inr d' \<Longrightarrow> n \<in> model_tables \<Longrightarrow> map_of (sd_tables d') n \<noteq> None"
    and fresh: "create_all d = Inr d' \<Longrightarrow> map_of (sd_tables d) n = None \<Longrightarrow> map_of (sd_tables d') n = Some tb
      \<Longrightarrow> tb_rows tb = [] \<and> model_columns n \<subseteq> set (tb_columns tb)"
    and indexes: "create_all d = Inr d' \<Longrightarrow> set (sd_indexes d) \<subseteq> set (sd_indexes d')"
    and complete: "model_tables \<subseteq> table_names d \<Longrightarrow> create_all d = Inr d"
begin

lemma legacy:
  assumes "create_all d = Inr d'" and "\<And>n tb. map_of (sd_tables d) n = Some tb \<Longrightarrow> legacy_table n tb"
    and "map_of (sd_tables d') n = Some tb"
  shows "legacy_table n tb"
proof (cases "map_of (sd_tables d) n")
  case None
  from fresh [OF assms(1) None assms(3)] show ?thesis
    by (auto simp: legacy_table_def model_columns_def keyed_rows_def)
next
  case (Some tb0)
  with keeps [OF assms(1) Some] assms(2,3) show ?thesis by auto
qed

lemma heartbeat:
  assumes "create_all d = Inr d'"
  shows "missing_heartbeat_columns (map_of (sd_tables d')) = missing_heartbeat_columns (map_of (sd_tables d))"
proof (cases "map_of (sd_tables d) (str ''workerheartbeat'')")
  case None
  with fresh [OF assms None] show ?thesis
    by (auto simp: missing_heartbeat_columns_def model_columns_def split: option.split)
next
  case (Some tb0)
  with keeps [OF assms Some] show ?thesis by (simp add: missing_heartbeat_columns_def)
qed

lemma built:
  assumes "create_all d = Inr d1" and "\<And>n tb. map_of (sd_tables d) n = Some tb \<Longrightarrow> legacy_table n tb"
    and "cn_working u = d"
  shows "if missing_heartbeat_columns (map_of (sd_tables d)) = {}
    then \<exists>u'. build_schema no_stmt_faults create_all u = (Inr (), u') \<and> cn_committed u' = cn_committed u
      \<and> view (cn_working u') = migrated (view d1)
    else \<exists>u'. build_schema no_stmt_faults create_all u
        = (Inl (heartbeat_incomplete (missing_heartbeat_columns (map_of (sd_tables d)))), u')"
proof -
  define u1 where "u1 = u\<lparr>cn_stmts := Suc (cn_stmts u), cn_working := d1\<rparr>"
  have created: "sql_update no_stmt_faults create_all u = (Inr (), u1)"
    using assms(1,3) by (simp add: sql_update_def sql_statement_def no_stmt_faults_def Let_def u1_def)
  have view1: "view (cn_working u1) = (map_of (sd_tables d1), sd_indexes d1)" by (simp add: view_def u1_def)
  have legacy1: "legacy_table n tb" if "map_of (sd_tables d1) n = Some tb" for n tb
    using legacy [OF assms(1,2) that] .
  note runs = executes_migration [where T = "map_of (sd_tables d1)" and I = "sd_indexes d1", OF legacy1, unfolded heartbeat [OF assms(1)]]
  show ?thesis
  proof (cases "missing_heartbeat_columns (map_of (sd_tables d)) = {}")
    case True
    from runs(1) [OF _ True] view1 obtain u' where "migrate_sqlite_schema no_stmt_faults u1 = (Inr (), u')"
        "cn_committed u' = cn_committed u1" "view (cn_working u') = migrated (view d1)"
      unfolding executes_def view_def by blast
    with True created show ?thesis by (simp add: build_schema_def ebind_def u1_def)
  next
    case False
    from runs(2) [OF _ False] view1 obtain u' where "migrate_sqlite_schema no_stmt_faults u1
        = (Inl (heartbeat_incomplete (missing_heartbeat_columns (map_of (sd_tables d)))), u')"
      unfolding executes_def by blast
    with False created show ?thesis by (simp add: build_schema_def ebind_def)
  qed
qed

end


text \<open>The models of \<open>src/app/models.py\<close> as \<open>create_all\<close> knows them: columns and indexed columns.\<close>

definition model_index :: "string \<Rightarrow> string \<times> bool \<Rightarrow> sqlite_index" where
  "model_index t cu =
     \<lparr>ix_name = str (''ix_'' @ t @ ''_'' @ fst cu), ix_table = str t, ix_columns = [str (fst cu)],
      ix_unique = snd cu, ix_where = None\<rparr>"

definition model_schema :: "(string \<times> string list \<times> (string \<times> bool) list) list" where
  "model_schema =
     [(''adminuser'', [''id'', ''username'', ''password_hash'', ''session_version'', ''created_at''],
       [(''username'', True)]),
      (''sqldatasource'', [''id'', ''name'', ''host'', ''port'', ''database'', ''username'', ''encrypted_password'',
         ''enabled'', ''connect_timeout_seconds'', ''odbc_driver'', ''server_override'', ''encrypt'',
         ''trust_server_certificate'', ''extra_params'', ''created_at'', ''updated_at''], [(''name'', True)]),
      (''smtpconfig'', [''id'', ''host'', ''port'', ''username'', ''encrypted_password'', ''sender'', ''use_tls'',
         ''use_ssl'', ''timeout_seconds'', ''enabled'', ''updated_at''], []),
      (''alertrule'', [''id'', ''name'', ''data_source_id'', ''sql_text'', ''cron_expression'', ''recipients'',
         ''cc_recipients'', ''subject_template'', ''body_template'', ''send_mode'', ''query_timeout_seconds'',
         ''max_rows'', ''enabled'', ''notes'', ''dynamic_recipient_field'', ''dynamic_cc_field'',
         ''suppress_duplicates'', ''suppression_key_field'', ''suppression_window_hours'', ''created_at'',
         ''archived_at'', ''updated_at''], [(''name'', False)]),
      (''ruleexecutionlease'', [''rule_id'', ''owner_token'', ''acquired_at'', ''expires_at''], []),
      (''workerheartbeat'', [''id'', ''worker_id'', ''started_at'', ''last_seen_at'', ''last_sync_ok'', ''last_error''], []),
      (''alertsuppression'', [''id'', ''rule_id'', ''suppression_key'', ''first_seen_at'', ''last_seen_at'', ''hit_count''],
       [(''rule_id'', False), (''suppression_key'', False)]),
      (''alertruleversion'', [''id'', ''rule_id'', ''version_number'', ''changed_by'', ''snapshot_json'', ''changed_at''],
       [(''rule_id'', False)]),
      (''executionlog'', [''id'', ''rule_id'', ''trigger_type'', ''status'', ''started_at'', ''finished_at'', ''row_count'',
         ''email_count'', ''duration_ms'', ''error_type'', ''error_message''],
       [(''rule_id'', False), (''status'', False), (''started_at'', False)]),
      (''maillog'', [''id'', ''execution_log_id'', ''recipients'', ''cc_recipients'', ''subject'', ''status'',
         ''error_message'', ''sent_at''], [(''execution_log_id'', False), (''status'', False), (''sent_at'', False)])]"

definition new_tables :: "sqlite_schema \<Rightarrow> (string \<times> string list \<times> (string \<times> bool) list) list" where
  "new_tables d = filter (\<lambda>m. str (fst m) \<notin> table_names d) model_schema"

definition create_model_tables :: "sqlite_schema \<Rightarrow> sqlite_schema res" where
  "create_model_tables d = Inr
     (d\<lparr>sd_tables := sd_tables d
          @ map (\<lambda>(t, cs, ixs). (str t, \<lparr>tb_columns = map str cs, tb_rows = []\<rparr>)) (new_tables d),
        sd_indexes := sd_indexes d @ concat (map (\<lambda>(t, cs, ixs). map (model_index t) ixs) (new_tables d))\<rparr>)"

definition model_table_of :: "pystr \<Rightarrow> sqlite_table option" where
  "model_table_of = map_of (map (\<lambda>(t, cs, ixs). (str t, \<lparr>tb_columns = map str cs, tb_rows = []\<rparr>)) model_schema)"

lemma model_table_of_ok:
  "n \<in> model_tables \<Longrightarrow> model_table_of n \<noteq> None"
  "model_table_of n = Some tb \<Longrightarrow> tb_rows tb = [] \<and> model_columns n \<subseteq> set (tb_columns tb)"
  by (auto simp: model_table_of_def model_schema_def model_tables_def model_columns_def legacy_columns_def
      heartbeat_columns_def split: if_splits)

lemma new_tables_lookup:
  "map_of (map (\<lambda>(t, cs, ixs). (str t, \<lparr>tb_columns = map str cs, tb_rows = []\<rparr>)) (new_tables d)) n
     = (if n \<in> table_names d then None else model_table_of n)"
proof -
  have "map_of (map (\<lambda>(t, cs, ixs). (str t, \<lparr>tb_columns = map str cs, tb_rows = []\<rparr>))
        (filter (\<lambda>m. str (fst m) \<notin> names) ms)) n
      = (if n \<in> names then None
         else map_of (map (\<lambda>(t, cs, ixs). (str t, \<lparr>tb_columns = map str cs, tb_rows = []\<rparr>)) ms) n)"
    for names :: "pystr set" and ms :: "(string \<times> string list \<times> (string \<times> bool) list) list"
    by (induction ms) auto
  then show ?thesis by (simp add: new_tables_def model_table_of_def)
qed

lemma create_model_tables_lookup:
  "create_model_tables d = Inr d' \<Longrightarrow> map_of (sd_tables d') n
     = (case map_of (sd_tables d) n of Some tb \<Rightarrow> Some tb | None \<Rightarrow> model_table_of n)"
proof -
  assume "create_model_tables d = Inr d'"
  then have "sd_tables d' = sd_tables d
      @ map (\<lambda>(t, cs, ixs). (str t, \<lparr>tb_columns = map str cs, tb_rows = []\<rparr>)) (new_tables d)"
    by (auto simp: create_model_tables_def)
  moreover have "n \<in> table_names d \<longleftrightarrow> map_of (sd_tables d) n \<noteq> None"
    by (simp add: table_names_def dom_map_of_conv_image_fst [symmetric] domIff)
  ultimately show ?thesis
    by (simp add: map_add_def new_tables_lookup split: option.splits)
qed

interpretation models: metadata create_model_tables
proof
  fix d d' :: sqlite_schema and n tb
  assume d': "create_model_tables d = Inr d'"
  show "map_of (sd_tables d) n = Some tb \<Longrightarrow> map_of (sd_tables d') n = Some tb"
    by (simp add: create_model_tables_lookup [OF d'])
  show "n \<in> model_tables \<Longrightarrow> map_of (sd_tables d') n \<noteq> None"
    using model_table_of_ok(1) by (auto simp: create_model_tables_lookup [OF d'] split: option.split)
  show "map_of (sd_tables d) n = None \<Longrightarrow> map_of (sd_tables d') n = Some tb
      \<Longrightarrow> tb_rows tb = [] \<and> model_columns n \<subseteq> set (tb_columns tb)"
    using model_table_of_ok(2) by (simp add: create_model_tables_lookup [OF d'])
  show "set (sd_indexes d) \<subseteq> set (sd_indexes d')"
    using d' by (auto simp: create_model_tables_def)
next
  fix d :: sqlite_schema
  assume all: "model_tables \<subseteq> table_names d"
  have "str (fst m) \<in> model_tables" if "m \<in> set model_schema" for m
    using that by (auto simp: model_schema_def model_tables_def)
  with all have "new_tables d = []"
    by (auto simp: new_tables_def filter_empty_conv)
  then show "create_model_tables d = Inr d" by (simp add: create_model_tables_def)
qed


section \<open>What the models ask of the schema\<close>

text \<open>
  The specification is written from the models alone, not from the constants of the migration: the
  columns later versions added to a table, in the order they came, with the value a row of an earlier
  version stands for (the defaults of \<open>src/app/models.py\<close>).
\<close>

definition later_columns :: "pystr \<Rightarrow> (pystr \<times> sql_value) list" where
  "later_columns n =
     (if n = str ''adminuser'' then [(str ''session_version'', VInt 1)]
      else if n = str ''sqldatasource'' then
        [(str ''odbc_driver'', VText (str ''ODBC Driver 18 for SQL Server'')), (str ''server_override'', VText []),
         (str ''encrypt'', VText (str ''yes'')), (str ''trust_server_certificate'', VText (str ''no'')),
         (str ''extra_params'', VText [])]
      else if n = str ''alertrule'' then
        [(str ''dynamic_recipient_field'', VText []), (str ''dynamic_cc_field'', VText []),
         (str ''suppress_duplicates'', VInt 0), (str ''suppression_key_field'', VText []),
         (str ''suppression_window_hours'', VInt 24), (str ''archived_at'', VNull)]
      else [])"

text \<open>The indexes the log pages and the two uniqueness rules rely on.\<close>

definition plain_index :: "string \<Rightarrow> string \<Rightarrow> string \<Rightarrow> sqlite_index" where
  "plain_index i t c =
     \<lparr>ix_name = str i, ix_table = str t, ix_columns = [str c], ix_unique = False, ix_where = None\<rparr>"

definition required_indexes :: "sqlite_index list" where
  "required_indexes =
     [plain_index ''ix_executionlog_started_at'' ''executionlog'' ''started_at'',
      plain_index ''ix_executionlog_status'' ''executionlog'' ''status'',
      plain_index ''ix_executionlog_rule_id'' ''executionlog'' ''rule_id'',
      plain_index ''ix_maillog_sent_at'' ''maillog'' ''sent_at'',
      plain_index ''ix_maillog_status'' ''maillog'' ''status'',
      plain_index ''ix_maillog_execution_log_id'' ''maillog'' ''execution_log_id'',
      \<lparr>ix_name = str ''uq_smtpconfig_single_enabled'', ix_table = str ''smtpconfig'',
       ix_columns = [str ''enabled''], ix_unique = True, ix_where = Some (str ''enabled'', VInt 1)\<rparr>,
      \<lparr>ix_name = str ''uq_alertsuppression_rule_key'', ix_table = str ''alertsuppression'',
       ix_columns = [str ''rule_id'', str ''suppression_key''], ix_unique = True, ix_where = None\<rparr>]"

text \<open>Every table has every column of its model, every required index is there, at most one SMTP
  configuration is enabled, and no rule has two suppressions of one key.\<close>

definition schema_ready :: "schema_view \<Rightarrow> bool" where
  "schema_ready v \<longleftrightarrow>
     (\<forall>(t, cs, ixs) \<in> set model_schema. \<exists>tb. fst v (str t) = Some tb \<and> str ` set cs \<subseteq> set (tb_columns tb))
     \<and> set required_indexes \<subseteq> set (snd v)
     \<and> (\<forall>tb. fst v (str ''smtpconfig'') = Some tb \<longrightarrow> length (filter smtp_enabled (tb_rows tb)) \<le> 1)
     \<and> (\<forall>tb. fst v (str ''alertsuppression'') = Some tb \<longrightarrow> distinct (map suppression_group (tb_rows tb)))"

text \<open>
  A database an earlier version wrote: its tables have the columns of their models that are not later
  ones (of the heartbeat table the migration sees for itself), each row has exactly the columns of its
  table, rows are keyed where the migration compares keys, and an index with the name of a required one
  is that index.
\<close>

definition earlier_table :: "pystr \<Rightarrow> sqlite_table \<Rightarrow> bool" where
  "earlier_table n tb \<longleftrightarrow>
     (\<forall>(t, cs, ixs) \<in> set model_schema. n = str t \<longrightarrow> t = ''workerheartbeat''
        \<or> str ` set cs \<subseteq> set (tb_columns tb) \<union> fst ` set (later_columns n))
     \<and> (\<forall>r \<in> set (tb_rows tb). fst ` set r = set (tb_columns tb))
     \<and> (n \<in> {str ''smtpconfig'', str ''alertsuppression''} \<longrightarrow> keyed_rows (tb_rows tb))"

definition earlier_version :: "sqlite_schema \<Rightarrow> bool" where
  "earlier_version d \<longleftrightarrow>
     (\<forall>n tb. map_of (sd_tables d) n = Some tb \<longrightarrow> earlier_table n tb)
     \<and> (\<forall>ix \<in> set (sd_indexes d). \<forall>ix' \<in> set required_indexes. ix_name ix = ix_name ix' \<longrightarrow> ix = ix')"

text \<open>
  What became of a table: no column is gone; of the enabled SMTP configurations all but the latest
  are disabled and nothing else in them changes; of the suppressions of one rule and key the last one
  stays; in every other table all rows stay, in their order, every old cell with its value and every
  new one with the default of the model.
\<close>

definition rows_kept :: "pystr \<Rightarrow> sqlite_table \<Rightarrow> sqlite_table \<Rightarrow> bool" where
  "rows_kept n tb tb' \<longleftrightarrow>
     set (tb_columns tb) \<subseteq> set (tb_columns tb')
     \<and> (if n = str ''smtpconfig'' then
          list_all2 (\<lambda>r r'. \<forall>c. map_of r' c =
              (if c = str ''enabled'' \<and> smtp_enabled r \<and> superseded (tb_rows tb) r then Some (VInt 0) else map_of r c))
            (tb_rows tb) (tb_rows tb')
        else if n = str ''alertsuppression'' then
          tb_rows tb' = filter (\<lambda>r. \<not> outnumbered (tb_rows tb) r) (tb_rows tb)
        else
          list_all2 (\<lambda>r r'. \<forall>c. map_of r' c =
              (if c \<in> set (tb_columns tb) then map_of r c else map_of (later_columns n) c))
            (tb_rows tb) (tb_rows tb'))"

text \<open>\<open>create_all\<close> creates the tables and indexes of the models, and no other index.\<close>

definition model_indexes :: "sqlite_index list" where
  "model_indexes = concat (map (\<lambda>(t, cs, ixs). map (model_index t) ixs) model_schema)"

locale model_metadata = metadata +
  assumes models: "create_all d = Inr d' \<Longrightarrow> map_of (sd_tables d) (str t) = None \<Longrightarrow> (t, cs, ixs) \<in> set model_schema
      \<Longrightarrow> \<exists>tb. map_of (sd_tables d') (str t) = Some tb \<and> str ` set cs \<subseteq> set (tb_columns tb)"
    and created_indexes: "create_all d = Inr d' \<Longrightarrow> set (sd_indexes d') \<subseteq> set (sd_indexes d) \<union> set model_indexes"

lemma model_schema_names: "distinct (map fst model_schema)"
  by (simp add: model_schema_def)

lemma model_schema_lookup: "(t, m) \<in> set model_schema \<longleftrightarrow> map_of model_schema t = Some m"
  using map_of_eq_Some_iff [OF model_schema_names] by metis

lemma model_schema_at:
  "map_of model_schema ''smtpconfig'' = Some ([''id'', ''host'', ''port'', ''username'', ''encrypted_password'',
     ''sender'', ''use_tls'', ''use_ssl'', ''timeout_seconds'', ''enabled'', ''updated_at''], [])"
  "map_of model_schema ''workerheartbeat'' = Some ([''id'', ''worker_id'', ''started_at'', ''last_seen_at'',
     ''last_sync_ok'', ''last_error''], [])"
  "map_of model_schema ''alertsuppression'' = Some ([''id'', ''rule_id'', ''suppression_key'', ''first_seen_at'',
     ''last_seen_at'', ''hit_count''], [(''rule_id'', False), (''suppression_key'', False)])"
  "map_of model_schema ''executionlog'' = Some ([''id'', ''rule_id'', ''trigger_type'', ''status'', ''started_at'',
     ''finished_at'', ''row_count'', ''email_count'', ''duration_ms'', ''error_type'', ''error_message''],
     [(''rule_id'', False), (''status'', False), (''started_at'', False)])"
  "map_of model_schema ''maillog'' = Some ([''id'', ''execution_log_id'', ''recipients'', ''cc_recipients'', ''subject'',
     ''status'', ''error_message'', ''sent_at''], [(''execution_log_id'', False), (''status'', False), (''sent_at'', False)])"
  by (simp_all add: model_schema_def)

lemma model_table_columns:
  "(t, cs, ixs) \<in> set model_schema \<Longrightarrow> model_table_of (str t) = Some \<lparr>tb_columns = map str cs, tb_rows = []\<rparr>"
  unfolding model_table_of_def
proof (rule map_of_is_SomeI)
  have "distinct (map str (map fst model_schema))" using model_schema_names by (simp add: distinct_map inj_on_def)
  then show "distinct (map fst (map (\<lambda>(t, cs, ixs). (str t, \<lparr>tb_columns = map str cs, tb_rows = []\<rparr>)) model_schema))"
    by (simp add: comp_def case_prod_beta)
qed force

interpretation whole_models: model_metadata create_model_tables
proof
  fix d d' :: sqlite_schema and t cs ixs
  assume d': "create_model_tables d = Inr d'"
  show "map_of (sd_tables d) (str t) = None \<Longrightarrow> (t, cs, ixs) \<in> set model_schema
      \<Longrightarrow> \<exists>tb. map_of (sd_tables d') (str t) = Some tb \<and> str ` set cs \<subseteq> set (tb_columns tb)"
    by (simp add: create_model_tables_lookup [OF d'] model_table_columns)
  show "set (sd_indexes d') \<subseteq> set (sd_indexes d) \<union> set model_indexes"
    using d' by (auto simp: create_model_tables_def model_indexes_def new_tables_def) blast
qed

section \<open>A migrated schema\<close>

definition migration_indexes :: "pystr set" where
  "migration_indexes = ix_name ` set (SMTP_SINGLE_ENABLED_INDEX # SUPPRESSION_INDEX # LOG_INDEX_STATEMENTS)"

lemma with_missing_columns: "fst ` set cvs \<subseteq> set (tb_columns (with_missing cvs tb))"
  by (auto simp: with_missing_def)

lemma with_missing_twice: "with_missing cvs (with_missing cvs tb) = with_missing cvs tb"
proof -
  have "filter (\<lambda>cv. fst cv \<notin> set (tb_columns (with_missing cvs tb))) cvs = []"
    using with_missing_columns [of cvs tb] by (auto simp: filter_empty_conv)
  then show ?thesis by (simp add: with_missing_def [of cvs "with_missing cvs tb"])
qed

lemma with_missing_rows:
  "\<exists>new. tb_rows (with_missing cvs tb) = map (\<lambda>r. r @ new) (tb_rows tb)
     \<and> fst ` set new \<subseteq> fst ` set cvs - set (tb_columns tb)"
  by (rule exI [where x = "filter (\<lambda>cv. fst cv \<notin> set (tb_columns tb)) cvs"]) (auto simp: with_missing_def)

lemma migrate_table_twice:
  "legacy_table n tb \<Longrightarrow> migrate_table n (migrate_table n tb) = migrate_table n tb"
  by (simp add: migrate_table_def legacy_table_def with_missing_twice keep_latest_enabled_twice keep_last_of_group_twice)

lemma migrate_table_legacy: "legacy_table n tb \<Longrightarrow> legacy_table n (migrate_table n tb)"
  using migrate_table_columns [of n tb]
  by (auto simp: legacy_table_def migrate_table_def kept_enabled_keyed kept_last_keyed split: if_splits)

text \<open>The columns the migration adds are the later ones of the models, with their defaults.\<close>

lemma migration_adds_later_columns:
  "[(str ''session_version'', VInt 1)] = later_columns (str ''adminuser'')"
  "data_source_columns = later_columns (str ''sqldatasource'')"
  "rule_columns = later_columns (str ''alertrule'')"
  by (simp_all add: later_columns_def data_source_columns_def rule_columns_def)

lemma migrate_table_later:
  "n \<noteq> str ''smtpconfig'' \<Longrightarrow> n \<noteq> str ''alertsuppression'' \<Longrightarrow> migrate_table n tb = with_missing (later_columns n) tb"
  by (simp add: migrate_table_def migration_adds_later_columns) (simp add: later_columns_def with_missing_def)

lemma map_of_filter_missing: "c \<notin> C \<Longrightarrow> map_of (filter (\<lambda>cv. fst cv \<notin> C) cvs) c = map_of cvs c"
  by (induction cvs) auto

lemma with_missing_cells:
  assumes "\<forall>r \<in> set (tb_rows tb). fst ` set r = set (tb_columns tb)"
  shows "list_all2 (\<lambda>r r'. \<forall>c. map_of r' c = (if c \<in> set (tb_columns tb) then map_of r c else map_of cvs c))
    (tb_rows tb) (tb_rows (with_missing cvs tb))"
proof -
  let ?new = "filter (\<lambda>cv. fst cv \<notin> set (tb_columns tb)) cvs"
  have cell: "map_of (r @ ?new) c = (if c \<in> set (tb_columns tb) then map_of r c else map_of cvs c)"
    if "r \<in> set (tb_rows tb)" for r c
  proof (cases "c \<in> set (tb_columns tb)")
    case True
    then have "c \<in> dom (map_of r)" using assms that by (simp add: dom_map_of_conv_image_fst)
    then obtain v where "map_of r c = Some v" by blast
    with True show ?thesis by (simp add: map_add_def)
  next
    case False
    then have "c \<notin> dom (map_of r)" using assms that by (simp add: dom_map_of_conv_image_fst)
    then have "map_of r c = None" by blast
    with False show ?thesis by (simp add: map_add_def map_of_filter_missing split: option.split)
  qed
  then show ?thesis
    unfolding with_missing_def with_columns_simps list_all2_conv_all_nth by simp
qed

lemma migrate_table_rows:
  assumes "earlier_table n tb"
  shows "rows_kept n tb (migrate_table n tb)"
proof -
  consider "n = str ''smtpconfig''" | "n = str ''alertsuppression''"
    | "n \<noteq> str ''smtpconfig''" "n \<noteq> str ''alertsuppression''" by blast
  then show ?thesis
  proof cases
    case 1
    then have "keyed_rows (tb_rows tb)" using assms by (simp add: earlier_table_def)
    with 1 show ?thesis
      by (auto simp: rows_kept_def migrate_table_def keep_latest_enabled_eq list_all2_conv_all_nth map_of_dict_update)
  next
    case 2
    then have "keyed_rows (tb_rows tb)" using assms by (simp add: earlier_table_def)
    with 2 show ?thesis by (simp add: rows_kept_def migrate_table_def keep_last_of_group_eq)
  next
    case 3
    have "\<forall>r \<in> set (tb_rows tb). fst ` set r = set (tb_columns tb)" using assms by (simp add: earlier_table_def)
    from with_missing_cells [OF this] 3 show ?thesis
      by (simp add: rows_kept_def migrate_table_later) (simp add: with_missing_def)
  qed
qed

lemma earlier_table_columns:
  assumes "earlier_table (str t) tb" and "(t, cs, ixs) \<in> set model_schema" and "t \<noteq> ''workerheartbeat''"
  shows "str ` set cs \<subseteq> set (tb_columns tb) \<union> fst ` set (later_columns (str t))"
proof -
  have "\<forall>(t', cs, ixs) \<in> set model_schema. str t = str t' \<longrightarrow> t' = ''workerheartbeat''
      \<or> str ` set cs \<subseteq> set (tb_columns tb) \<union> fst ` set (later_columns (str t))"
    using assms(1) unfolding earlier_table_def by (rule conjunct1)
  from bspec [OF this assms(2)] assms(3) show ?thesis by simp
qed

lemma migrate_table_complete:
  assumes "(t, cs, ixs) \<in> set model_schema" and "earlier_table (str t) tb"
    and "t = ''workerheartbeat'' \<Longrightarrow> heartbeat_columns \<subseteq> set (tb_columns tb)"
  shows "str ` set cs \<subseteq> set (tb_columns (migrate_table (str t) tb))"
proof (cases "t = ''workerheartbeat''")
  case True
  with assms(1) have "cs = [''id'', ''worker_id'', ''started_at'', ''last_seen_at'', ''last_sync_ok'', ''last_error'']"
    by (simp add: model_schema_lookup model_schema_at)
  then have "str ` set cs = heartbeat_columns" by (simp add: heartbeat_columns_def)
  with assms(3) True show ?thesis by (simp add: migrate_table_other)
next
  case False
  note cols = earlier_table_columns [OF assms(2,1) False]
  show ?thesis
  proof (cases "str t = str ''smtpconfig'' \<or> str t = str ''alertsuppression''")
    case True
    then have "later_columns (str t) = []" by (auto simp: later_columns_def)
    with cols True show ?thesis by (auto simp: migrate_table_def)
  next
    case False
    then have "migrate_table (str t) tb = with_missing (later_columns (str t)) tb"
      by (intro migrate_table_later) simp_all
    with cols with_missing_columns [of "later_columns (str t)" tb] show ?thesis
      by (auto simp: with_missing_def)
  qed
qed

lemma legacy_model_columns:
  "t \<in> {''smtpconfig'', ''alertsuppression'', ''executionlog'', ''maillog''} \<Longrightarrow>
     \<exists>cs ixs. (t, cs, ixs) \<in> set model_schema \<and> legacy_columns (str t) \<subseteq> str ` set cs"
  by (elim insertE emptyE) (simp_all add: model_schema_lookup model_schema_at legacy_columns_def)

lemma earlier_legacy:
  assumes "earlier_table n tb"
  shows "legacy_table n tb"
proof -
  have later: "later_columns (str ''smtpconfig'') = []" "later_columns (str ''alertsuppression'') = []"
    "later_columns (str ''executionlog'') = []" "later_columns (str ''maillog'') = []"
    by (simp_all add: later_columns_def)
  have cols: "str ` set cs \<subseteq> set (tb_columns tb)"
    if "(t, cs, ixs) \<in> set model_schema" "n = str t" "t \<noteq> ''workerheartbeat''" "later_columns (str t) = []" for t cs ixs
    using earlier_table_columns [OF assms [unfolded that(2)] that(1,3)] 
    by (simp only: that(4) list.set image_empty Un_empty_right)
  have "legacy_columns n \<subseteq> set (tb_columns tb)"
  proof (cases "n \<in> str ` {''smtpconfig'', ''alertsuppression'', ''executionlog'', ''maillog''}")
    case True
    then obtain t where t: "n = str t" "t \<in> {''smtpconfig'', ''alertsuppression'', ''executionlog'', ''maillog''}" by blast
    from legacy_model_columns [OF t(2)]
    obtain cs ixs where m: "(t, cs, ixs) \<in> set model_schema" "legacy_columns n \<subseteq> str ` set cs"
      unfolding t(1) by (elim exE conjE)
    have "t \<noteq> ''workerheartbeat''" "later_columns (str t) = []"
      using t(2) later by (elim insertE emptyE; simp)+
    from cols [OF m(1) t(1) this] have "str ` set cs \<subseteq> set (tb_columns tb)" .
    with m(2) show ?thesis by blast
  next
    case False
    then show ?thesis by (simp add: legacy_columns_def)
  qed
  moreover have "n = str ''smtpconfig'' \<or> n = str ''alertsuppression'' \<longrightarrow> keyed_rows (tb_rows tb)"
    using assms unfolding earlier_table_def by blast
  ultimately show ?thesis unfolding legacy_table_def by blast
qed

lemma migrate_indexes_names:
  assumes "model_tables \<subseteq> names"
  shows "migration_indexes \<subseteq> ix_name ` set (migrate_indexes names I)"
proof -
  define I4 where "I4 = add_index SMTP_SINGLE_ENABLED_INDEX I"
  define I5 where "I5 = fold add_index LOG_INDEX_STATEMENTS I4"
  have "str ''smtpconfig'' \<in> names" "{str ''executionlog'', str ''maillog''} \<subseteq> names" "str ''alertsuppression'' \<in> names"
    using assms by (auto simp: model_tables_def)
  then have I: "migrate_indexes names I = add_index SUPPRESSION_INDEX I5"
    unfolding migrate_indexes_def I5_def I4_def Let_def by (simp only: if_True)
  have "ix_name ` set LOG_INDEX_STATEMENTS \<subseteq> ix_name ` set I5"
    unfolding I5_def by (rule fold_add_index_names)
  moreover have "ix_name ` set I4 \<subseteq> ix_name ` set I5"
    unfolding I5_def by (intro image_mono fold_add_index_keeps)
  moreover have "ix_name SMTP_SINGLE_ENABLED_INDEX \<in> ix_name ` set I4"
    unfolding I4_def by (rule add_index_keeps(2))
  moreover have "ix_name ` set I5 \<subseteq> ix_name ` set (add_index SUPPRESSION_INDEX I5)"
    by (intro image_mono add_index_keeps(1))
  moreover have "ix_name SUPPRESSION_INDEX \<in> ix_name ` set (add_index SUPPRESSION_INDEX I5)"
    by (rule add_index_keeps(2))
  ultimately show ?thesis
    unfolding I migration_indexes_def list.set image_insert insert_subset by blast
qed

lemma migrate_indexes_twice:
  assumes "migration_indexes \<subseteq> ix_name ` set I"
  shows "migrate_indexes names I = I"
proof -
  have "ix_name ` set LOG_INDEX_STATEMENTS \<subseteq> ix_name ` set I"
    using assms by (auto simp: migration_indexes_def)
  then have "fold add_index LOG_INDEX_STATEMENTS I = I" by (rule fold_add_index_known)
  moreover have "add_index SMTP_SINGLE_ENABLED_INDEX I = I" "add_index SUPPRESSION_INDEX I = I"
    using assms by (auto simp: migration_indexes_def intro: add_index_known)
  ultimately show ?thesis by (simp add: migrate_indexes_def Let_def)
qed

lemma migrated_twice:
  assumes "\<And>n tb. fst v n = Some tb \<Longrightarrow> legacy_table n tb" and "model_tables \<subseteq> dom (fst v)"
  shows "migrated (migrated v) = migrated v"
proof -
  have names: "migration_indexes \<subseteq> ix_name ` set (snd (migrated v))"
    using migrate_indexes_names [OF assms(2)] by (simp add: migrated_def)
  have "map_option (migrate_table n) (fst (migrated v) n) = fst (migrated v) n" for n
    using assms(1) [of n] by (cases "fst v n") (auto simp: migrated_def migrate_table_twice)
  moreover have "migrate_indexes (dom (fst (migrated v))) (snd (migrated v)) = snd (migrated v)"
    by (rule migrate_indexes_twice [OF names])
  ultimately show ?thesis
    by (simp add: migrated_def [of "migrated v"] prod_eq_iff fun_eq_iff)
qed

text \<open>The indexes of a schema whose indexes of the required names are the required ones.\<close>

definition known_indexes :: "sqlite_index list \<Rightarrow> bool" where
  "known_indexes I \<longleftrightarrow> (\<forall>ix \<in> set I. \<forall>ix' \<in> set required_indexes. ix_name ix = ix_name ix' \<longrightarrow> ix = ix')"

lemma migration_creates_required:
  "set required_indexes = set (SMTP_SINGLE_ENABLED_INDEX # SUPPRESSION_INDEX # LOG_INDEX_STATEMENTS)"
  by (auto simp: required_indexes_def plain_index_def SMTP_SINGLE_ENABLED_INDEX_def SUPPRESSION_INDEX_def
      LOG_INDEX_STATEMENTS_def)

lemma required_names: "inj_on ix_name (set required_indexes)"
  by (simp add: required_indexes_def plain_index_def)

lemma known_add_index: "ix \<in> set required_indexes \<Longrightarrow> known_indexes I \<Longrightarrow> known_indexes (add_index ix I)"
  using required_names by (auto simp: known_indexes_def add_index_def inj_on_def)

lemma known_fold_add: "set ixs \<subseteq> set required_indexes \<Longrightarrow> known_indexes I \<Longrightarrow> known_indexes (fold add_index ixs I)"
  by (induction ixs arbitrary: I) (simp_all add: known_add_index)

lemma known_migrate_indexes: "known_indexes I \<Longrightarrow> known_indexes (migrate_indexes names I)"
proof -
  have "SMTP_SINGLE_ENABLED_INDEX \<in> set required_indexes" "SUPPRESSION_INDEX \<in> set required_indexes"
    "set LOG_INDEX_STATEMENTS \<subseteq> set required_indexes"
    unfolding migration_creates_required by auto
  then show "known_indexes I \<Longrightarrow> known_indexes (migrate_indexes names I)"
    by (simp add: migrate_indexes_def Let_def known_add_index known_fold_add)
qed

lemma known_model_indexes: "known_indexes model_indexes"
  by (simp add: known_indexes_def model_indexes_def model_schema_def model_index_def required_indexes_def plain_index_def)

lemma required_indexes_built:
  assumes "known_indexes I" and "model_tables \<subseteq> names"
  shows "set required_indexes \<subseteq> set (migrate_indexes names I)"
proof
  fix ix assume ix: "ix \<in> set required_indexes"
  then have "ix_name ix \<in> migration_indexes"
    unfolding migration_indexes_def migration_creates_required by blast
  then obtain ix' where "ix' \<in> set (migrate_indexes names I)" "ix_name ix' = ix_name ix"
    using migrate_indexes_names [OF assms(2), of I] by force
  with known_migrate_indexes [OF assms(1), of names] ix show "ix \<in> set (migrate_indexes names I)"
    unfolding known_indexes_def by metis
qed

lemma migrated_ready:
  assumes "\<And>n tb. fst v n = Some tb \<Longrightarrow> legacy_table n tb" and "model_tables \<subseteq> dom (fst v)"
    and columns: "\<And>t cs ixs. (t, cs, ixs) \<in> set model_schema
      \<Longrightarrow> \<exists>tb. fst v (str t) = Some tb \<and> str ` set cs \<subseteq> set (tb_columns (migrate_table (str t) tb))"
    and "known_indexes (snd v)"
  shows "schema_ready (migrated v)"
  unfolding schema_ready_def
proof (intro conjI allI impI ballI)
  fix m assume m: "m \<in> set model_schema"
  obtain t cs ixs where t: "m = (t, cs, ixs)" by (rule prod_cases3)
  from columns [OF m [unfolded t]]
  show "case m of (t, cs, ixs) \<Rightarrow> \<exists>tb. fst (migrated v) (str t) = Some tb \<and> str ` set cs \<subseteq> set (tb_columns tb)"
    unfolding t by (auto simp: migrated_def)
next
  show "set required_indexes \<subseteq> set (snd (migrated v))"
    using required_indexes_built [OF assms(4,2)] by (simp add: migrated_def)
next
  fix tb assume "fst (migrated v) (str ''smtpconfig'') = Some tb"
  then obtain tb0 where "fst v (str ''smtpconfig'') = Some tb0" "tb = migrate_table (str ''smtpconfig'') tb0"
    by (auto simp: migrated_def)
  with assms(1) [of "str ''smtpconfig''" tb0] kept_enabled_single [of "tb_rows tb0"]
  show "length (filter smtp_enabled (tb_rows tb)) \<le> 1" by (simp add: legacy_table_def migrate_table_def)
next
  fix tb assume "fst (migrated v) (str ''alertsuppression'') = Some tb"
  then obtain tb0 where "fst v (str ''alertsuppression'') = Some tb0" "tb = migrate_table (str ''alertsuppression'') tb0"
    by (auto simp: migrated_def)
  with assms(1) [of "str ''alertsuppression''" tb0] kept_groups_distinct [of "tb_rows tb0"]
  show "distinct (map suppression_group (tb_rows tb))" by (simp add: legacy_table_def migrate_table_def)
qed


section \<open>The properties of \<open>init_db\<close>\<close>

text \<open>Without faults \<open>init_db\<close> is the building of the schema and the commit.\<close>

lemma init_db_quiet:
  "\<exists>u. cn_working u = d \<and> cn_committed u = d \<and>
     (case build_schema no_stmt_faults create_all u of
        (Inl exc, u') \<Rightarrow> \<exists>w'. init_db no_stmt_faults create_all (str ''sqlite'') (open_conn d) = (Inl exc, w')
                          \<and> cn_committed w' = cn_committed u'
      | (Inr _, u') \<Rightarrow> \<exists>w'. init_db no_stmt_faults create_all (str ''sqlite'') (open_conn d) = (Inr (), w')
                          \<and> cn_committed w' = cn_working u')"
proof -
  define u where "u = \<lparr>cn_committed = d, cn_working = d, cn_stmts = Suc (Suc 0)\<rparr>"
  obtain b u' where b: "build_schema no_stmt_faults create_all u = (b, u')"
    by (cases "build_schema no_stmt_faults create_all u")
  have "init_db no_stmt_faults create_all (str ''sqlite'') (open_conn d) =
      (case (case b of Inl exc \<Rightarrow> (Inl exc, u'\<lparr>cn_working := cn_committed u', cn_stmts := Suc (cn_stmts u')\<rparr>)
                     | Inr x \<Rightarrow> (Inr (), u'\<lparr>cn_committed := cn_working u', cn_stmts := Suc (cn_stmts u')\<rparr>)) of
         (r, w'') \<Rightarrow> (r, w''\<lparr>cn_working := cn_committed w''\<rparr>))"
    unfolding init_db_def build_schema_def [symmetric]
    using b by (cases b) (simp_all add: with_sqlite_connection_def sql_query_def sql_statement_def no_stmt_faults_def Let_def
        open_conn_def ebind_def ecatch_def u_def sql_rollback_def eraise_def sql_commit_def)
  then show ?thesis
    using b by (intro exI [where x = u]) (cases b; auto simp: u_def)
qed

context metadata
begin

lemma built_migrated:
  assumes "\<And>n tb. map_of (sd_tables d) n = Some tb \<Longrightarrow> legacy_table n tb"
    and "build_schema no_stmt_faults create_all u = (Inr (), u')" and "cn_working u = d"
  shows "\<exists>d1. create_all d = Inr d1 \<and> view (cn_working u') = migrated (view d1)"
proof -
  obtain d1 where d1: "create_all d = Inr d1"
    using assms(2,3) by (cases "create_all d")
      (auto simp: build_schema_def ebind_def sql_update_def sql_statement_def no_stmt_faults_def Let_def)
  have "view (cn_working u') = migrated (view d1)"
    using built [OF d1 assms(1,3)] assms(2) by (auto split: if_splits)
  with d1 show ?thesis by blast
qed

lemma outcome:
  assumes legacy: "\<And>n tb. map_of (sd_tables d) n = Some tb \<Longrightarrow> legacy_table n tb"
    and "init_db F create_all (str ''sqlite'') (open_conn d) = (r, w')"
  shows "(\<exists>exc. r = Inl exc \<and> cn_committed w' = d)
    \<or> (r = Inr () \<and> (\<exists>d1. create_all d = Inr d1 \<and> view (cn_committed w') = migrated (view d1)))"
  using init_db_commits [OF assms(2)] built_migrated [OF legacy] by (fastforce simp: open_conn_def)

lemma quiet:
  assumes legacy: "\<And>n tb. map_of (sd_tables d) n = Some tb \<Longrightarrow> legacy_table n tb" and d1: "create_all d = Inr d1"
  shows "if missing_heartbeat_columns (map_of (sd_tables d)) = {}
    then \<exists>w'. init_db no_stmt_faults create_all (str ''sqlite'') (open_conn d) = (Inr (), w')
           \<and> view (cn_committed w') = migrated (view d1)
    else \<exists>w'. init_db no_stmt_faults create_all (str ''sqlite'') (open_conn d)
           = (Inl (heartbeat_incomplete (missing_heartbeat_columns (map_of (sd_tables d)))), w') \<and> cn_committed w' = d"
proof -
  obtain u where u: "cn_working u = d" "cn_committed u = d" and run:
     "case build_schema no_stmt_faults create_all u of
        (Inl exc, u') \<Rightarrow> \<exists>w'. init_db no_stmt_faults create_all (str ''sqlite'') (open_conn d) = (Inl exc, w')
                          \<and> cn_committed w' = cn_committed u'
      | (Inr _, u') \<Rightarrow> \<exists>w'. init_db no_stmt_faults create_all (str ''sqlite'') (open_conn d) = (Inr (), w')
                          \<and> cn_committed w' = cn_working u'"
    using init_db_quiet [of d create_all] by (elim exE conjE) (rule that)
  have same: "cn_committed (snd (build_schema no_stmt_faults create_all u)) = d"
    using faithful_build [of no_stmt_faults create_all] unfolding faithful_def u(2) [symmetric] by blast
  show ?thesis
  proof (cases "missing_heartbeat_columns (map_of (sd_tables d)) = {}")
    case True
    then obtain u' where "build_schema no_stmt_faults create_all u = (Inr (), u')" "view (cn_working u') = migrated (view d1)"
      using built [OF d1 legacy u(1)] by auto
    with run True show ?thesis by auto
  next
    case False
    then obtain u' where "build_schema no_stmt_faults create_all u
        = (Inl (heartbeat_incomplete (missing_heartbeat_columns (map_of (sd_tables d)))), u')"
      using built [OF d1 legacy u(1)] by auto
    with run same False show ?thesis by auto
  qed
qed

lemma legacy_after:
  assumes old: "\<And>n tb. map_of (sd_tables d) n = Some tb \<Longrightarrow> legacy_table n tb" and d1: "create_all d = Inr d1"
    and d': "view d' = migrated (view d1)"
  shows "map_of (sd_tables d') n = Some tb' \<Longrightarrow> legacy_table n tb'"
    and "model_tables \<subseteq> table_names d'"
    and "missing_heartbeat_columns (map_of (sd_tables d')) = missing_heartbeat_columns (map_of (sd_tables d))"
proof -
  have T: "map_of (sd_tables d') n = map_option (migrate_table n) (map_of (sd_tables d1) n)" for n
    using d' by (simp add: view_def migrated_def)
  show "map_of (sd_tables d') n = Some tb' \<Longrightarrow> legacy_table n tb'"
    using legacy [OF d1 old] by (auto simp: T intro: migrate_table_legacy)
  show "model_tables \<subseteq> table_names d'"
    using creates [OF d1] T by (auto simp: table_names_def dom_map_of_conv_image_fst [symmetric])
  have "migrate_table (str ''workerheartbeat'') tb = tb" for tb by (simp add: migrate_table_other)
  then have "missing_heartbeat_columns (map_of (sd_tables d')) = missing_heartbeat_columns (map_of (sd_tables d1))"
    by (simp add: missing_heartbeat_columns_def T split: option.split)
  then show "missing_heartbeat_columns (map_of (sd_tables d')) = missing_heartbeat_columns (map_of (sd_tables d))"
    by (simp only: heartbeat [OF d1])
qed

end


context model_metadata
begin

text \<open>A table after \<open>create_all\<close>, with the heartbeat table complete, has every column of its model
  once it is migrated.\<close>

lemma migrated_columns:
  assumes d: "earlier_version d" and d1: "create_all d = Inr d1"
    and beats: "missing_heartbeat_columns (map_of (sd_tables d)) = {}" and m: "(t, cs, ixs) \<in> set model_schema"
  shows "\<exists>tb. map_of (sd_tables d1) (str t) = Some tb \<and> str ` set cs \<subseteq> set (tb_columns (migrate_table (str t) tb))"
proof (cases "map_of (sd_tables d) (str t)")
  case None
  from models [OF d1 None m] obtain tb where
    tb: "map_of (sd_tables d1) (str t) = Some tb" "str ` set cs \<subseteq> set (tb_columns tb)" by blast
  have "set (tb_columns tb) \<subseteq> set (tb_columns (migrate_table (str t) tb))"
    by (auto simp: migrate_table_def with_missing_def)
  with tb show ?thesis by auto
next
  case (Some tb)
  have "heartbeat_columns \<subseteq> set (tb_columns tb)" if "t = ''workerheartbeat''"
    using beats Some that by (simp add: missing_heartbeat_columns_def)
  moreover have "earlier_table (str t) tb" using d Some by (simp add: earlier_version_def)
  ultimately have "str ` set cs \<subseteq> set (tb_columns (migrate_table (str t) tb))"
    using migrate_table_complete [OF m] by blast
  with keeps [OF d1 Some] show ?thesis by blast
qed

lemma known_after_create: "earlier_version d \<Longrightarrow> create_all d = Inr d1 \<Longrightarrow> known_indexes (sd_indexes d1)"
  using created_indexes [of d d1] known_model_indexes by (auto simp: earlier_version_def known_indexes_def)

lemma refused_heartbeat:
  assumes legacy: "\<And>n tb. map_of (sd_tables d) n = Some tb \<Longrightarrow> legacy_table n tb"
    and "init_db F create_all (str ''sqlite'') (open_conn d) = (Inr (), w')"
  shows "missing_heartbeat_columns (map_of (sd_tables d)) = {}"
proof -
  from init_db_commits [OF assms(2)] obtain u u' where
    u: "build_schema no_stmt_faults create_all u = (Inr (), u')" "cn_working u = d" by (auto simp: open_conn_def)
  obtain d1 where d1: "create_all d = Inr d1"
    using u by (cases "create_all d")
      (auto simp: build_schema_def ebind_def sql_update_def sql_statement_def no_stmt_faults_def Let_def)
  from built [OF d1 legacy u(2)] u(1) show ?thesis by (auto split: if_splits)
qed

end

lemma ready_after_init:
  assumes meta: "model_metadata create_all" and d: "earlier_version d"
    and run: "init_db F create_all (str ''sqlite'') (open_conn d) = (Inr (), w')"
  shows "schema_ready (view (cn_committed w'))"
    and "map_of (sd_tables d) n = Some tb
      \<Longrightarrow> \<exists>tb'. map_of (sd_tables (cn_committed w')) n = Some tb' \<and> rows_kept n tb tb'"
    and "\<exists>w''. init_db no_stmt_faults create_all (str ''sqlite'') (open_conn (cn_committed w')) = (Inr (), w'')
        \<and> view (cn_committed w'') = view (cn_committed w')"
proof -
  have base: "metadata create_all" using meta by (simp add: model_metadata_def)
  have legacy: "\<And>n tb. map_of (sd_tables d) n = Some tb \<Longrightarrow> legacy_table n tb"
    using d earlier_legacy by (auto simp: earlier_version_def)
  have beats: "missing_heartbeat_columns (map_of (sd_tables d)) = {}"
    by (rule model_metadata.refused_heartbeat [OF meta legacy run])
  obtain d1 where d1: "create_all d = Inr d1" and v: "view (cn_committed w') = migrated (view d1)"
    using metadata.outcome [OF base legacy run] by auto
  have legacy1: "\<And>n tb. fst (view d1) n = Some tb \<Longrightarrow> legacy_table n tb"
    using metadata.legacy [OF base d1 legacy] by (simp add: view_def)
  have all: "model_tables \<subseteq> dom (fst (view d1))"
    using metadata.creates [OF base d1] by (auto simp: view_def)
  show "schema_ready (view (cn_committed w'))"
    unfolding v
    by (rule migrated_ready [OF legacy1 all])
      (simp_all add: view_def model_metadata.migrated_columns [OF meta d d1 beats]
        model_metadata.known_after_create [OF meta d d1])
  show "\<exists>tb'. map_of (sd_tables (cn_committed w')) n = Some tb' \<and> rows_kept n tb tb'"
    if old: "map_of (sd_tables d) n = Some tb"
  proof -
    have "map_of (sd_tables (cn_committed w')) n = Some (migrate_table n tb)"
      using v metadata.keeps [OF base d1 old] by (simp add: view_def migrated_def)
    moreover have "earlier_table n tb" using d old by (simp add: earlier_version_def)
    ultimately show ?thesis using migrate_table_rows by blast
  qed
  note after = metadata.legacy_after [OF base legacy d1 v]
  have "create_all (cn_committed w') = Inr (cn_committed w')"
    by (rule metadata.complete [OF base after(2)])
  from metadata.quiet [OF base after(1) this] after(3) beats
  obtain w'' where "init_db no_stmt_faults create_all (str ''sqlite'') (open_conn (cn_committed w')) = (Inr (), w'')"
      "view (cn_committed w'') = migrated (view (cn_committed w'))" by auto
  then show "\<exists>w''. init_db no_stmt_faults create_all (str ''sqlite'') (open_conn (cn_committed w')) = (Inr (), w'')
        \<and> view (cn_committed w'') = view (cn_committed w')"
    by (simp add: v migrated_twice [OF legacy1 all])
qed

text \<open>
  C19. The migration of a database of an earlier version refines its specification, one function of
  each table, statement failures included. When no statement fails, \<open>init_db\<close> commits exactly the
  specified tables and indexes, unless the heartbeat table lacks a column, when it raises the error that
  names the missing columns and changes nothing. Whatever statement fails, it either raises and has
  committed nothing, or has committed exactly the specified schema.
\<close>

theorem init_db_refines_migration:
  assumes "metadata create_all" and "create_all d = Inr d1"
    and "\<And>n tb. map_of (sd_tables d) n = Some tb \<Longrightarrow> legacy_table n tb"
  shows "(if missing_heartbeat_columns (map_of (sd_tables d)) = {}
      then \<exists>w'. init_db no_stmt_faults create_all (str ''sqlite'') (open_conn d) = (Inr (), w')
             \<and> view (cn_committed w') = migrated (view d1)
      else \<exists>w'. init_db no_stmt_faults create_all (str ''sqlite'') (open_conn d)
             = (Inl (heartbeat_incomplete (missing_heartbeat_columns (map_of (sd_tables d)))), w') \<and> cn_committed w' = d)
    \<and> (\<exists>r w'. init_db F create_all (str ''sqlite'') (open_conn d) = (r, w')
        \<and> ((\<exists>exc. r = Inl exc \<and> cn_committed w' = d) \<or> (r = Inr () \<and> view (cn_committed w') = migrated (view d1))))"
proof
  show "if missing_heartbeat_columns (map_of (sd_tables d)) = {}
      then \<exists>w'. init_db no_stmt_faults create_all (str ''sqlite'') (open_conn d) = (Inr (), w')
             \<and> view (cn_committed w') = migrated (view d1)
      else \<exists>w'. init_db no_stmt_faults create_all (str ''sqlite'') (open_conn d)
             = (Inl (heartbeat_incomplete (missing_heartbeat_columns (map_of (sd_tables d)))), w') \<and> cn_committed w' = d"
    by (rule metadata.quiet [OF assms(1,3,2)])
  obtain r w' where run: "init_db F create_all (str ''sqlite'') (open_conn d) = (r, w')"
    by (cases "init_db F create_all (str ''sqlite'') (open_conn d)")
  from metadata.outcome [OF assms(1,3) run] assms(2) run
  show "\<exists>r w'. init_db F create_all (str ''sqlite'') (open_conn d) = (r, w')
        \<and> ((\<exists>exc. r = Inl exc \<and> cn_committed w' = d) \<or> (r = Inr () \<and> view (cn_committed w') = migrated (view d1)))"
    by auto
qed

text \<open>
  C20. Once \<open>init_db\<close> has returned, on whatever database of an earlier version and with whatever
  failures before, the schema is what the models ask for: every table has every column of its model,
  all required indexes exist, at most one SMTP configuration is enabled and no rule has two suppressions
  of one key. No row has lost a value: of the enabled SMTP configurations all but the latest are
  switched off and nothing else in them changes, of the suppressions of a key the last one stays, and
  all other rows keep every cell and read the default of the model in each new column. Running it again
  changes nothing.
\<close>

theorem init_db_establishes_schema:
  assumes "model_metadata create_all" and "earlier_version d"
    and "init_db F create_all (str ''sqlite'') (open_conn d) = (Inr (), w')"
  shows "schema_ready (view (cn_committed w'))
    \<and> (\<forall>n tb. map_of (sd_tables d) n = Some tb
         \<longrightarrow> (\<exists>tb'. map_of (sd_tables (cn_committed w')) n = Some tb' \<and> rows_kept n tb tb'))
    \<and> (\<exists>w''. init_db no_stmt_faults create_all (str ''sqlite'') (open_conn (cn_committed w')) = (Inr (), w'')
        \<and> view (cn_committed w'') = view (cn_committed w'))"
  using ready_after_init [OF assms] by blast

text \<open>A database of the first version with two enabled SMTP configurations.\<close>

definition smtp_row :: "int \<Rightarrow> string \<Rightarrow> sql_row" where
  "smtp_row i t = [(str ''id'', VInt i), (str ''enabled'', VInt 1), (str ''updated_at'', VText (str t))]"

definition old_schema :: sqlite_schema where
  "old_schema =
     \<lparr>sd_tables = [(str ''adminuser'', \<lparr>tb_columns = [str ''id''], tb_rows = [[(str ''id'', VInt 1)]]\<rparr>),
        (str ''smtpconfig'', \<lparr>tb_columns = [str ''id'', str ''enabled'', str ''updated_at''],
           tb_rows = [smtp_row 1 ''2026-01-02'', smtp_row 2 ''2026-01-01'']\<rparr>)],
      sd_indexes = []\<rparr>"

lemma old_schema_legacy: "map_of (sd_tables old_schema) n = Some tb \<Longrightarrow> legacy_table n tb"
  by (auto simp: old_schema_def legacy_table_def legacy_columns_def keyed_rows_def smtp_row_def cell_of_def split: if_splits)

lemma old_schema_heartbeat: "missing_heartbeat_columns (map_of (sd_tables old_schema)) = {}"
  by (simp add: missing_heartbeat_columns_def old_schema_def)

theorem init_db_refines_migration_witness:
  "\<exists>w' tb. init_db no_stmt_faults create_model_tables (str ''sqlite'') (open_conn old_schema) = (Inr (), w')
     \<and> map_of (sd_tables (cn_committed w')) (str ''adminuser'') = Some tb
     \<and> tb_rows tb = [[(str ''id'', VInt 1), (str ''session_version'', VInt 1)]]"
proof -
  obtain d1 where d1: "create_model_tables old_schema = Inr d1" by (simp add: create_model_tables_def)
  from init_db_refines_migration [OF models.metadata_axioms d1 old_schema_legacy, THEN conjunct1]
  obtain w' where w': "init_db no_stmt_faults create_model_tables (str ''sqlite'') (open_conn old_schema) = (Inr (), w')"
      "view (cn_committed w') = migrated (view d1)"
    unfolding if_P [OF old_schema_heartbeat] by blast
  have "map_of (sd_tables d1) (str ''adminuser'') = Some \<lparr>tb_columns = [str ''id''], tb_rows = [[(str ''id'', VInt 1)]]\<rparr>"
    unfolding create_model_tables_lookup [OF d1] by (simp add: old_schema_def)
  with w'(2) have "map_of (sd_tables (cn_committed w')) (str ''adminuser'')
      = Some \<lparr>tb_columns = [str ''id'', str ''session_version''], tb_rows = [[(str ''id'', VInt 1), (str ''session_version'', VInt 1)]]\<rparr>"
    by (simp add: view_def migrated_def migrate_table_def with_missing_def with_column_def)
  with w'(1) show ?thesis by auto
qed

text \<open>A database of the first version: its administrators have no session version, its rules no later
  column, and two SMTP configurations are enabled.\<close>

definition first_columns :: "string \<Rightarrow> pystr list" where
  "first_columns t = (case map_of model_schema t of
     Some (cs, ixs) \<Rightarrow> filter (\<lambda>c. c \<notin> fst ` set (later_columns (str t))) (map str cs) | None \<Rightarrow> [])"

definition first_row :: "string \<Rightarrow> (string \<times> sql_value) list \<Rightarrow> sql_row" where
  "first_row t given = map (\<lambda>c. (c, case map_of (map (\<lambda>(k, v). (str k, v)) given) c of Some v \<Rightarrow> v | None \<Rightarrow> VText []))
     (first_columns t)"

definition first_rule :: sql_row where
  "first_rule = first_row ''alertrule'' [(''id'', VInt 7), (''name'', VText (str ''stock''))]"

definition first_smtp :: "int \<Rightarrow> string \<Rightarrow> sql_row" where
  "first_smtp i t = first_row ''smtpconfig'' [(''id'', VInt i), (''enabled'', VInt 1), (''updated_at'', VText (str t))]"

definition first_schema :: sqlite_schema where
  "first_schema =
     \<lparr>sd_tables =
        [(str ''alertrule'', \<lparr>tb_columns = first_columns ''alertrule'', tb_rows = [first_rule]\<rparr>),
         (str ''smtpconfig'', \<lparr>tb_columns = first_columns ''smtpconfig'',
            tb_rows = [first_smtp 1 ''2026-01-02'', first_smtp 2 ''2026-01-01'']\<rparr>)],
      sd_indexes = [model_index ''alertrule'' (''name'', False)]\<rparr>"


lemma first_columns_of:
  "(t, cs, ixs) \<in> set model_schema \<Longrightarrow> str ` set cs \<subseteq> set (first_columns t) \<union> fst ` set (later_columns (str t))"
  by (auto simp: first_columns_def model_schema_lookup)

lemma first_row_columns: "fst ` set (first_row t given) = set (first_columns t)"
  by (force simp: first_row_def)

lemma first_row_cell:
  assumes "str c \<in> set (first_columns t)"
  shows "cell_of c (first_row t given) = (case map_of (map (\<lambda>(k, v). (str k, v)) given) (str c) of Some v \<Rightarrow> v | None \<Rightarrow> VText [])"
proof -
  have "map_of (map (\<lambda>c. (c, f c)) cs) x = Some (f x)" if "x \<in> set cs" for f :: "pystr \<Rightarrow> sql_value" and cs x
    using that by (induction cs) auto
  with assms show ?thesis by (simp add: cell_of_def first_row_def)
qed

lemma first_smtp_columns: "{str ''id'', str ''enabled'', str ''updated_at''} \<subseteq> set (first_columns ''smtpconfig'')"
  by (simp add: first_columns_def model_schema_at later_columns_def)

lemma first_smtp_cells:
  "cell_of ''id'' (first_smtp i t) = VInt i" "cell_of ''enabled'' (first_smtp i t) = VInt 1"
  "cell_of ''updated_at'' (first_smtp i t) = VText (str t)"
  using first_smtp_columns by (simp_all add: first_smtp_def first_row_cell)

lemma first_table:
  assumes "\<forall>r \<in> set rows. fst ` set r = set (first_columns t)"
    and "str t \<in> {str ''smtpconfig'', str ''alertsuppression''} \<longrightarrow> keyed_rows rows"
  shows "earlier_table (str t) \<lparr>tb_columns = first_columns t, tb_rows = rows\<rparr>"
  unfolding earlier_table_def
proof (intro conjI ballI)
  fix m assume m: "m \<in> set model_schema"
  obtain t' cs ixs where t': "m = (t', cs, ixs)" by (rule prod_cases3)
  from first_columns_of [OF m [unfolded t']]
  show "case m of (t', cs, ixs) \<Rightarrow> str t = str t' \<longrightarrow> t' = ''workerheartbeat''
      \<or> str ` set cs \<subseteq> set (tb_columns \<lparr>tb_columns = first_columns t, tb_rows = rows\<rparr>) \<union> fst ` set (later_columns (str t))"
    unfolding t' by (simp add: t')
qed (use assms in simp_all)

lemma first_earlier: "earlier_version first_schema"
proof -
  have "earlier_table (str ''alertrule'') \<lparr>tb_columns = first_columns ''alertrule'', tb_rows = [first_rule]\<rparr>"
    by (rule first_table) (simp_all add: first_rule_def first_row_columns)
  moreover have "earlier_table (str ''smtpconfig'') \<lparr>tb_columns = first_columns ''smtpconfig'',
      tb_rows = [first_smtp 1 ''2026-01-02'', first_smtp 2 ''2026-01-01'']\<rparr>"
    by (rule first_table) (auto simp: first_smtp_def first_row_columns keyed_rows_def first_smtp_cells [unfolded first_smtp_def])
  moreover have "known_indexes (sd_indexes first_schema)"
    by (simp add: known_indexes_def first_schema_def model_index_def required_indexes_def plain_index_def)
  ultimately show ?thesis
    by (auto simp: earlier_version_def known_indexes_def) (auto simp: first_schema_def split: if_splits)
qed

lemma first_heartbeat: "missing_heartbeat_columns (map_of (sd_tables first_schema)) = {}"
  by (simp add: missing_heartbeat_columns_def first_schema_def)

text \<open>Afterwards the rule reads the defaults, and of the two SMTP configurations the later is enabled.\<close>

theorem init_db_establishes_schema_witness:
  "\<exists>w' rules smtp r. init_db no_stmt_faults create_model_tables (str ''sqlite'') (open_conn first_schema) = (Inr (), w')
     \<and> schema_ready (view (cn_committed w'))
     \<and> map_of (sd_tables (cn_committed w')) (str ''alertrule'') = Some rules
     \<and> tb_rows rules = [r] \<and> cell_of ''id'' r = VInt 7 \<and> cell_of ''suppression_window_hours'' r = VInt 24
     \<and> map_of (sd_tables (cn_committed w')) (str ''smtpconfig'') = Some smtp
     \<and> map (cell_of ''enabled'') (tb_rows smtp) = [VInt 1, VInt 0]"
proof -
  have legacy: "map_of (sd_tables first_schema) n = Some tb \<Longrightarrow> legacy_table n tb" for n tb
    using first_earlier earlier_legacy by (simp add: earlier_version_def)
  obtain d1 where d1: "create_model_tables first_schema = Inr d1" by (simp add: create_model_tables_def)
  from models.quiet [OF legacy d1, unfolded if_P [OF first_heartbeat]]
  obtain w' where w': "init_db no_stmt_faults create_model_tables (str ''sqlite'') (open_conn first_schema) = (Inr (), w')"
    by blast
  note ready = init_db_establishes_schema [OF whole_models.model_metadata_axioms first_earlier w']
  define old where "old = \<lparr>tb_columns = first_columns ''alertrule'', tb_rows = [first_rule]\<rparr>"
  define smtp0 where "smtp0 = \<lparr>tb_columns = first_columns ''smtpconfig'',
      tb_rows = [first_smtp 1 ''2026-01-02'', first_smtp 2 ''2026-01-01'']\<rparr>"
  have tables: "map_of (sd_tables first_schema) (str ''alertrule'') = Some old"
    "map_of (sd_tables first_schema) (str ''smtpconfig'') = Some smtp0"
    by (simp_all add: first_schema_def old_def smtp0_def)
  from ready tables(1) obtain rules where rules: "map_of (sd_tables (cn_committed w')) (str ''alertrule'') = Some rules"
    "rows_kept (str ''alertrule'') old rules" by blast
  from ready tables(2) obtain smtp where smtp: "map_of (sd_tables (cn_committed w')) (str ''smtpconfig'') = Some smtp"
    "rows_kept (str ''smtpconfig'') smtp0 smtp" by blast
  from rules(2) obtain r where r: "tb_rows rules = [r]" and cells: "\<And>c. map_of r c =
      (if c \<in> set (tb_columns old) then map_of first_rule c else map_of (later_columns (str ''alertrule'')) c)"
    by (auto simp: rows_kept_def old_def list_all2_Cons1)
  have ids: "str ''id'' \<in> set (first_columns ''alertrule'')" "str ''suppression_window_hours'' \<notin> set (first_columns ''alertrule'')"
    by (simp_all add: first_columns_def model_schema_def later_columns_def)
  have "cell_of ''id'' r = cell_of ''id'' first_rule" using ids(1) by (simp add: cell_of_def cells old_def)
  also have "\<dots> = VInt 7" using first_row_cell [OF ids(1)] by (simp add: first_rule_def)
  finally have id: "cell_of ''id'' r = VInt 7" .
  have hours: "cell_of ''suppression_window_hours'' r = VInt 24"
    using ids(2) by (simp add: cell_of_def cells old_def later_columns_def)
  have "superseded (tb_rows smtp0) (first_smtp 2 ''2026-01-01'')" "\<not> superseded (tb_rows smtp0) (first_smtp 1 ''2026-01-02'')"
    "smtp_enabled (first_smtp i t)" for i t
    by (simp_all add: superseded_def smtp0_def smtp_enabled_def smtp_order_def first_smtp_cells str_def less_sql_value_def)
  with smtp(2) have enabled: "map (cell_of ''enabled'') (tb_rows smtp) = [VInt 1, VInt 0]"
    by (auto simp: rows_kept_def smtp0_def list_all2_Cons1 cell_of_def first_smtp_cells(2) [unfolded cell_of_def])
  show ?thesis
    by (intro exI conjI) (rule w' ready [THEN conjunct1] rules(1) r id hours smtp(1) enabled)+
qed

end
