(* ===== verification/Settings.thy ===== *)
theory Settings
  imports Crypto Auth
begin

text \<open>
  The settings (\<open>src/app/settings.py\<close>): fields with defaults and bounds, and the validators of the two
  secrets. The values come from the environment, from \<open>.env\<close> or as keyword arguments, already merged;
  how pydantic converts a value to the type of its field, \<open>str.casefold\<close> and Fernet are arguments.
\<close>

datatype setting_value = SvStr pystr | SvInt int | SvBool bool | SvFloat | SvOther

datatype py_float = Finite real | Not_Finite

record pydantic_lib =
  as_int :: "setting_value \<Rightarrow> int option"
  as_float :: "setting_value \<Rightarrow> py_float option"
  as_bool :: "setting_value \<Rightarrow> bool option"
  as_text :: "setting_value \<Rightarrow> pystr option"
  py_casefold :: "pystr \<Rightarrow> pystr"

record settings =
  st_app_name :: pystr
  st_database_url :: pystr
  st_scheduler_sync_interval_seconds :: real
  st_rule_execution_lease_seconds :: int
  st_scheduler_misfire_grace_seconds :: int
  st_worker_heartbeat_timeout_seconds :: int
  st_log_retention_days :: int
  st_log_cleanup_interval_seconds :: int
  st_session_max_age_seconds :: int
  st_session_idle_timeout_seconds :: int
  st_session_secret :: pystr
  st_secret_key :: pystr
  st_session_cookie_secure :: bool
  st_login_max_failures :: int
  st_login_failure_window_seconds :: int
  st_login_lockout_seconds :: int

section \<open>Fields\<close>

datatype setting_error = Missing | Wrong_Type | Not_Positive | Infinite_Or_Nan | Rejected pystr

text \<open>The result of a field. A default is taken as it is; a value is converted, then checked.\<close>

definition field_of ::
  "(pystr \<times> setting_value) list \<Rightarrow> string \<Rightarrow> 'a option \<Rightarrow> (setting_value \<Rightarrow> 'a option) \<Rightarrow> ('a \<Rightarrow> setting_error option)
     \<Rightarrow> setting_error + 'a" where
  "field_of raw name initial convert check =
     (case map_of raw (str name) of
        None \<Rightarrow> (case initial of None \<Rightarrow> Inl Missing | Some x \<Rightarrow> Inr x)
      | Some v \<Rightarrow> (case convert v of
                     None \<Rightarrow> Inl Wrong_Type
                   | Some x \<Rightarrow> (case check x of Some e \<Rightarrow> Inl e | None \<Rightarrow> Inr x)))"

definition no_check :: "'a \<Rightarrow> setting_error option" where
  "no_check x = None"

definition positive :: "int \<Rightarrow> setting_error option" where
  "positive i = (if 0 < i then None else Some Not_Positive)"

definition positive_finite :: "py_float \<Rightarrow> setting_error option" where
  "positive_finite x = (case x of Finite r \<Rightarrow> if 0 < r then None else Some Not_Positive | Not_Finite \<Rightarrow> Some Infinite_Or_Nan)"

definition reject_scheduler_misfire_bool :: "setting_value \<Rightarrow> setting_error option" where
  "reject_scheduler_misfire_bool v =
     (case v of SvBool b \<Rightarrow> Some (Rejected (str ''scheduler_misfire_grace_seconds must be an integer'')) | _ \<Rightarrow> None)"

definition misfire_field :: "pydantic_lib \<Rightarrow> (pystr \<times> setting_value) list \<Rightarrow> setting_error + int" where
  "misfire_field P raw =
     (case Option.bind (map_of raw (str ''scheduler_misfire_grace_seconds'')) reject_scheduler_misfire_bool of
        Some e \<Rightarrow> Inl e
      | None \<Rightarrow> field_of raw ''scheduler_misfire_grace_seconds'' (Some 300) (as_int P) positive)"

section \<open>The secrets\<close>

definition validate_session_secret :: "(pystr \<Rightarrow> pystr) \<Rightarrow> pystr \<Rightarrow> setting_error option" where
  "validate_session_secret casefold value =
     (let normalized = strip value
      in if normalized = [] then Some (Rejected (str ''session_secret must not be empty''))
         else if normalized \<noteq> value then Some (Rejected (str ''session_secret must not have outer whitespace''))
         else if startswith (casefold normalized) (str ''replace_me'')
           then Some (Rejected (str ''session_secret must not use a REPLACE_ME placeholder''))
         else (case encode_res value of
                 Inl exc \<Rightarrow> Some (Rejected (exn_str exc))
               | Inr bytes \<Rightarrow> if length bytes < 32 then Some (Rejected (str ''session_secret must be at least 32 bytes''))
                              else None))"

text \<open>Exceptions of Fernet other than \<open>TypeError\<close> and \<open>ValueError\<close> leave the constructor of the settings
  (the left side).\<close>

definition rejects_key :: "exn \<Rightarrow> bool" where
  "rejects_key exc = (case exc of ValueError m \<Rightarrow> True | OtherError n m \<Rightarrow> n = str ''TypeError'' | _ \<Rightarrow> False)"

definition validate_secret_key :: "'k fernet_lib \<Rightarrow> pystr \<Rightarrow> setting_error option res" where
  "validate_secret_key F value =
     (if strip value = [] then Inr (Some (Rejected (str ''secret_key must not be empty'')))
      else if startswith value (str ''REPLACE_ME'')
        then Inr (Some (Rejected (str ''secret_key must not use a REPLACE_ME placeholder'')))
      else (case from_key_material F value of
              Inl exc \<Rightarrow> if rejects_key exc then Inr (Some (Rejected (str ''secret_key must be a valid Fernet key'')))
                         else Inl exc
            | Inr key \<Rightarrow> Inr None))"

definition secret_key_field ::
  "pydantic_lib \<Rightarrow> 'k fernet_lib \<Rightarrow> (pystr \<times> setting_value) list \<Rightarrow> (setting_error + pystr) res" where
  "secret_key_field P F raw =
     (case map_of raw (str ''secret_key'') of
        None \<Rightarrow> Inr (Inl Missing)
      | Some v \<Rightarrow> (case as_text P v of
                     None \<Rightarrow> Inr (Inl Wrong_Type)
                   | Some x \<Rightarrow> map_sum id (\<lambda>e. case e of Some e \<Rightarrow> Inl e | None \<Rightarrow> Inr x) (validate_secret_key F x)))"

section \<open>Loading\<close>

definition error_of :: "string \<Rightarrow> setting_error + 'a \<Rightarrow> (pystr \<times> setting_error) list" where
  "error_of name r = (case r of Inl e \<Rightarrow> [(str name, e)] | Inr x \<Rightarrow> [])"

definition finite_value :: "py_float \<Rightarrow> real" where
  "finite_value x = (case x of Finite r \<Rightarrow> r | Not_Finite \<Rightarrow> 0)"

text \<open>Every field is checked; the settings exist when no field has an error (\<open>ValidationError\<close>
  otherwise, on the left of the inner sum).\<close>

definition load_settings ::
  "pydantic_lib \<Rightarrow> 'k fernet_lib \<Rightarrow> pystr \<Rightarrow> (pystr \<times> setting_value) list
     \<Rightarrow> ((pystr \<times> setting_error) list + settings) res" where
  "load_settings P F default_name raw =
     (case secret_key_field P F raw of
        Inl exc \<Rightarrow> Inl exc
      | Inr key \<Rightarrow>
          let name = field_of raw ''app_name'' (Some default_name) (as_text P) no_check;
              url = field_of raw ''database_url'' (Some (str ''sqlite:///./early_warning.sqlite3'')) (as_text P) no_check;
              sync = field_of raw ''scheduler_sync_interval_seconds'' (Some (Finite 10)) (as_float P) positive_finite;
              lease = field_of raw ''rule_execution_lease_seconds'' (Some 7200) (as_int P) positive;
              misfire = misfire_field P raw;
              heartbeat = field_of raw ''worker_heartbeat_timeout_seconds'' (Some 60) (as_int P) positive;
              retention = field_of raw ''log_retention_days'' (Some 180) (as_int P) positive;
              cleanup = field_of raw ''log_cleanup_interval_seconds'' (Some 86400) (as_int P) positive;
              max_age = field_of raw ''session_max_age_seconds'' (Some 28800) (as_int P) positive;
              idle = field_of raw ''session_idle_timeout_seconds'' (Some 1800) (as_int P) positive;
              secret = field_of raw ''session_secret'' None (as_text P) (validate_session_secret (py_casefold P));
              secure = field_of raw ''session_cookie_secure'' (Some False) (as_bool P) no_check;
              failures = field_of raw ''login_max_failures'' (Some 5) (as_int P) positive;
              window = field_of raw ''login_failure_window_seconds'' (Some 900) (as_int P) positive;
              lockout = field_of raw ''login_lockout_seconds'' (Some 900) (as_int P) positive;
              errors = error_of ''app_name'' name @ error_of ''database_url'' url
                @ error_of ''scheduler_sync_interval_seconds'' sync @ error_of ''rule_execution_lease_seconds'' lease
                @ error_of ''scheduler_misfire_grace_seconds'' misfire
                @ error_of ''worker_heartbeat_timeout_seconds'' heartbeat @ error_of ''log_retention_days'' retention
                @ error_of ''log_cleanup_interval_seconds'' cleanup @ error_of ''session_max_age_seconds'' max_age
                @ error_of ''session_idle_timeout_seconds'' idle @ error_of ''session_secret'' secret
                @ error_of ''secret_key'' key @ error_of ''session_cookie_secure'' secure
                @ error_of ''login_max_failures'' failures @ error_of ''login_failure_window_seconds'' window
                @ error_of ''login_lockout_seconds'' lockout
          in if errors \<noteq> [] then Inr (Inl errors)
             else Inr (Inr \<lparr>st_app_name = projr name, st_database_url = projr url,
               st_scheduler_sync_interval_seconds = finite_value (projr sync),
               st_rule_execution_lease_seconds = projr lease, st_scheduler_misfire_grace_seconds = projr misfire,
               st_worker_heartbeat_timeout_seconds = projr heartbeat, st_log_retention_days = projr retention,
               st_log_cleanup_interval_seconds = projr cleanup, st_session_max_age_seconds = projr max_age,
               st_session_idle_timeout_seconds = projr idle, st_session_secret = projr secret,
               st_secret_key = projr key, st_session_cookie_secure = projr secure,
               st_login_max_failures = projr failures, st_login_failure_window_seconds = projr window,
               st_login_lockout_seconds = projr lockout\<rparr>))"

text \<open>\<open>get_settings\<close> is cached: only a successful load is kept (\<open>lru_cache\<close> keeps no exception).\<close>

definition get_settings ::
  "((pystr \<times> setting_error) list + settings) res \<Rightarrow> settings option
     \<Rightarrow> ((pystr \<times> setting_error) list + settings) res \<times> settings option" where
  "get_settings load cache =
     (case cache of
        Some s \<Rightarrow> (Inr (Inr s), cache)
      | None \<Rightarrow> (case load of Inr (Inr s) \<Rightarrow> (load, Some s) | _ \<Rightarrow> (load, None)))"

section \<open>What the rest of the program gets\<close>

definition limiter_settings :: "settings \<Rightarrow> limiter_config" where
  "limiter_settings s =
     \<lparr>max_failures = st_login_max_failures s, failure_window_seconds = st_login_failure_window_seconds s,
      lockout_seconds = st_login_lockout_seconds s, max_states = 10000,
      cleanup_interval_seconds = 60, cleanup_batch_size = 64\<rparr>"

definition session_settings :: "settings \<Rightarrow> auth_settings" where
  "session_settings s =
     \<lparr>session_max_age_seconds = st_session_max_age_seconds s,
      session_idle_timeout_seconds = st_session_idle_timeout_seconds s\<rparr>"

text \<open>The bounds of the fields and the strength of the secrets.\<close>

definition positive_settings :: "settings \<Rightarrow> bool" where
  "positive_settings s \<longleftrightarrow>
     0 < st_scheduler_sync_interval_seconds s \<and> 0 < st_rule_execution_lease_seconds s
     \<and> 0 < st_scheduler_misfire_grace_seconds s \<and> 0 < st_worker_heartbeat_timeout_seconds s
     \<and> 0 < st_log_retention_days s \<and> 0 < st_log_cleanup_interval_seconds s \<and> 0 < st_session_max_age_seconds s
     \<and> 0 < st_session_idle_timeout_seconds s \<and> 0 < st_login_max_failures s
     \<and> 0 < st_login_failure_window_seconds s \<and> 0 < st_login_lockout_seconds s"

definition strong_secret :: "(pystr \<Rightarrow> pystr) \<Rightarrow> pystr \<Rightarrow> bool" where
  "strong_secret casefold value \<longleftrightarrow>
     value \<noteq> [] \<and> strip value = value \<and> \<not> prefix (str ''replace_me'') (casefold value)
     \<and> (\<exists>bytes. utf8_encode value = Some bytes \<and> 32 \<le> length bytes)"

lemma session_secret_strong: "validate_session_secret casefold value = None \<longleftrightarrow> strong_secret casefold value"
  by (auto simp: validate_session_secret_def strong_secret_def Let_def startswith_def encode_res_def
      split: option.splits if_splits)

lemma field_of_Inr:
  "field_of raw name initial convert check = Inr x \<longleftrightarrow>
     (case map_of raw (str name) of
        None \<Rightarrow> initial = Some x | Some v \<Rightarrow> convert v = Some x \<and> check x = None)"
  by (auto simp: field_of_def split: option.split)

lemma positive_field:
  "field_of raw name (Some d) convert positive = Inr x \<Longrightarrow> 0 < d \<Longrightarrow> 0 < x"
  by (auto simp: field_of_Inr positive_def split: option.splits if_splits)

lemma positive_finite_field:
  "field_of raw name (Some (Finite d)) convert positive_finite = Inr x \<Longrightarrow> 0 < d \<Longrightarrow> 0 < finite_value x"
  by (auto simp: field_of_Inr positive_finite_def finite_value_def split: option.splits if_splits py_float.splits)

lemma misfire_positive: "misfire_field P raw = Inr x \<Longrightarrow> 0 < x"
  by (auto simp: misfire_field_def split: option.splits dest: positive_field)

lemma session_secret_field:
  "field_of raw ''session_secret'' None convert (validate_session_secret casefold) = Inr x \<Longrightarrow> strong_secret casefold x"
  by (auto simp: field_of_Inr session_secret_strong split: option.splits)

lemma secret_key_usable:
  assumes "secret_key_field P F raw = Inr (Inr x)"
  shows "(\<exists>key. from_key_material F x = Inr key) \<and> strip x \<noteq> [] \<and> \<not> prefix (str ''REPLACE_ME'') x"
  using assms by (auto simp: secret_key_field_def validate_secret_key_def startswith_def
      split: option.splits sum.splits if_splits)

lemma error_of_Nil: "error_of name r = [] \<longleftrightarrow> (\<exists>x. r = Inr x)"
  by (simp add: error_of_def split: sum.split)


text \<open>
  The shape of a successful load: every field is the result of its own check.
\<close>

lemma no_errors_shape:
  "(if errors \<noteq> [] then Inr (Inl errors) else Inr (Inr r)) = Inr (Inr s) \<Longrightarrow> errors = [] \<and> r = s"
  by (simp split: if_splits)

lemma load_settings_fields:
  assumes "load_settings P F default_name raw = Inr (Inr s)"
  shows "secret_key_field P F raw = Inr (Inr (st_secret_key s))"
    and "field_of raw ''session_secret'' None (as_text P) (validate_session_secret (py_casefold P)) = Inr (st_session_secret s)"
    and "positive_settings s"
    and "misfire_field P raw = Inr (st_scheduler_misfire_grace_seconds s)"
proof -
  obtain key where key: "secret_key_field P F raw = Inr key"
  proof (cases "secret_key_field P F raw")
    case (Inl exc)
    then show ?thesis using assms unfolding load_settings_def by (simp only: sum.case) simp
  qed (rule that)
  let ?int = "\<lambda>name d. field_of raw name (Some d) (as_int P) positive"
  let ?sync = "field_of raw ''scheduler_sync_interval_seconds'' (Some (Finite 10)) (as_float P) positive_finite"
  let ?secret = "field_of raw ''session_secret'' None (as_text P) (validate_session_secret (py_casefold P))"
  note load = no_errors_shape [OF assms [unfolded load_settings_def key sum.case Let_def]]
  have ok: "error_of ''secret_key'' key = []" "error_of ''session_secret'' ?secret = []"
    "error_of ''scheduler_sync_interval_seconds'' ?sync = []" "error_of ''scheduler_misfire_grace_seconds'' (misfire_field P raw) = []"
    "error_of ''rule_execution_lease_seconds'' (?int ''rule_execution_lease_seconds'' 7200) = []"
    "error_of ''worker_heartbeat_timeout_seconds'' (?int ''worker_heartbeat_timeout_seconds'' 60) = []"
    "error_of ''log_retention_days'' (?int ''log_retention_days'' 180) = []"
    "error_of ''log_cleanup_interval_seconds'' (?int ''log_cleanup_interval_seconds'' 86400) = []"
    "error_of ''session_max_age_seconds'' (?int ''session_max_age_seconds'' 28800) = []"
    "error_of ''session_idle_timeout_seconds'' (?int ''session_idle_timeout_seconds'' 1800) = []"
    "error_of ''login_max_failures'' (?int ''login_max_failures'' 5) = []"
    "error_of ''login_failure_window_seconds'' (?int ''login_failure_window_seconds'' 900) = []"
    "error_of ''login_lockout_seconds'' (?int ''login_lockout_seconds'' 900) = []"
    using load [THEN conjunct1] unfolding append_is_Nil_conv by simp_all
  have s: "st_secret_key s = projr key" "st_session_secret s = projr ?secret"
    "st_scheduler_sync_interval_seconds s = finite_value (projr ?sync)"
    "st_scheduler_misfire_grace_seconds s = projr (misfire_field P raw)"
    "st_rule_execution_lease_seconds s = projr (?int ''rule_execution_lease_seconds'' 7200)"
    "st_worker_heartbeat_timeout_seconds s = projr (?int ''worker_heartbeat_timeout_seconds'' 60)"
    "st_log_retention_days s = projr (?int ''log_retention_days'' 180)"
    "st_log_cleanup_interval_seconds s = projr (?int ''log_cleanup_interval_seconds'' 86400)"
    "st_session_max_age_seconds s = projr (?int ''session_max_age_seconds'' 28800)"
    "st_session_idle_timeout_seconds s = projr (?int ''session_idle_timeout_seconds'' 1800)"
    "st_login_max_failures s = projr (?int ''login_max_failures'' 5)"
    "st_login_failure_window_seconds s = projr (?int ''login_failure_window_seconds'' 900)"
    "st_login_lockout_seconds s = projr (?int ''login_lockout_seconds'' 900)"
    unfolding load [THEN conjunct2, symmetric] by simp_all
  show "secret_key_field P F raw = Inr (Inr (st_secret_key s))"
    using ok(1) s(1) key by (auto simp: error_of_Nil)
  show "?secret = Inr (st_session_secret s)" using ok(2) s(2) by (auto simp: error_of_Nil)
  show "misfire_field P raw = Inr (st_scheduler_misfire_grace_seconds s)" using ok(4) s(4) by (auto simp: error_of_Nil)
  have int: "0 < projr (?int name d)" if "error_of name (?int name d) = []" "0 < d" for name and d :: int
    using that by (auto simp: error_of_Nil dest: positive_field)
  have sync: "0 < finite_value (projr ?sync)"
    using ok(3) positive_finite_field [of raw "''scheduler_sync_interval_seconds''" 10 "as_float P"]
    by (auto simp: error_of_Nil)
  show "positive_settings s"
    unfolding positive_settings_def s
    using sync ok(4) int [OF ok(5)] int [OF ok(6)] int [OF ok(7)] int [OF ok(8)] int [OF ok(9)] int [OF ok(10)]
      int [OF ok(11)] int [OF ok(12)] int [OF ok(13)]
    by (auto simp: error_of_Nil dest: misfire_positive)
qed

text \<open>
  C24. Settings that load are well formed, whatever the environment holds and however its values are
  converted: every interval, limit and count is positive, the scheduler's grace is never a truth value,
  the session secret has no outer white space, is no placeholder and has at least 32 bytes, and the
  secret key is one Fernet accepts. So the components that depend on them start: the login limiter is
  built, the cipher of the stored passwords is built, and a rule's lease is never refused for its length.
\<close>

theorem loaded_settings_well_formed:
  assumes "load_settings P F default_name raw = Inr (Inr s)"
  shows "positive_settings s
    \<and> (\<forall>b. map_of raw (str ''scheduler_misfire_grace_seconds'') \<noteq> Some (SvBool b))
    \<and> strong_secret (py_casefold P) (st_session_secret s)
    \<and> (\<exists>key. from_key_material F (st_secret_key s) = Inr key)
    \<and> (\<exists>l. (init_limiter (limiter_settings s) t :: 'a limiter res) = Inr l)
    \<and> 0 < max_failures (limiter_settings s) \<and> 0 < lockout_seconds (limiter_settings s)
    \<and> 1 \<le> st_rule_execution_lease_seconds s"
proof -
  note fields = load_settings_fields [OF assms]
  have "map_of raw (str ''scheduler_misfire_grace_seconds'') \<noteq> Some (SvBool b)" for b
    using fields(4) by (auto simp: misfire_field_def reject_scheduler_misfire_bool_def)
  moreover have "\<exists>l. (init_limiter (limiter_settings s) t :: 'a limiter res) = Inr l"
    by (simp add: init_limiter_def limiter_settings_def)
  moreover have "0 < max_failures (limiter_settings s) \<and> 0 < lockout_seconds (limiter_settings s)
      \<and> 1 \<le> st_rule_execution_lease_seconds s"
    using fields(3) by (simp add: positive_settings_def limiter_settings_def)
  ultimately show ?thesis
    using fields(3) session_secret_field [OF fields(2)] secret_key_usable [OF fields(1)] by blast
qed

definition plain_pydantic :: pydantic_lib where
  "plain_pydantic =
     \<lparr>as_int = (\<lambda>v. case v of SvInt i \<Rightarrow> Some i | _ \<Rightarrow> None), as_float = (\<lambda>v. case v of SvInt i \<Rightarrow> Some (Finite (of_int i)) | _ \<Rightarrow> None),
      as_bool = (\<lambda>v. case v of SvBool b \<Rightarrow> Some b | _ \<Rightarrow> None), as_text = (\<lambda>v. case v of SvStr s \<Rightarrow> Some s | _ \<Rightarrow> None),
      py_casefold = map ascii_lower\<rparr>"

definition sample_settings_input :: "(pystr \<times> setting_value) list" where
  "sample_settings_input =
     [(str ''session_secret'', SvStr (str ''ordinary-random-session-secret-0123456789'')),
      (str ''secret_key'', SvStr (str ''key'')), (str ''login_max_failures'', SvInt 3)]"

lemma sample_session_secret:
  "validate_session_secret (map ascii_lower) (str ''ordinary-random-session-secret-0123456789'') = None"
  by (simp add: validate_session_secret_def Let_def str_def strip_def lstrip_def rstrip_def is_space_def
      startswith_def ascii_lower_def encode_res_def utf8_char_def)

theorem loaded_settings_well_formed_witness:
  "\<exists>s. load_settings plain_pydantic unary_fernet (str ''app'') sample_settings_input = Inr (Inr s)
     \<and> st_login_max_failures s = 3 \<and> st_log_retention_days s = 180 \<and> positive_settings s
     \<and> strong_secret (map ascii_lower) (st_session_secret s)"
proof -
  let ?raw = sample_settings_input
  have key: "secret_key_field plain_pydantic unary_fernet ?raw = Inr (Inr (str ''key''))"
    by (simp add: secret_key_field_def sample_settings_input_def plain_pydantic_def validate_secret_key_def
        str_def strip_def lstrip_def rstrip_def is_space_def startswith_def from_key_material_def encode_res_def
        utf8_char_def unary_fernet_def)
  have secret: "field_of ?raw ''session_secret'' None (as_text plain_pydantic) (validate_session_secret (py_casefold plain_pydantic))
      = Inr (str ''ordinary-random-session-secret-0123456789'')"
    using sample_session_secret by (simp add: field_of_def sample_settings_input_def plain_pydantic_def)
  have failures: "field_of ?raw ''login_max_failures'' (Some 5) (as_int plain_pydantic) positive = Inr 3"
    by (simp add: field_of_def sample_settings_input_def plain_pydantic_def positive_def)
  have misfire: "misfire_field plain_pydantic ?raw = Inr 300"
    by (simp add: misfire_field_def field_of_def sample_settings_input_def)
  have default: "field_of ?raw name (Some d) convert check = Inr d"
    if "map_of ?raw (str name) = None" for name and d :: 'a and convert check
    using that by (simp add: field_of_def)
  have "\<exists>s. load_settings plain_pydantic unary_fernet (str ''app'') ?raw = Inr (Inr s)
      \<and> st_login_max_failures s = 3 \<and> st_log_retention_days s = 180"
    unfolding load_settings_def key sum.case Let_def secret failures misfire
    by (simp add: field_of_def sample_settings_input_def error_of_def)
  then obtain s where s: "load_settings plain_pydantic unary_fernet (str ''app'') ?raw = Inr (Inr s)"
      "st_login_max_failures s = 3" "st_log_retention_days s = 180" by blast
  from loaded_settings_well_formed [OF s(1)] s show ?thesis by (auto simp: plain_pydantic_def)
qed

end
