(* ===== verification/Application.thy ===== *)
theory Application
  imports Settings
begin

text \<open>
  The assembly of the web application (\<open>src/app/main.py\<close>): content negotiation on the \<open>Accept\<close> header,
  the exception handlers and the middlewares every response passes. \<open>str.lower\<close> beyond ASCII and the
  conversion of a text to a float are arguments; the routes are an argument of the pipeline.
\<close>

section \<open>Content negotiation\<close>

record accept_lib =
  al_lower :: "pystr \<Rightarrow> pystr"
  al_float :: "pystr \<Rightarrow> py_float option"

text \<open>\<open>s.partition(c)\<close>; the second component says whether the separator was found.\<close>

definition partition_at :: "nat \<Rightarrow> pystr \<Rightarrow> pystr \<times> bool \<times> pystr" where
  "partition_at c s = (takeWhile (\<lambda>x. x \<noteq> c) s, c \<in> set s, tl (dropWhile (\<lambda>x. x \<noteq> c) s))"

fun quality_value :: "accept_lib \<Rightarrow> pystr list \<Rightarrow> real" where
  "quality_value A [] = 1"
| "quality_value A (parameter # parameters) =
     (case partition_at 61 parameter of (name, separator, v) \<Rightarrow>
        if al_lower A (strip name) \<noteq> str ''q'' then quality_value A parameters
        else if \<not> separator then 0
        else (case al_float A (strip v) of
                Some (Finite quality) \<Rightarrow> if 0 \<le> quality \<and> quality \<le> 1 then quality else 0
              | _ \<Rightarrow> 0))"

text \<open>One item of the header: its specificity and quality when it matches the target.\<close>

definition media_item :: "accept_lib \<Rightarrow> pystr \<times> pystr \<Rightarrow> pystr \<Rightarrow> (int \<times> real) option" where
  "media_item A target item =
     (let pieces = split_on (\<lambda>c. c = 59) item;
          media_range = hd pieces; parameters = tl pieces
      in case partition_at 47 (al_lower A (strip media_range)) of (media_type, separator, media_subtype) \<Rightarrow>
           if \<not> separator \<or> media_type \<notin> {str ''*'', fst target} then None
           else if media_subtype \<notin> {str ''*'', snd target} then None
           else Some ((if media_type \<noteq> str ''*'' then 1 else 0) + (if media_subtype \<noteq> str ''*'' then 1 else 0),
                      quality_value A parameters))"

definition better_media :: "int \<times> real \<Rightarrow> int \<times> real \<Rightarrow> int \<times> real" where
  "better_media m best =
     (if fst m > fst best then m
      else if fst m = fst best then (fst best, max (snd best) (snd m))
      else best)"

definition media_quality :: "accept_lib \<Rightarrow> pystr \<Rightarrow> pystr \<times> pystr \<Rightarrow> real" where
  "media_quality A accept_header target =
     snd (fold (\<lambda>item best. case media_item A target item of None \<Rightarrow> best | Some m \<Rightarrow> better_media m best)
            (split_on (\<lambda>c. c = 44) accept_header) (-1, 0))"

definition prefers_html :: "accept_lib \<Rightarrow> pystr \<Rightarrow> bool" where
  "prefers_html A accept_header =
     (let html_quality = media_quality A accept_header (str ''text'', str ''html'');
          json_quality = media_quality A accept_header (str ''application'', str ''json'')
      in html_quality > 0 \<and> html_quality > json_quality)"

text \<open>What the header asks for, by the rules of HTTP: the most specific of the matching items decide,
  and of those the best quality.\<close>

definition matching_media :: "accept_lib \<Rightarrow> pystr \<Rightarrow> pystr \<times> pystr \<Rightarrow> (int \<times> real) list" where
  "matching_media A accept_header target =
     List.map_filter (media_item A target) (split_on (\<lambda>c. c = 44) accept_header)"

definition most_specific :: "(int \<times> real) list \<Rightarrow> real set" where
  "most_specific ms = snd ` {m \<in> set ms. \<forall>m' \<in> set ms. fst m' \<le> fst m}"

lemma fold_matching:
  "fold (\<lambda>item best. case media_item A target item of None \<Rightarrow> best | Some m \<Rightarrow> better_media m best) items best
     = fold better_media (List.map_filter (media_item A target) items) best"
  by (induction items arbitrary: best) (simp_all add: map_filter_def split: option.split)

lemma quality_value_bounds: "0 \<le> quality_value A ps \<and> quality_value A ps \<le> 1"
  by (induction ps) (auto simp: Let_def split: prod.split option.split py_float.split)

lemma media_item_bounds:
  "media_item A target item = Some m \<Longrightarrow> 0 \<le> fst m \<and> fst m \<le> 2 \<and> 0 \<le> snd m \<and> snd m \<le> 1"
  using quality_value_bounds by (auto simp: media_item_def Let_def split: prod.splits if_splits)

text \<open>The loop keeps the greatest specificity seen and the best quality of it.\<close>

lemma fold_better_media:
  assumes "ms \<noteq> []" and "\<And>m. m \<in> set ms \<Longrightarrow> 0 \<le> fst m"
  shows "fold better_media ms (-1, 0) \<in> set ms
    \<and> (\<forall>m \<in> set ms. fst m < fst (fold better_media ms (-1, 0))
        \<or> (fst m = fst (fold better_media ms (-1, 0)) \<and> snd m \<le> snd (fold better_media ms (-1, 0))))"
  using assms
proof (induction ms rule: rev_induct)
  case Nil
  then show ?case by simp
next
  case (snoc m ms)
  define b where "b = fold better_media ms (-1, 0)"
  have m: "0 \<le> fst m" using snoc.prems(2) by simp
  show ?case
  proof (cases "ms = []")
    case True
    with m show ?thesis by (simp add: better_media_def)
  next
    case False
    then have IH: "b \<in> set ms" "\<forall>x \<in> set ms. fst x < fst b \<or> (fst x = fst b \<and> snd x \<le> snd b)"
      using snoc.IH snoc.prems(2) unfolding b_def by auto
    have step: "fold better_media (ms @ [m]) (-1, 0) = better_media m b" by (simp add: b_def)
    consider "fst m > fst b" | "fst m = fst b" | "fst m < fst b" by linarith
    then show ?thesis
    proof cases
      case 1
      with IH show ?thesis unfolding step by (fastforce simp: better_media_def)
    next
      case 2
      show ?thesis
      proof (cases "snd m \<le> snd b")
        case True
        with 2 IH show ?thesis unfolding step
          by (auto simp: better_media_def max_def prod.expand)
      next
        case False
        then have "better_media m b = m" using 2 by (simp add: better_media_def max_def prod_eq_iff)
        with 2 False IH show ?thesis unfolding step by fastforce
      qed
    next
      case 3
      with IH show ?thesis unfolding step by (auto simp: better_media_def)
    qed
  qed
qed

text \<open>
  C26. Content negotiation follows HTTP: the quality of a media type is that of the most specific items
  of the \<open>Accept\<close> header that match it (the best of them when several are equally specific), zero when
  none matches, and always between zero and one, whatever the header holds; and a page is sent exactly
  when HTML is acceptable and better than JSON.
\<close>

theorem media_quality_exact:
  "media_quality A accept_header target
     = (if matching_media A accept_header target = [] then 0
        else Max (most_specific (matching_media A accept_header target)))
   \<and> 0 \<le> media_quality A accept_header target \<and> media_quality A accept_header target \<le> 1
   \<and> (prefers_html A accept_header \<longleftrightarrow>
        0 < media_quality A accept_header (str ''text'', str ''html'')
        \<and> media_quality A accept_header (str ''application'', str ''json'')
            < media_quality A accept_header (str ''text'', str ''html''))"
proof -
  let ?ms = "matching_media A accept_header target"
  have items: "0 \<le> fst m" "0 \<le> snd m" "snd m \<le> 1" if "m \<in> set ?ms" for m
    using that media_item_bounds [of A target] by (auto simp: matching_media_def map_filter_def)
  have fold: "media_quality A accept_header target = snd (fold better_media ?ms (-1, 0))"
    by (simp add: media_quality_def fold_matching matching_media_def)
  have exact: "media_quality A accept_header target = (if ?ms = [] then 0 else Max (most_specific ?ms))
      \<and> 0 \<le> media_quality A accept_header target \<and> media_quality A accept_header target \<le> 1"
  proof (cases "?ms = []")
    case True
    then show ?thesis by (simp add: fold)
  next
    case False
    define b where "b = fold better_media ?ms (-1, 0)"
    have b: "b \<in> set ?ms" "\<forall>m \<in> set ?ms. fst m < fst b \<or> (fst m = fst b \<and> snd m \<le> snd b)"
      using fold_better_media [OF False items(1)] unfolding b_def by blast+
    have "Max (most_specific ?ms) = snd b"
    proof (rule Max_eqI)
      show "finite (most_specific ?ms)" by (simp add: most_specific_def)
      show "snd b \<in> most_specific ?ms"
        unfolding most_specific_def using b by (intro imageI) (auto dest: less_imp_le)
      show "q \<le> snd b" if q: "q \<in> most_specific ?ms" for q
      proof -
        obtain m where "m \<in> set ?ms" "\<forall>m' \<in> set ?ms. fst m' \<le> fst m" "q = snd m"
          using q unfolding most_specific_def by blast
        with b show ?thesis by (metis not_less)
      qed
    qed
    with False b(1) items show ?thesis by (simp add: fold b_def [symmetric])
  qed
  then show ?thesis by (auto simp: prefers_html_def Let_def)
qed


section \<open>Exceptions\<close>

text \<open>What the handlers answer: the login page again with the error and a CSRF token, a redirect to it,
  or the JSON body of the framework. The headers are those of the answer.\<close>

datatype error_reply =
    Login_Page nat pystr pystr headers
  | See_Other pystr
  | Detail_Json nat pystr headers

definition handle_http_exception ::
  "accept_lib \<Rightarrow> pystr \<Rightarrow> pystr \<Rightarrow> pystr \<Rightarrow> pystr option \<Rightarrow> web_session \<Rightarrow> nat \<Rightarrow> pystr \<Rightarrow> headers
     \<Rightarrow> error_reply \<times> web_session" where
  "handle_http_exception A fresh_token path http_method accept session status detail hs =
     (let accepts_html = prefers_html A (case accept of Some a \<Rightarrow> a | None \<Rightarrow> [])
      in if path = str ''/login'' \<and> http_method = str ''POST'' \<and> accepts_html \<and> status \<in> {400, 429} then
           (let error = (if status = 400 then LOGIN_FAILURE_DETAIL else LOGIN_LIMIT_DETAIL)
            in case ensure_csrf_token fresh_token session of
                 (token, session') \<Rightarrow> (Login_Page status error token hs, session'))
         else if status = 401 \<and> http_method = str ''GET'' \<and> accepts_html then (See_Other (str ''/login''), session)
         else (Detail_Json status detail hs, session))"

fun reply_status :: "error_reply \<Rightarrow> nat" where
  "reply_status (Login_Page status error token hs) = status"
| "reply_status (See_Other url) = 303"
| "reply_status (Detail_Json status detail hs) = status"

fun reply_headers :: "error_reply \<Rightarrow> headers" where
  "reply_headers (Login_Page status error token hs) = hs"
| "reply_headers (See_Other url) = [(str ''location'', url)]"
| "reply_headers (Detail_Json status detail hs) = hs"

section \<open>The middlewares\<close>

definition no_cache_static_assets :: "pystr \<Rightarrow> headers \<Rightarrow> headers" where
  "no_cache_static_assets path hs =
     (if startswith path (str ''/static/'') then set_header ''Cache-Control'' (str ''no-cache'') hs else hs)"

definition handle_unexpected_exception :: "bool \<Rightarrow> nat \<times> headers" where
  "handle_unexpected_exception secure = (500, apply_security_headers [] secure)"

text \<open>A route answers, raises an \<open>HTTPException\<close>, or raises anything else.\<close>

datatype route_result =
    Answers nat headers
  | Raises_Http nat pystr headers
  | Raises_Other exn

record request_info =
  ri_path :: pystr
  ri_method :: pystr
  ri_accept :: "pystr option"

text \<open>
  The way of a response: the handler of \<open>HTTPException\<close> is inside all middlewares, the middleware added
  last is outermost, and an exception that no handler takes passes them all and is answered outside.
\<close>

definition serve_request ::
  "accept_lib \<Rightarrow> settings \<Rightarrow> pystr \<Rightarrow> request_info \<Rightarrow> web_session \<Rightarrow> route_result \<Rightarrow> nat \<times> headers" where
  "serve_request A s fresh_token r session result =
     (let secure = st_session_cookie_secure s;
          through = (\<lambda>(status, hs). (status, no_cache_static_assets (ri_path r) (apply_security_headers hs secure)))
      in case result of
           Answers status hs \<Rightarrow> through (status, hs)
         | Raises_Http status detail hs \<Rightarrow>
             (case handle_http_exception A fresh_token (ri_path r) (ri_method r) (ri_accept r) session status detail hs of
                (reply, _) \<Rightarrow> through (reply_status reply, reply_headers reply))
         | Raises_Other exc \<Rightarrow> handle_unexpected_exception secure)"

text \<open>The settings of the session cookie.\<close>

record session_cookie =
  sk_secret :: pystr
  sk_https_only :: bool
  sk_same_site :: pystr
  sk_max_age :: int

record web_app =
  wa_title :: pystr
  wa_limiter :: limiter_config
  wa_cookie :: session_cookie
  wa_enable_hsts :: bool

definition create_app :: "settings \<Rightarrow> web_app" where
  "create_app s =
     \<lparr>wa_title = st_app_name s, wa_limiter = limiter_settings s,
      wa_cookie = \<lparr>sk_secret = st_session_secret s, sk_https_only = st_session_cookie_secure s,
                    sk_same_site = str ''lax'', sk_max_age = st_session_max_age_seconds s\<rparr>,
      wa_enable_hsts = st_session_cookie_secure s\<rparr>"

section \<open>Every response is protected\<close>

text \<open>The five headers and HSTS exactly when cookies are secure.\<close>

definition protected_headers :: "bool \<Rightarrow> headers \<Rightarrow> bool" where
  "protected_headers secure hs \<longleftrightarrow>
     get_header hs ''Content-Security-Policy'' = Some CONTENT_SECURITY_POLICY
     \<and> get_header hs ''X-Content-Type-Options'' = Some (str ''nosniff'')
     \<and> get_header hs ''Referrer-Policy'' = Some (str ''same-origin'')
     \<and> get_header hs ''Permissions-Policy'' = Some (str ''camera=(), microphone=(), geolocation=()'')
     \<and> get_header hs ''X-Frame-Options'' = Some (str ''DENY'')
     \<and> get_header hs ''Strict-Transport-Security'' = (if secure then Some STRICT_TRANSPORT_SECURITY else None)"

lemma applied_headers_protected: "protected_headers secure (apply_security_headers hs secure)"
  by (simp add: protected_headers_def get_header_def map_of_apply_security_headers)

lemma cache_control_other [simp]:
  "header_key ''Content-Security-Policy'' \<noteq> header_key ''Cache-Control''"
  "header_key ''X-Content-Type-Options'' \<noteq> header_key ''Cache-Control''"
  "header_key ''Referrer-Policy'' \<noteq> header_key ''Cache-Control''"
  "header_key ''Permissions-Policy'' \<noteq> header_key ''Cache-Control''"
  "header_key ''X-Frame-Options'' \<noteq> header_key ''Cache-Control''"
  "header_key ''Strict-Transport-Security'' \<noteq> header_key ''Cache-Control''"
  by (simp_all add: header_keys)

lemma no_cache_protected: "protected_headers secure hs \<Longrightarrow> protected_headers secure (no_cache_static_assets path hs)"
  by (simp add: protected_headers_def no_cache_static_assets_def get_header_def)

text \<open>
  C25. Every response of the application is protected, whatever the request and whether the route
  answered, raised an HTTP error or failed unexpectedly: it carries the five security headers and HSTS
  exactly when cookies are secure. An unexpected failure is a plain 500; an HTTP error keeps its status
  except a 401 for a page, which sends the browser to the login; and the login page that answers a failed
  login keeps the headers of the error, the time to wait included.
\<close>

theorem every_response_protected:
  "protected_headers (st_session_cookie_secure s) (snd (serve_request A s fresh r session result))
   \<and> fst (serve_request A s fresh r session result)
      = (case result of
           Answers status hs \<Rightarrow> status
         | Raises_Other exc \<Rightarrow> 500
         | Raises_Http status detail hs \<Rightarrow>
             (if status = 401 \<and> ri_method r = str ''GET'' \<and> prefers_html A (case ri_accept r of Some a \<Rightarrow> a | None \<Rightarrow> [])
              then 303 else status))
   \<and> (case result of
        Raises_Http status detail hs \<Rightarrow>
          get_header (snd (serve_request A s fresh r session result)) ''Retry-After''
            = (if status = 401 \<and> ri_method r = str ''GET'' \<and> prefers_html A (case ri_accept r of Some a \<Rightarrow> a | None \<Rightarrow> [])
               then None else get_header hs ''Retry-After'')
      | _ \<Rightarrow> True)"
proof (cases result)
  case (Answers status hs)
  then show ?thesis
    by (simp add: serve_request_def Let_def no_cache_protected applied_headers_protected)
next
  case (Raises_Other exc)
  then show ?thesis
    by (simp add: serve_request_def Let_def handle_unexpected_exception_def applied_headers_protected)
next
  case (Raises_Http status detail hs)
  obtain reply session' where reply: "handle_http_exception A fresh (ri_path r) (ri_method r) (ri_accept r) session status detail hs
      = (reply, session')" by fastforce
  have served: "serve_request A s fresh r session result = (reply_status reply,
      no_cache_static_assets (ri_path r) (apply_security_headers (reply_headers reply) (st_session_cookie_secure s)))"
    by (simp add: serve_request_def Let_def Raises_Http reply)
  have status: "reply_status reply = (if status = 401 \<and> ri_method r = str ''GET''
        \<and> prefers_html A (case ri_accept r of Some a \<Rightarrow> a | None \<Rightarrow> []) then 303 else status)"
    using reply by (auto simp: handle_http_exception_def Let_def split: if_splits prod.splits)
  have hs: "reply_headers reply = (if status = 401 \<and> ri_method r = str ''GET''
        \<and> prefers_html A (case ri_accept r of Some a \<Rightarrow> a | None \<Rightarrow> []) then [(str ''location'', str ''/login'')] else hs)"
    using reply by (auto simp: handle_http_exception_def Let_def split: if_splits prod.splits)
  have "get_header (no_cache_static_assets (ri_path r) (apply_security_headers hs secure)) ''Retry-After''
      = get_header hs ''Retry-After''" for hs secure
    by (simp add: no_cache_static_assets_def get_header_def map_of_apply_security_headers header_keys)
  moreover have "get_header [(str ''location'', str ''/login'')] ''Retry-After'' = None"
    by (simp add: get_header_def header_keys)
  ultimately show ?thesis
    unfolding served by (simp add: Raises_Http status hs no_cache_protected applied_headers_protected)
qed


section \<open>Pages with forms\<close>

text \<open>What a page is rendered from: its template, status, the token its forms carry, and the rest.\<close>

record 'c rendered_page =
  rp_template :: pystr
  rp_status :: nat
  rp_csrf_token :: pystr
  rp_context :: 'c

definition template_response ::
  "pystr \<Rightarrow> web_session \<Rightarrow> string \<Rightarrow> nat \<Rightarrow> 'c \<Rightarrow> 'c rendered_page \<times> web_session" where
  "template_response fresh session template_name status_code context0 =
     (case ensure_csrf_token fresh session of (token, session') \<Rightarrow>
        (\<lparr>rp_template = str template_name, rp_status = status_code, rp_csrf_token = token, rp_context = context0\<rparr>,
         session'))"

definition login_page :: "pystr \<Rightarrow> web_session \<Rightarrow> (string \<times> pystr) list rendered_page \<times> web_session" where
  "login_page fresh session = template_response fresh session ''login.html'' 200 [(''title'', [0x767B, 0x5F55])]"

text \<open>The form of a page passes the CSRF check of the request that posts it, and a page opened in
  another tab does not take the token away.\<close>

lemma rendered_form_accepted:
  assumes "fresh \<noteq> []" and "\<forall>c \<in> set fresh. c < 128"
    and "\<forall>t. map_of session CSRF_SESSION_KEY = Some (SStr t) \<longrightarrow> (\<forall>c \<in> set t. c < 128)"
    and "template_response fresh session name status context0 = (page, session')"
    and "posted CSRF_FORM_FIELD = Some (FStr (rp_csrf_token page))"
  shows "require_csrf u m session' (Inr posted) = Inr ()
    \<and> rp_csrf_token (fst (template_response other session' name' status' context1)) = rp_csrf_token page"
proof -
  have e: "ensure_csrf_token fresh session = (rp_csrf_token page, session')"
    using assms(4) by (auto simp: template_response_def split: prod.splits)
  from csrf_token_roundtrip [where fields = posted, OF assms(1-3) e assms(5)] show ?thesis
    by (simp add: template_response_def split: prod.splits)
qed

end
