(* ===== verification/Dashboard.thy ===== *)
theory Dashboard
  imports Log_Export Store
begin

text \<open>
  The dashboard (\<open>src/app/dashboard.py\<close>): the bounds of the day in Shanghai as UTC times, and the six
  queries of the page. The time zone is an argument: the wall time of an instant and the offset of a wall
  time, each with \<open>fold\<close>. What the code relies on is that Shanghai has been eight hours ahead of UTC
  since a time \<open>t0\<close> (the tz database says so from 1991 on).
\<close>

section \<open>The day\<close>

definition us_per_day :: int where
  "us_per_day = 86400 * us_per_second"

record time_zone =
  tz_fromutc :: "datetime \<Rightarrow> int \<times> bool"
  tz_utcoffset :: "int \<Rightarrow> bool \<Rightarrow> timedelta"

text \<open>\<open>replace(hour=0, ...)\<close>, and \<open>astimezone(UTC)\<close> of a wall time; both keep \<open>fold\<close>, adding a
  \<open>timedelta\<close> clears it.\<close>

definition start_of_day :: "int \<Rightarrow> int" where
  "start_of_day t = t - t mod us_per_day"

definition astimezone_utc :: "time_zone \<Rightarrow> int \<times> bool \<Rightarrow> datetime res" where
  "astimezone_utc Z lf = datetime_in_range (fst lf - tz_utcoffset Z (fst lf) (snd lf))"

definition shanghai_day_bounds_utc :: "time_zone \<Rightarrow> datetime \<Rightarrow> (datetime \<times> datetime) res" where
  "shanghai_day_bounds_utc Z now =
     (case tz_fromutc Z now of (local_now, f) \<Rightarrow>
      case datetime_in_range local_now of
        Inl exc \<Rightarrow> Inl exc
      | Inr _ \<Rightarrow>
         (let local_start = start_of_day local_now
          in case datetime_in_range (local_start + us_per_day) of
               Inl exc \<Rightarrow> Inl exc
             | Inr local_end \<Rightarrow>
                 (case astimezone_utc Z (local_start, f) of
                    Inl exc \<Rightarrow> Inl exc
                  | Inr start \<Rightarrow> (case astimezone_utc Z (local_end, False) of
                                    Inl exc \<Rightarrow> Inl exc | Inr e \<Rightarrow> Inr (start, e)))))"

definition shanghai_offset :: timedelta where
  "shanghai_offset = 8 * 3600 * us_per_second"

definition fixed_since :: "time_zone \<Rightarrow> datetime \<Rightarrow> bool" where
  "fixed_since Z t0 \<longleftrightarrow>
     (\<forall>t. t0 \<le> t \<longrightarrow> tz_fromutc Z t = (t + shanghai_offset, False))
     \<and> (\<forall>l f. t0 \<le> l - shanghai_offset \<longrightarrow> tz_utcoffset Z l f = shanghai_offset)"

text \<open>The date in Shanghai of an instant.\<close>

definition shanghai_date :: "datetime \<Rightarrow> int" where
  "shanghai_date t = (t + shanghai_offset) div us_per_day"

lemma us_per_day_pos [simp]: "0 < us_per_day"
  by (simp add: us_per_day_def us_per_second_def)

lemma start_of_day_bounds: "start_of_day t \<le> t" "t < start_of_day t + us_per_day"
proof -
  have "0 \<le> t mod us_per_day" "t mod us_per_day < us_per_day"
    by (simp_all only: pos_mod_sign pos_mod_bound us_per_day_pos)
  then show "start_of_day t \<le> t" "t < start_of_day t + us_per_day"
    unfolding start_of_day_def by linarith+
qed

lemma start_of_day_div: "start_of_day t = (t div us_per_day) * us_per_day"
  by (simp add: start_of_day_def minus_mod_eq_div_mult)

section \<open>The page\<close>

record dashboard_context =
  dc_enabled_rule_count :: nat
  dc_today_execution_count :: nat
  dc_recent_failure_count :: nat
  dc_recent_executions :: "(execution_log \<times> pystr) list"
  dc_mail_success_count :: nat
  dc_mail_failure_count :: nat

definition count_rows :: "('r \<Rightarrow> bool) \<Rightarrow> 'r list \<Rightarrow> nat" where
  "count_rows p rows = length (filter p rows)"

definition started_between :: "datetime \<Rightarrow> datetime \<Rightarrow> execution_log \<Rightarrow> bool" where
  "started_between lo hi l \<longleftrightarrow> lo \<le> el_started_at l \<and> el_started_at l < hi"

definition recent_failure :: "datetime \<Rightarrow> datetime \<Rightarrow> execution_log \<Rightarrow> bool" where
  "recent_failure lo now l \<longleftrightarrow> lo \<le> el_started_at l \<and> el_started_at l \<le> now
     \<and> (el_status l = FAILED \<or> el_status l = PARTIAL_FAILED)"

definition mail_between :: "mail_status list \<Rightarrow> datetime \<Rightarrow> datetime \<Rightarrow> mail_log \<Rightarrow> bool" where
  "mail_between sts lo now m \<longleftrightarrow> lo \<le> ml_sent_at m \<and> ml_sent_at m \<le> now \<and> ml_status m \<in> set sts"

text \<open>The join with the rules, latest executions first.\<close>

definition executions_with_rules :: "db \<Rightarrow> (execution_log \<times> pystr) list" where
  "executions_with_rules d =
     concat (map (\<lambda>l. map (\<lambda>r. (l, ar_name r)) (filter (\<lambda>r. ar_id r = Some (el_rule_id l)) (alert_rules d)))
       (rev (sort_key execution_log_key (execution_logs d))))"

definition build_dashboard_context ::
  "env \<Rightarrow> time_zone \<Rightarrow> datetime option \<Rightarrow> (world, dashboard_context) eff" where
  "build_dashboard_context E Z now =
     ebind (case now of Some t \<Rightarrow> ereturn t | None \<Rightarrow> utc_now E) (\<lambda>current.
     ebind (elift (shanghai_day_bounds_utc Z current)) (\<lambda>(today_start, today_end).
     ebind (elift (datetime_in_range (current - us_per_day))) (\<lambda>recent_start.
     ebind (db_query E (\<lambda>d. count_rows (\<lambda>r. ar_archived_at r = None \<and> ar_enabled r) (alert_rules d))) (\<lambda>rules.
     ebind (db_query E (\<lambda>d. count_rows (started_between today_start today_end) (execution_logs d))) (\<lambda>today.
     ebind (db_query E (\<lambda>d. count_rows (recent_failure recent_start current) (execution_logs d))) (\<lambda>failures.
     ebind (db_query E (\<lambda>d. take 5 (executions_with_rules d))) (\<lambda>recent.
     ebind (db_query E (\<lambda>d. count_rows (mail_between [MailSUCCESS] recent_start current) (mail_logs d))) (\<lambda>sent.
     ebind (db_query E (\<lambda>d. count_rows (mail_between [MailFAILED, MailPARTIAL_FAILED] recent_start current) (mail_logs d))) (\<lambda>unsent.
     ereturn \<lparr>dc_enabled_rule_count = rules, dc_today_execution_count = today, dc_recent_failure_count = failures,
       dc_recent_executions = recent, dc_mail_success_count = sent, dc_mail_failure_count = unsent\<rparr>)))))))))"

text \<open>The route: its session reads and never commits.\<close>

definition dashboard_page :: "env \<Rightarrow> time_zone \<Rightarrow> (world, dashboard_context) eff" where
  "dashboard_page E Z = with_session (build_dashboard_context E Z None)"

section \<open>What the page shows\<close>

lemma day_bounds:
  assumes "fixed_since Z t0" and "t0 + us_per_day \<le> now" and "datetime_min + us_per_day \<le> now"
    and "now + 2 * us_per_day \<le> datetime_max"
  shows "shanghai_day_bounds_utc Z now
    = Inr (shanghai_date now * us_per_day - shanghai_offset, (shanghai_date now + 1) * us_per_day - shanghai_offset)"
proof -
  let ?l = "now + shanghai_offset"
  let ?s = "start_of_day ?l"
  have offset: "0 < shanghai_offset" "shanghai_offset < us_per_day"
    by (simp_all add: shanghai_offset_def us_per_day_def us_per_second_def)
  have s: "?s \<le> ?l" "?l < ?s + us_per_day" by (rule start_of_day_bounds)+
  have "tz_fromutc Z now = (?l, False)" "tz_utcoffset Z ?s False = shanghai_offset"
      "tz_utcoffset Z (?s + us_per_day) False = shanghai_offset"
    using assms(1,2) s offset unfolding fixed_since_def by (simp, simp, simp)
  moreover have "datetime_in_range ?l = Inr ?l" "datetime_in_range (?s + us_per_day) = Inr (?s + us_per_day)"
      "datetime_in_range (?s - shanghai_offset) = Inr (?s - shanghai_offset)"
      "datetime_in_range (?s + us_per_day - shanghai_offset) = Inr (?s + us_per_day - shanghai_offset)"
    using assms(3,4) s offset by (simp_all add: datetime_in_range_def)
  ultimately have "shanghai_day_bounds_utc Z now = Inr (?s - shanghai_offset, ?s + us_per_day - shanghai_offset)"
    by (simp add: shanghai_day_bounds_utc_def astimezone_utc_def Let_def)
  then show ?thesis by (simp add: start_of_day_div shanghai_date_def algebra_simps)
qed

lemma in_day_iff:
  "shanghai_date now * us_per_day - shanghai_offset \<le> t \<and> t < (shanghai_date now + 1) * us_per_day - shanghai_offset
     \<longleftrightarrow> shanghai_date t = shanghai_date now"
proof -
  have "(n * us_per_day \<le> x \<and> x < (n + 1) * us_per_day) = (x div us_per_day = n)" for n x :: int
  proof
    assume "n * us_per_day \<le> x \<and> x < (n + 1) * us_per_day"
    then show "x div us_per_day = n"
      by (intro int_div_pos_eq [where r = "x - n * us_per_day"]) (simp_all add: algebra_simps)
  next
    assume n: "x div us_per_day = n"
    have "0 \<le> x mod us_per_day" "x mod us_per_day < us_per_day"
      by (simp_all only: pos_mod_sign pos_mod_bound us_per_day_pos)
    moreover have "x = n * us_per_day + x mod us_per_day" unfolding n [symmetric] by simp
    ultimately show "n * us_per_day \<le> x \<and> x < (n + 1) * us_per_day"
      unfolding distrib_right mult_1 by linarith
  qed
  from this [of "shanghai_date now" "t + shanghai_offset"] show ?thesis
    by (auto simp: shanghai_date_def)
qed


lemma count_append: "count_rows p (xs @ ys) = count_rows p xs + count_rows p ys"
  by (simp add: count_rows_def)

lemma count_disjoint:
  "(\<And>x. \<not> (p x \<and> q x)) \<Longrightarrow> count_rows p xs + count_rows q xs = count_rows (\<lambda>x. p x \<or> q x) xs"
  by (induction xs) (auto simp: count_rows_def)

lemma mails_all_counted:
  "count_rows (mail_between [MailSUCCESS] lo now) ms + count_rows (mail_between [MailFAILED, MailPARTIAL_FAILED] lo now) ms
     = count_rows (\<lambda>m. lo \<le> ml_sent_at m \<and> ml_sent_at m \<le> now) ms"
proof -
  have "mail_between [MailSUCCESS] lo now m \<or> mail_between [MailFAILED, MailPARTIAL_FAILED] lo now m
      \<longleftrightarrow> lo \<le> ml_sent_at m \<and> ml_sent_at m \<le> now" for m
    by (cases "ml_status m") (auto simp: mail_between_def)
  moreover have "\<not> (mail_between [MailSUCCESS] lo now m \<and> mail_between [MailFAILED, MailPARTIAL_FAILED] lo now m)" for m
    by (auto simp: mail_between_def)
  ultimately show ?thesis by (simp add: count_disjoint)
qed

text \<open>Every execution belongs to exactly one rule of the table (the foreign key and the primary key).\<close>

definition rules_known :: "db \<Rightarrow> bool" where
  "rules_known d \<longleftrightarrow> distinct (map ar_id (alert_rules d))
     \<and> (\<forall>l \<in> set (execution_logs d). \<exists>r \<in> set (alert_rules d). ar_id r = Some (el_rule_id l))"

lemma single_rule:
  assumes "distinct (map ar_id rules)" and "\<exists>r \<in> set rules. ar_id r = Some i"
  shows "\<exists>r. filter (\<lambda>r. ar_id r = Some i) rules = [r] \<and> ar_id r = Some i"
  using assms
proof (induction rules)
  case (Cons r rules)
  show ?case
  proof (cases "ar_id r = Some i")
    case True
    then have "filter (\<lambda>r. ar_id r = Some i) rules = []"
      using Cons.prems(1) by (auto simp: filter_empty_conv image_iff)
    with True show ?thesis by simp
  next
    case False
    with Cons show ?thesis by auto
  qed
qed simp

lemma executions_joined:
  assumes "rules_known d"
  shows "map fst (executions_with_rules d) = rev (sort_key execution_log_key (execution_logs d))"
    and "(l, name) \<in> set (executions_with_rules d)
      \<Longrightarrow> \<exists>r \<in> set (alert_rules d). ar_id r = Some (el_rule_id l) \<and> ar_name r = name"
proof -
  have "map fst (concat (map (\<lambda>l. map (\<lambda>r. (l, ar_name r)) (filter (\<lambda>r. ar_id r = Some (el_rule_id l)) (alert_rules d))) ls)) = ls"
    if "set ls \<subseteq> set (execution_logs d)" for ls
    using that
  proof (induction ls)
    case (Cons l ls)
    with assms single_rule [of "alert_rules d" "el_rule_id l"]
    obtain r where "filter (\<lambda>r. ar_id r = Some (el_rule_id l)) (alert_rules d) = [r]"
      by (auto simp: rules_known_def)
    with Cons show ?case by simp
  qed simp
  then show "map fst (executions_with_rules d) = rev (sort_key execution_log_key (execution_logs d))"
    by (simp add: executions_with_rules_def)
  show "(l, name) \<in> set (executions_with_rules d)
      \<Longrightarrow> \<exists>r \<in> set (alert_rules d). ar_id r = Some (el_rule_id l) \<and> ar_name r = name"
    by (auto simp: executions_with_rules_def)
qed

lemma ebind_query:
  "no_faults E \<Longrightarrow> ebind (db_query E f) g w = g (f (working w)) (tick w)"
  by (simp add: ebind_def db_query_def db_exec_def)

lemma working_tick [simp]: "working (tick w) = working w" "committed (tick w) = committed w"
  by (simp_all add: tick_def)

text \<open>
  C35. The dashboard tells the truth. When the database answers and Shanghai is eight hours ahead of UTC,
  the page counts as today's exactly the executions whose date in Shanghai is the present one (so every
  execution counts on exactly one day), the mails it counts as sent and as failed are together exactly
  those of the last 24 hours, and it lists the five latest executions, latest first, each with the name
  of its rule. Building it changes nothing in the database.
\<close>

theorem dashboard_exact:
  assumes "no_faults E" and "fixed_since Z t0" and "t0 + us_per_day \<le> now"
    and "datetime_min + us_per_day \<le> now" and "now + 2 * us_per_day \<le> datetime_max"
    and "rules_known (working w)"
  shows "\<exists>c w'. build_dashboard_context E Z (Some now) w = (Inr c, w')
    \<and> working w' = working w \<and> committed w' = committed w
    \<and> dc_today_execution_count c
        = length (filter (\<lambda>l. shanghai_date (el_started_at l) = shanghai_date now) (execution_logs (working w)))
    \<and> dc_mail_success_count c + dc_mail_failure_count c
        = length (filter (\<lambda>m. now - us_per_day \<le> ml_sent_at m \<and> ml_sent_at m \<le> now) (mail_logs (working w)))
    \<and> map fst (dc_recent_executions c) = take 5 (rev (sort_key execution_log_key (execution_logs (working w))))
    \<and> list_all (\<lambda>(l, name). \<exists>r \<in> set (alert_rules (working w)). ar_id r = Some (el_rule_id l) \<and> ar_name r = name)
        (dc_recent_executions c)"
proof -
  let ?d = "working w"
  have range: "datetime_in_range (now - us_per_day) = Inr (now - us_per_day)"
    unfolding datetime_in_range_def using assms(4,5) us_per_day_pos by (subst if_P) (linarith, rule refl)
  have today: "started_between (shanghai_date now * us_per_day - shanghai_offset)
      ((shanghai_date now + 1) * us_per_day - shanghai_offset) l
      \<longleftrightarrow> shanghai_date (el_started_at l) = shanghai_date now" for l
    unfolding started_between_def by (rule in_day_iff)
  have names: "list_all (\<lambda>(l, name). \<exists>r \<in> set (alert_rules ?d). ar_id r = Some (el_rule_id l) \<and> ar_name r = name)
      (take 5 (executions_with_rules ?d))"
    using executions_joined(2) [OF assms(6)] by (auto simp: list_all_iff dest: in_set_takeD)
  show ?thesis
    unfolding build_dashboard_context_def option.case ebind_pure day_bounds [OF assms(2-5)] range prod.case
      ebind_query [OF assms(1)] working_tick today
    using mails_all_counted [of "now - us_per_day" now "mail_logs ?d"] names
    by (simp add: count_rows_def take_map [symmetric] executions_joined(1) [OF assms(6)])
qed

definition shanghai_zone :: time_zone where
  "shanghai_zone = \<lparr>tz_fromutc = (\<lambda>t. (t + shanghai_offset, False)), tz_utcoffset = (\<lambda>l f. shanghai_offset)\<rparr>"

definition morning :: datetime where
  "morning = 20000 * us_per_day"

definition dashboard_rule :: alert_rule where
  "dashboard_rule = \<lparr>ar_id = Some 1, ar_name = str ''r'', ar_data_source_id = 1, ar_sql_text = [],
     ar_cron_expression = [], ar_recipients = [], ar_cc_recipients = [], ar_subject_template = [],
     ar_body_template = [], ar_send_mode = SUMMARY, ar_query_timeout_seconds = 30, ar_max_rows = 500,
     ar_enabled = True, ar_notes = [], ar_dynamic_recipient_field = [], ar_dynamic_cc_field = [],
     ar_suppress_duplicates = False, ar_suppression_key_field = [], ar_suppression_window_hours = 24,
     ar_created_at = 0, ar_archived_at = None, ar_updated_at = 0\<rparr>"

text \<open>Eight in the morning in Shanghai; the executions are at eight, at midnight and an hour before.\<close>

definition dashboard_db :: db where
  "dashboard_db = empty_db\<lparr>alert_rules := [dashboard_rule],
     execution_logs := [sample_log 1 morning, sample_log 2 (morning - 8 * 3600 * us_per_second),
       sample_log 3 (morning - 9 * 3600 * us_per_second)]\<rparr>"

theorem dashboard_exact_witness:
  "\<exists>c w'. build_dashboard_context quiet_env shanghai_zone (Some morning) (new_world dashboard_db) = (Inr c, w')
     \<and> dc_today_execution_count c = 2 \<and> map fst (dc_recent_executions c) = execution_logs dashboard_db"
proof -
  have zone: "fixed_since shanghai_zone 0" by (simp add: fixed_since_def shanghai_zone_def)
  have times: "0 + us_per_day \<le> morning" "datetime_min + us_per_day \<le> morning" "morning + 2 * us_per_day \<le> datetime_max"
    by (simp_all add: morning_def us_per_day_def us_per_second_def datetime_min_def datetime_max_def)
  have known: "rules_known (working (new_world dashboard_db))"
    by (simp add: rules_known_def new_world_def dashboard_db_def dashboard_rule_def sample_log_def)
  note shown = dashboard_exact [OF no_faults_quiet_env zone times known]
  have logs: "execution_logs (working (new_world dashboard_db)) = execution_logs dashboard_db"
    by (simp add: new_world_def)
  have "shanghai_date morning = 20000" "shanghai_date (morning - 8 * 3600 * us_per_second) = 20000"
      "shanghai_date (morning - 9 * 3600 * us_per_second) = 19999"
    by (simp_all add: shanghai_date_def morning_def us_per_day_def us_per_second_def shanghai_offset_def)
  then have "length (filter (\<lambda>l. shanghai_date (el_started_at l) = shanghai_date morning) (execution_logs dashboard_db)) = 2"
    by (simp add: dashboard_db_def sample_log_def)
  moreover have "take 5 (rev (sort_key execution_log_key (execution_logs dashboard_db))) = execution_logs dashboard_db"
    by (simp add: dashboard_db_def sample_log_def execution_log_key_def less_eq_log_key_def us_per_second_def)
  ultimately show ?thesis using shown unfolding logs by (elim exE conjE) auto
qed

end
