(* ===== verification/Regex.thy ===== *)
theory Regex
  imports Prelude
begin

text \<open>
  The part of Python's \<open>re\<close> that the redaction uses: a backtracking matcher. A state is the character
  before the position, the text after it, and the groups; \<open>matches\<close> lists the states after a match in
  the order in which the engine tries them, so the first one is the match. \<open>search\<close> finds the leftmost
  match and \<open>sub\<close> replaces all matches. Whether a character is a word character is an argument; a
  pattern that ignores case has character classes that do.
\<close>

datatype regex =
    Empty_Re
  | Class "nat \<Rightarrow> bool"
  | Then regex regex
  | Or regex regex
  | Repeat regex
  | Capture nat regex
  | Same_As nat
  | Not_After "nat \<Rightarrow> bool"
  | Not_Before "nat \<Rightarrow> bool"
  | Before_Or_End "nat \<Rightarrow> bool"
  | Word_Boundary

type_synonym match_state = "nat option \<times> pystr \<times> (nat \<times> pystr) list"

definition rest_of :: "match_state \<Rightarrow> pystr" where
  "rest_of st = fst (snd st)"

text \<open>Greedy repetition: more rounds first, as long as a round moves on.\<close>

fun repeat_from :: "nat \<Rightarrow> (match_state \<Rightarrow> match_state list) \<Rightarrow> match_state \<Rightarrow> match_state list" where
  "repeat_from 0 f st = [st]"
| "repeat_from (Suc n) f st =
     concat (map (repeat_from n f) (filter (\<lambda>st'. length (rest_of st') < length (rest_of st)) (f st))) @ [st]"

definition holds_for :: "(nat \<Rightarrow> bool) \<Rightarrow> nat option \<Rightarrow> bool" where
  "holds_for p c = (case c of None \<Rightarrow> False | Some x \<Rightarrow> p x)"

definition next_char :: "pystr \<Rightarrow> nat option" where
  "next_char s = (case s of [] \<Rightarrow> None | c # cs \<Rightarrow> Some c)"

definition last_char :: "nat option \<Rightarrow> pystr \<Rightarrow> nat option" where
  "last_char c t = (if t = [] then c else Some (last t))"

fun matches :: "(nat \<Rightarrow> bool) \<Rightarrow> regex \<Rightarrow> match_state \<Rightarrow> match_state list" where
  "matches w Empty_Re st = [st]"
| "matches w (Class p) (c, s, g) = (case s of [] \<Rightarrow> [] | x # xs \<Rightarrow> if p x then [(Some x, xs, g)] else [])"
| "matches w (Then a b) st = concat (map (matches w b) (matches w a st))"
| "matches w (Or a b) st = matches w a st @ matches w b st"
| "matches w (Repeat a) st = repeat_from (length (rest_of st)) (matches w a) st"
| "matches w (Capture n a) (c, s, g) =
     map (\<lambda>(c', s', g'). (c', s', AList.update n (take (length s - length s') s) g')) (matches w a (c, s, g))"
| "matches w (Same_As n) (c, s, g) =
     (case map_of g n of
        None \<Rightarrow> []
      | Some t \<Rightarrow> if prefix t s then [(last_char c t, drop (length t) s, g)] else [])"
| "matches w (Not_After p) (c, s, g) = (if holds_for p c then [] else [(c, s, g)])"
| "matches w (Not_Before p) (c, s, g) = (if holds_for p (next_char s) then [] else [(c, s, g)])"
| "matches w (Before_Or_End p) (c, s, g) = (if s = [] \<or> holds_for p (next_char s) then [(c, s, g)] else [])"
| "matches w Word_Boundary (c, s, g) =
     (if holds_for w c \<noteq> holds_for w (next_char s) then [(c, s, g)] else [])"

text \<open>The leftmost match: the text skipped before it and the state after it.\<close>

fun search :: "(nat \<Rightarrow> bool) \<Rightarrow> regex \<Rightarrow> nat option \<Rightarrow> pystr \<Rightarrow> (pystr \<times> match_state) option" where
  "search w r c [] = (case matches w r (c, [], []) of st # sts \<Rightarrow> Some ([], st) | [] \<Rightarrow> None)"
| "search w r c (x # xs) =
     (case matches w r (c, x # xs, []) of
        st # sts \<Rightarrow> Some ([], st)
      | [] \<Rightarrow> map_option (\<lambda>(skipped, st). (x # skipped, st)) (search w r (Some x) xs))"

section \<open>Matches move forward\<close>

text \<open>The state after a match of the text \<open>t\<close>.\<close>

definition moves :: "match_state \<Rightarrow> pystr \<Rightarrow> match_state \<Rightarrow> bool" where
  "moves st t st' \<longleftrightarrow> rest_of st = t @ rest_of st' \<and> fst st' = last_char (fst st) t"

lemma moves_refl [simp]: "moves st [] st"
  by (simp add: moves_def last_char_def)

lemma moves_trans: "moves a s b \<Longrightarrow> moves b t c \<Longrightarrow> moves a (s @ t) c"
  by (auto simp: moves_def last_char_def)

text \<open>The fewest characters a match takes.\<close>

fun min_length :: "regex \<Rightarrow> nat" where
  "min_length (Class p) = 1"
| "min_length (Then a b) = min_length a + min_length b"
| "min_length (Or a b) = min (min_length a) (min_length b)"
| "min_length (Capture n a) = min_length a"
| "min_length r = 0"

lemma repeat_from_moves:
  assumes "\<And>st st'. st' \<in> set (f st) \<Longrightarrow> \<exists>t. moves st t st'" and "st' \<in> set (repeat_from n f st)"
  shows "\<exists>t. moves st t st'"
  using assms(2)
proof (induction n arbitrary: st)
  case 0
  then show ?case by (auto intro: exI [where x = "[]"])
next
  case (Suc n)
  then consider "st' = st" | u where "u \<in> set (f st)" "st' \<in> set (repeat_from n f u)" by auto
  then show ?case
  proof cases
    case 1
    then show ?thesis using moves_refl by blast
  next
    case 2
    with Suc.IH assms(1) show ?thesis by (meson moves_trans)
  qed
qed

lemma matches_move:
  "st' \<in> set (matches w r st) \<Longrightarrow> \<exists>t. moves st t st' \<and> min_length r \<le> length t"
proof (induction r arbitrary: st st')
  case (Then a b)
  then obtain u where u: "u \<in> set (matches w a st)" "st' \<in> set (matches w b u)" by auto
  from Then.IH(1) [OF u(1)] Then.IH(2) [OF u(2)] obtain s t
    where "moves st s u" "min_length a \<le> length s" "moves u t st'" "min_length b \<le> length t" by blast
  then show ?case by (intro exI [where x = "s @ t"]) (auto intro: moves_trans)
next
  case (Or a b)
  then consider "st' \<in> set (matches w a st)" | "st' \<in> set (matches w b st)" by auto
  then show ?case
  proof cases
    case 1
    from Or.IH(1) [OF this] show ?thesis by auto
  next
    case 2
    from Or.IH(2) [OF this] show ?thesis by auto
  qed
next
  case (Repeat a)
  have rounds: "\<exists>t. moves u t u'" if "u' \<in> set (matches w a u)" for u u'
    using Repeat.IH [OF that] by blast
  have "st' \<in> set (repeat_from (length (rest_of st)) (matches w a) st)" using Repeat.prems by simp
  with repeat_from_moves [of "matches w a", OF rounds] show ?case by simp
next
  case (Capture n a)
  obtain c s g where st: "st = (c, s, g)" by (cases st)
  with Capture.prems obtain c' s' g' where u: "(c', s', g') \<in> set (matches w a st)" "fst st' = c'" "rest_of st' = s'"
    by (auto simp: rest_of_def)
  with Capture.IH [OF u(1)] show ?case by (auto simp: moves_def rest_of_def)
next
  case (Class p)
  then obtain c x xs g where "st = (c, x # xs, g)" "st' = (Some x, xs, g)"
    by (cases st) (auto split: list.splits if_splits)
  then show ?case by (intro exI [where x = "[x]"]) (simp add: moves_def rest_of_def last_char_def)
next
  case (Same_As n)
  then obtain c t zs g where "st = (c, t @ zs, g)" "st' = (last_char c t, zs, g)"
    by (cases st) (auto split: option.splits if_splits elim!: prefixE)
  then show ?case by (intro exI [where x = t]) (simp add: moves_def rest_of_def)
next
  case (Not_After p)
  then show ?case by (cases st) (simp split: if_splits, rule exI [where x = "[]"], simp)
next
  case (Not_Before p)
  then show ?case by (cases st) (simp split: if_splits, rule exI [where x = "[]"], simp)
next
  case (Before_Or_End p)
  then show ?case by (cases st) (simp split: if_splits, rule exI [where x = "[]"], simp)
next
  case Word_Boundary
  then show ?case by (cases st) (simp split: if_splits, rule exI [where x = "[]"], simp)
next
  case Empty_Re
  then show ?case by (intro exI [where x = "[]"]) simp
qed

lemma search_moves:
  "search w r c s = Some (skipped, st) \<Longrightarrow>
     \<exists>t. min_length r \<le> length t \<and> s = skipped @ t @ rest_of st \<and> fst st = last_char (last_char c skipped) t"
proof (induction s arbitrary: c skipped)
  case Nil
  then obtain sts where "matches w r (c, [], []) = st # sts" "skipped = []" by (auto split: list.splits)
  with matches_move [of st w r "(c, [], [])"] show ?case
    by (auto simp: moves_def rest_of_def last_char_def)
next
  case (Cons x xs)
  show ?case
  proof (cases "matches w r (c, x # xs, [])")
    case Nil
    with Cons.prems obtain s' where "search w r (Some x) xs = Some (s', st)" "skipped = x # s'" by auto
    with Cons.IH show ?thesis by (fastforce simp: last_char_def)
  next
    case (Cons u us)
    with Cons.prems have st: "u = st" "skipped = []" by auto
    with Cons have "st \<in> set (matches w r (c, x # xs, []))" by simp
    from matches_move [OF this] obtain t where "moves (c, x # xs, []) t st" "min_length r \<le> length t" by blast
    with st show ?thesis by (intro exI [where x = t]) (simp add: moves_def rest_of_def last_char_def)
  qed
qed

section \<open>Substitution\<close>

text \<open>
  \<open>pattern.sub\<close> for patterns that match no empty text (the others do not occur here): the text is
  scanned from the end of each match on.
\<close>

function (sequential) sub_from ::
  "(nat \<Rightarrow> bool) \<Rightarrow> regex \<Rightarrow> ((nat \<times> pystr) list \<Rightarrow> pystr) \<Rightarrow> nat option \<Rightarrow> pystr \<Rightarrow> pystr" where
  "sub_from w r repl c s =
     (case search w r c s of
        None \<Rightarrow> s
      | Some (skipped, c', s', g) \<Rightarrow>
          if length s' < length s then skipped @ repl g @ sub_from w r repl c' s' else s)"
  by pat_completeness auto
termination by (relation "measure (\<lambda>(w, r, repl, c, s). length s)") auto

declare sub_from.simps [simp del]

definition sub :: "(nat \<Rightarrow> bool) \<Rightarrow> regex \<Rightarrow> ((nat \<times> pystr) list \<Rightarrow> pystr) \<Rightarrow> pystr \<Rightarrow> pystr" where
  "sub w r repl s = sub_from w r repl None s"

definition group :: "nat \<Rightarrow> (nat \<times> pystr) list \<Rightarrow> pystr" where
  "group n g = (case map_of g n of Some t \<Rightarrow> t | None \<Rightarrow> [])"

section \<open>Writing patterns\<close>

definition ch :: "nat \<Rightarrow> regex" where
  "ch c = Class (\<lambda>x. x = c)"

definition plus :: "regex \<Rightarrow> regex" where
  "plus r = Then r (Repeat r)"

definition optional :: "regex \<Rightarrow> regex" where
  "optional r = Or r Empty_Re"

fun in_order :: "regex list \<Rightarrow> regex" where
  "in_order [] = Empty_Re"
| "in_order [r] = r"
| "in_order (r # rs) = Then r (in_order rs)"

fun one_of :: "regex list \<Rightarrow> regex" where
  "one_of [] = Class (\<lambda>x. False)"
| "one_of [r] = r"
| "one_of (r # rs) = Or r (one_of rs)"

text \<open>A literal in a pattern that ignores case.\<close>

definition letters :: "(nat \<Rightarrow> nat \<Rightarrow> bool) \<Rightarrow> string \<Rightarrow> regex" where
  "letters same t = in_order (map (\<lambda>c. Class (\<lambda>x. same x c)) (str t))"

lemma in_order_min: "min_length (in_order rs) = sum_list (map min_length rs)"
  by (induction rs rule: in_order.induct) auto

lemma letters_min [simp]: "min_length (letters same t) = length t"
  by (simp add: letters_def in_order_min str_def comp_def sum_list_triv)

end
