(* ===== verification/Redaction.thy ===== *)
theory Redaction
  imports Regex
begin

text \<open>
  Removing secrets from texts that reach a log (\<open>src/app/error_reporting.py\<close>): the patterns, the
  scanners that find the end of a value in a mapping, and the loop that hides these values. A position is
  modelled by the text that follows it, cut off where the scan ends; the character classes of Unicode
  (word characters, letters that differ in case only) are an argument. \<open>len(text)\<close> as a position,
  which hides the whole rest, is \<open>None\<close>.
\<close>

record unicode_lib =
  ul_word :: "nat \<Rightarrow> bool"
  ul_same :: "nat \<Rightarrow> nat \<Rightarrow> bool"

section \<open>Patterns\<close>

definition alnum_chars :: "nat list" where
  "alnum_chars = [48..<58] @ [65..<91] @ [97..<123]"

definition alnum_any_case :: "unicode_lib \<Rightarrow> nat \<Rightarrow> bool" where
  "alnum_any_case U c = list_ex (ul_same U c) alnum_chars"

definition name_char :: "unicode_lib \<Rightarrow> nat \<Rightarrow> bool" where
  "name_char U c \<longleftrightarrow> alnum_any_case U c \<or> c = 95"

definition separator :: "nat \<Rightarrow> bool" where
  "separator c \<longleftrightarrow> c = 59 \<or> is_space c"

definition spaces :: regex where
  "spaces = Repeat (Class is_space)"

definition same_line :: "nat \<Rightarrow> bool" where
  "same_line c \<longleftrightarrow> c \<noteq> 13 \<and> c \<noteq> 10"

definition QUOTED_VALUE :: "nat \<Rightarrow> regex" where
  "QUOTED_VALUE q = in_order
     [ch q, Repeat (Or (Then (ch 92) (Class (\<lambda>c. c \<noteq> 10))) (Class (\<lambda>c. c \<noteq> q \<and> c \<noteq> 92))), ch q,
      Before_Or_End separator]"

definition ODBC_BRACED_VALUE :: regex where
  "ODBC_BRACED_VALUE = in_order
     [ch 123, Repeat (Or (Then (ch 125) (ch 125)) (Class (\<lambda>c. c \<noteq> 125))), ch 125,
      Not_Before (\<lambda>c. c = 125), Before_Or_End separator]"

definition UNTERMINATED_VALUE :: "nat \<Rightarrow> regex" where
  "UNTERMINATED_VALUE c = Then (ch c) (Repeat (Class same_line))"

definition ASSIGNMENT_VALUE :: regex where
  "ASSIGNMENT_VALUE = one_of
     [QUOTED_VALUE 34, QUOTED_VALUE 39, ODBC_BRACED_VALUE,
      UNTERMINATED_VALUE 34, UNTERMINATED_VALUE 39, UNTERMINATED_VALUE 123,
      plus (Class (\<lambda>c. \<not> separator c))]"

definition SENSITIVE_FIELD_NAME :: "unicode_lib \<Rightarrow> regex" where
  "SENSITIVE_FIELD_NAME U =
     Then (Repeat (Then (plus (Class (alnum_any_case U))) (ch 95)))
       (one_of (map (letters (ul_same U)) [''pwd'', ''password'', ''secret'', ''secret_key'', ''session_secret'']))"

definition SENSITIVE_ASSIGNMENT :: "unicode_lib \<Rightarrow> regex" where
  "SENSITIVE_ASSIGNMENT U = in_order
     [Word_Boundary, Capture 1 (SENSITIVE_FIELD_NAME U), spaces, ch 61, spaces, ASSIGNMENT_VALUE]"

text \<open>Group 1 is the quote, group 2 the key.\<close>

definition SENSITIVE_MAPPING_KEY :: "unicode_lib \<Rightarrow> regex" where
  "SENSITIVE_MAPPING_KEY U = in_order
     [Not_After (name_char U), Capture 1 (optional (Class (\<lambda>c. c = 39 \<or> c = 34))),
      Capture 2 (SENSITIVE_FIELD_NAME U), Not_Before (name_char U), Same_As 1]"

definition ODBC_SENSITIVE_ASSIGNMENT :: "unicode_lib \<Rightarrow> regex" where
  "ODBC_SENSITIVE_ASSIGNMENT U =
     (let l = letters (ul_same U); s = spaces; s1 = plus (Class is_space)
      in in_order
        [Word_Boundary,
         Capture 1 (one_of [l ''server'', in_order [l ''data'', s1, l ''source''], l ''uid'',
           in_order [l ''user'', s, l ''id''], l ''database'', in_order [l ''initial'', s1, l ''catalog''],
           l ''pwd'', l ''password'']),
         s, ch 61, s, ASSIGNMENT_VALUE])"

definition fernet_char :: "nat \<Rightarrow> bool" where
  "fernet_char c \<longleftrightarrow> c \<in> set alnum_chars \<or> c = 95 \<or> c = 45"

definition FERNET_VALUE :: regex where
  "FERNET_VALUE = in_order
     (Not_After fernet_char # replicate 43 (Class fernet_char) @ [ch 61, Not_Before fernet_char])"

definition ODBC_CONNECTION_STRING :: "unicode_lib \<Rightarrow> regex" where
  "ODBC_CONNECTION_STRING U = in_order
     [Word_Boundary, letters (ul_same U) ''DRIVER'', ch 61, ch 123, Repeat (Class same_line)]"

section \<open>Scanners\<close>

definition STRUCTURED_VALUE_SCAN_LIMIT :: nat where
  "STRUCTURED_VALUE_SCAN_LIMIT = 32768"

definition STRUCTURED_VALUE_DEPTH_LIMIT :: nat where
  "STRUCTURED_VALUE_DEPTH_LIMIT = 64"

definition mapping_space :: "nat \<Rightarrow> bool" where
  "mapping_space c \<longleftrightarrow> c = 32 \<or> c = 9 \<or> c = 13 \<or> c = 10"

definition closes_value :: "nat \<Rightarrow> bool" where
  "closes_value c \<longleftrightarrow> c = 44 \<or> c = 125 \<or> c = 93"

text \<open>What follows a key: an equals sign (\<open>-1\<close>), no value that can be found (\<open>None\<close>), or a value after so
  many characters.\<close>

datatype value_start = Assignment | No_Value | Value_After nat

definition mapping_value_start :: "pystr \<Rightarrow> value_start" where
  "mapping_value_start w =
     (let blanks = length (takeWhile mapping_space w); r = dropWhile mapping_space w
      in case r of
           [] \<Rightarrow> No_Value
         | c # cs \<Rightarrow>
             if c = 61 then Assignment
             else if c \<noteq> 58 then No_Value
             else Value_After (blanks + 1 + length (takeWhile mapping_space cs)))"

fun consume_trailing_fragment :: "pystr \<Rightarrow> nat option" where
  "consume_trailing_fragment [] = None"
| "consume_trailing_fragment (c # cs) =
     (if closes_value c then Some 0
      else if mapping_space c then map_option Suc (consume_trailing_fragment cs)
      else (let fragment = takeWhile (\<lambda>x. \<not> closes_value x \<and> same_line x) (c # cs);
                r = dropWhile (\<lambda>x. \<not> closes_value x \<and> same_line x) (c # cs)
            in case r of [] \<Rightarrow> None | d # ds \<Rightarrow> if closes_value d then Some (length fragment) else None))"

fun quoted_end :: "nat \<Rightarrow> bool \<Rightarrow> pystr \<Rightarrow> nat option" where
  "quoted_end q escaped [] = None"
| "quoted_end q escaped (c # cs) =
     (if \<not> same_line c then None
      else if escaped then map_option Suc (quoted_end q False cs)
      else if c = 92 then map_option Suc (quoted_end q True cs)
      else if c = q then map_option Suc (consume_trailing_fragment cs)
      else map_option Suc (quoted_end q False cs))"

definition closing_for :: "nat \<Rightarrow> nat" where
  "closing_for c = (if c = 91 then 93 else 125)"

text \<open>The open brackets, innermost first, and the open quote.\<close>

fun nested_end :: "nat list \<Rightarrow> nat option \<Rightarrow> bool \<Rightarrow> pystr \<Rightarrow> nat option" where
  "nested_end stack quote escaped [] = None"
| "nested_end stack (Some q) escaped (c # cs) =
     (if \<not> same_line c then None
      else if escaped then map_option Suc (nested_end stack (Some q) False cs)
      else if c = 92 then map_option Suc (nested_end stack (Some q) True cs)
      else if c = q then map_option Suc (nested_end stack None False cs)
      else map_option Suc (nested_end stack (Some q) False cs))"
| "nested_end stack None escaped (c # cs) =
     (if c = 39 \<or> c = 34 then map_option Suc (nested_end stack (Some c) escaped cs)
      else if c = 91 \<or> c = 123 then
        if length stack \<ge> STRUCTURED_VALUE_DEPTH_LIMIT then None
        else map_option Suc (nested_end (closing_for c # stack) None escaped cs)
      else if c = 93 \<or> c = 125 then
        (case stack of
           [] \<Rightarrow> None
         | closer # outer \<Rightarrow>
             if c \<noteq> closer then None
             else if outer = [] then map_option Suc (consume_trailing_fragment cs)
             else map_option Suc (nested_end outer None escaped cs))
      else map_option Suc (nested_end stack None escaped cs))"

definition structured_value_end :: "pystr \<Rightarrow> nat option" where
  "structured_value_end w =
     (case w of
        [] \<Rightarrow> None
      | c # cs \<Rightarrow>
          if c = 91 \<or> c = 123 then map_option Suc (nested_end [closing_for c] None False cs)
          else if c = 39 \<or> c = 34 then map_option Suc (quoted_end c False cs)
          else if dropWhile (\<lambda>x. \<not> closes_value x) w = [] then None
          else Some (length (takeWhile (\<lambda>x. \<not> closes_value x) w)))"

section \<open>The loop\<close>

definition REDACTED :: pystr where
  "REDACTED = str ''[REDACTED]''"

lemma mapping_key_length: "3 \<le> min_length (SENSITIVE_MAPPING_KEY U)"
  by (simp add: SENSITIVE_MAPPING_KEY_def SENSITIVE_FIELD_NAME_def in_order_min optional_def)

lemma mapping_key_shortens:
  "search w (SENSITIVE_MAPPING_KEY U) c s = Some (skipped, c', s', g) \<Longrightarrow> length skipped + length s' < length s"
  using search_moves [of w "SENSITIVE_MAPPING_KEY U" c s skipped "(c', s', g)"] mapping_key_length [of U]
  by (auto simp: rest_of_def)

function (sequential) redact_mapping_from :: "unicode_lib \<Rightarrow> nat option \<Rightarrow> pystr \<Rightarrow> pystr" where
  "redact_mapping_from U c s =
     (case search (ul_word U) (SENSITIVE_MAPPING_KEY U) c s of
        None \<Rightarrow> s
      | Some (skipped, c', s', g) \<Rightarrow>
          let key = take (length s - length skipped - length s') (drop (length skipped) s);
              window = take (STRUCTURED_VALUE_SCAN_LIMIT - length key) s'
          in case mapping_value_start window of
               Assignment \<Rightarrow> skipped @ key @ redact_mapping_from U c' s'
             | No_Value \<Rightarrow> skipped @ key @ REDACTED
             | Value_After n \<Rightarrow>
                 skipped @ key @ take n s' @ REDACTED
                   @ (case structured_value_end (drop n window) of
                        None \<Rightarrow> []
                      | Some k \<Rightarrow> redact_mapping_from U (last_char c' (take (n + k) s')) (drop (n + k) s')))"
  by pat_completeness auto
termination
  by (relation "measure (\<lambda>(U, c, s). length s)") (auto dest!: mapping_key_shortens)

declare redact_mapping_from.simps [simp del]

definition redact_sensitive_mapping_values :: "unicode_lib \<Rightarrow> pystr \<Rightarrow> pystr" where
  "redact_sensitive_mapping_values U text = redact_mapping_from U None text"

definition keep_name :: "(nat \<times> pystr) list \<Rightarrow> pystr" where
  "keep_name g = group 1 g @ str ''=[REDACTED]''"

definition redact_sensitive_text :: "unicode_lib \<Rightarrow> pystr \<Rightarrow> nat \<Rightarrow> pystr" where
  "redact_sensitive_text U text0 limit =
     (let text1 = sub (ul_word U) (ODBC_CONNECTION_STRING U) (\<lambda>g. str ''[REDACTED CONNECTION STRING]'') text0;
          text2 = sub (ul_word U) (ODBC_SENSITIVE_ASSIGNMENT U) keep_name text1;
          text3 = sub (ul_word U) (SENSITIVE_ASSIGNMENT U) keep_name text2;
          text4 = redact_sensitive_mapping_values U text3;
          text5 = sub (ul_word U) FERNET_VALUE (\<lambda>g. str ''[REDACTED KEY]'') text4
      in take limit text5)"

text \<open>The lines of the log; \<open>rendered\<close> is the traceback.\<close>

definition log_failure_line :: "unicode_lib \<Rightarrow> pystr \<Rightarrow> pystr \<Rightarrow> pystr \<Rightarrow> pystr" where
  "log_failure_line U message error_id error_type =
     redact_sensitive_text U message 300 @ str '': error_id='' @ error_id @ str ''; error_type='' @ error_type"

definition log_exception_line :: "unicode_lib \<Rightarrow> pystr \<Rightarrow> pystr \<Rightarrow> pystr \<Rightarrow> pystr \<Rightarrow> pystr" where
  "log_exception_line U message error_id error_type rendered =
     log_failure_line U message error_id error_type @ [10] @ redact_sensitive_text U rendered 4000"


section \<open>The grammar of values\<close>

text \<open>
  What the value of a mapping key is, written down without the scanners. Quoted text is a row of plain
  and escaped characters on one line.
\<close>

datatype piece = Plain nat | Escaped nat

fun piece_text :: "piece \<Rightarrow> pystr" where
  "piece_text (Plain c) = [c]"
| "piece_text (Escaped c) = [92, c]"

fun piece_ok :: "nat \<Rightarrow> piece \<Rightarrow> bool" where
  "piece_ok q (Plain c) \<longleftrightarrow> same_line c \<and> c \<noteq> 92 \<and> c \<noteq> q"
| "piece_ok q (Escaped c) \<longleftrightarrow> same_line c"

definition pieces_text :: "piece list \<Rightarrow> pystr" where
  "pieces_text ps = concat (map piece_text ps)"

definition quote_mark :: "nat \<Rightarrow> bool" where
  "quote_mark q \<longleftrightarrow> q = 39 \<or> q = 34"

text \<open>Brackets hold other characters, quoted texts and brackets; \<open>True\<close> stands for square ones.\<close>

datatype item = Other nat | Quoted nat "piece list" | Nested bool "item list"

definition open_bracket :: "bool \<Rightarrow> nat" where
  "open_bracket square = (if square then 91 else 123)"

definition close_bracket :: "bool \<Rightarrow> nat" where
  "close_bracket square = (if square then 93 else 125)"

fun item_text :: "item \<Rightarrow> pystr" where
  "item_text (Other c) = [c]"
| "item_text (Quoted q ps) = q # pieces_text ps @ [q]"
| "item_text (Nested b items) = open_bracket b # concat (map item_text items) @ [close_bracket b]"

fun item_ok :: "item \<Rightarrow> bool" where
  "item_ok (Other c) \<longleftrightarrow> c \<notin> {39, 34, 91, 123, 93, 125}"
| "item_ok (Quoted q ps) \<longleftrightarrow> quote_mark q \<and> list_all (piece_ok q) ps"
| "item_ok (Nested b items) \<longleftrightarrow> list_all item_ok items"

fun item_depth :: "item \<Rightarrow> nat" where
  "item_depth (Other c) = 0"
| "item_depth (Quoted q ps) = 0"
| "item_depth (Nested b items) = Suc (foldr max (map item_depth items) 0)"

text \<open>
  A value that ends where a delimiter follows: a bare text, or a quoted or bracketed one, which blanks
  and a last fragment on one line may follow.
\<close>

definition trailing :: "pystr \<Rightarrow> bool" where
  "trailing t \<longleftrightarrow> (\<exists>blanks fragment. t = blanks @ fragment \<and> list_all mapping_space blanks
     \<and> list_all (\<lambda>c. same_line c \<and> \<not> closes_value c) fragment
     \<and> (fragment = [] \<or> \<not> mapping_space (hd fragment)))"

inductive ended_value :: "pystr \<Rightarrow> bool" where
  bare: "v \<noteq> [] \<Longrightarrow> hd v \<notin> {91, 123, 39, 34} \<Longrightarrow> \<not> mapping_space (hd v) \<Longrightarrow> \<forall>c \<in> set v. \<not> closes_value c
    \<Longrightarrow> ended_value v"
| quoted: "quote_mark q \<Longrightarrow> list_all (piece_ok q) ps \<Longrightarrow> trailing t \<Longrightarrow> ended_value (q # pieces_text ps @ q # t)"
| nested: "item_ok (Nested b items) \<Longrightarrow> item_depth (Nested b items) \<le> 64 \<Longrightarrow> trailing t
    \<Longrightarrow> ended_value (item_text (Nested b items) @ t)"

text \<open>
  A text in which the value that begins it has no end: an open quote, at the end of the text or of the
  line, on its own or inside brackets, open brackets at the end of the text, a bracket closed by one of
  the other kind, and more than 64 brackets inside each other. Open brackets come with the items after
  each of them.
\<close>

definition line_stops :: "pystr \<Rightarrow> bool" where
  "line_stops t \<longleftrightarrow> t = [] \<or> t = [92] \<or> \<not> same_line (hd t) \<or> (\<exists>c r. t = 92 # c # r \<and> \<not> same_line c)"

definition open_text :: "(bool \<times> item list) list \<Rightarrow> pystr" where
  "open_text levels = concat (map (\<lambda>(b, items). open_bracket b # concat (map item_text items)) levels)"

definition levels_ok :: "(bool \<times> item list) list \<Rightarrow> bool" where
  "levels_ok levels \<longleftrightarrow> levels \<noteq> [] \<and> list_all (\<lambda>(b, items). list_all item_ok items) levels"

inductive endless :: "pystr \<Rightarrow> bool" where
  open_quote: "quote_mark q \<Longrightarrow> list_all (piece_ok q) ps \<Longrightarrow> line_stops t \<Longrightarrow> endless (q # pieces_text ps @ t)"
| open_brackets: "levels_ok levels \<Longrightarrow> endless (open_text levels)"
| open_both: "levels_ok levels \<Longrightarrow> quote_mark q \<Longrightarrow> list_all (piece_ok q) ps \<Longrightarrow> line_stops t
    \<Longrightarrow> endless (open_text levels @ q # pieces_text ps @ t)"
| wrong_bracket: "levels_ok levels \<Longrightarrow> endless (open_text levels @ close_bracket (\<not> fst (last levels)) # rest)"
| too_deep: "levels_ok levels \<Longrightarrow> 64 < length levels \<Longrightarrow> endless (open_text levels @ rest)"

section \<open>The scanners read the grammar\<close>

lemma delimiter_facts:
  assumes "closes_value d"
  shows "same_line d" "\<not> mapping_space d" "d \<noteq> 92" "d \<noteq> 39" "d \<noteq> 34" "d \<noteq> 91" "d \<noteq> 123"
  using assms by (auto simp: closes_value_def same_line_def mapping_space_def)

lemma pieces_text_simps [simp]:
  "pieces_text [] = []" "pieces_text (p # ps) = piece_text p @ pieces_text ps"
  by (simp_all add: pieces_text_def)

lemma quote_mark_facts: "quote_mark q \<Longrightarrow> same_line q \<and> q \<noteq> 92 \<and> \<not> mapping_space q"
  by (auto simp: quote_mark_def same_line_def mapping_space_def)

lemma escape_same_line [simp]: "same_line 92"
  by (simp add: same_line_def)

lemma consume_trailing:
  assumes "trailing t" and "closes_value d"
  shows "consume_trailing_fragment (t @ d # tail) = Some (length t)"
proof -
  let ?P = "\<lambda>x. \<not> closes_value x \<and> same_line x"
  obtain blanks fragment where t: "t = blanks @ fragment" "list_all mapping_space blanks"
      "list_all (\<lambda>c. same_line c \<and> \<not> closes_value c) fragment" "fragment = [] \<or> \<not> mapping_space (hd fragment)"
    using assms(1) unfolding trailing_def by blast
  have "consume_trailing_fragment (fragment @ d # tail) = Some (length fragment)"
  proof (cases fragment)
    case Nil
    then show ?thesis using assms(2) by simp
  next
    case (Cons c cs)
    have "takeWhile ?P (fragment @ d # tail) = fragment" "dropWhile ?P (fragment @ d # tail) = d # tail"
      using t(3) assms(2) by (auto simp: list_all_iff takeWhile_append2 dropWhile_append2)
    with Cons t(3,4) assms(2) show ?thesis by (auto simp: Let_def)
  qed
  then show ?thesis
    using t(2) unfolding t(1) by (induction blanks) (auto simp: closes_value_def mapping_space_def)
qed

lemma quoted_end_pieces:
  "list_all (piece_ok q) ps \<Longrightarrow> q \<noteq> 92 \<Longrightarrow> same_line q \<Longrightarrow>
     quoted_end q False (pieces_text ps @ t) = map_option (\<lambda>n. length (pieces_text ps) + n) (quoted_end q False t)"
proof (induction ps)
  case Nil
  then show ?case by (simp add: option.map_ident)
next
  case (Cons p ps)
  then show ?case by (cases p) (auto simp: option.map_comp comp_def)
qed

lemma nested_end_pieces:
  "list_all (piece_ok q) ps \<Longrightarrow>
     nested_end st (Some q) False (pieces_text ps @ t)
       = map_option (\<lambda>n. length (pieces_text ps) + n) (nested_end st (Some q) False t)"
proof (induction ps)
  case Nil
  then show ?case by (simp add: option.map_ident)
next
  case (Cons p ps)
  then show ?case by (cases p) (auto simp: option.map_comp comp_def)
qed

lemma line_stops_end:
  assumes "line_stops t"
  shows "quoted_end q False t = None" and "nested_end st (Some q) False t = None"
proof -
  consider "t = []" | "t = [92]" | c r where "t = c # r" "\<not> same_line c" | c r where "t = 92 # c # r" "\<not> same_line c"
    using assms by (cases t) (auto simp: line_stops_def)
  then show "quoted_end q False t = None" "nested_end st (Some q) False t = None"
    by (cases; simp)+
qed

lemma foldr_max_le: "foldr max ns 0 \<le> (m :: nat) \<longleftrightarrow> (\<forall>n \<in> set ns. n \<le> m)"
  by (induction ns) auto

lemma map_option_add_0: "map_option ((+) (0 :: nat)) x = x"
  by (cases x) simp_all

lemma nested_end_item:
  "item_ok it \<Longrightarrow> st \<noteq> [] \<Longrightarrow> length st \<le> 64 \<Longrightarrow> nested_end st None False (item_text it @ t) =
     (if length st + item_depth it \<le> 64
      then map_option (\<lambda>n. length (item_text it) + n) (nested_end st None False t) else None)"
proof (induction it arbitrary: st t)
  case (Other c)
  then show ?case by (cases "nested_end st None False t") auto
next
  case (Quoted q ps)
  then have "q = 39 \<or> q = 34" "list_all (piece_ok q) ps" "same_line q" "q \<noteq> 92"
    using quote_mark_facts by (auto simp: quote_mark_def)
  with Quoted.prems show ?case
    by (cases "nested_end st None False t") (auto simp: nested_end_pieces option.map_comp comp_def)
next
  case (Nested b items)
  let ?close = "close_bracket b"
  have closing: "closing_for (open_bracket b) = ?close" "open_bracket b = 91 \<or> open_bracket b = 123"
      "?close = 93 \<or> ?close = 125" "open_bracket b \<noteq> 39" "open_bracket b \<noteq> 34"
    by (simp_all add: closing_for_def open_bracket_def close_bracket_def)
  have inner: "nested_end st' None False (concat (map item_text its) @ u) =
      (if \<forall>it \<in> set its. length st' + item_depth it \<le> 64
       then map_option (\<lambda>n. length (concat (map item_text its)) + n) (nested_end st' None False u) else None)"
    if "set its \<subseteq> set items" "st' \<noteq> []" "length st' \<le> 64" for its st' u
    using that(1)
  proof (induction its)
    case Nil
    then show ?case by (simp add: map_option_add_0)
  next
    case (Cons it its)
    have "item_ok it" using Nested.prems(1) Cons.prems by (auto simp: list_all_iff)
    from Nested.IH [OF _ this that(2,3)] Cons show ?case
      by (auto simp: option.map_comp comp_def add.assoc)
  qed
  show ?case
  proof (cases "length st < 64")
    case False
    then show ?thesis using closing Nested.prems by (simp add: STRUCTURED_VALUE_DEPTH_LIMIT_def)
  next
    case True
    have "nested_end st None False (item_text (Nested b items) @ t) =
        map_option Suc (nested_end (?close # st) None False (concat (map item_text items) @ ?close # t))"
      using closing True by (auto simp: STRUCTURED_VALUE_DEPTH_LIMIT_def)
    also have "\<dots> = (if \<forall>it \<in> set items. Suc (length st) + item_depth it \<le> 64
        then map_option (\<lambda>n. Suc (length (concat (map item_text items)) + n)) (nested_end (?close # st) None False (?close # t))
        else None)"
      using True by (subst inner) (auto simp: option.map_comp comp_def)
    also have "nested_end (?close # st) None False (?close # t) = map_option Suc (nested_end st None False t)"
      using Nested.prems(2) closing(3) by auto
    also have "(\<forall>it \<in> set items. Suc (length st) + item_depth it \<le> 64) \<longleftrightarrow> length st + item_depth (Nested b items) \<le> 64"
    proof -
      have "length st + item_depth (Nested b items) \<le> 64 \<longleftrightarrow> foldr max (map item_depth items) 0 \<le> 63 - length st"
        using True by auto
      also have "\<dots> \<longleftrightarrow> (\<forall>it \<in> set items. item_depth it \<le> 63 - length st)" by (simp add: foldr_max_le)
      also have "\<dots> \<longleftrightarrow> (\<forall>it \<in> set items. Suc (length st) + item_depth it \<le> 64)" using True by auto
      finally show ?thesis by simp
    qed
    finally show ?thesis by (simp add: option.map_comp comp_def)
  qed
qed

lemma nested_end_items:
  "list_all item_ok items \<Longrightarrow> st \<noteq> [] \<Longrightarrow> length st \<le> 64 \<Longrightarrow> nested_end st None False (concat (map item_text items) @ t) =
     (if \<forall>it \<in> set items. length st + item_depth it \<le> 64
      then map_option (\<lambda>n. length (concat (map item_text items)) + n) (nested_end st None False t) else None)"
proof (induction items)
  case Nil
  then show ?case by (simp add: map_option_add_0)
next
  case (Cons it items)
  then show ?case by (auto simp: nested_end_item option.map_comp comp_def add.assoc)
qed

lemma nested_end_whole:
  assumes "item_ok (Nested b items)" and "item_depth (Nested b items) \<le> 64"
  shows "structured_value_end (item_text (Nested b items) @ t) =
    map_option (\<lambda>n. length (item_text (Nested b items)) + n) (consume_trailing_fragment t)"
proof -
  have "foldr max (map item_depth items) 0 \<le> 63" using assms(2) by simp
  then have depth: "\<forall>it \<in> set items. length [close_bracket b] + item_depth it \<le> 64" by (auto simp: foldr_max_le)
  have ok: "list_all item_ok items" using assms(1) by simp
  have "nested_end [close_bracket b] None False (concat (map item_text items) @ close_bracket b # t) =
      map_option (\<lambda>n. length (concat (map item_text items)) + n) (nested_end [close_bracket b] None False (close_bracket b # t))"
    by (subst nested_end_items [OF ok]) (use depth in simp_all)
  moreover have "nested_end [close_bracket b] None False (close_bracket b # t) = map_option Suc (consume_trailing_fragment t)"
    by (auto simp: close_bracket_def)
  moreover have "structured_value_end (item_text (Nested b items) @ t) = map_option Suc
      (nested_end [close_bracket b] None False (concat (map item_text items) @ close_bracket b # t))"
    by (auto simp: structured_value_end_def open_bracket_def close_bracket_def closing_for_def)
  ultimately show ?thesis by (simp add: option.map_comp comp_def)
qed

lemma ended_value_ends:
  assumes "ended_value v" and "closes_value d"
  shows "structured_value_end (v @ d # tail) = Some (length v)" and "v \<noteq> []" and "\<not> mapping_space (hd v)"
proof -
  show "v \<noteq> []" using assms(1) by cases auto
  show "\<not> mapping_space (hd v)"
    using assms(1) by cases (auto simp: quote_mark_def mapping_space_def open_bracket_def)
  show "structured_value_end (v @ d # tail) = Some (length v)"
    using assms(1)
  proof cases
    case bare
    then obtain c cs where v: "v = c # cs" by (cases v) auto
    have "takeWhile (\<lambda>x. \<not> closes_value x) (v @ d # tail) = v" "dropWhile (\<lambda>x. \<not> closes_value x) (v @ d # tail) = d # tail"
      using bare assms(2) by (simp_all add: takeWhile_append2 dropWhile_append2)
    with bare show ?thesis by (simp add: structured_value_end_def v)
  next
    case (quoted q ps t)
    have "quoted_end q False (pieces_text ps @ q # t @ d # tail)
        = Some (length (pieces_text ps) + Suc (length t))"
      using quoted quote_mark_facts [OF quoted(2)] consume_trailing [OF quoted(4) assms(2)]
      by (subst quoted_end_pieces) auto
    with quoted show ?thesis by (auto simp: structured_value_end_def quote_mark_def)
  next
    case (nested b items t)
    have "structured_value_end (item_text (Nested b items) @ (t @ d # tail)) = Some (length (item_text (Nested b items)) + length t)"
      unfolding nested_end_whole [OF nested(2,3)] consume_trailing [OF nested(4) assms(2)] by simp
    with nested(1) show ?thesis by (simp del: item_text.simps)
  qed
qed

lemma takeWhile_more:
  "dropWhile P u = e # es \<Longrightarrow> takeWhile P (u @ z) = takeWhile P u \<and> dropWhile P (u @ z) = e # es @ z
     \<and> length (takeWhile P u) < length u"
  by (induction u) (auto split: if_splits)

text \<open>A scan that has found the end stays with it, so what is cut off later does not matter.\<close>

lemma consume_more: "consume_trailing_fragment u = Some k \<Longrightarrow> consume_trailing_fragment (u @ z) = Some k \<and> k < length u"
proof (induction u arbitrary: k)
  case Nil
  then show ?case by simp
next
  case (Cons c u)
  let ?P = "\<lambda>x. \<not> closes_value x \<and> same_line x"
  show ?case
  proof (cases "closes_value c \<or> mapping_space c")
    case True
    with Cons show ?thesis by (auto split: if_splits)
  next
    case False
    then obtain e es where e: "dropWhile ?P (c # u) = e # es" "closes_value e" "k = length (takeWhile ?P (c # u))"
      using Cons.prems by (auto simp: Let_def split: list.splits if_splits)
    from takeWhile_more [OF e(1), of z] False e(2,3) show ?thesis by (simp add: Let_def del: takeWhile.simps dropWhile.simps)
  qed
qed

lemma quoted_more: "quoted_end q e u = Some k \<Longrightarrow> quoted_end q e (u @ z) = Some k \<and> k < length u"
  by (induction q e u arbitrary: k rule: quoted_end.induct) (auto dest: consume_more split: if_splits)

lemma nested_more: "nested_end st q e u = Some k \<Longrightarrow> nested_end st q e (u @ z) = Some k \<and> k < length u"
  by (induction st q e u arbitrary: k rule: nested_end.induct)
    (auto dest: consume_more split: if_splits list.splits)

lemma structured_more:
  assumes "structured_value_end u = Some k"
  shows "structured_value_end (u @ z) = Some k \<and> k < length u"
proof -
  let ?P = "\<lambda>x. \<not> closes_value x"
  obtain c cs where u: "u = c # cs" using assms by (cases u) (auto simp: structured_value_end_def)
  consider "c = 91 \<or> c = 123" | "c = 39 \<or> c = 34" | "c \<noteq> 91" "c \<noteq> 123" "c \<noteq> 39" "c \<noteq> 34" by blast
  then show ?thesis
  proof cases
    case 1
    with assms nested_more [of "[closing_for c]" None False cs _ z] show ?thesis by (auto simp: structured_value_end_def u)
  next
    case 2
    with assms quoted_more [of c False cs _ z] show ?thesis by (auto simp: structured_value_end_def u)
  next
    case 3
    then obtain e es where e: "dropWhile ?P u = e # es" "k = length (takeWhile ?P u)"
      using assms by (cases "dropWhile ?P u") (auto simp: structured_value_end_def u split: if_splits)
    have "structured_value_end (u @ z) = Some (length (takeWhile ?P (u @ z)))"
      using takeWhile_more [OF e(1), of z] 3 by (simp add: structured_value_end_def u)
    with takeWhile_more [OF e(1), of z] e(2) show ?thesis by simp
  qed
qed

lemma cut_has_no_end: "structured_value_end w = None \<Longrightarrow> structured_value_end (take n w) = None"
  using structured_more [of "take n w" _ "drop n w"] by (cases "structured_value_end (take n w)") auto

lemma long_value_has_no_end:
  assumes "ended_value v" and "n \<le> length v"
  shows "structured_value_end (take n (v @ z)) = None"
proof -
  have "closes_value 44" by (simp add: closes_value_def)
  note ends = ended_value_ends(1) [OF assms(1) this, of "[]"]
  have "structured_value_end v = None"
  proof (cases "structured_value_end v")
    case (Some k)
    from structured_more [OF this, of "[44]"] ends show ?thesis by auto
  qed
  from cut_has_no_end [OF this] assms(2) show ?thesis by simp
qed

lemma nested_end_open:
  assumes "list_all (\<lambda>(b, items). list_all item_ok items) levels" and "st \<noteq> []" and "length st \<le> 64"
    and "64 < length st + length levels \<or>
      nested_end (map (\<lambda>(b, items). close_bracket b) (rev levels) @ st) None False t = None"
  shows "nested_end st None False (open_text levels @ t) = None"
  using assms
proof (induction levels arbitrary: st)
  case Nil
  then show ?case by (simp add: open_text_def)
next
  case (Cons level levels)
  obtain b items where level: "level = (b, items)" by (cases level)
  have opened: "open_text (level # levels) @ t = open_bracket b # concat (map item_text items) @ open_text levels @ t"
    by (simp add: open_text_def level)
  have closing: "closing_for (open_bracket b) = close_bracket b" "open_bracket b = 91 \<or> open_bracket b = 123"
      "open_bracket b \<noteq> 39" "open_bracket b \<noteq> 34"
    by (simp_all add: closing_for_def open_bracket_def close_bracket_def)
  show ?case
  proof (cases "length st < 64")
    case False
    then show ?thesis unfolding opened using closing by (simp add: STRUCTURED_VALUE_DEPTH_LIMIT_def)
  next
    case True
    have "nested_end (close_bracket b # st) None False (open_text levels @ t) = None"
      by (rule Cons.IH) (use Cons.prems True level in auto)
    moreover have "list_all item_ok items" using Cons.prems(1) level by simp
    ultimately have "nested_end (close_bracket b # st) None False (concat (map item_text items) @ open_text levels @ t) = None"
      using True by (subst nested_end_items) auto
    then show ?thesis unfolding opened using closing True by (auto simp: STRUCTURED_VALUE_DEPTH_LIMIT_def)
  qed
qed

lemma open_text_end:
  assumes "levels_ok levels"
    and "64 < length levels \<or> (\<forall>st. nested_end (close_bracket (fst (last levels)) # st) None False t = None)"
  shows "structured_value_end (open_text levels @ t) = None"
proof -
  obtain b items rest where levels: "levels = (b, items) # rest"
    using assms(1) by (cases levels) (auto simp: levels_ok_def)
  have ok: "list_all item_ok items" "list_all (\<lambda>(b, items). list_all item_ok items) rest"
    using assms(1) by (auto simp: levels levels_ok_def)
  have stack: "\<exists>st. map (\<lambda>(b, items). close_bracket b) (rev rest) @ [close_bracket b] = close_bracket (fst (last levels)) # st"
    by (cases rest rule: rev_cases) (auto simp: levels)
  have "nested_end [close_bracket b] None False (open_text rest @ t) = None"
    by (rule nested_end_open [OF ok(2)]) (use assms(2) stack in \<open>auto simp: levels\<close>)
  then have "nested_end [close_bracket b] None False (concat (map item_text items) @ open_text rest @ t) = None"
    by (subst nested_end_items [OF ok(1)]) auto
  then show ?thesis
    by (auto simp: structured_value_end_def open_text_def levels open_bracket_def close_bracket_def closing_for_def)
qed

lemma endless_has_no_end:
  assumes "endless w"
  shows "structured_value_end w = None" and "w \<noteq> []" and "\<not> mapping_space (hd w)"
proof -
  have "open_text levels \<noteq> [] \<and> \<not> mapping_space (hd (open_text levels))" if "levels_ok levels" for levels
    using that by (cases levels) (auto simp: levels_ok_def open_text_def open_bracket_def mapping_space_def split: if_splits)
  with assms have "w \<noteq> [] \<and> \<not> mapping_space (hd w)"
    by (cases rule: endless.cases) (simp_all add: quote_mark_facts)
  then show "w \<noteq> []" "\<not> mapping_space (hd w)" by blast+
  show "structured_value_end w = None"
    using assms
  proof cases
    case (open_quote q ps t)
    then show ?thesis
      using quote_mark_facts [OF open_quote(2)] line_stops_end(1) [OF open_quote(4), of q]
      by (auto simp: structured_value_end_def quote_mark_def quoted_end_pieces)
  next
    case (open_brackets levels)
    then show ?thesis using open_text_end [of levels "[]"] by simp
  next
    case (open_both levels q ps t)
    have "nested_end st None False (q # pieces_text ps @ t) = None" for st
      using open_both quote_mark_facts [OF open_both(3)] line_stops_end(2) [OF open_both(5), of _ q]
      by (auto simp: quote_mark_def nested_end_pieces)
    then show ?thesis using open_text_end [OF open_both(2)] open_both(1) by simp
  next
    case (wrong_bracket levels rest)
    have "nested_end (close_bracket b # st) None False (close_bracket (\<not> b) # rest) = None" for b st
      by (simp add: close_bracket_def)
    then show ?thesis using open_text_end [OF wrong_bracket(2)] wrong_bracket(1) by simp
  next
    case (too_deep levels rest)
    then show ?thesis using open_text_end [OF too_deep(2)] by simp
  qed
qed


section \<open>Hidden values\<close>

text \<open>What the code relies on of Unicode: delimiters have no case.\<close>

definition caseless_delimiters :: "unicode_lib \<Rightarrow> bool" where
  "caseless_delimiters U \<longleftrightarrow> (\<forall>d x. closes_value d \<longrightarrow> ul_same U d x \<longrightarrow> d = x)"

text \<open>No key begins at a delimiter, so what came before it does not matter.\<close>

lemma no_key_at_delimiter:
  assumes "caseless_delimiters U" and "closes_value d"
  shows "matches w (SENSITIVE_MAPPING_KEY U) (c, d # s, []) = []"
proof -
  have same: "\<not> ul_same U d x" if "\<not> closes_value x" for x
    using assms that unfolding caseless_delimiters_def by blast
  have "\<not> closes_value x" if "x \<in> set alnum_chars" for x
    using that by (auto simp: alnum_chars_def closes_value_def)
  with same have alnum: "\<not> alnum_any_case U d" by (auto simp: alnum_any_case_def list_ex_iff)
  have repeat: "matches w (Repeat (Then (plus (Class (alnum_any_case U))) (ch 95))) (c, d # s, g) = [(c, d # s, g)]" for g
    using alnum by (simp add: rest_of_def plus_def)
  have first: "\<not> ul_same U d 112" "\<not> ul_same U d 115" using same by (simp_all add: closes_value_def)
  have names: "matches w (one_of (map (letters (ul_same U)) [''pwd'', ''password'', ''secret'', ''secret_key'', ''session_secret'']))
      (c, d # s, g) = []" for g
    using first by (simp add: letters_def str_def)
  have "matches w (SENSITIVE_FIELD_NAME U) (c, d # s, g) = []" for g
    using repeat names by (simp only: SENSITIVE_FIELD_NAME_def matches.simps) simp
  then show ?thesis
    using delimiter_facts [OF assms(2)]
    by (simp add: SENSITIVE_MAPPING_KEY_def optional_def)
qed

lemma redact_at_delimiter:
  assumes "caseless_delimiters U" and "closes_value d"
  shows "redact_mapping_from U c (d # s) = redact_mapping_from U c' (d # s)"
proof -
  have "search (ul_word U) (SENSITIVE_MAPPING_KEY U) c (d # s) = search (ul_word U) (SENSITIVE_MAPPING_KEY U) c' (d # s)"
    by (simp add: no_key_at_delimiter [OF assms])
  then show ?thesis by (subst (1 2) redact_mapping_from.simps) simp
qed

text \<open>Between key and value: blanks around a colon.\<close>

definition colon_gap :: "pystr \<Rightarrow> bool" where
  "colon_gap gap \<longleftrightarrow> (\<exists>a b. gap = a @ 58 # b \<and> list_all mapping_space a \<and> list_all mapping_space b)"

lemma colon_gap_start:
  assumes "colon_gap gap" and "w = [] \<or> \<not> mapping_space (hd w)"
  shows "mapping_value_start (gap @ w) = Value_After (length gap)"
proof -
  obtain a b where gap: "gap = a @ 58 # b" "\<forall>x \<in> set a. mapping_space x" "\<forall>x \<in> set b. mapping_space x"
    using assms(1) by (auto simp: colon_gap_def list_all_iff)
  have colon: "\<not> mapping_space 58" by (simp add: mapping_space_def)
  have "takeWhile mapping_space (a @ 58 # b @ w) = a" "dropWhile mapping_space (a @ 58 # b @ w) = 58 # b @ w"
    using gap(2) colon by (simp_all add: takeWhile_append2 dropWhile_append2)
  moreover have "takeWhile mapping_space w = []" using assms(2) by (cases w) auto
  then have "takeWhile mapping_space (b @ w) = b" using gap(3) by (simp add: takeWhile_append2)
  ultimately show ?thesis by (simp add: mapping_value_start_def Let_def gap(1))
qed

text \<open>One round of the loop: up to the value the text is kept, the value is replaced, and the loop goes
  on behind it, or stops when the end of the value cannot be found.\<close>

lemma redact_mapping_step:
  assumes found: "search (ul_word U) (SENSITIVE_MAPPING_KEY U) c (a @ key @ gap @ w) = Some (a, c', gap @ w, g)"
    and gap: "colon_gap gap" and w: "w \<noteq> []" "\<not> mapping_space (hd w)"
    and short: "length key + length gap < STRUCTURED_VALUE_SCAN_LIMIT"
  shows "redact_mapping_from U c (a @ key @ gap @ w) = a @ key @ gap @ REDACTED
    @ (case structured_value_end (take (STRUCTURED_VALUE_SCAN_LIMIT - length key - length gap) w) of
         None \<Rightarrow> []
       | Some k \<Rightarrow> redact_mapping_from U (last_char c' (gap @ take k w)) (drop k w))"
proof -
  define n where "n = STRUCTURED_VALUE_SCAN_LIMIT - length key"
  have n: "length gap < n" using short by (simp add: n_def)
  have key: "take (length (a @ key @ gap @ w) - length a - length (gap @ w)) (drop (length a) (a @ key @ gap @ w)) = key" by simp
  have window: "take n (gap @ w) = gap @ take (n - length gap) w" using n by simp
  have "take (n - length gap) w \<noteq> []" "hd (take (n - length gap) w) = hd w"
    using w(1) n by (cases w; cases "n - length gap"; simp)+
  then have start: "mapping_value_start (take n (gap @ w)) = Value_After (length gap)"
    unfolding window using gap w(2) by (intro colon_gap_start) auto
  have rest: "drop (length gap) (take n (gap @ w)) = take (n - length gap) w" unfolding window by simp
  have "STRUCTURED_VALUE_SCAN_LIMIT - length key - length gap = n - length gap" by (simp add: n_def)
  then show ?thesis
    by (subst redact_mapping_from.simps) (simp only: found option.case prod.case Let_def key n_def [symmetric] start
        value_start.case rest, simp split: option.split)
qed

text \<open>
  C31. The value of a sensitive key never reaches the log. When a text contains a sensitive key with a
  colon, the redacted text is the same whatever the value is, provided the value ends at a delimiter
  within the limit of the scan: a bare text, a quoted text on one line whose inner quotes are escaped,
  or brackets that close, at most 64 deep. And when the value has no end (an open quote, open or
  mismatched brackets, brackets nested too deep) or is longer than the limit of 32768 characters,
  everything behind the key is dropped.
\<close>

theorem mapping_values_hidden:
  assumes unicode: "caseless_delimiters U" and gap: "colon_gap gap"
    and first: "ended_value v1" "search (ul_word U) (SENSITIVE_MAPPING_KEY U) c (a @ key @ gap @ v1 @ d # rest)
      = Some (a, c1, gap @ v1 @ d # rest, g1)" "length key + length gap + length v1 < 32768"
    and second: "ended_value v2" "search (ul_word U) (SENSITIVE_MAPPING_KEY U) c (a @ key @ gap @ v2 @ d # rest)
      = Some (a, c2, gap @ v2 @ d # rest, g2)" "length key + length gap + length v2 < 32768"
    and d: "closes_value d"
    and unclosed: "search (ul_word U) (SENSITIVE_MAPPING_KEY U) c (a @ key @ gap @ w) = Some (a, c3, gap @ w, g3)"
      "endless w \<or> (\<exists>v z. ended_value v \<and> w = v @ z \<and> 32768 \<le> length key + length gap + length v)"
  shows "redact_mapping_from U c (a @ key @ gap @ v1 @ d # rest) = redact_mapping_from U c (a @ key @ gap @ v2 @ d # rest)
    \<and> redact_mapping_from U c (a @ key @ gap @ w) = a @ key @ gap @ REDACTED"
proof
  have limit: "STRUCTURED_VALUE_SCAN_LIMIT = 32768" by (simp add: STRUCTURED_VALUE_SCAN_LIMIT_def)
  have hidden: "redact_mapping_from U c (a @ key @ gap @ v @ d # rest)
      = a @ key @ gap @ REDACTED @ redact_mapping_from U None (d # rest)"
    if ended: "ended_value v" and found: "search (ul_word U) (SENSITIVE_MAPPING_KEY U) c (a @ key @ gap @ v @ d # rest)
      = Some (a, c', gap @ v @ d # rest, g)" and short: "length key + length gap + length v < 32768"
    for v c' g
  proof -
    define n where "n = STRUCTURED_VALUE_SCAN_LIMIT - length key - length gap"
    obtain m where m: "n - length v = Suc m" using short by (cases "n - length v") (auto simp: n_def limit)
    then have "take n (v @ d # rest) = v @ d # take m rest" by simp
    then have "structured_value_end (take n (v @ d # rest)) = Some (length v)"
      using ended_value_ends(1) [OF ended d] by simp
    moreover have "v @ d # rest \<noteq> []" "\<not> mapping_space (hd (v @ d # rest))"
      using ended_value_ends(2,3) [OF ended d] by auto
    ultimately have "redact_mapping_from U c (a @ key @ gap @ v @ d # rest)
        = a @ key @ gap @ REDACTED @ redact_mapping_from U (last_char c' (gap @ v)) (d # rest)"
      using redact_mapping_step [OF found gap _ _] short by (simp add: n_def limit)
    then show ?thesis using redact_at_delimiter [OF unicode d] by metis
  qed
  show "redact_mapping_from U c (a @ key @ gap @ v1 @ d # rest) = redact_mapping_from U c (a @ key @ gap @ v2 @ d # rest)"
    unfolding hidden [OF first] hidden [OF second] by (rule refl)
  define n where "n = STRUCTURED_VALUE_SCAN_LIMIT - length key - length gap"
  have w: "w \<noteq> []" "\<not> mapping_space (hd w)" "structured_value_end (take n w) = None"
  proof -
    have "w \<noteq> [] \<and> \<not> mapping_space (hd w) \<and> structured_value_end (take n w) = None"
      using unclosed(2)
    proof (elim disjE exE conjE)
      assume "endless w"
      then show ?thesis using endless_has_no_end cut_has_no_end by blast
    next
      fix v z assume v: "ended_value v" "w = v @ z" "32768 \<le> length key + length gap + length v"
      then have "n \<le> length v" by (simp add: n_def limit)
      with long_value_has_no_end [OF v(1)] ended_value_ends(2,3) [OF v(1) d] v(2) show ?thesis by simp
    qed
    then show "w \<noteq> []" "\<not> mapping_space (hd w)" "structured_value_end (take n w) = None" by blast+
  qed
  have "length key + length gap < STRUCTURED_VALUE_SCAN_LIMIT" using first(3) by (simp add: limit)
  from redact_mapping_step [OF unclosed(1) gap w(1,2) this] w(3)
  show "redact_mapping_from U c (a @ key @ gap @ w) = a @ key @ gap @ REDACTED" by (simp add: n_def)
qed


text \<open>Characters as ASCII has them.\<close>

definition ascii_unicode :: unicode_lib where
  "ascii_unicode = \<lparr>ul_word = (\<lambda>c. (48 \<le> c \<and> c \<le> 57) \<or> (65 \<le> c \<and> c \<le> 90) \<or> c = 95 \<or> (97 \<le> c \<and> c \<le> 122)),
     ul_same = (\<lambda>a b. (if 65 \<le> a \<and> a \<le> 90 then a + 32 else a) = (if 65 \<le> b \<and> b \<le> 90 then b + 32 else b))\<rparr>"

lemma ascii_caseless: "caseless_delimiters ascii_unicode"
  by (auto simp: caseless_delimiters_def closes_value_def ascii_unicode_def split: if_splits)

text \<open>A quoted value with an escaped quote and a comma in it, nested brackets, and an open quote.\<close>

definition escaped_value :: pystr where
  "escaped_value = [34, 97, 92, 34, 44, 98, 34]"

definition bracket_value :: pystr where
  "bracket_value = [91, 49, 44, 123, 125, 93]"

definition open_value :: pystr where
  "open_value = [34, 97, 125]"

lemma sample_searches:
  "search (ul_word ascii_unicode) (SENSITIVE_MAPPING_KEY ascii_unicode) None ([123] @ str ''pwd'' @ [58] @ escaped_value @ 125 # [])
     = Some ([123], Some 100, [58] @ escaped_value @ 125 # [], [(1, []), (2, str ''pwd'')])"
  "search (ul_word ascii_unicode) (SENSITIVE_MAPPING_KEY ascii_unicode) None ([123] @ str ''pwd'' @ [58] @ bracket_value @ 125 # [])
     = Some ([123], Some 100, [58] @ bracket_value @ 125 # [], [(1, []), (2, str ''pwd'')])"
  "search (ul_word ascii_unicode) (SENSITIVE_MAPPING_KEY ascii_unicode) None ([123] @ str ''pwd'' @ [58] @ open_value)
     = Some ([123], Some 100, [58] @ open_value, [(1, []), (2, str ''pwd'')])"
  by code_simp+

lemma sample_trailing: "trailing []"
  by (simp add: trailing_def)

lemma sample_escaped: "ended_value escaped_value"
proof -
  have "ended_value (34 # pieces_text [Plain 97, Escaped 34, Plain 44, Plain 98] @ 34 # [])"
    by (rule quoted) (simp_all add: quote_mark_def same_line_def sample_trailing)
  then show ?thesis by (simp add: escaped_value_def)
qed

lemma sample_bracket: "ended_value bracket_value"
proof -
  have "ended_value (item_text (Nested True [Other 49, Other 44, Nested False []]) @ [])"
    by (rule nested) (simp_all add: sample_trailing)
  then show ?thesis by (simp add: bracket_value_def open_bracket_def close_bracket_def)
qed

lemma sample_open: "endless open_value"
proof -
  have "endless (34 # pieces_text [Plain 97, Plain 125] @ [])"
    by (rule open_quote) (simp_all add: quote_mark_def same_line_def line_stops_def)
  then show ?thesis by (simp add: open_value_def)
qed

theorem mapping_values_hidden_witness:
  "redact_mapping_from ascii_unicode None ([123] @ str ''pwd'' @ [58] @ escaped_value @ 125 # [])
     = redact_mapping_from ascii_unicode None ([123] @ str ''pwd'' @ [58] @ bracket_value @ 125 # [])
   \<and> redact_mapping_from ascii_unicode None ([123] @ str ''pwd'' @ [58] @ open_value) = str ''{pwd:[REDACTED]''"
proof -
  have gap: "colon_gap [58]"
    unfolding colon_gap_def by (intro exI [where x = "[]"]) simp
  have "length (str ''pwd'') + length [58::nat] + length escaped_value < 32768"
      "length (str ''pwd'') + length [58::nat] + length bracket_value < 32768" "closes_value 125"
    by (simp_all add: escaped_value_def bracket_value_def closes_value_def str_def)
  from mapping_values_hidden [OF ascii_caseless gap sample_escaped sample_searches(1) this(1) sample_bracket sample_searches(2)
      this(2,3) sample_searches(3) disjI1 [OF sample_open]]
  show ?thesis by (simp add: REDACTED_def str_def)
qed

text \<open>
  A quoted key with an equals sign is hidden by no pass: the assignment patterns want the equals sign
  right behind the name, and the loop leaves equals signs to them.
\<close>

lemma quoted_assignment_passes:
  "sub (ul_word ascii_unicode) (ODBC_CONNECTION_STRING ascii_unicode) f [34, 112, 119, 100, 34, 61, 120] = [34, 112, 119, 100, 34, 61, 120]"
  "sub (ul_word ascii_unicode) (ODBC_SENSITIVE_ASSIGNMENT ascii_unicode) f [34, 112, 119, 100, 34, 61, 120] = [34, 112, 119, 100, 34, 61, 120]"
  "sub (ul_word ascii_unicode) (SENSITIVE_ASSIGNMENT ascii_unicode) f [34, 112, 119, 100, 34, 61, 120] = [34, 112, 119, 100, 34, 61, 120]"
  by code_simp+

lemma quoted_assignment_fernet:
  "sub (ul_word ascii_unicode) FERNET_VALUE f [34, 112, 119, 100, 34, 61, 120] = [34, 112, 119, 100, 34, 61, 120]"
  by code_simp

lemma quoted_assignment_search:
  "search (ul_word ascii_unicode) (SENSITIVE_MAPPING_KEY ascii_unicode) None [34, 112, 119, 100, 34, 61, 120]
     = Some ([], Some 34, [61, 120], [(1, [34]), (2, [112, 119, 100])])"
  "search (ul_word ascii_unicode) (SENSITIVE_MAPPING_KEY ascii_unicode) (Some 34) [61, 120] = None"
  by code_simp+


theorem quoted_assignment_kept:
  "redact_sensitive_text ascii_unicode ([34] @ str ''pwd'' @ [34] @ str ''=x'') 300 = [34] @ str ''pwd'' @ [34] @ str ''=x''"
proof -
  let ?t = "[34, 112, 119, 100, 34, 61, 120] :: pystr"
  have chars: "[34] @ str ''pwd'' @ [34] @ str ''=x'' = ?t" by (simp add: str_def)
  have "take (STRUCTURED_VALUE_SCAN_LIMIT - n) [61, 120] = ([61, 120] :: pystr)" if "n < 100" for n
    using that by (simp add: STRUCTURED_VALUE_SCAN_LIMIT_def)
  moreover have "mapping_value_start [61, 120] = Assignment"
    by (simp add: mapping_value_start_def mapping_space_def)
  moreover have "redact_mapping_from ascii_unicode (Some 34) [61, 120] = [61, 120]"
    by (subst redact_mapping_from.simps) (simp add: quoted_assignment_search(2) del: search.simps)
  ultimately have "redact_sensitive_mapping_values ascii_unicode ?t = ?t"
    unfolding redact_sensitive_mapping_values_def
    by (subst redact_mapping_from.simps) (simp add: quoted_assignment_search(1) Let_def del: search.simps)
  then show ?thesis
    unfolding redact_sensitive_text_def chars Let_def quoted_assignment_passes
    by (simp add: quoted_assignment_fernet)
qed

end
