(* ===== verification/Rules_Scheduled.thy ===== *)
theory Rules_Scheduled
  imports Configuration_Theorems Worker
begin

text \<open>
  The web application and the worker together: what the forms and the import accept is what the
  scheduler can run. The two processes share the database and the cron library only, so the argument
  goes through the invariant of the stored rules: every identifier is given once, and every stored
  expression was accepted by the cron library.
\<close>

section \<open>Identifiers of rules\<close>

definition rule_ids_ok :: "db \<Rightarrow> bool" where
  "rule_ids_ok d \<longleftrightarrow> distinct (map ar_id (alert_rules d)) \<and> list_all (\<lambda>r. ar_id r \<noteq> None) (alert_rules d)"

lemma rule_ids_insert:
  assumes "fresh_ids E" and "rule_ids_ok d"
  shows "rule_ids_ok (insert_rule E r d)"
proof -
  have "Some (assign_id E (map ar_id (alert_rules d))) \<notin> ar_id ` set (alert_rules d)"
    using assms(1) unfolding fresh_ids_def by (metis set_map)
  with assms(2) show ?thesis by (simp add: rule_ids_ok_def insert_rule_def)
qed

lemma rule_ids_insert_all: "fresh_ids E \<Longrightarrow> rule_ids_ok d \<Longrightarrow> rule_ids_ok (fold (insert_rule E) rules d)"
  by (induction rules arbitrary: d) (simp_all add: rule_ids_insert)

lemma rule_ids_replace: "rule_ids_ok d \<Longrightarrow> (\<And>r. ar_id (f r) = ar_id r) \<Longrightarrow> rule_ids_ok (replace_rule i f d)"
  by (auto simp: rule_ids_ok_def replace_rule_def map_update_first intro: list_all_update_first)

lemma rule_ids_same: "alert_rules d' = alert_rules d \<Longrightarrow> rule_ids_ok d \<Longrightarrow> rule_ids_ok d'"
  by (simp add: rule_ids_ok_def)

lemma rule_ids_effect:
  assumes "fresh_ids (surroundings S)" and "rule_ids_ok d" and "config_effect S R L req d d'"
  shows "rule_ids_ok d'"
proof (cases req)
  case (UpdateRule username i s)
  with assms(3) obtain v f where
    "d' = replace_rule i f (insert_version (surroundings S) v d)" "\<And>r. ar_id (f r) = ar_id r"
    by (auto simp: rule_changed_def apply_submission_def)
  moreover have "rule_ids_ok (insert_version (surroundings S) v d)"
    by (rule rule_ids_same [OF _ assms(2)]) (simp add: insert_version_def)
  ultimately show ?thesis by (simp add: rule_ids_replace)
next
  case (CreateRule s)
  with assms show ?thesis by (auto simp: rule_created_def rule_ids_insert)
next
  case (ImportRules imported content)
  with assms show ?thesis by (auto simp: rules_imported_def rule_ids_insert_all)
next
  case (ArchiveRule i)
  with assms show ?thesis by (auto simp: rule_archived_def rule_ids_replace)
qed (use assms in \<open>auto simp: source_created_def source_updated_def source_deleted_def smtp_created_def
    smtp_updated_def smtp_deleted_def disable_when_def insert_source_def replace_source_def delete_source_def
    insert_smtp_def replace_smtp_def delete_smtp_def disable_other_smtp_configs_def
    elim!: rule_ids_same [rotated]\<close>)

lemma reachable_rule_ids:
  assumes "fresh_ids (surroundings S)" and "(config_step S R L)\<^sup>*\<^sup>* (new_world empty_db) w"
  shows "rule_ids_ok (committed w)"
  using assms(2)
proof (induction rule: rtranclp_induct)
  case base
  show ?case by (simp add: rule_ids_ok_def empty_db_def)
next
  case (step w1 w2)
  from config_step_effect [OF step(2)] rule_ids_effect [OF assms(1) step(3)] step(3) show ?case by metis
qed

lemma db_get_distinct:
  assumes "distinct (map pk xs)"
  shows "db_get pk i xs = Some x \<longleftrightarrow> x \<in> set xs \<and> pk x = Some i"
proof
  assume x: "x \<in> set xs \<and> pk x = Some i"
  with find_distinct [OF assms, of x] show "db_get pk i xs = Some x" by (simp add: db_get_def)
qed (use db_get_Some in fast)

section \<open>The wanted schedule\<close>

lemma wanted_of_distinct:
  assumes ids: "rule_ids_ok d"
  shows "wanted_schedule C (active_rules d) i =
    (case db_get ar_id i (alert_rules d) of
       None \<Rightarrow> None
     | Some rule \<Rightarrow>
         if ar_enabled rule \<and> ar_archived_at rule = None
         then (case from_crontab C (ar_cron_expression rule) of Inr t \<Rightarrow> Some (trigger_str C t) | Inl _ \<Rightarrow> None)
         else None)"
proof -
  let ?good = "filter (schedulable C) (active_rules d)"
  let ?pairs = "map (\<lambda>r. (the (ar_id r), r)) ?good"
  have set: "set ?good = {r \<in> set (alert_rules d). schedulable C r}"
    by (auto simp: active_rules_def schedulable_def)
  have "distinct (map ar_id ?good)"
    using ids by (simp add: rule_ids_ok_def active_rules_def distinct_map_filter)
  then have "distinct (map fst (rev ?pairs))"
    by (auto simp: distinct_map inj_on_def comp_def rev_map [symmetric] schedulable_def)
  then have found: "map_of (rev ?pairs) i = Some r \<longleftrightarrow> r \<in> set (alert_rules d) \<and> schedulable C r \<and> ar_id r = Some i" for r
  proof -
    have "(i, r) \<in> set (rev ?pairs) \<longleftrightarrow> r \<in> set ?good \<and> the (ar_id r) = i" by auto
    with map_of_eq_Some_iff [OF \<open>distinct (map fst (rev ?pairs))\<close>] show ?thesis
      unfolding set by (auto simp: schedulable_def)
  qed
  have get: "db_get ar_id i (alert_rules d) = Some r \<longleftrightarrow> r \<in> set (alert_rules d) \<and> ar_id r = Some i" for r
    using ids by (intro db_get_distinct) (simp add: rule_ids_ok_def)
  show ?thesis
  proof (cases "db_get ar_id i (alert_rules d)")
    case None
    then have "map_of (rev ?pairs) i = None"
      using found get by (cases "map_of (rev ?pairs) i") auto
    with None show ?thesis by (simp add: wanted_schedule_def)
  next
    case (Some rule)
    show ?thesis
    proof (cases "schedulable C rule")
      case True
      with Some found get have "map_of (rev ?pairs) i = Some rule" by blast
      with Some True show ?thesis by (auto simp: wanted_schedule_def schedulable_def)
    next
      case False
      have "map_of (rev ?pairs) i = None"
      proof (cases "map_of (rev ?pairs) i")
        case (Some r)
        with found [of r] get [of r] have "db_get ar_id i (alert_rules d) = Some r" "schedulable C r" by auto
        with \<open>db_get ar_id i (alert_rules d) = Some rule\<close> False show ?thesis by simp
      qed
      moreover have "ar_id rule \<noteq> None" using Some get by auto
      ultimately show ?thesis
        using Some False by (auto simp: wanted_schedule_def schedulable_def split: sum.splits)
    qed
  qed
qed


section \<open>Stored rules are scheduled\<close>

text \<open>Whatever expression the routes accept the scheduler can turn into a trigger; both call
  \<open>CronTrigger.from_crontab\<close>.\<close>

definition same_crons :: "route_lib \<Rightarrow> ('s, 'tr) job_scheduler \<Rightarrow> bool" where
  "same_crons R C \<longleftrightarrow> (\<forall>c. rl_from_crontab R c = Inr () \<longrightarrow> (\<exists>t. from_crontab C c = Inr t))"

lemma wanted_of_stored:
  assumes ids: "rule_ids_ok d" and ok: "config_ok R G d" and crons: "same_crons R C"
    and rule: "rule \<in> set (alert_rules d)" "ar_enabled rule" "ar_archived_at rule = None"
  shows "\<exists>i t. ar_id rule = Some i \<and> db_get ar_id i (alert_rules d) = Some rule
    \<and> from_crontab C (ar_cron_expression rule) = Inr t
    \<and> wanted_schedule C (active_rules d) i = Some (trigger_str C t)
    \<and> validate_select_only_sql G (ar_sql_text rule) = Inr () \<and> has_source (data_sources d) rule"
proof -
  obtain i where i: "ar_id rule = Some i" using ids rule(1) by (auto simp: rule_ids_ok_def list_all_iff)
  have get: "db_get ar_id i (alert_rules d) = Some rule"
    using db_get_distinct [of ar_id "alert_rules d" i rule] ids rule(1) i by (simp add: rule_ids_ok_def)
  have wf: "rule_wf R G rule" "has_source (data_sources d) rule"
    using ok rule(1) by (auto simp: config_ok_def rules_ok_def list_all_iff)
  then obtain t where t: "from_crontab C (ar_cron_expression rule) = Inr t"
    using crons by (auto simp: same_crons_def rule_wf_def rule_valid_def)
  have "wanted_schedule C (active_rules d) i = Some (trigger_str C t)"
    unfolding wanted_of_distinct [OF ids] by (simp add: get t rule)
  with i get t wf show ?thesis by (auto simp: rule_wf_def rule_valid_def)
qed

text \<open>
  C16. Every enabled rule an administrator can store is run on its schedule, and nothing else is: after
  any sequence of requests, one synchronization of the worker in which the calls work ends well; every
  enabled rule that is not archived has then a job with the trigger of its expression, under its
  identifier, which finds this rule in the table again, with a statement the executor's validator
  accepts and a data source that exists; and no job is left for an identifier whose rule is disabled,
  archived or not there.
\<close>

theorem saved_rules_are_scheduled:
  assumes "fresh_ids (surroundings S)" and "keeps_rules R" and "same_crons R (we_scheduler W)"
    and reached: "(config_step S R L)\<^sup>*\<^sup>* (new_world empty_db) w"
    and "no_faults (we_env W)" and "job_table (we_scheduler W) jobs" and "enumerates_sets (we_set_order W)"
    and "reliable_scheduler (we_scheduler W) jobs" and "all_tracked (we_scheduler W) jobs (wk_jobs st)"
    and same: "committed (wk_world st) = committed w"
  shows "\<exists>st'. sync_rules_once W st = (Inr \<lparr>rs_ok = True, rs_error = []\<rparr>, st')
    \<and> (\<forall>rule \<in> set (alert_rules (committed w)). ar_enabled rule \<and> ar_archived_at rule = None \<longrightarrow>
         (\<exists>i t. ar_id rule = Some i \<and> from_crontab (we_scheduler W) (ar_cron_expression rule) = Inr t
            \<and> map_option (trigger_str (we_scheduler W)) (jobs (fst (wk_jobs st')) (job_id i))
                = Some (trigger_str (we_scheduler W) t)
            \<and> db_get ar_id i (alert_rules (committed w)) = Some rule
            \<and> validate_select_only_sql (sqlglot_lib S) (ar_sql_text rule) = Inr ()
            \<and> has_source (data_sources (committed w)) rule))
    \<and> (\<forall>i. jobs (fst (wk_jobs st')) (job_id i) \<noteq> None \<longrightarrow>
         (\<exists>rule. db_get ar_id i (alert_rules (committed w)) = Some rule
            \<and> ar_enabled rule \<and> ar_archived_at rule = None))"
proof -
  let ?C = "we_scheduler W" and ?d = "committed w"
  have ids: "rule_ids_ok ?d" by (rule reachable_rule_ids [OF assms(1) reached])
  have ok: "config_ok R (sqlglot_lib S) ?d"
    by (rule config_steps_ok [OF assms(1,2) _ reached]) (simp add: config_ok_empty)
  obtain st' where run: "sync_rules_once W st = (Inr \<lparr>rs_ok = True, rs_error = []\<rparr>, st')"
      and view: "\<And>i. schedule_view ?C jobs (wk_jobs st') i
        = (wanted_schedule ?C (active_rules ?d) i, wanted_schedule ?C (active_rules ?d) i)"
    using sync_rules_once_good [OF assms(5-9)] unfolding same active_rules_def by blast
  have job: "map_option (trigger_str ?C) (jobs (fst (wk_jobs st')) (job_id i)) = wanted_schedule ?C (active_rules ?d) i" for i
    using view [of i] by (simp add: schedule_view_def split: prod.splits)
  have "\<exists>rule. db_get ar_id i (alert_rules ?d) = Some rule \<and> ar_enabled rule \<and> ar_archived_at rule = None"
    if "jobs (fst (wk_jobs st')) (job_id i) \<noteq> None" for i
    using that job [of i] unfolding wanted_of_distinct [OF ids] by (auto split: option.splits if_splits)
  with run wanted_of_stored [OF ids ok assms(3)] show ?thesis
    by (intro exI [of _ st'] conjI ballI allI impI) (fastforce simp: job)+
qed

text \<open>A worker beside the configuration of the sample requests.\<close>

definition desk_worker :: "((pystr \<Rightarrow> pystr option), pystr) worker_env" where
  "desk_worker = sample_worker\<lparr>we_scheduler := map_scheduler\<lparr>from_crontab := Inr\<rparr>\<rparr>"

lemma desk_worker_scheduler:
  "job_table (we_scheduler desk_worker) (\<lambda>s. s)" "reliable_scheduler (we_scheduler desk_worker) (\<lambda>s. s)"
  "same_crons sample_routes (we_scheduler desk_worker)"
  using map_scheduler_table map_scheduler_reliable
  by (simp_all add: desk_worker_def job_table_def reliable_scheduler_def same_crons_def)

lemma desk_world_enabled:
  "\<exists>rule. rule \<in> set (alert_rules (committed desk_world)) \<and> ar_enabled rule \<and> ar_archived_at rule = None"
proof -
  have "fst (create_rule quiet_env sample_routes sample_sqlglot sample_submission desk2) = Inr (Redirect (str ''/rules''))"
    by (rule create_rule_accepts [OF no_faults_quiet_env sample_hours(1) desk2_acceptable sample_hours(2)])
  with create_rule_settles [OF sample_hours(1), of desk2 quiet_env sample_routes sample_sqlglot]
  have "rule_created quiet_env sample_routes sample_sqlglot sample_submission (committed desk2) (committed desk_world)"
    by (simp add: settles_def desk_world_steps desk_serve_def)
  then show ?thesis
    by (auto simp: rule_created_def insert_rule_def rule_of_submission_def sample_submission_def is_checked_def str_def)
qed

theorem saved_rules_are_scheduled_witness:
  "\<exists>st' i t. sync_rules_once desk_worker \<lparr>wk_world = desk_world, wk_jobs = (Map.empty, [])\<rparr>
       = (Inr \<lparr>rs_ok = True, rs_error = []\<rparr>, st') \<and> fst (wk_jobs st') (job_id i) = Some t"
proof -
  let ?st = "\<lparr>wk_world = desk_world, wk_jobs = (Map.empty, [])\<rparr> :: (pystr \<Rightarrow> pystr option) worker_state"
  have quiet: "no_faults (we_env desk_worker)" "enumerates_sets (we_set_order desk_worker)"
    by (simp_all add: desk_worker_def sample_worker_def no_faults_quiet_env enumerates_sets_def)
  have tracks: "all_tracked (we_scheduler desk_worker) (\<lambda>s. s) (wk_jobs ?st)"
    by (simp add: all_tracked_def tracked_def schedule_view_def)
  have fresh: "fresh_ids (surroundings desk)" using quiet_fresh_ids by simp
  obtain rule where rule: "rule \<in> set (alert_rules (committed desk_world))" "ar_enabled rule" "ar_archived_at rule = None"
    using desk_world_enabled by blast
  obtain st' where st': "sync_rules_once desk_worker ?st = (Inr \<lparr>rs_ok = True, rs_error = []\<rparr>, st')"
      and jobs: "\<forall>rule \<in> set (alert_rules (committed desk_world)). ar_enabled rule \<and> ar_archived_at rule = None \<longrightarrow>
        (\<exists>i t. map_option (trigger_str (we_scheduler desk_worker)) (fst (wk_jobs st') (job_id i))
           = Some (trigger_str (we_scheduler desk_worker) t))"
    using saved_rules_are_scheduled [OF fresh sample_keeps_rules desk_worker_scheduler(3) desk_reaches quiet(1)
        desk_worker_scheduler(1) quiet(2) desk_worker_scheduler(2) tracks] by force
  from jobs rule obtain i where "fst (wk_jobs st') (job_id i) \<noteq> None" by fastforce
  with st' show ?thesis by blast
qed

end
