(* ===== verification/Log_Links.thy ===== *)
theory Log_Links
  imports Log_Service Crypto
begin

text \<open>
  The links between the pages of the log (\<open>log_page_url\<close> in \<open>logs_page\<close> of \<open>src/app/routes.py\<close>):
  \<open>urllib.parse.urlencode\<close>, which writes them, and \<open>parse_qsl\<close>, with which the framework reads the
  query of a request. How bytes that are no UTF-8 are read is an argument.
\<close>

section \<open>Writing a query\<close>

definition unreserved :: "nat \<Rightarrow> bool" where
  "unreserved c \<longleftrightarrow> 65 \<le> c \<and> c \<le> 90 \<or> 97 \<le> c \<and> c \<le> 122 \<or> 48 \<le> c \<and> c \<le> 57
     \<or> c = 95 \<or> c = 46 \<or> c = 45 \<or> c = 126"

definition hex_digit :: "nat \<Rightarrow> nat" where
  "hex_digit n = (if n < 10 then 48 + n else 55 + n)"

definition quote_byte :: "nat \<Rightarrow> pystr" where
  "quote_byte b =
     (if unreserved b then [b] else if b = 32 then [43] else [37, hex_digit (b div 16), hex_digit (b mod 16)])"

definition quote_plus :: "pystr \<Rightarrow> pystr res" where
  "quote_plus s = map_sum id (\<lambda>bs. concat (map quote_byte bs)) (encode_res s)"

definition urlencode_pair :: "pystr \<times> pystr \<Rightarrow> pystr res" where
  "urlencode_pair = (\<lambda>(name, v).
     case quote_plus name of
       Inl exc \<Rightarrow> Inl exc
     | Inr n \<Rightarrow> map_sum id (\<lambda>q. n @ [61] @ q) (quote_plus v))"

fun urlencode_pairs :: "(pystr \<times> pystr) list \<Rightarrow> pystr list res" where
  "urlencode_pairs [] = Inr []"
| "urlencode_pairs (p # ps) =
     (case urlencode_pair p of
        Inl exc \<Rightarrow> Inl exc
      | Inr t \<Rightarrow> map_sum id ((#) t) (urlencode_pairs ps))"

definition urlencode :: "(pystr \<times> pystr) list \<Rightarrow> pystr res" where
  "urlencode ps = map_sum id (join [38]) (urlencode_pairs ps)"

definition link_fields :: "log_filters \<Rightarrow> int \<Rightarrow> int \<Rightarrow> int \<Rightarrow> (pystr \<times> pystr) list" where
  "link_fields f page_size execution_page_number mail_page_number =
     [(str ''execution_status'', lf_execution_status f), (str ''trigger_type'', lf_trigger_type f),
      (str ''rule_id'', lf_rule_id f), (str ''mail_status'', lf_mail_status f), (str ''keyword'', lf_keyword f),
      (str ''execution_page'', int_str execution_page_number), (str ''mail_page'', int_str mail_page_number),
      (str ''page_size'', int_str page_size)]"

definition log_page_url :: "log_filters \<Rightarrow> int \<Rightarrow> int \<Rightarrow> int \<Rightarrow> pystr res" where
  "log_page_url f page_size execution_page_number mail_page_number =
     map_sum id (\<lambda>q. str ''/logs?'' @ q) (urlencode (link_fields f page_size execution_page_number mail_page_number))"

section \<open>Reading a query\<close>

definition hex_value :: "nat \<Rightarrow> nat option" where
  "hex_value c =
     (if 48 \<le> c \<and> c \<le> 57 then Some (c - 48)
      else if 65 \<le> c \<and> c \<le> 70 then Some (c - 55)
      else if 97 \<le> c \<and> c \<le> 102 then Some (c - 87)
      else None)"

text \<open>The bytes of a part of an ASCII query: plus signs are blanks, an incomplete escape stands for itself.\<close>

fun unquote_plus :: "pystr \<Rightarrow> nat list" where
  "unquote_plus [] = []"
| "unquote_plus (c # cs) =
     (if c = 37 then
        (case cs of
           a # b # r \<Rightarrow>
             (case (hex_value a, hex_value b) of
                (Some x, Some y) \<Rightarrow> (16 * x + y) # unquote_plus r
              | _ \<Rightarrow> 37 # unquote_plus cs)
         | _ \<Rightarrow> 37 # unquote_plus cs)
      else (if c = 43 then 32 else c) # unquote_plus cs)"

definition read_text :: "(nat list \<Rightarrow> pystr) \<Rightarrow> pystr \<Rightarrow> pystr" where
  "read_text D part =
     (let bs = unquote_plus part in case utf8_decode bs of Some s \<Rightarrow> s | None \<Rightarrow> D bs)"

definition parse_pair :: "(nat list \<Rightarrow> pystr) \<Rightarrow> pystr \<Rightarrow> pystr \<times> pystr" where
  "parse_pair D part =
     (read_text D (takeWhile (\<lambda>c. c \<noteq> 61) part), read_text D (tl (dropWhile (\<lambda>c. c \<noteq> 61) part)))"

definition parse_qsl :: "(nat list \<Rightarrow> pystr) \<Rightarrow> pystr \<Rightarrow> (pystr \<times> pystr) list" where
  "parse_qsl D query = map (parse_pair D) (filter (\<lambda>part. part \<noteq> []) (split_on (\<lambda>c. c = 38) query))"

text \<open>The last value of a name counts.\<close>

definition query_params :: "(nat list \<Rightarrow> pystr) \<Rightarrow> pystr \<Rightarrow> pystr \<Rightarrow> pystr option" where
  "query_params D query = map_of (rev (parse_qsl D query))"

section \<open>What is written is read back\<close>

lemma map_sum_Inr: "map_sum id f x = Inr y \<longleftrightarrow> (\<exists>z. x = Inr z \<and> y = f z)"
  by (cases x) auto

lemma hex_value_digit: "n < 16 \<Longrightarrow> hex_value (hex_digit n) = Some n"
  by (auto simp: hex_value_def hex_digit_def)

lemma unquote_plain: "c \<noteq> 37 \<Longrightarrow> unquote_plus (c # cs) = (if c = 43 then 32 else c) # unquote_plus cs"
  by simp

lemma unquote_escape:
  "hex_value a = Some x \<Longrightarrow> hex_value b = Some y \<Longrightarrow> unquote_plus (37 # a # b # r) = (16 * x + y) # unquote_plus r"
  by simp

declare unquote_plus.simps(2) [simp del]

lemma unquote_quote_byte:
  assumes "b < 256"
  shows "unquote_plus (quote_byte b @ rest) = b # unquote_plus rest"
proof -
  have "b div 16 < 16" "b mod 16 < 16" using assms by auto
  note digits = hex_value_digit [OF this(1)] hex_value_digit [OF this(2)]
  have escaped: "16 * (b div 16) + b mod 16 = b" by simp
  show ?thesis
  proof (cases "unreserved b \<or> b = 32")
    case True
    moreover have "b \<noteq> 37 \<and> b \<noteq> 43" if "unreserved b" using that by (auto simp: unreserved_def)
    ultimately show ?thesis by (auto simp: quote_byte_def unquote_plain)
  next
    case False
    then have "quote_byte b @ rest = 37 # hex_digit (b div 16) # hex_digit (b mod 16) # rest"
      by (simp add: quote_byte_def)
    then show ?thesis by (simp only: unquote_escape [OF digits] escaped)
  qed
qed

lemma unquote_quote: "\<forall>b \<in> set bs. b < 256 \<Longrightarrow> unquote_plus (concat (map quote_byte bs)) = bs"
  by (induction bs) (simp_all add: unquote_quote_byte)

lemma hex_digit_chars: "n < 16 \<Longrightarrow> hex_digit n \<noteq> 38 \<and> hex_digit n \<noteq> 61"
  by (simp add: hex_digit_def)

lemma quote_byte_chars:
  assumes "c \<in> set (quote_byte b)" and "b < 256"
  shows "c \<noteq> 38 \<and> c \<noteq> 61"
proof (cases "unreserved b")
  case True
  with assms(1) have "c = b" by (simp add: quote_byte_def)
  with True show ?thesis by (auto simp: unreserved_def)
next
  case False
  have "b div 16 < 16" "b mod 16 < 16" using assms(2) by auto
  from hex_digit_chars [OF this(1)] hex_digit_chars [OF this(2)] assms(1) False show ?thesis
    by (auto simp: quote_byte_def split: if_splits)
qed

lemma utf8_char_bytes: "utf8_char c = Some bs \<Longrightarrow> c \<le> 0x10FFFF \<Longrightarrow> b \<in> set bs \<Longrightarrow> b < 256"
proof -
  assume c: "c \<le> 0x10FFFF" and bs: "utf8_char c = Some bs" "b \<in> set bs"
  have "c div 262144 < 5" "c < 0x800 \<Longrightarrow> c div 64 < 32" "c < 0x10000 \<Longrightarrow> c div 4096 < 16"
    using c by auto
  moreover have "c mod 64 < 64" "c div 64 mod 64 < 64" "c div 4096 mod 64 < 64" by simp_all
  ultimately show ?thesis using bs by (auto simp: utf8_char_def split: if_splits)
qed

lemma utf8_bytes: "utf8_encode s = Some bs \<Longrightarrow> \<forall>c \<in> set s. c \<le> 0x10FFFF \<Longrightarrow> \<forall>b \<in> set bs. b < 256"
proof (induction s arbitrary: bs)
  case (Cons c s)
  then obtain b bs' where "utf8_char c = Some b" "utf8_encode s = Some bs'" "bs = b @ bs'"
    by (auto split: option.splits)
  with Cons utf8_char_bytes [of c b] show ?case by auto
qed simp

definition unicode_text :: "pystr \<Rightarrow> bool" where
  "unicode_text s \<longleftrightarrow> (\<forall>c \<in> set s. c < 0xD800 \<or> 0xDFFF < c \<and> c \<le> 0x10FFFF)"

lemma unicode_text_max: "unicode_text s \<Longrightarrow> \<forall>c \<in> set s. c \<le> 0x10FFFF"
  by (auto simp: unicode_text_def)

lemma unicode_text_encodes: "unicode_text s \<Longrightarrow> \<exists>bs. utf8_encode s = Some bs"
  by (induction s) (auto simp: unicode_text_def utf8_char_def)

lemma quote_plus_facts:
  assumes "quote_plus s = Inr q" and "unicode_text s"
  shows "read_text D q = s" and "\<forall>c \<in> set q. c \<noteq> 38 \<and> c \<noteq> 61"
proof -
  obtain bs where bs: "utf8_encode s = Some bs" "q = concat (map quote_byte bs)"
    using assms(1) by (auto simp: quote_plus_def encode_res_def map_sum_Inr split: option.splits)
  have small: "\<forall>b \<in> set bs. b < 256" and decoded: "utf8_decode bs = Some s"
    using utf8_bytes [OF bs(1)] utf8_roundtrip [OF bs(1)] unicode_text_max [OF assms(2)] by blast+
  show "read_text D q = s" using decoded by (simp add: read_text_def bs(2) unquote_quote [OF small])
  show "\<forall>c \<in> set q. c \<noteq> 38 \<and> c \<noteq> 61" using small quote_byte_chars by (fastforce simp: bs(2))
qed

lemma urlencode_pair_facts:
  assumes "urlencode_pair (name, v) = Inr t" and "unicode_text name" "unicode_text v"
  shows "parse_pair D t = (name, v)" and "t \<noteq> []" and "\<forall>c \<in> set t. c \<noteq> 38"
proof -
  obtain n q where n: "quote_plus name = Inr n" and q: "quote_plus v = Inr q" and t: "t = n @ [61] @ q"
    using assms(1) by (auto simp: urlencode_pair_def map_sum_Inr split: sum.splits)
  note N = quote_plus_facts [OF n assms(2)] and Q = quote_plus_facts [OF q assms(3)]
  have "takeWhile (\<lambda>c. c \<noteq> 61) t = n" "dropWhile (\<lambda>c. c \<noteq> 61) t = 61 # q"
    using N(2) by (simp_all add: t takeWhile_append dropWhile_append)
  with N(1) Q(1) show "parse_pair D t = (name, v)" by (simp add: parse_pair_def)
  show "t \<noteq> []" "\<forall>c \<in> set t. c \<noteq> 38" using N(2) Q(2) by (auto simp: t)
qed

lemma urlencode_pairs_facts:
  assumes "urlencode_pairs ps = Inr ts" and "\<forall>(name, v) \<in> set ps. unicode_text name \<and> unicode_text v"
  shows "map (parse_pair D) ts = ps \<and> (\<forall>t \<in> set ts. t \<noteq> [] \<and> (\<forall>c \<in> set t. c \<noteq> 38))"
  using assms
proof (induction ps arbitrary: ts)
  case (Cons p ps)
  then obtain t ts' where t: "urlencode_pair p = Inr t" "urlencode_pairs ps = Inr ts'" "ts = t # ts'"
    by (auto simp: map_sum_Inr split: sum.splits)
  obtain name v where p: "p = (name, v)" by (cases p)
  have texts: "unicode_text name" "unicode_text v" using Cons.prems(2) by (auto simp: p)
  show ?case
    using urlencode_pair_facts(1) [OF t(1) [unfolded p] texts, of D]
      urlencode_pair_facts(2,3) [OF t(1) [unfolded p] texts] Cons.IH [OF t(2)] Cons.prems(2)
    by (simp add: t(3) p)
qed simp

lemma parse_urlencode:
  assumes "urlencode ps = Inr q" and "ps \<noteq> []" and "\<forall>(name, v) \<in> set ps. unicode_text name \<and> unicode_text v"
  shows "parse_qsl D q = ps"
proof -
  obtain ts where ts: "urlencode_pairs ps = Inr ts" "q = join [38] ts"
    using assms(1) by (auto simp: urlencode_def map_sum_Inr)
  note F = urlencode_pairs_facts [OF ts(1) assms(3), of D]
  then have "ts \<noteq> []" using assms(2) by auto
  then have "split_on (\<lambda>c. c = 38) q = ts"
    unfolding ts(2) by (rule split_on_join) (use F in auto)
  moreover have "filter (\<lambda>part. part \<noteq> []) ts = ts" using F by (simp add: filter_id_conv)
  ultimately show ?thesis using F by (simp add: parse_qsl_def)
qed


lemma quote_plus_total: "unicode_text s \<Longrightarrow> \<exists>q. quote_plus s = Inr q"
  using unicode_text_encodes [of s] by (auto simp: quote_plus_def encode_res_def)

lemma urlencode_total:
  assumes "\<forall>(name, v) \<in> set ps. unicode_text name \<and> unicode_text v"
  shows "\<exists>q. urlencode ps = Inr q"
proof -
  have "\<exists>ts. urlencode_pairs ps = Inr ts"
    using assms
  proof (induction ps)
    case (Cons p ps)
    then obtain name v ts where "p = (name, v)" "unicode_text name" "unicode_text v" "urlencode_pairs ps = Inr ts"
      by (cases p) auto
    with quote_plus_total [of name] quote_plus_total [of v] show ?case
      by (auto simp: urlencode_pair_def)
  qed simp
  then show ?thesis by (auto simp: urlencode_def)
qed

section \<open>The links of the log page\<close>

lemma unicode_small: "(\<And>c. c \<in> set s \<Longrightarrow> c < 256) \<Longrightarrow> unicode_text s"
  by (force simp: unicode_text_def)

lemma unicode_int_str: "unicode_text (int_str i)"
  by (rule unicode_small) (use nat_str_digits in \<open>force simp: int_str_def split: if_splits\<close>)

lemma unicode_str: "unicode_text (str s)"
  by (rule unicode_small) (auto simp: str_def)

lemma unicode_stripped_param:
  assumes "\<forall>name t. params name = Some t \<longrightarrow> unicode_text t"
  shows "unicode_text (stripped_param params name)"
proof (cases "params name")
  case (Some t)
  then have "unicode_text t" using assms by blast
  with Some show ?thesis using set_strip [of t] by (auto simp: unicode_text_def stripped_param_def)
qed (simp add: unicode_text_def stripped_param_def)

definition unicode_filters :: "log_filters \<Rightarrow> bool" where
  "unicode_filters f \<longleftrightarrow> unicode_text (lf_execution_status f) \<and> unicode_text (lf_trigger_type f)
     \<and> unicode_text (lf_rule_id f) \<and> unicode_text (lf_mail_status f) \<and> unicode_text (lf_keyword f)"

lemma link_params:
  assumes "unicode_filters f"
  shows "\<exists>query. log_page_url f k e m = Inr (str ''/logs?'' @ query)
    \<and> query_params D query = map_of (rev (link_fields f k e m))"
proof -
  have texts: "\<forall>(name, v) \<in> set (link_fields f k e m). unicode_text name \<and> unicode_text v"
    using assms by (simp add: link_fields_def unicode_filters_def unicode_str unicode_int_str)
  from urlencode_total [OF this] obtain query where query: "urlencode (link_fields f k e m) = Inr query" by blast
  have "link_fields f k e m \<noteq> []" by (simp add: link_fields_def)
  from parse_urlencode [OF query this texts, of D] query show ?thesis
    by (simp add: log_page_url_def query_params_def)
qed

lemma link_lookups:
  "map_of (rev (link_fields f k e m)) (str ''execution_status'') = Some (lf_execution_status f)"
  "map_of (rev (link_fields f k e m)) (str ''trigger_type'') = Some (lf_trigger_type f)"
  "map_of (rev (link_fields f k e m)) (str ''rule_id'') = Some (lf_rule_id f)"
  "map_of (rev (link_fields f k e m)) (str ''mail_status'') = Some (lf_mail_status f)"
  "map_of (rev (link_fields f k e m)) (str ''keyword'') = Some (lf_keyword f)"
  "map_of (rev (link_fields f k e m)) (str ''execution_page'') = Some (int_str e)"
  "map_of (rev (link_fields f k e m)) (str ''mail_page'') = Some (int_str m)"
  "map_of (rev (link_fields f k e m)) (str ''page_size'') = Some (int_str k)"
  by (simp_all add: link_fields_def str_def)

lemma normalized_page_size_idem [simp]: "normalized_page_size (normalized_page_size s) = normalized_page_size s"
  by (simp add: normalized_page_size_def MIN_PAGE_SIZE_def MAX_PAGE_SIZE_def)

lemma log_page_facts:
  assumes "list_execution_logs Q d f p s = Inr executions"
  shows "pg_page_size executions = normalized_page_size s"
    and "\<exists>next_page. list_execution_logs Q d f e (pg_page_size executions) = Inr next_page
      \<and> pg_page_size next_page = pg_page_size executions
      \<and> (1 \<le> e \<and> e \<le> pg_total_pages executions \<longrightarrow> pg_page next_page = e)"
  using assms by (auto simp: list_execution_logs_Inr paginate_simps)

lemma mail_page_facts:
  assumes "list_mail_logs Q d f p (normalized_page_size s) = Inr mails"
  shows "\<exists>next_page. list_mail_logs Q d f m (normalized_page_size s) = Inr next_page
      \<and> (1 \<le> m \<and> m \<le> pg_total_pages mails \<longrightarrow> pg_page next_page = m)"
  using assms by (auto simp: list_mail_logs_Inr paginate_simps)

text \<open>
  C39. The links of the log page lead where they say: on every page shown and for any numbers of the
  two lists a link can be made, and the framework reads it as a request with the same filters and page
  size, whatever characters the filters hold, so that both lists show the pages the link names. A
  number a pagination button uses, from 1 to the number of pages of its list, is the page shown.
\<close>

theorem log_links_lead_back:
  assumes "\<forall>name t. params name = Some t \<longrightarrow> unicode_text t"
    and "\<bar>e\<bar> < 10 ^ 30" "\<bar>m\<bar> < 10 ^ 30"
    and here: "logs_page Q d params = Inr (f, executions, mails)"
  shows "\<exists>query executions' mails'.
    log_page_url f (pg_page_size executions) e m = Inr (str ''/logs?'' @ query)
    \<and> list_execution_logs Q d f e (pg_page_size executions) = Inr executions'
    \<and> list_mail_logs Q d f m (pg_page_size executions) = Inr mails'
    \<and> logs_page Q d (query_params D query) = Inr (f, executions', mails')
    \<and> pg_page_size executions' = pg_page_size executions
    \<and> (1 \<le> e \<and> e \<le> pg_total_pages executions \<longrightarrow> pg_page executions' = e)
    \<and> (1 \<le> m \<and> m \<le> pg_total_pages mails \<longrightarrow> pg_page mails' = m)"
proof -
  let ?k = "pg_page_size executions"
  have f: "f = \<lparr>lf_execution_status = stripped_param params (str ''execution_status''),
                lf_trigger_type = stripped_param params (str ''trigger_type''),
                lf_rule_id = stripped_param params (str ''rule_id''),
                lf_mail_status = stripped_param params (str ''mail_status''),
                lf_keyword = stripped_param params (str ''keyword'')\<rparr>"
    and "\<exists>p s q. list_execution_logs Q d f p s = Inr executions \<and> list_mail_logs Q d f q ?k = Inr mails"
    using here by (auto simp: logs_page_def Let_def map_sum_Inr split: sum.splits)
  then obtain p s q where ex: "list_execution_logs Q d f p s = Inr executions"
      and ml: "list_mail_logs Q d f q ?k = Inr mails" by blast
  have k: "?k = normalized_page_size s" by (rule log_page_facts(1) [OF ex])
  then have "\<bar>?k\<bar> < 10 ^ 30" using normalized_page_size_bounds [of s] by simp
  note ints = py_int_small [OF assms(2)] py_int_small [OF assms(3)] py_int_small [OF this]
  have "unicode_filters f" by (simp add: f unicode_filters_def unicode_stripped_param [OF assms(1)])
  from link_params [OF this] obtain query where link: "log_page_url f ?k e m = Inr (str ''/logs?'' @ query)"
      and params: "query_params D query = map_of (rev (link_fields f ?k e m))" by blast
  have same: "\<lparr>lf_execution_status = stripped_param (query_params D query) (str ''execution_status''),
                lf_trigger_type = stripped_param (query_params D query) (str ''trigger_type''),
                lf_rule_id = stripped_param (query_params D query) (str ''rule_id''),
                lf_mail_status = stripped_param (query_params D query) (str ''mail_status''),
                lf_keyword = stripped_param (query_params D query) (str ''keyword'')\<rparr> = f"
    unfolding params stripped_param_def link_lookups by (simp add: f stripped_param_def)
  from log_page_facts(2) [OF ex] obtain executions' where E: "list_execution_logs Q d f e ?k = Inr executions'"
      "pg_page_size executions' = ?k" "1 \<le> e \<and> e \<le> pg_total_pages executions \<longrightarrow> pg_page executions' = e"
    by blast
  from mail_page_facts [OF ml [unfolded k]] obtain mails' where M: "list_mail_logs Q d f m ?k = Inr mails'"
      "1 \<le> m \<and> m \<le> pg_total_pages mails \<longrightarrow> pg_page mails' = m"
    unfolding k by blast
  have "logs_page Q d (query_params D query) = Inr (f, executions', mails')"
    unfolding logs_page_def same unfolding log_page_parameter_def params link_lookups Let_def
    by (simp add: ints E(1,2) M(1))
  then show ?thesis using link E M by blast
qed

theorem log_links_lead_back_witness:
  "\<exists>f executions mails executions' mails' query.
     logs_page sample_queries empty_db [str ''keyword'' \<mapsto> [0x4E2D, 38]] = Inr (f, executions, mails)
     \<and> log_page_url f (pg_page_size executions) 2 1 = Inr (str ''/logs?'' @ query)
     \<and> logs_page sample_queries empty_db (query_params (\<lambda>_. []) query) = Inr (f, executions', mails')
     \<and> lf_keyword f = [0x4E2D, 38]"
proof -
  have chars: "\<forall>name t. [str ''keyword'' \<mapsto> [0x4E2D, 38]] name = Some t \<longrightarrow> unicode_text t"
    by (simp add: unicode_text_def)
  obtain f executions mails where
    here: "logs_page sample_queries empty_db [str ''keyword'' \<mapsto> [0x4E2D, 38]] = Inr (f, executions, mails)"
    by (simp add: logs_page_def Let_def list_execution_logs_def list_mail_logs_def sample_queries_def
        stripped_param_def str_def strip_def lstrip_def rstrip_def)
  then have "lf_keyword f = strip [0x4E2D, 38]"
    by (auto simp: logs_page_def Let_def stripped_param_def map_sum_Inr split: sum.splits)
  then have "lf_keyword f = [0x4E2D, 38]"
    by (simp add: strip_def lstrip_def rstrip_def is_space_def)
  with log_links_lead_back [OF chars _ _ here, of 2 1 "\<lambda>_. []"] here show ?thesis by force
qed

end
