(* ===== verification/Spec2Isabelle.thy ===== *)
theory Spec2Isabelle
  imports Rate_Limiter_Bounds Auth Execution_Theorems Worker Log_Service Configuration_Theorems
    Password_Change Db_Migration_Theorems Application Dashboard Redaction Rules_Scheduled Log_Links
begin

text \<open>
  A model of the SQL early warning system (\<open>src/app\<close>): administrators define rules, each a read-only
  SELECT on a SQL Server with a cron expression and mail templates; the system runs the rules by hand or
  on their schedule, sends a mail when rows come back, and logs what happened.

  \<^bold>\<open>The program and its parts.\<close> Two processes share one SQLite file. The web application (\<open>main.py\<close>,
  \<open>routes.py\<close>, \<open>auth.py\<close>, \<open>web_security.py\<close>) serves forms, logs and settings to administrators. The worker
  (\<open>worker.py\<close>, \<open>scheduler.py\<close>) brings the jobs of a scheduler in line with the stored rules every few
  seconds, writes a heartbeat and deletes old logs. Both run a rule through \<open>execution_service.py\<close>, which
  takes the rule's lease (\<open>execution_lock.py\<close>), builds the executor (\<open>executor.py\<close>) on the SQL client and
  the mailer, repeats a failed attempt where that is safe, suppresses alerts already sent and stores the
  outcome.

  \<^bold>\<open>How it is modelled.\<close> A text is the list of its code points, an exception a value of \<open>exn\<close>, a call
  that may raise returns a sum (\<open>'a res\<close>), and one with effects is a function from a state to a result and
  a state (\<open>eff\<close>, with \<open>ereturn\<close>, \<open>eraise\<close>, \<open>ebind\<close>, \<open>ecatch\<close> and \<open>efor\<close>), so every raise, except and finally
  of the code is a branch. Python's integers are \<open>int\<close>, a dictionary that keeps its order is an association list,
  a naive UTC timestamp is an \<open>int\<close> of microseconds with the bounds of year 1 and 9999 where they can be
  passed. The database (\<open>Store\<close>) has a committed content and the content of the open session; \<open>env\<close> gives
  the clock and says which of the calls fail: a theorem that does not restrict it holds for every pattern
  of failures. What is not in the repository is an argument: SQLAlchemy's order of unordered rows, sqlglot,
  the ODBC driver, Jinja, smtplib's server, bcrypt, Fernet, APScheduler, pydantic, time zones and the
  Unicode tables. Where a theorem relies on it, the reliance is a named hypothesis or the assumptions of a
  locale, and the witness of the theorem instantiates it.
\<close>

text \<open>
  \<^bold>\<open>Foundations.\<close>
  \<^item> \<open>Prelude\<close>: texts (\<open>strip\<close>, \<open>split\<close>, \<open>join\<close>, numerals), exceptions, effects, dictionaries, UTF-8,
    timestamps; the locale \<open>state_relation\<close> carries facts of the form this effect keeps that over
    binds, handlers and loops. \<open>Py_Int\<close>: \<open>int(text)\<close> with its white space, signs, underscores, Unicode digits
    and the limit of 4300 digits. \<open>Json\<close>: the values of \<open>json.loads\<close> and the conversions the import applies.
    \<open>Regex\<close>: a backtracking matcher for the patterns of \<open>re\<close> used here, with \<open>search\<close> and \<open>sub\<close>.
  \<^item> \<open>Models\<close>: the enums and tables of \<open>models.py\<close>. \<open>Store\<close>: sessions, commit, rollback, the faults.
    \<open>Transactions\<close>: rules for units of work, from which the lemmas follow that say what a
    request may have committed.

  \<^bold>\<open>Running a rule.\<close>
  \<^item> \<open>Sql_Validator\<close> (\<open>sql_validator.py\<close>), \<open>Sql_Client\<close> (\<open>sql_client.py\<close>), \<open>Mailer\<close> (\<open>mailer.py\<close>),
    \<open>Template_Renderer\<close> (\<open>template_renderer.py\<close>), \<open>Crypto\<close> (\<open>crypto.py\<close>): each operation with its error
    paths. The locales \<open>sql_client\<close> and \<open>compatible_mailer\<close> are the contracts the executor relies on; the
    interpretations prove them for the code's own client and mailer.
  \<^item> \<open>Executor\<close> (\<open>executor.py\<close>): \<open>execute\<close>, from the validation to the status of the result. Shown: nothing
    is sent unless every message was built; the status says exactly how the sending ended; the number of
    rows is bounded (locale \<open>rule_executor\<close>, which extends the two contracts).
  \<^item> \<open>Execution_Lock\<close>: the lease row as upsert and guarded delete, the context manager, and the
    interleaving of any number of processes with crashes as \<open>lease_step\<close>. Shown: mutual exclusion while a
    lease lasts, who is refused exactly.
  \<^item> \<open>Execution_Service\<close>, \<open>Suppression\<close>, \<open>Execution_Theorems\<close> (\<open>execution_service.py\<close>):
    \<open>execute_rule_by_id\<close> with lease, attempts, suppression and persistence. Shown: the log and its mail
    logs are stored together or not at all, exactly once per run; an attempt is repeated only when nothing
    was sent; a run always returns or raises, within the attempts allowed; the suppression filter equals a
    reference definition on the rows.

  \<^bold>\<open>The worker.\<close>
  \<^item> \<open>Scheduler\<close> (\<open>scheduler.py\<close>): the synchronizer over a table of jobs, refined against the wanted schedule
    rule by rule. \<open>Worker_Health\<close> (\<open>worker_health.py\<close>, \<open>health.py\<close>): heartbeat and readiness. \<open>Worker\<close>
    (\<open>worker.py\<close>): the loop survives every failure and one good round repairs the schedule.
  \<^item> \<open>Log_Export\<close>, \<open>Log_Service\<close>, \<open>Log_Links\<close> (\<open>log_service.py\<close> and the log routes): keyset batches under
    concurrent changes, CSV cells, filters, pages, the links between pages, the retention loop.

  \<^bold>\<open>The web application.\<close>
  \<^item> \<open>Rate_Limiter\<close>, \<open>Rate_Limiter_Steps\<close>, \<open>Rate_Limiter_Bounds\<close> (\<open>LoginRateLimiter\<close>): its critical sections
    on a heap of attempt states, the interleaving of threads (\<open>limiter_step\<close>, with the contract of a
    critical section as the locale \<open>limiter_section\<close>, interpreted for each), and the bound on guesses.
    \<open>Web_Security\<close>: headers, CSRF, client identifier. \<open>Auth\<close> (\<open>auth.py\<close>, \<open>security.py\<close>): sessions, login.
  \<^item> \<open>Rule_Forms\<close>, \<open>Rule_Routes\<close>, \<open>Rule_Store\<close>: forms, validation, the rule routes; \<open>Rule_Exchange\<close>,
    \<open>Rule_Roundtrip\<close>: export and import; \<open>Settings_Routes\<close>, \<open>Settings_Store\<close>, \<open>Password_Change\<close>: data
    sources, mail servers, the password and \<open>admin_cli.py\<close>.
  \<^item> \<open>Configuration\<close>, \<open>Configuration_Steps\<close>, \<open>Configuration_Theorems\<close>: the requests as one step relation
    (\<open>config_step\<close>); every request refines an abstract transition of the tables or changes nothing, and
    the invariant \<open>config_ok\<close> holds in every reachable configuration.
  \<^item> \<open>Dashboard\<close> (\<open>dashboard.py\<close>), \<open>Settings\<close> (\<open>settings.py\<close>), \<open>Application\<close> (\<open>main.py\<close>): the figures of the
    day, the validated settings, content negotiation and the way of every response through the middlewares.
  \<^item> \<open>Redaction\<close> (\<open>error_reporting.py\<close>): the patterns, the scanners of structured values and the loop that
    hides them; a value that ends never influences the text logged.
  \<^item> \<open>Db_Migration\<close>, \<open>Db_Migration_Theorems\<close> (\<open>db.py\<close>): tables as columns and rows; the statements of
    \<open>init_db\<close> refine one function of the tables and establish the schema and its unique indexes; the
    creation of missing tables is the locale \<open>metadata\<close>, interpreted by the tables of \<open>models.py\<close>.

  \<^bold>\<open>Across the parts.\<close> \<open>Rules_Scheduled\<close>: what the forms and the import accept is what the worker's scheduler
  runs, and nothing else. \<open>Configuration_Theorems\<close>: every stored rule finds its clients.
  \<open>Password_Change\<close>: a changed password ends the other sessions.
\<close>

text \<open>
  \<^bold>\<open>Bounds and fuel.\<close> Only loops the code does not bound itself have fuel. The export (\<open>log_batches_from\<close>)
  takes a number of batches; more than the rows of the first snapshot are enough, because every batch
  moves the cursor past a row that the greatest identifier admits (\<open>log_export_complete\<close>). The clean-up
  (\<open>cleanup_loop\<close>) needs more batches than there are execution logs, because each but the last deletes one
  (\<open>cleanup_expired_logs_exact\<close>). The endless loop of the worker is
  run for any number of rounds, after which the interrupt comes. The matcher repeats a group at most as often
  as there are characters, which is exact since a round has to move on. Everything else is structural
  recursion, or recursion with a measure: rows left, characters left, attempts left. Assumptions of size:
  window hours in a form below \<open>10^30\<close> and page numbers in a link likewise, both far inside the limit of
  \<open>int(text)\<close>; the number of pages is computed exactly, where the code divides doubles (equal below \<open>2^53\<close>
  rows); the duration of a run is exact where the code computes in doubles.

  \<^bold>\<open>What the theorems do not say.\<close> Requests of the configuration run one after the other: the unique indexes
  that only two requests at the same moment could hit, and SQLite's locking, are not modelled; of executions,
  logins and exports the interleaving is. The lazy reload of ORM attributes after a commit is no call of its
  own. Bodies of log messages are modelled only as far as \<open>Redaction\<close> builds them; that they are logged is
  not. A page is its template, its status and what the route puts into it: the HTML of the Jinja files is not
  modelled, except for the table of the mails.

  \<^bold>\<open>Not modelled.\<close> The front end (\<open>static\<close>, \<open>templates\<close>), which runs in the browser or in Jinja; the routing,
  form parsing and cookie signing of the framework; the command line of \<open>admin_cli.py\<close> around
  \<open>upsert_admin_user\<close>; the two paths of \<open>paths.py\<close>; the delivery of log records; process start and signals.
  What is left of the files of \<open>src/app\<close> beside the lines modelled is imports, loggers, decorators and
  declarations without behaviour.
\<close>

end
